(* ===== verification/Prelude.thy ===== *)
theory Prelude
  imports Main "HOL-Library.Word"
begin

unbundle bit_operations_syntax

text \<open>
  Shared vocabulary of the development: the C integer types, error numbers, the traversal
  macros of the intrusive lists, and the generic lemmas the components use.

  C functions that return \<open>0\<close> or a negative error number are modelled by functions into
  \<open>int\<close>; the error numbers below are those of the C library's \<^verbatim>\<open>errno.h\<close>. A function that
  changes state returns the new state next to its C result. \<open>err_then\<close> is the C idiom
  \<^verbatim>\<open>if (err) goto out\<close> between two such steps.
\<close>

section \<open>Types\<close>

type_synonym u8 = "8 word"
type_synonym u16 = "16 word"
type_synonym u32 = "32 word"
type_synonym ptr = nat

abbreviation (input) ENOENT :: int where "ENOENT \<equiv> 2"
abbreviation (input) EIO :: int where "EIO \<equiv> 5"
abbreviation (input) E2BIG :: int where "E2BIG \<equiv> 7"
abbreviation (input) ENOEXEC :: int where "ENOEXEC \<equiv> 8"
abbreviation (input) EAGAIN :: int where "EAGAIN \<equiv> 11"
abbreviation (input) EWOULDBLOCK :: int where "EWOULDBLOCK \<equiv> 11"
abbreviation (input) ENOMEM :: int where "ENOMEM \<equiv> 12"
abbreviation (input) EACCES :: int where "EACCES \<equiv> 13"
abbreviation (input) EFAULT :: int where "EFAULT \<equiv> 14"
abbreviation (input) EBUSY :: int where "EBUSY \<equiv> 16"
abbreviation (input) EISDIR :: int where "EISDIR \<equiv> 21"
abbreviation (input) EINVAL :: int where "EINVAL \<equiv> 22"
abbreviation (input) EFBIG :: int where "EFBIG \<equiv> 27"
abbreviation (input) ENOSPC :: int where "ENOSPC \<equiv> 28"
abbreviation (input) ENOMSG :: int where "ENOMSG \<equiv> 35"
abbreviation (input) EBADMSG :: int where "EBADMSG \<equiv> 77"
abbreviation (input) ENOBUFS :: int where "ENOBUFS \<equiv> 105"
abbreviation (input) EAFNOSUPPORT :: int where "EAFNOSUPPORT \<equiv> 106"
abbreviation (input) ESHUTDOWN :: int where "ESHUTDOWN \<equiv> 110"
abbreviation (input) ENETDOWN :: int where "ENETDOWN \<equiv> 115"
abbreviation (input) ETIMEDOUT :: int where "ETIMEDOUT \<equiv> 116"
abbreviation (input) EALREADY :: int where "EALREADY \<equiv> 120"
abbreviation (input) EMSGSIZE :: int where "EMSGSIZE \<equiv> 122"
abbreviation (input) ENOTCONN :: int where "ENOTCONN \<equiv> 128"
abbreviation (input) ENOTSUP :: int where "ENOTSUP \<equiv> 134"

abbreviation (input) INT64_MAX :: int where "INT64_MAX \<equiv> 9223372036854775807"
abbreviation (input) SIZE_MAX :: nat where "SIZE_MAX \<equiv> 4294967295"
abbreviation (input) UINTPTR_MAX :: nat where "UINTPTR_MAX \<equiv> 4294967295"

text \<open>
  The targets are 32-bit: \<^verbatim>\<open>size_t\<close> has 32 bits. \<open>size_of_int\<close> is the conversion of an
  \<^verbatim>\<open>int\<close> to \<^verbatim>\<open>size_t\<close>, \<open>s32_sub\<close> the 32-bit subtraction of two \<^verbatim>\<open>int32_t\<close> casts with the
  two's complement result, and \<open>s32_sub_overflows\<close> says when ISO C leaves it undefined.
\<close>

definition size_of_int :: "int \<Rightarrow> nat" where
  "size_of_int i = nat (i mod 2 ^ 32)"

definition s32_sub :: "u32 \<Rightarrow> u32 \<Rightarrow> int" where
  "s32_sub a b = sint (a - b)"

definition s32_sub_overflows :: "u32 \<Rightarrow> u32 \<Rightarrow> bool" where
  "s32_sub_overflows a b \<longleftrightarrow> \<not> (- (2 ^ 31) \<le> sint a - sint b \<and> sint a - sint b < 2 ^ 31)"

definition ascii :: "string \<Rightarrow> u8 list" where
  "ascii s = map of_char s"

lemma ascii_simps [simp]: "ascii [] = []" "ascii (c # s) = of_char c # ascii s"
  by (simp_all add: ascii_def)

lemma size_of_int_nonneg: "0 \<le> i \<Longrightarrow> i < 2 ^ 32 \<Longrightarrow> size_of_int i = nat i"
  by (simp add: size_of_int_def)

lemma size_of_int_neg: "- (2 ^ 31) \<le> i \<Longrightarrow> i < 0 \<Longrightarrow> size_of_int i = nat (2 ^ 32 + i)"
proof -
  assume "- (2 ^ 31) \<le> i" and "i < 0"
  then have "(i + 2 ^ 32) mod 2 ^ 32 = i + 2 ^ 32"
    by (intro mod_pos_pos_trivial) simp_all
  moreover have "(i + 2 ^ 32) mod 2 ^ 32 = i mod 2 ^ 32"
    by (rule mod_add_self2)
  ultimately show ?thesis
    by (simp add: size_of_int_def add.commute)
qed

lemma of_nat_u32_neq_0:
  assumes "0 < m" and "m < 2 ^ 32"
  shows "(of_nat m :: u32) \<noteq> 0"
  using assms by (simp add: word_of_nat_eq_0_iff nat_dvd_not_less del: of_nat_numeral)

section \<open>Error sequencing\<close>

definition err_then :: "int \<times> 'w \<Rightarrow> ('w \<Rightarrow> int \<times> 'w) \<Rightarrow> int \<times> 'w" where
  "err_then x k = (case x of (err, w) \<Rightarrow> if err \<noteq> 0 then (err, w) else k w)"

lemma err_then_simps [simp]:
  "err \<noteq> 0 \<Longrightarrow> err_then (err, w) k = (err, w)"
  "err_then (0, w) k = k w"
  by (simp_all add: err_then_def)

lemma err_then_cases:
  assumes "err_then x k = (e, w')"
  obtains (stop) "e \<noteq> 0" "x = (e, w')" | (go) w1 where "x = (0, w1)" "k w1 = (e, w')"
  using assms by (cases x) (auto simp: err_then_def split: if_splits)

text \<open>An invariant that holds after the first step and is kept by the second holds after both.\<close>

lemma err_then_inv:
  assumes "P (snd x)" and "\<And>w. P w \<Longrightarrow> P (snd (k w))"
  shows "P (snd (err_then x k))"
  using assms by (cases x) (simp add: err_then_def)

section \<open>Lists\<close>

lemma remove1_middle: "distinct (xs @ a # ys) \<Longrightarrow> remove1 a (xs @ a # ys) = xs @ ys"
  by (simp add: remove1_append)

lemma filter_neq_remove1: "distinct xs \<Longrightarrow> filter (\<lambda>x. x \<noteq> a) xs = remove1 a xs"
  by (simp add: distinct_remove1_removeAll removeAll_filter_not_eq eq_commute)

text \<open>
  \<^verbatim>\<open>SYS_DLIST_PEEK_NEXT\<close>: the element after \<open>r\<close> in a list of distinct nodes.
\<close>

fun dlist_peek_next :: "ptr list \<Rightarrow> ptr \<Rightarrow> ptr option" where
  "dlist_peek_next [] r = None"
| "dlist_peek_next (x # xs) r =
     (if x = r then (case xs of [] \<Rightarrow> None | y # _ \<Rightarrow> Some y) else dlist_peek_next xs r)"

definition dlist_peek_head :: "ptr list \<Rightarrow> ptr option" where
  "dlist_peek_head xs = (case xs of [] \<Rightarrow> None | x # _ \<Rightarrow> Some x)"

lemma dlist_peek_head_simps [simp]:
  "dlist_peek_head [] = None" "dlist_peek_head (x # xs) = Some x"
  by (simp_all add: dlist_peek_head_def)

lemma dlist_peek_next_middle:
  "r \<notin> set pre \<Longrightarrow> dlist_peek_next (pre @ r # suf) r = dlist_peek_head suf"
  by (induction pre) (auto simp: dlist_peek_head_def split: list.splits)

text \<open>
  \<^verbatim>\<open>SYS_DLIST_FOR_EACH_CONTAINER_SAFE\<close>: the successor is read before the body runs, the
  body may change the list, and the walk goes on from the successor it read. \<open>None\<close> is a walk
  that does not end.
\<close>

partial_function (option) dlist_foreach_safe ::
  "('w \<Rightarrow> ptr list) \<Rightarrow> (ptr \<Rightarrow> 'w \<Rightarrow> 'w option) \<Rightarrow> ptr option \<Rightarrow> 'w \<Rightarrow> 'w option" where
  "dlist_foreach_safe lst body cur w =
     (case cur of
        None \<Rightarrow> Some w
      | Some r \<Rightarrow>
          Option.bind (body r w)
            (\<lambda>w'. dlist_foreach_safe lst body (dlist_peek_next (lst w) r) w'))"

declare dlist_foreach_safe.simps [code]

text \<open>The reference walk: the body on every element of a fixed list, in order.\<close>

fun walk :: "(ptr \<Rightarrow> 'w \<Rightarrow> 'w option) \<Rightarrow> ptr list \<Rightarrow> 'w \<Rightarrow> 'w option" where
  "walk body [] w = Some w"
| "walk body (r # rs) w = Option.bind (body r w) (walk body rs)"

text \<open>
  Where the body, run on an element of the list, leaves the list alone but for removing that
  element, the safe traversal is the reference walk and it ends.
\<close>

lemma foreach_safe_walk_aux:
  assumes body: "\<And>r w. I w \<Longrightarrow> r \<in> set (lst w) \<Longrightarrow>
      \<exists>w'. body r w = Some w' \<and> I w' \<and> (lst w' = lst w \<or> lst w' = remove1 r (lst w))"
    and "I w" and "lst w = pre @ suf" and "distinct (pre @ suf)"
  shows "\<exists>w'. dlist_foreach_safe lst body (dlist_peek_head suf) w = Some w' \<and>
     walk body suf w = Some w' \<and> I w'"
  using assms(2-)
proof (induction suf arbitrary: pre w)
  case Nil
  then show ?case by (simp add: dlist_foreach_safe.simps)
next
  case (Cons r suf)
  from Cons.prems have "r \<in> set (lst w)" by simp
  with body Cons.prems(1) obtain w1 where w1: "body r w = Some w1" "I w1"
    and l: "lst w1 = lst w \<or> lst w1 = remove1 r (lst w)" by blast
  from l Cons.prems(2,3) have "lst w1 = (pre @ [r]) @ suf \<or> lst w1 = pre @ suf"
    by (auto simp: remove1_append)
  moreover have "distinct ((pre @ [r]) @ suf)" "distinct (pre @ suf)"
    using Cons.prems(3) by auto
  ultimately obtain w2 where w2: "dlist_foreach_safe lst body (dlist_peek_head suf) w1 = Some w2"
      "walk body suf w1 = Some w2" "I w2"
    using Cons.IH[OF w1(2), of "pre @ [r]"] Cons.IH[OF w1(2), of pre] by blast
  have "dlist_peek_next (lst w) r = dlist_peek_head suf"
    using Cons.prems(2,3) by (simp add: dlist_peek_next_middle)
  then show ?case
    using w1(1) w2 by (simp add: dlist_foreach_safe.simps[of lst body "Some r"])
qed

lemma foreach_safe_walk:
  assumes "\<And>r w. I w \<Longrightarrow> r \<in> set (lst w) \<Longrightarrow>
      \<exists>w'. body r w = Some w' \<and> I w' \<and> (lst w' = lst w \<or> lst w' = remove1 r (lst w))"
    and "I w" and "distinct (lst w)"
  obtains w' where "dlist_foreach_safe lst body (dlist_peek_head (lst w)) w = Some w'"
    and "walk body (lst w) w = Some w'" and "I w'"
  using foreach_safe_walk_aux[of I lst body w "[]" "lst w"] assms by auto

section \<open>Numbers as text\<close>

text \<open>\<^verbatim>\<open>%u\<close>, \<^verbatim>\<open>%d\<close>, and \<^verbatim>\<open>%06d\<close> of a number that is not negative.\<close>

fun print_u :: "nat \<Rightarrow> u8 list" where
  "print_u n = (if n < 10 then [0x30 + of_nat n] else print_u (n div 10) @ [0x30 + of_nat (n mod 10)])"

declare print_u.simps [simp del]

definition print_d :: "int \<Rightarrow> u8 list" where
  "print_d i = (if i < 0 then 0x2D # print_u (nat (- i)) else print_u (nat i))"

definition print_06u :: "nat \<Rightarrow> u8 list" where
  "print_06u n = replicate (6 - length (print_u n)) 0x30 @ print_u n"

text \<open>\<^verbatim>\<open>snprintk(buf, n, ...)\<close>: the string in the buffer.\<close>

definition snprintk :: "nat \<Rightarrow> u8 list \<Rightarrow> u8 list" where
  "snprintk n txt = take (n - 1) txt"

text \<open>The number that digits stand for.\<close>

definition digits_value :: "u8 list \<Rightarrow> nat" where
  "digits_value ds = foldl (\<lambda>a c. 10 * a + (unat c - 0x30)) 0 ds"

lemma print_u_length: "n < 10 ^ Suc k \<Longrightarrow> length (print_u n) \<le> Suc k"
proof (induction k arbitrary: n)
  case 0
  then show ?case by (subst print_u.simps) simp
next
  case (Suc k)
  show ?case
  proof (cases "n < 10")
    case False
    have "n div 10 < 10 ^ Suc k" using Suc.prems by (simp add: less_mult_imp_div_less)
    with Suc.IH[of "n div 10"] False show ?thesis by (subst print_u.simps) simp
  qed (subst print_u.simps, simp)
qed

lemma digit_unat: "n < 10 \<Longrightarrow> unat (0x30 + of_nat n :: u8) = 48 + n"
  by (simp add: unat_word_ariths unat_of_nat)

lemma digits_value_print_u [simp]: "digits_value (print_u n) = n"
proof (induction n rule: print_u.induct)
  case (1 n)
  show ?case
  proof (cases "n < 10")
    case True
    then show ?thesis by (subst print_u.simps) (simp add: digits_value_def digit_unat)
  next
    case False
    with 1 show ?thesis by (subst print_u.simps) (simp add: digits_value_def digit_unat)
  qed
qed

lemma foldl_zeros: "foldl (\<lambda>a c. 10 * a + (unat (c :: u8) - 0x30)) 0 (replicate k 0x30) = (0 :: nat)"
  by (induction k) simp_all

lemma digits_value_print_06u [simp]: "digits_value (print_06u n) = n"
  using digits_value_print_u[of n] by (simp add: digits_value_def print_06u_def foldl_zeros)

lemma print_u_nonempty [simp]: "print_u n \<noteq> []"
  by (subst print_u.simps) simp

lemma print_06u_length: "n < 10 ^ 6 \<Longrightarrow> length (print_06u n) = 6"
  using print_u_length[of n 5] by (simp add: print_06u_def)

lemma print_u_digits: "c \<in> set (print_u n) \<Longrightarrow> 0x30 \<le> c \<and> c \<le> 0x39"
proof (induction n rule: print_u.induct)
  case (1 n)
  have d: "0x30 \<le> (0x30 + of_nat m :: u8) \<and> (0x30 + of_nat m :: u8) \<le> 0x39" if "m < 10" for m
    using that by (simp add: word_le_nat_alt digit_unat)
  show ?case
  proof (cases "n < 10")
    case True
    with 1(2) d show ?thesis by (subst (asm) print_u.simps) simp
  next
    case False
    with 1(2) have "c \<in> set (print_u (n div 10)) \<or> c = 0x30 + of_nat (n mod 10)"
      by (subst (asm) print_u.simps) auto
    with 1(1)[OF False] d[of "n mod 10"] show ?thesis by auto
  qed
qed

section \<open>Refinement\<close>

text \<open>
  The runs of a labelled transition system, and forward simulation: when the steps of a detailed
  system are steps of an abstract one, with the same labels, so are its runs.
\<close>

inductive runs :: "('s \<Rightarrow> 'l \<Rightarrow> 's \<Rightarrow> bool) \<Rightarrow> 's \<Rightarrow> 'l list \<Rightarrow> 's \<Rightarrow> bool" for step where
  runs_Nil: "runs step s [] s"
| runs_Cons: "step s l s1 \<Longrightarrow> runs step s1 ls s' \<Longrightarrow> runs step s (l # ls) s'"

inductive_simps runs_Nil_iff [simp]: "runs step s [] s'"
inductive_simps runs_Cons_iff: "runs step s (l # ls) s'"

lemma runs_single: "step s l s' \<Longrightarrow> runs step s [l] s'"
  by (rule runs_Cons[OF _ runs_Nil])

lemma runs_append:
  "runs step s (ls @ ls') s' \<longleftrightarrow> (\<exists>t. runs step s ls t \<and> runs step t ls' s')"
  by (induction ls arbitrary: s) (auto simp: runs_Cons_iff)

locale simulation =
  fixes step :: "'s \<Rightarrow> 'l \<Rightarrow> 's \<Rightarrow> bool" and inv :: "'s \<Rightarrow> bool"
    and astep :: "'a \<Rightarrow> 'l \<Rightarrow> 'a \<Rightarrow> bool" and abs :: "'s \<Rightarrow> 'a"
  assumes inv_step: "step s l s' \<Longrightarrow> inv s \<Longrightarrow> inv s'"
    and sim_step: "step s l s' \<Longrightarrow> inv s \<Longrightarrow> astep (abs s) l (abs s')"
begin

lemma inv_runs: "runs step s ls s' \<Longrightarrow> inv s \<Longrightarrow> inv s'"
  by (induction rule: runs.induct) (auto dest: inv_step)

lemma sim_runs: "runs step s ls s' \<Longrightarrow> inv s \<Longrightarrow> runs astep (abs s) ls (abs s')"
  by (induction rule: runs.induct) (auto intro: runs_Nil runs_Cons dest: inv_step sim_step)

end

end
