(* ===== verification/CoapLib.thy ===== *)
theory CoapLib
  imports Prelude
begin

text \<open>
  The code outside the repository: Zephyr's CoAP library, the kernel services and the sockets.
  Each function the code calls is a field of a record that every definition using it takes as an
  argument; nothing is assumed of it here.

  A \<^verbatim>\<open>struct coap_packet\<close> is its \<open>offset\<close> and the library's private fields (\<open>pkt_lib\<close>, which
  the code only copies); its bytes are kept where its \<^verbatim>\<open>data\<close> pointer points to and are passed
  beside it. Functions on the environment take and return it (\<open>'e\<close>): clock, random numbers,
  identifiers, allocator, network. A call that fails returns a negative number and leaves the
  reason in \<open>errno\<close>.
\<close>

section \<open>Packets\<close>

record coap_packet =
  pkt_offset :: nat
  pkt_lib :: "int list"

record coap_block_context =
  blk_total_size :: nat
  blk_current :: nat
  blk_size :: nat

abbreviation (input) COAP_TYPE_CON :: nat where "COAP_TYPE_CON \<equiv> 0"
abbreviation (input) COAP_TYPE_NON_CON :: nat where "COAP_TYPE_NON_CON \<equiv> 1"
abbreviation (input) COAP_CODE_EMPTY :: u8 where "COAP_CODE_EMPTY \<equiv> 0"
abbreviation (input) COAP_TOKEN_MAX_LEN :: nat where "COAP_TOKEN_MAX_LEN \<equiv> 8"

text \<open>Request methods and option numbers of RFC 7252, 7641 and 7959.\<close>

abbreviation (input) COAP_METHOD_GET :: u8 where "COAP_METHOD_GET \<equiv> 1"
abbreviation (input) COAP_METHOD_POST :: u8 where "COAP_METHOD_POST \<equiv> 2"
abbreviation (input) COAP_METHOD_DELETE :: u8 where "COAP_METHOD_DELETE \<equiv> 4"
abbreviation (input) COAP_OPTION_OBSERVE :: nat where "COAP_OPTION_OBSERVE \<equiv> 6"
abbreviation (input) COAP_OPTION_URI_PATH :: nat where "COAP_OPTION_URI_PATH \<equiv> 11"
abbreviation (input) COAP_OPTION_CONTENT_FORMAT :: nat where "COAP_OPTION_CONTENT_FORMAT \<equiv> 12"
abbreviation (input) COAP_OPTION_ACCEPT :: nat where "COAP_OPTION_ACCEPT \<equiv> 17"
abbreviation (input) COAP_OPTION_BLOCK2 :: nat where "COAP_OPTION_BLOCK2 \<equiv> 23"

text \<open>Response codes, class in the upper three bits and detail in the lower five.\<close>

abbreviation (input) COAP_RESPONSE_CODE_BAD_REQUEST :: u8 where "COAP_RESPONSE_CODE_BAD_REQUEST \<equiv> 128"
abbreviation (input) COAP_RESPONSE_CODE_UNAUTHORIZED :: u8 where "COAP_RESPONSE_CODE_UNAUTHORIZED \<equiv> 129"
abbreviation (input) COAP_RESPONSE_CODE_BAD_OPTION :: u8 where "COAP_RESPONSE_CODE_BAD_OPTION \<equiv> 130"
abbreviation (input) COAP_RESPONSE_CODE_FORBIDDEN :: u8 where "COAP_RESPONSE_CODE_FORBIDDEN \<equiv> 131"
abbreviation (input) COAP_RESPONSE_CODE_NOT_FOUND :: u8 where "COAP_RESPONSE_CODE_NOT_FOUND \<equiv> 132"
abbreviation (input) COAP_RESPONSE_CODE_NOT_ALLOWED :: u8 where "COAP_RESPONSE_CODE_NOT_ALLOWED \<equiv> 133"
abbreviation (input) COAP_RESPONSE_CODE_NOT_ACCEPTABLE :: u8
  where "COAP_RESPONSE_CODE_NOT_ACCEPTABLE \<equiv> 134"
abbreviation (input) COAP_RESPONSE_CODE_INCOMPLETE :: u8 where "COAP_RESPONSE_CODE_INCOMPLETE \<equiv> 136"
abbreviation (input) COAP_RESPONSE_CODE_CONFLICT :: u8 where "COAP_RESPONSE_CODE_CONFLICT \<equiv> 137"
abbreviation (input) COAP_RESPONSE_CODE_PRECONDITION_FAILED :: u8
  where "COAP_RESPONSE_CODE_PRECONDITION_FAILED \<equiv> 140"
abbreviation (input) COAP_RESPONSE_CODE_REQUEST_TOO_LARGE :: u8
  where "COAP_RESPONSE_CODE_REQUEST_TOO_LARGE \<equiv> 141"
abbreviation (input) COAP_RESPONSE_CODE_UNSUPPORTED_CONTENT_FORMAT :: u8
  where "COAP_RESPONSE_CODE_UNSUPPORTED_CONTENT_FORMAT \<equiv> 143"
abbreviation (input) COAP_RESPONSE_CODE_UNPROCESSABLE_ENTITY :: u8
  where "COAP_RESPONSE_CODE_UNPROCESSABLE_ENTITY \<equiv> 150"
abbreviation (input) COAP_RESPONSE_CODE_TOO_MANY_REQUESTS :: u8
  where "COAP_RESPONSE_CODE_TOO_MANY_REQUESTS \<equiv> 157"

section \<open>The CoAP library\<close>

type_synonym pkt_op = "coap_packet \<Rightarrow> u8 list \<Rightarrow> int \<times> coap_packet \<times> u8 list"

record coap_lib =
  coap_packet_init ::
    "u8 list \<Rightarrow> nat \<Rightarrow> nat \<Rightarrow> u8 list \<Rightarrow> u8 \<Rightarrow> u16 \<Rightarrow> int \<times> coap_packet \<times> u8 list"
    \<comment> \<open>buffer, its length, message type, token, code, message id\<close>
  coap_packet_parse :: "u8 list \<Rightarrow> int \<times> coap_packet"
  coap_ack_init :: "coap_packet \<Rightarrow> u8 list \<Rightarrow> u8 list \<Rightarrow> u8 \<Rightarrow> int \<times> coap_packet \<times> u8 list"
    \<comment> \<open>received packet and its bytes, buffer, code\<close>
  coap_packet_append_option :: "nat \<Rightarrow> u8 list \<Rightarrow> pkt_op"
  coap_append_option_int :: "nat \<Rightarrow> nat \<Rightarrow> pkt_op"
  coap_append_block2_option :: "coap_block_context \<Rightarrow> pkt_op"
  coap_packet_append_payload_marker :: pkt_op
  coap_packet_append_payload :: "u8 list \<Rightarrow> pkt_op"
  coap_header_get_type :: "coap_packet \<Rightarrow> u8 list \<Rightarrow> nat"
  coap_header_get_code :: "coap_packet \<Rightarrow> u8 list \<Rightarrow> u8"
  coap_header_get_id :: "coap_packet \<Rightarrow> u8 list \<Rightarrow> u16"
  coap_header_get_token :: "coap_packet \<Rightarrow> u8 list \<Rightarrow> u8 list"
  coap_packet_get_payload :: "coap_packet \<Rightarrow> u8 list \<Rightarrow> u8 list"
  coap_get_option_int :: "coap_packet \<Rightarrow> u8 list \<Rightarrow> nat \<Rightarrow> int"
  coap_update_from_block ::
    "coap_packet \<Rightarrow> u8 list \<Rightarrow> coap_block_context \<Rightarrow> int \<times> coap_block_context"
  coap_next_block_for_option ::
    "coap_packet \<Rightarrow> u8 list \<Rightarrow> nat \<Rightarrow> coap_block_context \<Rightarrow> int \<times> coap_block_context"

section \<open>The kernel and the sockets\<close>

datatype wakeup_fn = Golioth_system_client_wakeup | App_wakeup nat

record 'e sys = coap_lib +
  k_uptime_get :: "'e \<Rightarrow> int \<times> 'e"
  k_uptime_get_32 :: "'e \<Rightarrow> u32 \<times> 'e"
  sys_rand32_get :: "'e \<Rightarrow> u32 \<times> 'e"
  coap_next_id :: "'e \<Rightarrow> u16 \<times> 'e"
  coap_next_token :: "'e \<Rightarrow> u8 list \<times> 'e"
  sys_malloc :: "nat \<Rightarrow> 'e \<Rightarrow> bool \<times> 'e"
    \<comment> \<open>whether an allocation of this many bytes succeeds\<close>
  sys_errno :: "'e \<Rightarrow> int"
  zsock_send :: "int \<Rightarrow> u8 list \<Rightarrow> int \<Rightarrow> 'e \<Rightarrow> int \<times> 'e"
  zsock_recv :: "int \<Rightarrow> nat \<Rightarrow> int \<Rightarrow> 'e \<Rightarrow> int \<times> u8 list \<times> 'e"
  zsock_socket :: "int \<Rightarrow> int \<Rightarrow> 'e \<Rightarrow> int \<times> 'e"
  zsock_setsockopt :: "int \<Rightarrow> nat \<Rightarrow> u8 list \<Rightarrow> 'e \<Rightarrow> int \<times> 'e"
  zsock_connect :: "int \<Rightarrow> u8 list \<Rightarrow> 'e \<Rightarrow> int \<times> 'e"
  zsock_close :: "int \<Rightarrow> 'e \<Rightarrow> int \<times> 'e"
  zsock_getaddrinfo :: "u8 list \<Rightarrow> u16 \<Rightarrow> 'e \<Rightarrow> int \<times> (int \<times> u8 list) list \<times> 'e"
  call_wakeup :: "wakeup_fn \<Rightarrow> 'e \<Rightarrow> 'e"
  conf_ack_timeout_ms :: nat
  conf_ack_random_percent :: nat
  conf_randomize_ack :: bool

text \<open>
  What the memory arguments below use of the library: the functions that write a packet write
  inside the buffer they are given, so its length does not change.
\<close>

definition pkt_op_keeps_length :: "pkt_op \<Rightarrow> bool" where
  "pkt_op_keeps_length f \<longleftrightarrow> (\<forall>p b. length (snd (snd (f p b))) = length b)"

definition coap_lib_ok :: "('e, 'x) sys_scheme \<Rightarrow> bool" where
  "coap_lib_ok sys \<longleftrightarrow>
     (\<forall>b n t tok c i. length (snd (snd (coap_packet_init sys b n t tok c i))) = length b) \<and>
     (\<forall>n v. pkt_op_keeps_length (coap_packet_append_option sys n v)) \<and>
     (\<forall>n v. pkt_op_keeps_length (coap_append_option_int sys n v)) \<and>
     (\<forall>c. pkt_op_keeps_length (coap_append_block2_option sys c)) \<and>
     pkt_op_keeps_length (coap_packet_append_payload_marker sys) \<and>
     (\<forall>d. pkt_op_keeps_length (coap_packet_append_payload sys d))"

lemma pkt_op_keeps_lengthD: "pkt_op_keeps_length f \<Longrightarrow> f p b = (e, p', b') \<Longrightarrow> length b' = length b"
  by (metis pkt_op_keeps_length_def snd_conv)

lemma coap_lib_okD:
  assumes "coap_lib_ok sys"
  shows "length (snd (snd (coap_packet_init sys b n t tok c i))) = length b"
    and "pkt_op_keeps_length (coap_packet_append_option sys n v)"
    and "pkt_op_keeps_length (coap_append_option_int sys n m)"
    and "pkt_op_keeps_length (coap_append_block2_option sys ctx)"
    and "pkt_op_keeps_length (coap_packet_append_payload_marker sys)"
    and "pkt_op_keeps_length (coap_packet_append_payload sys d)"
  using assms unfolding coap_lib_ok_def by blast+

end
