(* ===== verification/World.thy ===== *)
theory World
  imports CoapLib
begin

text \<open>
  The data of the SDK: responses and callbacks (\<^verbatim>\<open>include/net/golioth/req.h\<close>), pending requests
  (\<^verbatim>\<open>net/golioth/coap_req.h\<close>), the client (\<^verbatim>\<open>include/net/golioth.h\<close>) and the memory they live in.

  Function pointers are the names of the functions they can hold (the SDK's own callbacks, or an
  application's, numbered). \<^verbatim>\<open>golioth_req_sync_cb\<close> is static in \<^verbatim>\<open>coap_req.c\<close> and is only ever the
  callback of a request, never the callback it forwards to. \<^verbatim>\<open>void *user_data\<close> is what the code lets it point to. Requests and
  their packet buffers are allocated by the code: they are entries of two stores, \<open>w_reqs\<close> and
  \<open>w_bufs\<close>, and an access through a dangling pointer or a second \<^verbatim>\<open>free\<close> sets \<open>w_fault\<close>.
  Allocation takes a fresh address each time (\<open>w_next\<close>), so a dangling pointer is never made
  valid again by reuse. The intrusive list \<^verbatim>\<open>client->coap_reqs\<close> is the list of its nodes.

  The mutexes are not modelled: a section the code runs under a lock is one step here.
\<close>

section \<open>Responses and callbacks\<close>

datatype golioth_user_cb =
    Golioth_req_rsp_default_handler
  | Golioth_lightdb_get_prealloc_cb
  | On_setting
  | On_rpc
  | App_cb nat

datatype golioth_req_cb = Golioth_req_sync_cb | User_cb golioth_user_cb

datatype user_data =
    UD_null
  | UD_client
  | UD_string "u8 list"
  | UD_sync ptr
  | UD_prealloc ptr
  | UD_app nat

datatype get_next_fn = Golioth_coap_req_next_block

text \<open>\<^verbatim>\<open>len\<close> is the length of \<open>rsp_data\<close>.\<close>

record golioth_req_rsp =
  rsp_data :: "u8 list"
  rsp_off :: nat
  rsp_total :: nat
  rsp_get_next :: "get_next_fn option"
  rsp_get_next_data :: "ptr option"
  rsp_user_data :: user_data
  rsp_err :: int

text \<open>The designated initialiser \<^verbatim>\<open>{ .user_data = ud, .err = e }\<close>.\<close>

definition error_rsp :: "user_data \<Rightarrow> int \<Rightarrow> golioth_req_rsp" where
  "error_rsp ud e = \<lparr>rsp_data = [], rsp_off = 0, rsp_total = 0, rsp_get_next = None,
     rsp_get_next_data = None, rsp_user_data = ud, rsp_err = e\<rparr>"

lemma error_rsp_simps [simp]:
  "rsp_data (error_rsp ud e) = []"
  "rsp_get_next (error_rsp ud e) = None"
  "rsp_get_next_data (error_rsp ud e) = None"
  "rsp_user_data (error_rsp ud e) = ud"
  "rsp_err (error_rsp ud e) = e"
  by (simp_all add: error_rsp_def)

section \<open>Requests\<close>

record golioth_coap_pending =
  pend_t0 :: u32
  pend_timeout :: u32
  pend_retries :: u8

record golioth_coap_reply =
  reply_seq :: int
  reply_ts :: int

text \<open>
  \<open>req_data\<close> is the \<^verbatim>\<open>data\<close> pointer of \<^verbatim>\<open>request\<close>; \<^verbatim>\<open>request_wo_block2\<close> is only ever a copy of
  \<^verbatim>\<open>request\<close>, so it shares that buffer.
\<close>

record golioth_coap_req =
  req_request :: coap_packet
  req_request_wo_block2 :: coap_packet
  req_data :: ptr
  req_block_ctx :: coap_block_context
  req_reply :: golioth_coap_reply
  req_pending :: golioth_coap_pending
  req_is_observe :: bool
  req_is_pending :: bool
  req_cb :: golioth_req_cb
  req_user_data :: user_data

text \<open>What \<^verbatim>\<open>calloc\<close> gives.\<close>

definition zero_req :: golioth_coap_req where
  "zero_req = \<lparr>req_request = \<lparr>pkt_offset = 0, pkt_lib = []\<rparr>,
     req_request_wo_block2 = \<lparr>pkt_offset = 0, pkt_lib = []\<rparr>, req_data = 0,
     req_block_ctx = \<lparr>blk_total_size = 0, blk_current = 0, blk_size = 0\<rparr>,
     req_reply = \<lparr>reply_seq = 0, reply_ts = 0\<rparr>,
     req_pending = \<lparr>pend_t0 = 0, pend_timeout = 0, pend_retries = 0\<rparr>,
     req_is_observe = False, req_is_pending = False,
     req_cb = User_cb Golioth_req_rsp_default_handler, req_user_data = UD_null\<rparr>"

text \<open>The stack objects of \<^verbatim>\<open>golioth_coap_req_sync\<close> and \<^verbatim>\<open>golioth_lightdb_get\<close>.\<close>

record golioth_req_sync_data =
  sync_sem :: nat
  sync_err :: int
  sync_cb :: "golioth_user_cb option"
  sync_user_data :: user_data

text \<open>
  \<open>pre_overrun\<close> records a \<^verbatim>\<open>memcpy\<close> past the end of the caller's buffer.
\<close>

record golioth_lightdb_get_prealloc_data =
  pre_data :: "u8 list"
  pre_capacity :: nat
  pre_len :: nat
  pre_overrun :: bool

section \<open>The client\<close>

record golioth_rpc_method =
  rpcm_name :: "u8 list"
  rpcm_callback :: nat
  rpcm_callback_arg :: nat

text \<open>The first \<^verbatim>\<open>num_methods\<close> entries of the array.\<close>

record golioth_rpc =
  rpc_methods :: "golioth_rpc_method list"

record golioth_settings =
  settings_initialized :: bool
  settings_callback :: "nat option"

record golioth_client =
  cl_proto :: int
  cl_sec_tag_list :: "int list option"
  cl_sec_tag_count :: nat
  cl_rx_buffer :: "u8 list"
  cl_rx_buffer_len :: nat
  cl_rx_received :: nat
  cl_rx_packet :: coap_packet
  cl_sock :: int
  cl_coap_reqs :: "ptr list"
  cl_coap_reqs_connected :: bool
  cl_on_connect :: "nat option"
  cl_wakeup :: "wakeup_fn option"
  cl_rpc :: golioth_rpc
  cl_settings :: golioth_settings

record 'e world =
  w_client :: golioth_client
  w_reqs :: "ptr \<rightharpoonup> golioth_coap_req"
  w_bufs :: "ptr \<rightharpoonup> u8 list"
  w_syncs :: "ptr \<Rightarrow> golioth_req_sync_data"
  w_preallocs :: "ptr \<Rightarrow> golioth_lightdb_get_prealloc_data"
  w_next :: ptr
  w_fault :: bool
  w_env :: 'e

section \<open>Memory\<close>

definition fault :: "'e world \<Rightarrow> 'e world" where
  "fault w = w\<lparr>w_fault := True\<rparr>"

definition free_req_obj :: "ptr \<Rightarrow> 'e world \<Rightarrow> 'e world" where
  "free_req_obj r w =
     (if w_reqs w r = None then fault w else w\<lparr>w_reqs := (w_reqs w)(r := None)\<rparr>)"

definition free_buf :: "ptr \<Rightarrow> 'e world \<Rightarrow> 'e world" where
  "free_buf p w =
     (if w_bufs w p = None then fault w else w\<lparr>w_bufs := (w_bufs w)(p := None)\<rparr>)"

text \<open>Assignment to a field of a request, and to the client.\<close>

definition upd_req :: "ptr \<Rightarrow> (golioth_coap_req \<Rightarrow> golioth_coap_req) \<Rightarrow> 'e world \<Rightarrow> 'e world" where
  "upd_req r f w =
     (case w_reqs w r of
        None \<Rightarrow> fault w
      | Some q \<Rightarrow> w\<lparr>w_reqs := (w_reqs w)(r \<mapsto> f q)\<rparr>)"

definition upd_client :: "(golioth_client \<Rightarrow> golioth_client) \<Rightarrow> 'e world \<Rightarrow> 'e world" where
  "upd_client f w = w\<lparr>w_client := f (w_client w)\<rparr>"

abbreviation reqs_list :: "'e world \<Rightarrow> ptr list" where
  "reqs_list w \<equiv> cl_coap_reqs (w_client w)"

abbreviation is_connected :: "'e world \<Rightarrow> bool" where
  "is_connected w \<equiv> cl_coap_reqs_connected (w_client w)"

text \<open>Reading the environment.\<close>

definition env_read :: "('e \<Rightarrow> 'a \<times> 'e) \<Rightarrow> 'e world \<Rightarrow> 'a \<times> 'e world" where
  "env_read f w = (case f (w_env w) of (x, e) \<Rightarrow> (x, w\<lparr>w_env := e\<rparr>))"

lemma env_read_same:
  "env_read f w = (x, w') \<Longrightarrow> w' = w\<lparr>w_env := w_env w'\<rparr>"
  by (auto simp: env_read_def split: prod.splits)

end
