(* ===== verification/Transport.thy ===== *)
theory Transport
  imports World
begin

text \<open>
  The sending half of \<^verbatim>\<open>net/golioth/golioth.c\<close>: \<^verbatim>\<open>__golioth_send\<close> (here \<open>raw_golioth_send\<close>),
  its locked wrapper, message linearisation and the packets the client sends on its own (ping,
  hello, acknowledgment, the empty packet that starts the handshake).
\<close>

abbreviation (input) GOLIOTH_COAP_MAX_NON_PAYLOAD_LEN :: nat
  where "GOLIOTH_COAP_MAX_NON_PAYLOAD_LEN \<equiv> 128"
abbreviation (input) GOLIOTH_EMPTY_PACKET_LEN :: nat where "GOLIOTH_EMPTY_PACKET_LEN \<equiv> 48"

text \<open>\<open>data\<close> holds the \<^verbatim>\<open>len\<close> bytes to send.\<close>

definition raw_golioth_send ::
  "('e, 'x) sys_scheme \<Rightarrow> u8 list \<Rightarrow> int \<Rightarrow> 'e world \<Rightarrow> int \<times> 'e world" where
  "raw_golioth_send sys data flags w =
     (if cl_sock (w_client w) < 0 then (- ENOTCONN, w)
      else
        (case env_read (zsock_send sys (cl_sock (w_client w)) data flags) w of
           (sent, w1) \<Rightarrow>
             if sent < 0 then (- sys_errno sys (w_env w1), w1)
             else if sent < int (length data) then (- EIO, w1)
             else (0, w1)))"

definition golioth_send ::
  "('e, 'x) sys_scheme \<Rightarrow> u8 list \<Rightarrow> int \<Rightarrow> 'e world \<Rightarrow> int \<times> 'e world" where
  "golioth_send sys data flags w = raw_golioth_send sys data flags w"

text \<open>A packet is sent up to its offset.\<close>

definition golioth_send_coap ::
  "('e, 'x) sys_scheme \<Rightarrow> coap_packet \<Rightarrow> u8 list \<Rightarrow> 'e world \<Rightarrow> int \<times> 'e world" where
  "golioth_send_coap sys packet bytes w =
     (case golioth_send sys (take (pkt_offset packet) bytes) 0 w of
        (err, w1) \<Rightarrow> if err \<noteq> 0 then (err, w1) else (0, w1))"

text \<open>
  \<^verbatim>\<open>msg_linearize\<close>: the total length, one allocation, the parts copied one after the other.
\<close>

definition iov_len :: "u8 list list \<Rightarrow> nat" where
  "iov_len iov = foldl (\<lambda>len part. len + length part) 0 iov"

definition msg_linearize ::
  "('e, 'x) sys_scheme \<Rightarrow> u8 list list \<Rightarrow> 'e world \<Rightarrow> (u8 list \<times> nat) option \<times> 'e world" where
  "msg_linearize sys iov w =
     (case env_read (sys_malloc sys (iov_len iov)) w of
        (ok, w1) \<Rightarrow>
          if \<not> ok then (None, w1)
          else (Some (foldl (\<lambda>buf part. buf @ part) [] iov, iov_len iov), w1))"

definition golioth_sendmsg ::
  "('e, 'x) sys_scheme \<Rightarrow> u8 list list \<Rightarrow> int \<Rightarrow> 'e world \<Rightarrow> int \<times> 'e world" where
  "golioth_sendmsg sys iov flags w =
     (case msg_linearize sys iov w of
        (None, w1) \<Rightarrow> (- ENOMEM, w1)
      | (Some (data, len), w1) \<Rightarrow> raw_golioth_send sys (take len data) flags w1)"

definition golioth_send_coap_payload ::
  "('e, 'x) sys_scheme \<Rightarrow> coap_packet \<Rightarrow> u8 list \<Rightarrow> u8 list \<Rightarrow> 'e world \<Rightarrow> int \<times> 'e world" where
  "golioth_send_coap_payload sys packet bytes payload w =
     (case coap_packet_append_payload_marker sys packet bytes of
        (err, packet', bytes') \<Rightarrow>
          if err \<noteq> 0 then (err, w)
          else
            (case golioth_sendmsg sys [take (pkt_offset packet') bytes', payload] 0 w of
               (err2, w1) \<Rightarrow> if err2 \<noteq> 0 then (err2, w1) else (0, w1)))"

text \<open>The empty packets, built in a buffer on the stack.\<close>

definition raw_golioth_send_empty_coap ::
  "('e, 'x) sys_scheme \<Rightarrow> 'e world \<Rightarrow> int \<times> 'e world" where
  "raw_golioth_send_empty_coap sys w =
     (case env_read (coap_next_id sys) w of
        (i, w1) \<Rightarrow>
          (case coap_packet_init sys (replicate GOLIOTH_EMPTY_PACKET_LEN 0) GOLIOTH_EMPTY_PACKET_LEN
                  COAP_TYPE_NON_CON [] COAP_CODE_EMPTY i of
             (err, packet, bytes) \<Rightarrow>
               if err \<noteq> 0 then (err, w1)
               else raw_golioth_send sys (take (pkt_offset packet) bytes) 0 w1))"

definition golioth_ping :: "('e, 'x) sys_scheme \<Rightarrow> 'e world \<Rightarrow> int \<times> 'e world" where
  "golioth_ping sys w =
     (case env_read (coap_next_id sys) w of
        (i, w1) \<Rightarrow>
          (case coap_packet_init sys (replicate GOLIOTH_EMPTY_PACKET_LEN 0) GOLIOTH_EMPTY_PACKET_LEN
                  COAP_TYPE_CON [] COAP_CODE_EMPTY i of
             (err, packet, bytes) \<Rightarrow>
               if err \<noteq> 0 then (err, w1) else golioth_send_coap sys packet bytes w1))"

text \<open>C leaves the order of the two identifier calls open; the token comes first here.\<close>

definition golioth_send_hello :: "('e, 'x) sys_scheme \<Rightarrow> 'e world \<Rightarrow> int \<times> 'e world" where
  "golioth_send_hello sys w =
     (case env_read (coap_next_token sys) w of
        (tok, w1) \<Rightarrow>
          (case env_read (coap_next_id sys) w1 of
             (i, w2) \<Rightarrow>
               (case coap_packet_init sys (replicate (GOLIOTH_EMPTY_PACKET_LEN + 5) 0)
                       (GOLIOTH_EMPTY_PACKET_LEN + 5) COAP_TYPE_CON tok COAP_METHOD_GET i of
                  (err, packet, bytes) \<Rightarrow>
                    if err \<noteq> 0 then (err, w2)
                    else
                      (case coap_packet_append_option sys COAP_OPTION_URI_PATH (ascii ''hello'')
                              packet bytes of
                         (err2, packet2, bytes2) \<Rightarrow>
                           if err2 < 0 then (err2, w2)
                           else golioth_send_coap sys packet2 bytes2 w2))))"

definition golioth_ack_packet ::
  "('e, 'x) sys_scheme \<Rightarrow> coap_packet \<Rightarrow> u8 list \<Rightarrow> 'e world \<Rightarrow> int \<times> 'e world" where
  "golioth_ack_packet sys rx rx_bytes w =
     (case coap_ack_init sys rx rx_bytes
             (replicate (GOLIOTH_EMPTY_PACKET_LEN + COAP_TOKEN_MAX_LEN) 0) COAP_CODE_EMPTY of
        (err, tx, bytes) \<Rightarrow>
          if err \<noteq> 0 then (err, w) else golioth_send_coap sys tx bytes w)"

section \<open>Lemmas\<close>

text \<open>Sending touches nothing but the environment.\<close>

definition same_but_env :: "'e world \<Rightarrow> 'e world \<Rightarrow> bool" where
  "same_but_env w w' \<longleftrightarrow> w' = w\<lparr>w_env := w_env w'\<rparr>"

lemma same_but_env_refl [simp, intro]: "same_but_env w w"
  by (simp add: same_but_env_def)

lemma same_but_env_trans [trans]:
  "same_but_env a b \<Longrightarrow> same_but_env b c \<Longrightarrow> same_but_env a c"
  unfolding same_but_env_def by (metis (no_types, lifting) world.simps(16) world.surjective world.update_convs(8))

lemma same_but_env_env [simp, intro]: "same_but_env w (w\<lparr>w_env := e\<rparr>)"
  by (simp add: same_but_env_def)

lemma same_but_env_read [intro]: "env_read f w = (x, w') \<Longrightarrow> same_but_env w w'"
  by (auto simp: env_read_def split: prod.splits)

lemma same_but_envD:
  assumes "same_but_env w w'"
  shows "w_client w' = w_client w" "w_reqs w' = w_reqs w" "w_bufs w' = w_bufs w"
    "w_syncs w' = w_syncs w" "w_preallocs w' = w_preallocs w" "w_next w' = w_next w"
    "w_fault w' = w_fault w"
  using assms unfolding same_but_env_def
  by (metis world.ext_inject world.surjective world.update_convs(8))+

lemma raw_golioth_send_frame: "raw_golioth_send sys d f w = (r, w') \<Longrightarrow> same_but_env w w'"
  by (auto simp: raw_golioth_send_def split: if_splits prod.splits)

lemma golioth_send_coap_frame: "golioth_send_coap sys p b w = (r, w') \<Longrightarrow> same_but_env w w'"
  by (auto simp: golioth_send_coap_def golioth_send_def split: if_splits prod.splits
      dest: raw_golioth_send_frame)

lemma foldl_append_concat: "foldl (\<lambda>buf part. buf @ part) acc iov = acc @ concat iov"
  by (induction iov arbitrary: acc) simp_all

lemma foldl_iov_len: "foldl (\<lambda>len part. len + length part) n iov = n + length (concat iov)"
  by (induction iov arbitrary: n) simp_all

lemma msg_linearize_concat:
  "msg_linearize sys iov w = (Some (data, len), w') \<Longrightarrow> data = concat iov \<and> len = length (concat iov)"
  by (auto simp: msg_linearize_def iov_len_def foldl_append_concat foldl_iov_len
      split: prod.splits if_splits)

lemma raw_golioth_send_ok:
  "raw_golioth_send sys d f w = (0, w') \<Longrightarrow> sys_errno sys (w_env w') \<noteq> 0 \<Longrightarrow>
     0 \<le> cl_sock (w_client w) \<and>
     int (length d) \<le> fst (zsock_send sys (cl_sock (w_client w)) d f (w_env w))"
  by (auto simp: raw_golioth_send_def env_read_def split: if_splits prod.splits)

end
