(* ===== verification/GoliothUtils.thy ===== *)
theory GoliothUtils
  imports World
begin

text \<open>
  \<^verbatim>\<open>net/golioth/golioth_utils.c\<close>: the block size derived from the receive buffer, and the
  default response handler.
\<close>

text \<open>
  \<^verbatim>\<open>enum coap_block_size\<close>: \<open>COAP_BLOCK_16\<close> to \<open>COAP_BLOCK_1024\<close> are 0 to 6. The loop's
  \<^verbatim>\<open>payload_len\<close> has 16 bits.
\<close>

abbreviation (input) COAP_BLOCK_16 :: nat where "COAP_BLOCK_16 \<equiv> 0"
abbreviation (input) COAP_BLOCK_1024 :: nat where "COAP_BLOCK_1024 \<equiv> 6"

function block_size_loop :: "nat \<Rightarrow> nat \<Rightarrow> nat" where
  "block_size_loop payload_len block_size =
     (if 1 < payload_len \<and> block_size < COAP_BLOCK_1024
      then block_size_loop (payload_len div 2) (Suc block_size)
      else block_size)"
  by pat_completeness auto
termination
  by (relation "measure fst") auto

declare block_size_loop.simps [simp del]

definition max_block_size_from_payload_len :: "u16 \<Rightarrow> nat" where
  "max_block_size_from_payload_len payload_len =
     block_size_loop (unat payload_len div 16) COAP_BLOCK_16"

text \<open>The \<^verbatim>\<open>size_t\<close> buffer length is passed as a \<^verbatim>\<open>uint16_t\<close>.\<close>

definition golioth_estimated_coap_block_size :: "golioth_client \<Rightarrow> nat" where
  "golioth_estimated_coap_block_size client =
     max_block_size_from_payload_len (of_nat (cl_rx_buffer_len client))"

text \<open>It logs and returns 0 in every case.\<close>

definition golioth_req_rsp_default_handler ::
  "golioth_req_rsp \<Rightarrow> 'e world \<Rightarrow> int \<times> 'e world" where
  "golioth_req_rsp_default_handler rsp w = (0, w)"

lemma block_size_loop_le:
  "b \<le> COAP_BLOCK_1024 \<Longrightarrow> b \<le> block_size_loop n b \<and> block_size_loop n b \<le> COAP_BLOCK_1024"
proof (induction n b rule: block_size_loop.induct)
  case (1 n b)
  then show ?case by (subst (1 2) block_size_loop.simps) auto
qed

lemma block_size_loop_fits:
  "1 \<le> n \<Longrightarrow> 2 ^ (block_size_loop n b - b) \<le> n"
proof (induction n b rule: block_size_loop.induct)
  case (1 n b)
  show ?case
  proof (cases "1 < n \<and> b < COAP_BLOCK_1024")
    case True
    let ?k = "block_size_loop (n div 2) (Suc b)"
    from True have "1 \<le> n div 2" by linarith
    then have "2 ^ (?k - Suc b) \<le> n div 2"
      using "1.IH" True by blast
    moreover have "Suc b \<le> ?k"
      using block_size_loop_le[of "Suc b" "n div 2"] True by simp
    then have "?k - b = Suc (?k - Suc b)" by simp
    ultimately have "2 ^ (?k - b) \<le> 2 * (n div 2)" by simp
    also have "\<dots> \<le> n" by simp
    finally show ?thesis
      using True by (simp add: block_size_loop.simps[of n b])
  next
    case False
    then have "block_size_loop n b = b" by (subst block_size_loop.simps) auto
    with "1.prems" show ?thesis by simp
  qed
qed

lemma block_size_loop_max:
  "b \<le> COAP_BLOCK_1024 \<Longrightarrow> block_size_loop n b < COAP_BLOCK_1024 \<Longrightarrow>
     n < 2 * 2 ^ (block_size_loop n b - b)"
proof (induction n b rule: block_size_loop.induct)
  case (1 n b)
  show ?case
  proof (cases "1 < n \<and> b < COAP_BLOCK_1024")
    case True
    let ?k = "block_size_loop (n div 2) (Suc b)"
    have k: "block_size_loop n b = ?k"
      using True by (simp add: block_size_loop.simps[of n b])
    have "n div 2 < 2 * 2 ^ (?k - Suc b)"
      using "1.IH" "1.prems" True k by simp
    moreover have "Suc b \<le> ?k"
      using block_size_loop_le[of "Suc b" "n div 2"] True by simp
    then have "?k - b = Suc (?k - Suc b)" by simp
    ultimately show ?thesis by (simp add: k)
  next
    case False
    with "1.prems" show ?thesis by (auto simp: block_size_loop.simps[of n b])
  qed
qed

text \<open>
  The block size the client asks for is the largest of the seven that fits its receive buffer: a
  block of \<open>16 * 2\<^sup>k\<close> bytes fits, and unless it is the largest block size, the next one does not.
\<close>

lemma estimated_block_size_best:
  assumes "16 \<le> cl_rx_buffer_len client" and "cl_rx_buffer_len client < 2 ^ 16"
  shows "golioth_estimated_coap_block_size client \<le> COAP_BLOCK_1024 \<and>
    16 * 2 ^ golioth_estimated_coap_block_size client \<le> cl_rx_buffer_len client \<and>
    (golioth_estimated_coap_block_size client < COAP_BLOCK_1024 \<longrightarrow>
       cl_rx_buffer_len client < 16 * 2 ^ Suc (golioth_estimated_coap_block_size client))"
proof -
  let ?n = "cl_rx_buffer_len client div 16"
  have e: "golioth_estimated_coap_block_size client = block_size_loop ?n COAP_BLOCK_16"
    using assms(2) by (simp add: golioth_estimated_coap_block_size_def max_block_size_from_payload_len_def
        unat_of_nat)
  have "1 \<le> ?n" using assms(1) by simp
  then have "2 ^ block_size_loop ?n 0 \<le> ?n" using block_size_loop_fits[of ?n 0] by simp
  moreover have "block_size_loop ?n 0 < 6 \<longrightarrow> ?n < 2 * 2 ^ block_size_loop ?n 0"
    using block_size_loop_max[of 0 ?n] by simp
  ultimately show ?thesis using block_size_loop_le[of 0 ?n] by (auto simp: e)
qed

end
