(* ===== verification/CoapUtils.thy ===== *)
theory CoapUtils
  imports CoapLib
begin

text \<open>
  \<^verbatim>\<open>net/golioth/coap_utils.c\<close> and \<^verbatim>\<open>coap_utils.h\<close>: classification of received datagrams, setting
  the message id, writing a URI path as options, and the size estimate of a path.

  A C string in memory is the list of its bytes and the position of a pointer in it. A read
  outside the list gives \<open>None\<close> (undefined behaviour).
\<close>

section \<open>Received datagrams\<close>

definition coap_data_get_token_len :: "u8 list \<Rightarrow> u8" where
  "coap_data_get_token_len data = data ! 0 AND 0x0f"

definition coap_data_get_type :: "u8 list \<Rightarrow> u8" where
  "coap_data_get_type data = drop_bit 4 (data ! 0 AND 0x30)"

definition coap_data_get_code :: "u8 list \<Rightarrow> u8" where
  "coap_data_get_code data = data ! 1"

text \<open>The first argument is \<open>None\<close> for a NULL pointer; the length is the caller's.\<close>

definition coap_data_check_rx_packet_type :: "u8 list option \<Rightarrow> nat \<Rightarrow> int" where
  "coap_data_check_rx_packet_type pdata len =
     (case pdata of
        None \<Rightarrow> - EINVAL
      | Some data \<Rightarrow>
          if len < 4 then - EINVAL
          else
            let tkl = coap_data_get_token_len data in
            if 8 < tkl then - EINVAL
            else if tkl = 0 \<and> len = 4 \<and>
                    unat (coap_data_get_type data) = COAP_TYPE_CON \<and>
                    coap_data_get_code data = COAP_CODE_EMPTY
                 then - ENOMSG
            else 0)"

section \<open>Message id\<close>

text \<open>\<^verbatim>\<open>data[2] = id >> 8; data[3] = id & 0xff\<close>; \<open>None\<close> when the buffer is shorter.\<close>

definition coap_packet_set_id :: "u16 \<Rightarrow> u8 list \<Rightarrow> u8 list option" where
  "coap_packet_set_id i b =
     (if 4 \<le> length b
      then Some (b[2 := ucast (drop_bit 8 i), 3 := ucast (i AND 0xff)])
      else None)"

section \<open>URI paths\<close>

abbreviation (input) SLASH :: u8 where "SLASH \<equiv> 0x2f"

function trim_slashes :: "u8 list \<Rightarrow> nat \<Rightarrow> nat option" where
  "trim_slashes mem bgn =
     (if bgn < length mem
      then if mem ! bgn = SLASH then trim_slashes mem (Suc bgn) else Some bgn
      else None)"
  by pat_completeness auto
termination
  by (relation "measure (\<lambda>(mem, bgn). length mem - bgn)") auto

declare trim_slashes.simps [simp del]

text \<open>
  The \<^verbatim>\<open>while\<close> loop of \<^verbatim>\<open>coap_packet_append_uri_path_from_string_range\<close> with the code after
  it: \<open>bgn\<close> starts the current segment and \<open>p\<close> is the scan position.
\<close>

function uri_path_loop ::
  "('x) coap_lib_scheme \<Rightarrow> u8 list \<Rightarrow> nat \<Rightarrow> nat \<Rightarrow> nat \<Rightarrow> coap_packet \<Rightarrow> u8 list
     \<Rightarrow> (int \<times> coap_packet \<times> u8 list) option" where
  "uri_path_loop lib mem fin bgn p pkt buf =
     (if p < fin then
        if p < length mem then
          if mem ! p \<noteq> 0 then
            if mem ! p = SLASH then
              (case coap_packet_append_option lib COAP_OPTION_URI_PATH
                      (take (p - bgn) (drop bgn mem)) pkt buf of
                 (err, pkt', buf') \<Rightarrow>
                   if err \<noteq> 0 then Some (err, pkt', buf')
                   else uri_path_loop lib mem fin (Suc p) (Suc p) pkt' buf')
            else uri_path_loop lib mem fin bgn (Suc p) pkt buf
          else if bgn = p then Some (0, pkt, buf)
          else Some (coap_packet_append_option lib COAP_OPTION_URI_PATH
                       (take (p - bgn) (drop bgn mem)) pkt buf)
        else None
      else if bgn = p then Some (0, pkt, buf)
      else Some (coap_packet_append_option lib COAP_OPTION_URI_PATH
                   (take (p - bgn) (drop bgn mem)) pkt buf))"
  by pat_completeness auto
termination
  by (relation "measure (\<lambda>(lib, mem, fin, bgn, p, pkt, buf). length mem - p)") auto

declare uri_path_loop.simps [simp del]

definition coap_packet_append_uri_path_from_string_range ::
  "('x) coap_lib_scheme \<Rightarrow> u8 list \<Rightarrow> nat \<Rightarrow> nat \<Rightarrow> coap_packet \<Rightarrow> u8 list
     \<Rightarrow> (int \<times> coap_packet \<times> u8 list) option" where
  "coap_packet_append_uri_path_from_string_range lib mem bgn fin pkt buf =
     (case trim_slashes mem bgn of
        None \<Rightarrow> None
      | Some bgn' \<Rightarrow> uri_path_loop lib mem fin bgn' bgn' pkt buf)"

definition coap_packet_append_uri_path_from_string ::
  "('x) coap_lib_scheme \<Rightarrow> u8 list \<Rightarrow> nat \<Rightarrow> coap_packet \<Rightarrow> u8 list
     \<Rightarrow> (int \<times> coap_packet \<times> u8 list) option" where
  "coap_packet_append_uri_path_from_string lib path path_len pkt buf =
     coap_packet_append_uri_path_from_string_range lib path 0 path_len pkt buf"

text \<open>A NUL-terminated string: its bytes and the terminator are in memory.\<close>

definition coap_packet_append_uri_path_from_stringz ::
  "('x) coap_lib_scheme \<Rightarrow> u8 list \<Rightarrow> coap_packet \<Rightarrow> u8 list
     \<Rightarrow> (int \<times> coap_packet \<times> u8 list) option" where
  "coap_packet_append_uri_path_from_stringz lib path pkt buf =
     coap_packet_append_uri_path_from_string_range lib (path @ [0]) 0 UINTPTR_MAX pkt buf"

fun coap_packet_append_uri_path_from_pathv ::
  "('x) coap_lib_scheme \<Rightarrow> u8 list list \<Rightarrow> coap_packet \<Rightarrow> u8 list
     \<Rightarrow> (int \<times> coap_packet \<times> u8 list) option" where
  "coap_packet_append_uri_path_from_pathv lib [] pkt buf = Some (0, pkt, buf)"
| "coap_packet_append_uri_path_from_pathv lib (path # pathv) pkt buf =
     (case coap_packet_append_uri_path_from_stringz lib path pkt buf of
        None \<Rightarrow> None
      | Some (err, pkt', buf') \<Rightarrow>
          if err \<noteq> 0 then Some (err, pkt', buf')
          else coap_packet_append_uri_path_from_pathv lib pathv pkt' buf')"

definition c_strlen :: "u8 list \<Rightarrow> nat" where
  "c_strlen s = length (takeWhile (\<lambda>c. c \<noteq> 0) s)"

fun coap_pathv_estimate_alloc_len :: "u8 list list \<Rightarrow> nat" where
  "coap_pathv_estimate_alloc_len [] = 0"
| "coap_pathv_estimate_alloc_len (path # pathv) =
     c_strlen path + c_strlen path div 13 + 1 + coap_pathv_estimate_alloc_len pathv"


section \<open>The segments of a path\<close>

text \<open>
  The reference for the path functions: the segments between slashes, leading slashes and an
  empty last segment left out, appended one after the other up to the first error.
\<close>

fun split_segments :: "u8 list \<Rightarrow> u8 list \<Rightarrow> u8 list list" where
  "split_segments cur [] = (if cur = [] then [] else [cur])"
| "split_segments cur (c # cs) =
     (if c = SLASH then cur # split_segments [] cs else split_segments (cur @ [c]) cs)"

definition path_segments :: "u8 list \<Rightarrow> u8 list list" where
  "path_segments s = split_segments [] (dropWhile (\<lambda>c. c = SLASH) s)"

fun append_segments ::
  "('x) coap_lib_scheme \<Rightarrow> u8 list list \<Rightarrow> coap_packet \<Rightarrow> u8 list \<Rightarrow> int \<times> coap_packet \<times> u8 list" where
  "append_segments lib [] pkt buf = (0, pkt, buf)"
| "append_segments lib (s # ss) pkt buf =
     (case coap_packet_append_option lib COAP_OPTION_URI_PATH s pkt buf of
        (err, pkt', buf') \<Rightarrow>
          if err \<noteq> 0 then (err, pkt', buf') else append_segments lib ss pkt' buf')"

lemma append_segments_single:
  "append_segments lib [s] pkt buf = coap_packet_append_option lib COAP_OPTION_URI_PATH s pkt buf"
  by (auto split: prod.splits)

lemma append_segments_append:
  "append_segments lib (ss @ ts) pkt buf =
     (case append_segments lib ss pkt buf of
        (err, pkt', buf') \<Rightarrow> if err \<noteq> 0 then (err, pkt', buf') else append_segments lib ts pkt' buf')"
  by (induction ss arbitrary: pkt buf) (auto split: prod.splits)

text \<open>
  Where the scan of the text \<open>rest\<close> from position \<open>p\<close> stops: at the end of the range, or at
  a NUL inside it.
\<close>

definition text_at :: "u8 list \<Rightarrow> nat \<Rightarrow> nat \<Rightarrow> u8 list \<Rightarrow> bool" where
  "text_at mem fin p rest \<longleftrightarrow>
     p + length rest \<le> length mem \<and> take (length rest) (drop p mem) = rest \<and>
     0 \<notin> set rest \<and> p + length rest \<le> fin \<and>
     (p + length rest = fin \<or> (p + length rest < length mem \<and> mem ! (p + length rest) = 0))"

lemma text_at_Nil:
  "text_at mem fin p [] \<Longrightarrow> p = fin \<or> (p < fin \<and> p < length mem \<and> mem ! p = 0)"
  by (auto simp: text_at_def)

lemma text_at_Cons:
  assumes "text_at mem fin p (c # cs)"
  shows "p < fin" "p < length mem" "mem ! p = c" "c \<noteq> 0" "text_at mem fin (Suc p) cs"
proof -
  show p: "p < length mem" "p < fin" "c \<noteq> 0"
    using assms by (auto simp: text_at_def)
  then have "drop p mem = mem ! p # drop (Suc p) mem"
    by (simp add: Cons_nth_drop_Suc)
  with assms show "mem ! p = c" "text_at mem fin (Suc p) cs"
    by (auto simp: text_at_def)
qed

lemma uri_path_loop_segments:
  assumes "text_at mem fin p rest" and "bgn \<le> p" and "take (p - bgn) (drop bgn mem) = cur"
  shows "uri_path_loop lib mem fin bgn p pkt buf =
           Some (append_segments lib (split_segments cur rest) pkt buf)"
  using assms
proof (induction rest arbitrary: p bgn cur pkt buf)
  case Nil
  have len: "p \<le> length mem" using Nil.prems(1) by (simp add: text_at_def)
  then have e: "cur = [] \<longleftrightarrow> bgn = p"
    using Nil.prems(2,3) by auto
  have "uri_path_loop lib mem fin bgn p pkt buf =
      (if bgn = p then Some (0, pkt, buf)
       else Some (coap_packet_append_option lib COAP_OPTION_URI_PATH cur pkt buf))"
    using text_at_Nil[OF Nil.prems(1)] Nil.prems(3)
    by (auto simp: uri_path_loop.simps[of lib mem fin bgn p])
  then show ?case
    using e append_segments_single[of lib cur pkt buf] by simp
next
  case (Cons c cs)
  note at = text_at_Cons[OF Cons.prems(1)]
  have nxt: "take (Suc p - bgn) (drop bgn mem) = cur @ [c]"
    using Cons.prems(2,3) at(2,3)
    by (simp add: Suc_diff_le take_Suc_conv_app_nth)
  show ?case
  proof (cases "c = SLASH")
    case True
    have "uri_path_loop lib mem fin (Suc p) (Suc p) pkt' buf' =
        Some (append_segments lib (split_segments [] cs) pkt' buf')" for pkt' buf'
      by (rule Cons.IH[OF at(5)]) simp_all
    then show ?thesis
      using True at Cons.prems(3)
      by (simp add: uri_path_loop.simps[of lib mem fin bgn p] split: prod.splits)
  next
    case False
    have "uri_path_loop lib mem fin bgn (Suc p) pkt buf =
        Some (append_segments lib (split_segments (cur @ [c]) cs) pkt buf)"
      by (rule Cons.IH[OF at(5) _ nxt]) (use Cons.prems(2) in simp)
    then show ?thesis
      using False at by (simp add: uri_path_loop.simps[of lib mem fin bgn p])
  qed
qed

lemma trim_slashes_text:
  assumes "text_at mem fin bgn s" and "bgn + length s < length mem"
    and "mem ! (bgn + length s) \<noteq> SLASH"
  shows "\<exists>b. trim_slashes mem bgn = Some b \<and> bgn \<le> b \<and>
           text_at mem fin b (dropWhile (\<lambda>c. c = SLASH) s)"
  using assms
proof (induction s arbitrary: bgn)
  case Nil
  then show ?case by (auto simp: trim_slashes.simps[of mem bgn])
next
  case (Cons c cs)
  note at = text_at_Cons[OF Cons.prems(1)]
  show ?case
  proof (cases "c = SLASH")
    case True
    with Cons.IH[OF at(5)] Cons.prems(2,3) at(2,3) show ?thesis
      by (auto simp: trim_slashes.simps[of mem bgn])
  next
    case False
    with at(2,3) Cons.prems(1) show ?thesis
      by (auto simp: trim_slashes.simps[of mem bgn])
  qed
qed

lemma from_string_range_segments:
  assumes "text_at mem fin bgn s" and "bgn + length s < length mem"
    and "mem ! (bgn + length s) \<noteq> SLASH"
  shows "coap_packet_append_uri_path_from_string_range lib mem bgn fin pkt buf =
           Some (append_segments lib (path_segments s) pkt buf)"
proof -
  from trim_slashes_text[OF assms] obtain b where
    "trim_slashes mem bgn = Some b" "text_at mem fin b (dropWhile (\<lambda>c. c = SLASH) s)"
    by blast
  then show ?thesis
    using uri_path_loop_segments[of mem fin b _ b "[]" lib pkt buf]
    by (simp add: coap_packet_append_uri_path_from_string_range_def path_segments_def)
qed

lemma text_at_stringz:
  assumes "length s < UINTPTR_MAX"
  shows "text_at (s @ [0]) UINTPTR_MAX 0 (takeWhile (\<lambda>c. c \<noteq> 0) s)"
    and "(s @ [0]) ! length (takeWhile (\<lambda>c. c \<noteq> 0) s) = 0"
proof -
  let ?t = "takeWhile (\<lambda>c. c \<noteq> 0) s"
  have le: "length ?t \<le> length s" by (rule length_takeWhile_le)
  have tk: "take (length ?t) s = ?t"
    by (metis append_eq_conv_conj takeWhile_dropWhile_id)
  show nul: "(s @ [0]) ! length ?t = 0"
  proof (cases "length ?t < length s")
    case True
    then show ?thesis using nth_length_takeWhile[of "\<lambda>c. c \<noteq> 0" s] by (simp add: nth_append)
  next
    case False
    then show ?thesis using le by (simp add: nth_append)
  qed
  have "0 \<notin> set ?t" by (auto dest: set_takeWhileD)
  then show "text_at (s @ [0]) UINTPTR_MAX 0 ?t"
    using le tk nul assms by (simp add: text_at_def)
qed

lemma from_stringz_segments:
  assumes "length s < UINTPTR_MAX"
  shows "coap_packet_append_uri_path_from_stringz lib s pkt buf =
           Some (append_segments lib (path_segments (takeWhile (\<lambda>c. c \<noteq> 0) s)) pkt buf)"
  unfolding coap_packet_append_uri_path_from_stringz_def
  by (rule from_string_range_segments[OF text_at_stringz(1)[OF assms]])
    (simp_all add: text_at_stringz(2)[OF assms] le_imp_less_Suc length_takeWhile_le)


text \<open>A terminated string is never read past its terminator.\<close>

lemma trim_slashes_stringz:
  "bgn \<le> length s \<Longrightarrow> \<exists>b. trim_slashes (s @ [0]) bgn = Some b \<and> b \<le> length s"
proof (induction "s @ [0 :: u8]" bgn rule: trim_slashes.induct)
  case (1 bgn)
  show ?case
  proof (cases "(s @ [0]) ! bgn = SLASH")
    case True
    with "1.prems" have "bgn < length s" by (auto simp: nth_append split: if_splits)
    with 1 True show ?thesis by (simp add: trim_slashes.simps[of _ bgn])
  next
    case False
    with "1.prems" show ?thesis by (simp add: trim_slashes.simps[of _ bgn])
  qed
qed

lemma uri_path_loop_stringz:
  "p \<le> length s \<Longrightarrow> uri_path_loop lib (s @ [0]) fin bgn p pkt buf \<noteq> None"
proof (induction lib "s @ [0 :: u8]" fin bgn p pkt buf rule: uri_path_loop.induct)
  case (1 lib fin bgn p pkt buf)
  show ?case
  proof (cases "p < fin \<and> (s @ [0]) ! p \<noteq> 0")
    case True
    with "1.prems" have "p < length s" by (auto simp: nth_append split: if_splits)
    with 1 True show ?thesis
      by (auto simp: uri_path_loop.simps[of _ _ _ _ p] split: prod.splits)
  next
    case False
    with "1.prems" show ?thesis
      by (auto simp: uri_path_loop.simps[of _ _ _ _ p] simp del: not_None_eq)
  qed
qed

lemma from_stringz_no_fault: "coap_packet_append_uri_path_from_stringz lib s pkt buf \<noteq> None"
  using trim_slashes_stringz[of 0 s] uri_path_loop_stringz
  by (fastforce simp: coap_packet_append_uri_path_from_stringz_def
      coap_packet_append_uri_path_from_string_range_def)

lemma from_pathv_no_fault: "coap_packet_append_uri_path_from_pathv lib pathv pkt buf \<noteq> None"
  by (induction pathv arbitrary: pkt buf)
    (auto simp: from_stringz_no_fault split: option.splits)

text \<open>Path functions only write through the library.\<close>

text \<open>A range is not left when it is inside the memory and something in it is no slash.\<close>

lemma trim_slashes_inside:
  "\<exists>c\<in>set (drop bgn mem). c \<noteq> SLASH \<Longrightarrow> trim_slashes mem bgn \<noteq> None"
proof (induction mem bgn rule: trim_slashes.induct)
  case (1 mem bgn)
  have "bgn < length mem" using "1.prems" by (cases "bgn < length mem") simp_all
  with 1 show ?case by (subst trim_slashes.simps) (auto simp: Cons_nth_drop_Suc[symmetric])
qed

lemma uri_path_loop_inside: "fin \<le> length mem \<Longrightarrow> uri_path_loop lib mem fin bgn p pkt buf \<noteq> None"
proof (induction lib mem fin bgn p pkt buf rule: uri_path_loop.induct)
  case (1 lib mem fin bgn p pkt buf)
  then show ?case by (subst uri_path_loop.simps) (auto split: prod.split)
qed

lemma from_string_inside:
  assumes "fin \<le> length mem" and "\<exists>c\<in>set mem. c \<noteq> SLASH"
  shows "coap_packet_append_uri_path_from_string lib mem fin pkt buf \<noteq> None"
proof -
  obtain b where "trim_slashes mem 0 = Some b" using trim_slashes_inside[of 0 mem] assms(2) by auto
  with uri_path_loop_inside[OF assms(1)] show ?thesis
    by (simp add: coap_packet_append_uri_path_from_string_def coap_packet_append_uri_path_from_string_range_def)
qed

lemma uri_path_loop_length:
  "uri_path_loop lib mem fin bgn p pkt buf = Some (err, pkt', buf') \<Longrightarrow>
     \<forall>n v. pkt_op_keeps_length (coap_packet_append_option lib n v) \<Longrightarrow> length buf' = length buf"
proof (induction lib mem fin bgn p pkt buf rule: uri_path_loop.induct)
  case (1 lib mem fin bgn p pkt buf)
  then show ?case
    by (subst (asm) (3) uri_path_loop.simps)
      (fastforce dest: pkt_op_keeps_lengthD split: if_splits prod.splits)
qed

lemma from_stringz_length:
  assumes "coap_packet_append_uri_path_from_stringz lib s pkt buf = Some (err, pkt', buf')"
    and "\<forall>n v. pkt_op_keeps_length (coap_packet_append_option lib n v)"
  shows "length buf' = length buf"
  using assms
  by (auto simp: coap_packet_append_uri_path_from_stringz_def
      coap_packet_append_uri_path_from_string_range_def
      split: option.splits dest: uri_path_loop_length)

lemma from_pathv_length:
  assumes "\<forall>n v. pkt_op_keeps_length (coap_packet_append_option lib n v)"
  shows "coap_packet_append_uri_path_from_pathv lib pathv pkt buf = Some (err, pkt', buf') \<Longrightarrow>
     length buf' = length buf"
  using assms
proof (induction pathv arbitrary: pkt buf)
  case (Cons s pathv)
  then show ?case
    by (fastforce split: option.splits prod.splits if_splits dest: from_stringz_length)
qed simp

section \<open>The size estimate\<close>

text \<open>
  RFC 7252, section 3.1: an option is one byte, the extended delta, the extended length and the
  value.
\<close>

definition coap_ext_len :: "nat \<Rightarrow> nat" where
  "coap_ext_len n = (if n < 13 then 0 else if n < 269 then 1 else 2)"

definition coap_option_size :: "nat \<Rightarrow> nat \<Rightarrow> nat" where
  "coap_option_size delta len = 1 + coap_ext_len delta + coap_ext_len len + len"

lemma coap_ext_len_13: "13 * coap_ext_len n \<le> n"
  by (simp add: coap_ext_len_def)

lemma split_segments_size:
  "sum_list (map length (split_segments cur cs)) + length (split_segments cur cs)
     \<le> length cur + length cs + 1"
  by (induction cur cs rule: split_segments.induct) auto

lemma split_segments_length:
  "sum_list (map length (split_segments cur cs)) \<le> length cur + length cs"
  by (induction cur cs rule: split_segments.induct) auto

lemma path_segments_size:
  "sum_list (map length (path_segments s)) + length (path_segments s) \<le> length s + 1"
  using split_segments_size[of "[]" "dropWhile (\<lambda>c. c = SLASH) s"]
    length_dropWhile_le[of "\<lambda>c. c = SLASH" s]
  unfolding path_segments_def by simp

lemma path_segments_length: "sum_list (map length (path_segments s)) \<le> length s"
  using split_segments_length[of "[]" "dropWhile (\<lambda>c. c = SLASH) s"]
    length_dropWhile_le[of "\<lambda>c. c = SLASH" s]
  unfolding path_segments_def by simp

lemma sum_ext_len_13: "13 * sum_list (map (coap_ext_len \<circ> length) ss) \<le> sum_list (map length ss)"
proof (induction ss)
  case (Cons s ss)
  with coap_ext_len_13[of "length s"] show ?case by simp
qed simp

definition segments_size :: "u8 list list \<Rightarrow> nat" where
  "segments_size ss = sum_list (map (\<lambda>s. coap_option_size 0 (length s)) ss)"

lemma segments_size_eq:
  "segments_size ss = length ss + sum_list (map (coap_ext_len \<circ> length) ss) + sum_list (map length ss)"
  unfolding segments_size_def
  by (induction ss) (simp_all add: coap_option_size_def coap_ext_len_def[of 0])

lemma segments_size_append: "segments_size (ss @ ts) = segments_size ss + segments_size ts"
  by (simp add: segments_size_def)

lemma path_segments_option_size: "segments_size (path_segments s) \<le> length s + length s div 13 + 1"
proof -
  have "sum_list (map (coap_ext_len \<circ> length) (path_segments s)) \<le> length s div 13"
    using sum_ext_len_13[of "path_segments s"] path_segments_length[of s] by linarith
  with path_segments_size[of s] show ?thesis
    by (simp add: segments_size_eq)
qed

text \<open>
  The estimate bounds the bytes the path options take: each segment is an option whose delta is
  below 13 (Uri-Path is number 11, and the following segments have delta 0).
\<close>

lemma estimate_bounds_path:
  "segments_size (concat (map (path_segments \<circ> takeWhile (\<lambda>c. c \<noteq> 0)) pathv))
     \<le> coap_pathv_estimate_alloc_len pathv"
proof (induction pathv)
  case Nil
  then show ?case by (simp add: segments_size_def)
next
  case (Cons s pathv)
  with path_segments_option_size[of "takeWhile (\<lambda>c. c \<noteq> 0) s"] show ?case
    by (simp add: segments_size_append c_strlen_def)
qed

text \<open>
  A library that writes Uri-Path options as RFC 7252 has them, while there is room: \<open>path_packet\<close>
  holds of its packets that have no option behind Uri-Path.
\<close>

definition uri_path_lib :: "(coap_packet \<Rightarrow> bool) \<Rightarrow> ('x) coap_lib_scheme \<Rightarrow> bool" where
  "uri_path_lib path_packet lib \<longleftrightarrow>
     (\<forall>s pkt buf. length s < 65536 \<longrightarrow> path_packet pkt \<longrightarrow> pkt_offset pkt + coap_option_size 0 (length s) \<le> length buf \<longrightarrow>
        (\<exists>pkt' buf'. coap_packet_append_option lib COAP_OPTION_URI_PATH s pkt buf = (0, pkt', buf') \<and> path_packet pkt' \<and>
          pkt_offset pkt' = pkt_offset pkt + coap_option_size 0 (length s) \<and> length buf' = length buf))"

lemma append_segments_fits:
  assumes "uri_path_lib path_packet lib" and "path_packet pkt" and "pkt_offset pkt + segments_size ss \<le> length buf"
    and "\<forall>s\<in>set ss. length s < 65536"
  obtains pkt' buf' where "append_segments lib ss pkt buf = (0, pkt', buf')" and "path_packet pkt'"
    and "pkt_offset pkt' = pkt_offset pkt + segments_size ss" and "length buf' = length buf"
  using assms(2-)
proof (induction ss arbitrary: pkt buf thesis)
  case Nil
  then show ?case by (simp add: segments_size_def)
next
  case (Cons s ss)
  have sz: "segments_size (s # ss) = coap_option_size 0 (length s) + segments_size ss" by (simp add: segments_size_def)
  with Cons.prems(3) have "pkt_offset pkt + coap_option_size 0 (length s) \<le> length buf" by simp
  with assms(1) Cons.prems(2,4) obtain p1 b1 where a: "coap_packet_append_option lib COAP_OPTION_URI_PATH s pkt buf = (0, p1, b1)"
    "path_packet p1" "pkt_offset p1 = pkt_offset pkt + coap_option_size 0 (length s)" "length b1 = length buf"
    unfolding uri_path_lib_def by (metis list.set_intros(1))
  with Cons.prems(3) sz have "pkt_offset p1 + segments_size ss \<le> length b1" by simp
  moreover have "\<forall>s\<in>set ss. length s < 65536" using Cons.prems(4) by simp
  ultimately obtain p2 b2 where "append_segments lib ss p1 b1 = (0, p2, b2)" "path_packet p2"
    "pkt_offset p2 = pkt_offset p1 + segments_size ss" "length b2 = length b1" using Cons.IH[OF _ a(2)] by metis
  with a sz Cons.prems(1)[of p2 b2] show ?case by simp
qed

lemma from_pathv_fits:
  assumes "uri_path_lib path_packet lib" and "\<forall>s\<in>set pathv. length s < 65536" and "path_packet pkt"
    and "pkt_offset pkt + segments_size (concat (map (path_segments \<circ> takeWhile (\<lambda>c. c \<noteq> 0)) pathv)) \<le> length buf"
  shows "\<exists>pkt' buf'. coap_packet_append_uri_path_from_pathv lib pathv pkt buf = Some (0, pkt', buf') \<and> length buf' = length buf \<and>
    pkt_offset pkt' = pkt_offset pkt + segments_size (concat (map (path_segments \<circ> takeWhile (\<lambda>c. c \<noteq> 0)) pathv))"
  using assms(2-)
proof (induction pathv arbitrary: pkt buf)
  case Nil
  then show ?case by (simp add: segments_size_def)
next
  case (Cons s pathv)
  let ?ss = "path_segments (takeWhile (\<lambda>c. c \<noteq> 0) s)"
  have "length (takeWhile (\<lambda>c. c \<noteq> 0) s) < 65536"
    using Cons.prems(1) length_takeWhile_le[of "\<lambda>c. c \<noteq> 0" s] by (simp add: le_less_trans)
  then have short: "\<forall>t\<in>set ?ss. length t < 65536"
    using path_segments_length[of "takeWhile (\<lambda>c. c \<noteq> 0) s"] member_le_sum_list[of _ "map length ?ss"] by fastforce
  have "pkt_offset pkt + segments_size ?ss \<le> length buf" using Cons.prems(3) by (simp add: segments_size_append)
  from append_segments_fits[OF assms(1) Cons.prems(2) this short] obtain p1 b1 where
    a: "append_segments lib ?ss pkt buf = (0, p1, b1)" "path_packet p1"
    "pkt_offset p1 = pkt_offset pkt + segments_size ?ss" "length b1 = length buf" by blast
  with Cons.IH[of p1 b1] Cons.prems show ?case by (auto simp: segments_size_append from_stringz_segments)
qed

text \<open>
  C30. A buffer with the room the code estimates for a path is enough: with a library that writes options
  as RFC 7252 has them, appending the path succeeds and takes no more bytes than the estimate.
\<close>

theorem estimate_suffices:
  assumes "uri_path_lib path_packet lib" and "path_packet pkt" and "\<forall>s\<in>set pathv. length s < 65536"
    and "pkt_offset pkt + coap_pathv_estimate_alloc_len pathv \<le> length buf"
  shows "\<exists>pkt' buf'. coap_packet_append_uri_path_from_pathv lib pathv pkt buf = Some (0, pkt', buf') \<and>
    length buf' = length buf \<and> pkt_offset pkt' \<le> pkt_offset pkt + coap_pathv_estimate_alloc_len pathv"
  using from_pathv_fits[OF assms(1,3,2), of buf] estimate_bounds_path[of pathv] assms(4) by fastforce

section \<open>The id that was written is read back\<close>

lemma id_bytes:
  "push_bit 8 (ucast (ucast (drop_bit 8 i) :: u8)) OR ucast (ucast (i AND 0xff) :: u8) = (i :: u16)"
proof (rule bit_word_eqI)
  fix n assume "n < LENGTH(16)"
  moreover have "bit (0xff :: u16) n \<longleftrightarrow> n < 8"
    using bit_mask_iff[where ?'a = "16 word", of 8 n] by (auto simp: mask_eq_exp_minus_1)
  ultimately show "bit (push_bit 8 (ucast (ucast (drop_bit 8 i) :: u8)) OR ucast (ucast (i AND 0xff) :: u8) :: u16) n = bit i n"
    by (cases "n < 8") (auto simp: bit_simps)
qed

text \<open>
  A message id written into a packet is read back from it in network byte order (RFC 7252, section
  3), and no other byte of the packet changes.
\<close>

lemma coap_packet_set_id_read:
  assumes "coap_packet_set_id i b = Some b'"
  shows "length b' = length b \<and> push_bit 8 (ucast (b' ! 2)) OR ucast (b' ! 3) = i \<and>
    (\<forall>k. k \<noteq> 2 \<and> k \<noteq> 3 \<longrightarrow> b' ! k = b ! k)"
  using assms id_bytes[of i] by (auto simp: coap_packet_set_id_def split: if_splits)

text \<open>Only a confirmable message with nothing but a header is a ping.\<close>

lemma check_rx_packet_type_cases:
  "coap_data_check_rx_packet_type pdata len =
     (if pdata = None \<or> len < 4 \<or> 8 < coap_data_get_token_len (the pdata) then - EINVAL
      else if len = 4 \<and> unat (coap_data_get_token_len (the pdata)) = 0 \<and>
              unat (coap_data_get_type (the pdata)) = COAP_TYPE_CON \<and> coap_data_get_code (the pdata) = 0
      then - ENOMSG else 0)"
  by (auto simp: coap_data_check_rx_packet_type_def Let_def unat_eq_zero split: option.splits)

end
