(* ===== verification/CoapReqCore.thy ===== *)
theory CoapReqCore
  imports Transport GoliothUtils CoapUtils
begin

text \<open>
  \<^verbatim>\<open>net/golioth/coap_req.c\<close>, first part: creating, submitting, cancelling and freeing requests,
  and \<^verbatim>\<open>golioth_coap_req_cb\<close>, which builds a request packet and schedules it.
\<close>

section \<open>Operations\<close>

definition COAP_OBSERVE_TS_DIFF_NEWER :: int where
  "COAP_OBSERVE_TS_DIFF_NEWER = 128 * 1000"

definition golioth_coap_reqs_init :: "'e world \<Rightarrow> 'e world" where
  "golioth_coap_reqs_init w =
     upd_client (\<lambda>c. c\<lparr>cl_coap_reqs := [], cl_coap_reqs_connected := False\<rparr>) w"

definition golioth_coap_req_send ::
  "('e, 'x) sys_scheme \<Rightarrow> ptr \<Rightarrow> 'e world \<Rightarrow> int \<times> 'e world" where
  "golioth_coap_req_send sys r w =
     (case w_reqs w r of
        None \<Rightarrow> (0, fault w)
      | Some q \<Rightarrow>
          (case w_bufs w (req_data q) of
             None \<Rightarrow> (0, fault w)
           | Some b \<Rightarrow> golioth_send_coap sys (req_request q) b w))"

definition golioth_coap_pending_init ::
  "('e, 'x) sys_scheme \<Rightarrow> ptr \<Rightarrow> u8 \<Rightarrow> 'e world \<Rightarrow> 'e world" where
  "golioth_coap_pending_init sys r retries w =
     (case env_read (k_uptime_get_32 sys) w of
        (t0, w1) \<Rightarrow>
          upd_req r (\<lambda>q. q\<lparr>req_pending :=
            \<lparr>pend_t0 = t0, pend_timeout = 0, pend_retries = retries\<rparr>\<rparr>) w1)"

definition raw_golioth_coap_req_submit :: "ptr \<Rightarrow> 'e world \<Rightarrow> int \<times> 'e world" where
  "raw_golioth_coap_req_submit r w =
     (if \<not> is_connected w then (- ENETDOWN, w)
      else (0, upd_client (\<lambda>c. c\<lparr>cl_coap_reqs := cl_coap_reqs c @ [r]\<rparr>) w))"

definition golioth_coap_req_submit :: "ptr \<Rightarrow> 'e world \<Rightarrow> int \<times> 'e world" where
  "golioth_coap_req_submit r w = raw_golioth_coap_req_submit r w"

text \<open>Unlinking a node that is in no list would corrupt memory.\<close>

definition golioth_coap_req_cancel :: "ptr \<Rightarrow> 'e world \<Rightarrow> 'e world" where
  "golioth_coap_req_cancel r w =
     (if r \<in> set (reqs_list w)
      then upd_client (\<lambda>c. c\<lparr>cl_coap_reqs := remove1 r (cl_coap_reqs c)\<rparr>) w
      else fault w)"

definition golioth_coap_req_cancel_and_free :: "ptr \<Rightarrow> 'e world \<Rightarrow> 'e world" where
  "golioth_coap_req_cancel_and_free r w =
     (case w_reqs w r of
        None \<Rightarrow> fault w
      | Some q \<Rightarrow> free_req_obj r (free_buf (req_data q) (golioth_coap_req_cancel r w)))"

definition golioth_coap_req_free :: "ptr \<Rightarrow> 'e world \<Rightarrow> 'e world" where
  "golioth_coap_req_free r w =
     (case w_reqs w r of
        None \<Rightarrow> fault w
      | Some q \<Rightarrow> free_req_obj r (free_buf (req_data q) w))"

definition golioth_coap_code_to_posix :: "u8 \<Rightarrow> int" where
  "golioth_coap_code_to_posix code =
     (let cls = unat (drop_bit 5 code) in
      if cls = 2 then 0
      else if cls = 4 then
        (if code = COAP_RESPONSE_CODE_BAD_REQUEST then - EFAULT
         else if code = COAP_RESPONSE_CODE_UNAUTHORIZED then - EACCES
         else if code = COAP_RESPONSE_CODE_BAD_OPTION then - EINVAL
         else if code = COAP_RESPONSE_CODE_FORBIDDEN then - EACCES
         else if code = COAP_RESPONSE_CODE_NOT_FOUND then - ENOENT
         else if code = COAP_RESPONSE_CODE_NOT_ALLOWED then - EACCES
         else if code = COAP_RESPONSE_CODE_NOT_ACCEPTABLE then - EACCES
         else if code = COAP_RESPONSE_CODE_INCOMPLETE then - EINVAL
         else if code = COAP_RESPONSE_CODE_CONFLICT then - EBUSY
         else if code = COAP_RESPONSE_CODE_PRECONDITION_FAILED then - EACCES
         else if code = COAP_RESPONSE_CODE_REQUEST_TOO_LARGE then - E2BIG
         else if code = COAP_RESPONSE_CODE_UNSUPPORTED_CONTENT_FORMAT then - ENOTSUP
         else if code = COAP_RESPONSE_CODE_UNPROCESSABLE_ENTITY then - EBADMSG
         else if code = COAP_RESPONSE_CODE_TOO_MANY_REQUESTS then - EBUSY
         else - EBADMSG)
      else if cls = 5 then - EBADMSG
      else - EBADMSG)"

text \<open>
  \<^verbatim>\<open>golioth_coap_req_init\<close> on a request \<open>r\<close> and its fresh buffer \<open>p\<close> of \<open>buffer_len\<close> bytes.
  The final \<^verbatim>\<open>coap_block_transfer_init\<close> starts a transfer of the given block size at offset
  0 with a total of 0. C leaves the order of the two identifier calls open.
\<close>

definition golioth_coap_req_init ::
  "('e, 'x) sys_scheme \<Rightarrow> ptr \<Rightarrow> u8 \<Rightarrow> nat \<Rightarrow> ptr \<Rightarrow> nat \<Rightarrow> golioth_req_cb option \<Rightarrow> user_data
     \<Rightarrow> 'e world \<Rightarrow> int \<times> 'e world" where
  "golioth_coap_req_init sys r method msg_type p buffer_len cb ud w =
     (case env_read (coap_next_token sys) w of
        (tok, w1) \<Rightarrow>
     (case env_read (coap_next_id sys) w1 of
        (i, w2) \<Rightarrow>
     (case w_bufs w2 p of
        None \<Rightarrow> (0, fault w2)
      | Some b \<Rightarrow>
     (case coap_packet_init sys b buffer_len msg_type tok method i of
        (err, pkt, b') \<Rightarrow>
          let w3 = upd_req r (\<lambda>q. q\<lparr>req_request := pkt, req_data := p\<rparr>)
                     (w2\<lparr>w_bufs := (w_bufs w2)(p \<mapsto> b')\<rparr>)
          in if err \<noteq> 0 then (err, w3)
             else (0, upd_req r (\<lambda>q. q\<lparr>
               req_cb := (case cb of Some f \<Rightarrow> f | None \<Rightarrow> User_cb Golioth_req_rsp_default_handler),
               req_user_data := ud,
               req_request_wo_block2 := (req_request_wo_block2 q)\<lparr>pkt_offset := 0\<rparr>,
               req_reply := \<lparr>reply_seq = 0, reply_ts = - COAP_OBSERVE_TS_DIFF_NEWER\<rparr>,
               req_block_ctx := \<lparr>blk_total_size = 0, blk_current = 0,
                 blk_size = golioth_estimated_coap_block_size (w_client w3)\<rparr>\<rparr>) w3)))))"

text \<open>
  Allocation takes the next address (the size of a request counts as 1); a buffer's fresh bytes are taken as zero, nothing reads
  them before they are written. The result is the error, the request and the new world.
\<close>

definition golioth_coap_req_new ::
  "('e, 'x) sys_scheme \<Rightarrow> u8 \<Rightarrow> nat \<Rightarrow> nat \<Rightarrow> golioth_req_cb option \<Rightarrow> user_data
     \<Rightarrow> 'e world \<Rightarrow> int \<times> ptr \<times> 'e world" where
  "golioth_coap_req_new sys method msg_type buffer_len cb ud w =
     (case env_read (sys_malloc sys 1) w of
        (ok, w1) \<Rightarrow>
          if \<not> ok then (- ENOMEM, 0, w1)
          else
            let r = w_next w1;
                w2 = w1\<lparr>w_next := Suc r, w_reqs := (w_reqs w1)(r \<mapsto> zero_req)\<rparr>
            in (case env_read (sys_malloc sys buffer_len) w2 of
                  (ok2, w3) \<Rightarrow>
                    if \<not> ok2 then (- ENOMEM, r, free_req_obj r w3)
                    else
                      let p = w_next w3;
                          w4 = w3\<lparr>w_next := Suc p,
                                 w_bufs := (w_bufs w3)(p \<mapsto> replicate buffer_len 0)\<rparr>
                      in (case golioth_coap_req_init sys r method msg_type p buffer_len cb ud w4 of
                            (err, w5) \<Rightarrow>
                              if err \<noteq> 0 then (err, r, free_req_obj r (free_buf p w5))
                              else (0, r, w5))))"

definition golioth_coap_req_schedule ::
  "('e, 'x) sys_scheme \<Rightarrow> ptr \<Rightarrow> 'e world \<Rightarrow> int \<times> 'e world" where
  "golioth_coap_req_schedule sys r w =
     (case golioth_coap_req_submit r (golioth_coap_pending_init sys r 3 w) of
        (err, w1) \<Rightarrow>
          if err \<noteq> 0 then (err, w1)
          else
            (case cl_wakeup (w_client w1) of
               None \<Rightarrow> (0, w1)
             | Some f \<Rightarrow> (0, w1\<lparr>w_env := call_wakeup sys f (w_env w1)\<rparr>)))"

text \<open>A library call on \<^verbatim>\<open>&req->request\<close>.\<close>

definition on_request :: "pkt_op \<Rightarrow> ptr \<Rightarrow> 'e world \<Rightarrow> int \<times> 'e world" where
  "on_request f r w =
     (case w_reqs w r of
        None \<Rightarrow> (0, fault w)
      | Some q \<Rightarrow>
          (case w_bufs w (req_data q) of
             None \<Rightarrow> (0, fault w)
           | Some b \<Rightarrow>
               (case f (req_request q) b of
                  (err, pkt, b') \<Rightarrow>
                    (err, upd_req r (\<lambda>q. q\<lparr>req_request := pkt\<rparr>)
                            (w\<lparr>w_bufs := (w_bufs w)(req_data q \<mapsto> b')\<rparr>)))))"

definition append_uri_path_from_pathv ::
  "('e, 'x) sys_scheme \<Rightarrow> u8 list list \<Rightarrow> ptr \<Rightarrow> 'e world \<Rightarrow> int \<times> 'e world" where
  "append_uri_path_from_pathv sys pathv r w =
     (case w_reqs w r of
        None \<Rightarrow> (0, fault w)
      | Some q \<Rightarrow>
          (case w_bufs w (req_data q) of
             None \<Rightarrow> (0, fault w)
           | Some b \<Rightarrow>
               (case coap_packet_append_uri_path_from_pathv sys pathv (req_request q) b of
                  None \<Rightarrow> (0, fault w)
                | Some res \<Rightarrow> on_request (\<lambda>_ _. res) r w)))"

text \<open>
  Flags are the bits \<^verbatim>\<open>GOLIOTH_COAP_REQ_OBSERVE\<close> and \<^verbatim>\<open>GOLIOTH_COAP_REQ_NO_RESP_BODY\<close>. A NULL
  payload has length 0: the payload is a list, empty for both.
\<close>

abbreviation (input) GOLIOTH_CONTENT_FORMAT_APP_JSON :: nat
  where "GOLIOTH_CONTENT_FORMAT_APP_JSON \<equiv> 50"
abbreviation (input) GOLIOTH_CONTENT_FORMAT_APP_CBOR :: nat
  where "GOLIOTH_CONTENT_FORMAT_APP_CBOR \<equiv> 60"
abbreviation (input) GOLIOTH_COAP_REQ_OBSERVE :: nat where "GOLIOTH_COAP_REQ_OBSERVE \<equiv> 1"
abbreviation (input) GOLIOTH_COAP_REQ_NO_RESP_BODY :: nat where "GOLIOTH_COAP_REQ_NO_RESP_BODY \<equiv> 2"

definition flag_observe :: "nat \<Rightarrow> bool" where
  "flag_observe flags \<longleftrightarrow> odd flags"

definition flag_no_resp_body :: "nat \<Rightarrow> bool" where
  "flag_no_resp_body flags \<longleftrightarrow> odd (flags div 2)"

text \<open>The options and the payload of the packet, up to the first error.\<close>

definition golioth_coap_req_cb_build ::
  "('e, 'x) sys_scheme \<Rightarrow> u8 \<Rightarrow> u8 list list \<Rightarrow> nat \<Rightarrow> u8 list \<Rightarrow> nat \<Rightarrow> ptr
     \<Rightarrow> 'e world \<Rightarrow> int \<times> 'e world" where
  "golioth_coap_req_cb_build sys method pathv format data flags r w =
     err_then
       (if method = COAP_METHOD_GET \<and> flag_observe flags
        then on_request (coap_append_option_int sys COAP_OPTION_OBSERVE 0) r
               (upd_req r (\<lambda>q. q\<lparr>req_is_observe := True, req_is_pending := True\<rparr>) w)
        else (0, w)) (\<lambda>w.
     err_then (append_uri_path_from_pathv sys pathv r w) (\<lambda>w.
     err_then
       (if method \<noteq> COAP_METHOD_GET \<and> method \<noteq> COAP_METHOD_DELETE
        then on_request (coap_append_option_int sys COAP_OPTION_CONTENT_FORMAT format) r w
        else (0, w)) (\<lambda>w.
     err_then
       (if \<not> flag_no_resp_body flags
        then on_request (coap_append_option_int sys COAP_OPTION_ACCEPT format) r w
        else (0, w)) (\<lambda>w.
       if data \<noteq> []
       then err_then (on_request (coap_packet_append_payload_marker sys) r w) (\<lambda>w.
              on_request (coap_packet_append_payload sys data) r w)
       else (0, w)))))"

definition golioth_coap_req_cb ::
  "('e, 'x) sys_scheme \<Rightarrow> u8 \<Rightarrow> u8 list list \<Rightarrow> nat \<Rightarrow> u8 list \<Rightarrow> golioth_req_cb option
     \<Rightarrow> user_data \<Rightarrow> nat \<Rightarrow> 'e world \<Rightarrow> int \<times> 'e world" where
  "golioth_coap_req_cb sys method pathv format data cb ud flags w =
     (let path_len = coap_pathv_estimate_alloc_len pathv in
      case golioth_coap_req_new sys method COAP_TYPE_CON
             (GOLIOTH_COAP_MAX_NON_PAYLOAD_LEN + path_len + length data) cb ud w of
        (err, r, w1) \<Rightarrow>
          if err \<noteq> 0 then (err, w1)
          else
            (case err_then (golioth_coap_req_cb_build sys method pathv format data flags r w1)
                    (golioth_coap_req_schedule sys r) of
               (err2, w2) \<Rightarrow>
                 if err2 \<noteq> 0 then (err2, golioth_coap_req_free r w2) else (0, w2)))"


section \<open>A request under construction\<close>

text \<open>
  \<open>detached w0 q b w\<close>: the world \<open>w\<close> is \<open>w0\<close> with one more request \<open>q\<close>, in no list, and its
  buffer \<open>b\<close>. Everything \<^verbatim>\<open>golioth_coap_req_cb\<close> does before it schedules the request stays in
  such worlds, and freeing the request gives \<open>w0\<close> back but for the environment.
\<close>

definition fresh_ok :: "'e world \<Rightarrow> bool" where
  "fresh_ok w \<longleftrightarrow> (\<forall>p. w_next w \<le> p \<longrightarrow> w_reqs w p = None \<and> w_bufs w p = None)"

definition with_req :: "'e world \<Rightarrow> golioth_coap_req \<Rightarrow> u8 list \<Rightarrow> 'e \<Rightarrow> 'e world" where
  "with_req w q b e =
     w\<lparr>w_reqs := (w_reqs w)(w_next w \<mapsto> q), w_bufs := (w_bufs w)(Suc (w_next w) \<mapsto> b),
       w_next := Suc (Suc (w_next w)), w_env := e\<rparr>"

definition detached :: "'e world \<Rightarrow> golioth_coap_req \<Rightarrow> u8 list \<Rightarrow> 'e world \<Rightarrow> bool" where
  "detached w0 q b w \<longleftrightarrow>
     w = with_req w0 q b (w_env w) \<and> req_data q = Suc (w_next w0) \<and> 4 \<le> length b"

lemma with_req_sel [simp]:
  "w_reqs (with_req w q b e) = (w_reqs w)(w_next w \<mapsto> q)"
  "w_bufs (with_req w q b e) = (w_bufs w)(Suc (w_next w) \<mapsto> b)"
  "w_client (with_req w q b e) = w_client w"
  "w_syncs (with_req w q b e) = w_syncs w"
  "w_preallocs (with_req w q b e) = w_preallocs w"
  "w_next (with_req w q b e) = Suc (Suc (w_next w))"
  "w_fault (with_req w q b e) = w_fault w"
  "w_env (with_req w q b e) = e"
  by (simp_all add: with_req_def)

lemma with_req_upd:
  "upd_req (w_next w) f (with_req w q b e) = with_req w (f q) b e"
  "(with_req w q b e)\<lparr>w_bufs := (w_bufs w)(Suc (w_next w) \<mapsto> b')\<rparr> = with_req w q b' e"
  "(with_req w q b e)\<lparr>w_env := e'\<rparr> = with_req w q b e'"
  by (simp_all add: with_req_def upd_req_def)

lemma detachedI: "req_data q = Suc (w_next w0) \<Longrightarrow> 4 \<le> length b \<Longrightarrow> detached w0 q b (with_req w0 q b e)"
  by (simp add: detached_def)

lemma detachedE:
  assumes "detached w0 q b w"
  obtains e where "w = with_req w0 q b e" "req_data q = Suc (w_next w0)" "4 \<le> length b"
  using assms unfolding detached_def by blast

text \<open>What a failing call may change: the allocator's next address and the environment.\<close>

definition only_env :: "'e world \<Rightarrow> 'e world \<Rightarrow> bool" where
  "only_env w w' \<longleftrightarrow> w' = w\<lparr>w_next := w_next w', w_env := w_env w'\<rparr> \<and> w_next w \<le> w_next w'"

lemma only_envI: "n \<ge> w_next w \<Longrightarrow> only_env w (w\<lparr>w_next := n, w_env := e\<rparr>)"
  by (simp add: only_env_def)

lemma only_envD:
  assumes "only_env w w'"
  shows "w_client w' = w_client w" "w_reqs w' = w_reqs w" "w_bufs w' = w_bufs w"
    "w_syncs w' = w_syncs w" "w_preallocs w' = w_preallocs w" "w_fault w' = w_fault w"
    "w_next w \<le> w_next w'"
proof -
  from assms have e: "w' = w\<lparr>w_next := w_next w', w_env := w_env w'\<rparr>"
    by (simp add: only_env_def)
  show "w_client w' = w_client w" "w_reqs w' = w_reqs w" "w_bufs w' = w_bufs w"
    "w_syncs w' = w_syncs w" "w_preallocs w' = w_preallocs w" "w_fault w' = w_fault w"
    by (subst e, simp)+
  show "w_next w \<le> w_next w'" using assms by (simp add: only_env_def)
qed

lemma detached_free:
  assumes "fresh_ok w0" and "detached w0 q b w"
  shows "only_env w0 (golioth_coap_req_free (w_next w0) w)"
proof -
  from assms(2) obtain e where w: "w = with_req w0 q b e" "req_data q = Suc (w_next w0)"
    by (rule detachedE)
  have "(w_reqs w0)(w_next w0 := None) = w_reqs w0"
    "(w_bufs w0)(Suc (w_next w0) := None) = w_bufs w0"
    using assms(1) by (auto simp: fresh_ok_def)
  then have "golioth_coap_req_free (w_next w0) w = w0\<lparr>w_next := Suc (Suc (w_next w0)), w_env := e\<rparr>"
    using w(2) unfolding w(1)
    by (simp add: golioth_coap_req_free_def free_req_obj_def free_buf_def with_req_def)
  then show ?thesis by (simp add: only_env_def)
qed

lemma on_request_detached:
  assumes "detached w0 q b w" and "pkt_op_keeps_length f"
    and "on_request f (w_next w0) w = (err, w')"
  obtains pkt b' where "detached w0 (q\<lparr>req_request := pkt\<rparr>) b' w'"
proof -
  from assms(1) obtain e where w: "w = with_req w0 q b e" "req_data q = Suc (w_next w0)" "4 \<le> length b"
    by (rule detachedE)
  obtain err' pkt b' where f: "f (req_request q) b = (err', pkt, b')"
    by (cases "f (req_request q) b")
  then have "length b' = length b" using assms(2) by (rule pkt_op_keeps_lengthD[rotated])
  moreover have "w' = with_req w0 (q\<lparr>req_request := pkt\<rparr>) b' e"
    using assms(3) f w by (simp add: on_request_def with_req_upd)
  ultimately show thesis using w that detachedI[of "q\<lparr>req_request := pkt\<rparr>" w0 b' e] by simp
qed

lemma append_uri_path_detached:
  assumes "detached w0 q b w" and "coap_lib_ok sys"
    and "append_uri_path_from_pathv sys pathv (w_next w0) w = (err, w')"
  obtains pkt b' where "detached w0 (q\<lparr>req_request := pkt\<rparr>) b' w'"
proof -
  from assms(1) obtain e where w: "w = with_req w0 q b e" "req_data q = Suc (w_next w0)" "4 \<le> length b"
    by (rule detachedE)
  obtain err' pkt b' where
    f: "coap_packet_append_uri_path_from_pathv sys pathv (req_request q) b = Some (err', pkt, b')"
    using from_pathv_no_fault[of sys pathv "req_request q" b] by (metis not_None_eq prod_cases3)
  have l: "length b' = length b"
    using coap_lib_okD(2)[OF assms(2)] f by (blast intro: from_pathv_length)
  have "w' = with_req w0 (q\<lparr>req_request := pkt\<rparr>) b' e"
    using assms(3) f w by (simp add: append_uri_path_from_pathv_def on_request_def with_req_upd)
  then show thesis using w l that detachedI[of "q\<lparr>req_request := pkt\<rparr>" w0 b' e] by simp
qed


definition fresh_req ::
  "golioth_client \<Rightarrow> golioth_req_cb option \<Rightarrow> user_data \<Rightarrow> ptr \<Rightarrow> coap_packet \<Rightarrow> golioth_coap_req" where
  "fresh_req c cb ud p pkt = zero_req\<lparr>req_request := pkt, req_data := p,
     req_cb := (case cb of Some f \<Rightarrow> f | None \<Rightarrow> User_cb Golioth_req_rsp_default_handler),
     req_user_data := ud,
     req_reply := \<lparr>reply_seq = 0, reply_ts = - COAP_OBSERVE_TS_DIFF_NEWER\<rparr>,
     req_block_ctx := \<lparr>blk_total_size = 0, blk_current = 0,
       blk_size = golioth_estimated_coap_block_size c\<rparr>\<rparr>"

lemma golioth_coap_req_new_eq:
  assumes "fresh_ok w0"
    and "sys_malloc sys 1 (w_env w0) = (True, e1)" "sys_malloc sys buffer_len e1 = (True, e2)"
    and "coap_next_token sys e2 = (tok, e3)" "coap_next_id sys e3 = (i, e4)"
    and "coap_packet_init sys (replicate buffer_len 0) buffer_len msg_type tok method i = (err, pkt, b)"
  shows "golioth_coap_req_new sys method msg_type buffer_len cb ud w0 =
    (if err \<noteq> 0 then (err, w_next w0, w0\<lparr>w_next := Suc (Suc (w_next w0)), w_env := e4\<rparr>)
     else (0, w_next w0, with_req w0 (fresh_req (w_client w0) cb ud (Suc (w_next w0)) pkt) b e4))"
proof -
  have "(w_reqs w0)(w_next w0 := None) = w_reqs w0"
    "(w_bufs w0)(Suc (w_next w0) := None) = w_bufs w0"
    using assms(1) by (auto simp: fresh_ok_def)
  with assms(2-) show ?thesis
    by (simp add: golioth_coap_req_new_def golioth_coap_req_init_def env_read_def upd_req_def
        free_req_obj_def free_buf_def with_req_def fresh_req_def zero_req_def Let_def)
qed

lemma golioth_coap_req_new_spec:
  assumes "fresh_ok w0" and "coap_lib_ok sys"
    and "golioth_coap_req_new sys method msg_type buffer_len cb ud w0 = (err, r, w)"
  shows "(err \<noteq> 0 \<and> only_env w0 w) \<or>
    (err = 0 \<and> r = w_next w0 \<and> (\<exists>pkt b e. length b = buffer_len \<and>
       w = with_req w0 (fresh_req (w_client w0) cb ud (Suc (w_next w0)) pkt) b e))"
proof -
  obtain ok1 e1 where m1: "sys_malloc sys 1 (w_env w0) = (ok1, e1)" by fastforce
  obtain ok2 e2 where m2: "sys_malloc sys buffer_len e1 = (ok2, e2)" by fastforce
  obtain tok e3 where t: "coap_next_token sys e2 = (tok, e3)" by fastforce
  obtain i e4 where i: "coap_next_id sys e3 = (i, e4)" by fastforce
  obtain err' pkt b where p: "coap_packet_init sys (replicate buffer_len 0) buffer_len msg_type tok
      method i = (err', pkt, b)" by (metis prod_cases3)
  have none: "(w_reqs w0)(w_next w0 := None) = w_reqs w0"
    using assms(1) by (auto simp: fresh_ok_def)
  consider "\<not> ok1" | "ok1" "\<not> ok2" | "ok1" "ok2" by blast
  then show ?thesis
  proof cases
    case 1
    then show ?thesis using assms(3) m1
      by (auto simp: golioth_coap_req_new_def env_read_def only_env_def)
  next
    case 2
    then show ?thesis using assms(3) m1 m2
      by (auto simp: golioth_coap_req_new_def env_read_def only_env_def free_req_obj_def none Let_def)
  next
    case 3
    have "length b = buffer_len"
      using coap_lib_okD(1)[OF assms(2), of "replicate buffer_len 0" buffer_len msg_type tok "method" i] p
      by simp
    with 3 golioth_coap_req_new_eq[OF assms(1) _ _ t i p, of e1] assms(3) m1 m2 show ?thesis
      by (auto simp: only_env_def split: if_splits)
  qed
qed

lemma golioth_coap_req_cb_build_detached:
  assumes "detached w0 q b w" and "coap_lib_ok sys"
    and "golioth_coap_req_cb_build sys method pathv format data flags (w_next w0) w = (err, w')"
  obtains pkt b' where "detached w0 (q\<lparr>
      req_is_observe := (method = COAP_METHOD_GET \<and> flag_observe flags) \<or> req_is_observe q,
      req_is_pending := (method = COAP_METHOD_GET \<and> flag_observe flags) \<or> req_is_pending q,
      req_request := pkt\<rparr>) b' w'"
proof -
  define obs where "obs = (method = COAP_METHOD_GET \<and> flag_observe flags)"
  define q1 where "q1 = q\<lparr>req_is_observe := obs \<or> req_is_observe q,
    req_is_pending := obs \<or> req_is_pending q\<rparr>"
  define P where "P w = (\<exists>pkt b. detached w0 (q1\<lparr>req_request := pkt\<rparr>) b w)" for w
  note ok = coap_lib_okD[OF assms(2)]
  have step: "P (snd (on_request f (w_next w0) w))" if "P w" "pkt_op_keeps_length f" for f w
  proof -
    from that(1) obtain pkt b where d: "detached w0 (q1\<lparr>req_request := pkt\<rparr>) b w"
      unfolding P_def by blast
    obtain e w' where e: "on_request f (w_next w0) w = (e, w')" by (cases "on_request f (w_next w0) w")
    show ?thesis using on_request_detached[OF d that(2) e] unfolding e P_def by simp metis
  qed
  have path: "P (snd (append_uri_path_from_pathv sys pathv (w_next w0) w))" if "P w" for w
  proof -
    from that obtain pkt b where d: "detached w0 (q1\<lparr>req_request := pkt\<rparr>) b w"
      unfolding P_def by blast
    obtain e w' where e: "append_uri_path_from_pathv sys pathv (w_next w0) w = (e, w')"
      by (cases "append_uri_path_from_pathv sys pathv (w_next w0) w")
    show ?thesis using append_uri_path_detached[OF d assms(2) e] unfolding e P_def by simp metis
  qed
  have start: "P (if obs then upd_req (w_next w0)
      (\<lambda>q. q\<lparr>req_is_observe := True, req_is_pending := True\<rparr>) w else w)"
  proof -
    from assms(1) obtain e where w: "w = with_req w0 q b e" "req_data q = Suc (w_next w0)" "4 \<le> length b"
      by (rule detachedE)
    have "(if obs then upd_req (w_next w0)
        (\<lambda>q. q\<lparr>req_is_observe := True, req_is_pending := True\<rparr>) w else w) = with_req w0 q1 b e"
      by (simp add: w(1) with_req_upd q1_def)
    moreover have "detached w0 (q1\<lparr>req_request := req_request q\<rparr>) b (with_req w0 q1 b e)"
      using w(2,3) by (simp add: detached_def q1_def)
    ultimately show ?thesis unfolding P_def by metis
  qed
  have "P (snd (golioth_coap_req_cb_build sys method pathv format data flags (w_next w0) w))"
    unfolding golioth_coap_req_cb_build_def obs_def[symmetric]
    by (intro err_then_inv[where P = P])
      (use start in \<open>auto intro!: err_then_inv[where P = P] step path ok\<close>)
  then show thesis
    using that assms(3) unfolding P_def q1_def obs_def by auto
qed


text \<open>
  The world after a request \<open>q\<close> with buffer \<open>b\<close> has been created and appended to the list.
\<close>

definition scheduled :: "'e world \<Rightarrow> golioth_coap_req \<Rightarrow> u8 list \<Rightarrow> 'e \<Rightarrow> 'e world" where
  "scheduled w q b e =
     upd_client (\<lambda>c. c\<lparr>cl_coap_reqs := cl_coap_reqs c @ [w_next w]\<rparr>) (with_req w q b e)"

lemma scheduled_sel [simp]:
  "w_reqs (scheduled w q b e) = (w_reqs w)(w_next w \<mapsto> q)"
  "w_bufs (scheduled w q b e) = (w_bufs w)(Suc (w_next w) \<mapsto> b)"
  "w_client (scheduled w q b e) = (w_client w)\<lparr>cl_coap_reqs := reqs_list w @ [w_next w]\<rparr>"
  "w_syncs (scheduled w q b e) = w_syncs w"
  "w_preallocs (scheduled w q b e) = w_preallocs w"
  "w_next (scheduled w q b e) = Suc (Suc (w_next w))"
  "w_fault (scheduled w q b e) = w_fault w"
  "w_env (scheduled w q b e) = e"
  by (simp_all add: scheduled_def upd_client_def)

lemma scheduled_env [simp]: "(scheduled w q b e)\<lparr>w_env := e'\<rparr> = scheduled w q b e'"
  by (simp add: scheduled_def with_req_def upd_client_def)

lemma golioth_coap_req_schedule_detached:
  assumes "detached w0 q b w" and "golioth_coap_req_schedule sys (w_next w0) w = (err, w')"
  shows "(err = - ENETDOWN \<and> \<not> is_connected w0 \<and> (\<exists>p. detached w0 (q\<lparr>req_pending := p\<rparr>) b w')) \<or>
    (err = 0 \<and> is_connected w0 \<and> (\<exists>t e. w' = scheduled w0
       (q\<lparr>req_pending := \<lparr>pend_t0 = t, pend_timeout = 0, pend_retries = 3\<rparr>\<rparr>) b e))"
proof -
  from assms(1) obtain e where w: "w = with_req w0 q b e" "req_data q = Suc (w_next w0)" "4 \<le> length b"
    by (rule detachedE)
  obtain t e2 where t: "k_uptime_get_32 sys e = (t, e2)" by fastforce
  let ?q = "q\<lparr>req_pending := \<lparr>pend_t0 = t, pend_timeout = 0, pend_retries = 3\<rparr>\<rparr>"
  have pend: "golioth_coap_pending_init sys (w_next w0) 3 w = with_req w0 ?q b e2"
    using t by (simp add: w(1) golioth_coap_pending_init_def env_read_def with_req_upd)
  show ?thesis
  proof (cases "is_connected w0")
    case False
    then have "err = - ENETDOWN" "w' = with_req w0 ?q b e2"
      using assms(2) pend by (simp_all add: golioth_coap_req_schedule_def golioth_coap_req_submit_def
          raw_golioth_coap_req_submit_def)
    with False w detachedI[of ?q w0 b e2] show ?thesis by auto
  next
    case True
    from True have "golioth_coap_req_submit (w_next w0) (with_req w0 ?q b e2) = (0, scheduled w0 ?q b e2)"
      by (simp add: golioth_coap_req_submit_def raw_golioth_coap_req_submit_def scheduled_def)
    with assms(2) pend True show ?thesis
      by (auto simp: golioth_coap_req_schedule_def split: option.splits)
  qed
qed

text \<open>
  The whole of \<^verbatim>\<open>golioth_coap_req_cb\<close>: either it fails and leaves the memory, the list and the
  client as they were, or it has added one request, in a connected client.
\<close>

lemma golioth_coap_req_cb_spec:
  assumes "fresh_ok w" and "coap_lib_ok sys"
    and "golioth_coap_req_cb sys method pathv format data cb ud flags w = (err, w')"
  shows "(err \<noteq> 0 \<and> only_env w w') \<or>
    (err = 0 \<and> is_connected w \<and> (\<exists>q b e. w' = scheduled w q b e \<and>
       req_data q = Suc (w_next w) \<and> 4 \<le> length b \<and>
       req_cb q = (case cb of Some f \<Rightarrow> f | None \<Rightarrow> User_cb Golioth_req_rsp_default_handler) \<and>
       req_user_data q = ud \<and>
       req_is_observe q = (method = COAP_METHOD_GET \<and> flag_observe flags) \<and>
       req_is_pending q = req_is_observe q \<and>
       pend_timeout (req_pending q) = 0 \<and> pend_retries (req_pending q) = 3 \<and>
       pkt_offset (req_request_wo_block2 q) = 0 \<and> blk_current (req_block_ctx q) = 0))"
proof -
  let ?len = "GOLIOTH_COAP_MAX_NON_PAYLOAD_LEN + coap_pathv_estimate_alloc_len pathv + length data"
  obtain err1 r w1 where n: "golioth_coap_req_new sys method COAP_TYPE_CON ?len cb ud w = (err1, r, w1)"
    by (metis prod_cases3)
  consider "err1 \<noteq> 0" "only_env w w1"
    | pkt b e where "err1 = 0" "r = w_next w" "length b = ?len"
      "w1 = with_req w (fresh_req (w_client w) cb ud (Suc (w_next w)) pkt) b e"
    using golioth_coap_req_new_spec[OF assms(1,2) n] by blast
  then show ?thesis
  proof cases
    case 1
    then show ?thesis using assms(3) n by (simp add: golioth_coap_req_cb_def)
  next
    case (2 pkt b e)
    let ?q = "fresh_req (w_client w) cb ud (Suc (w_next w)) pkt"
    have q: "req_data ?q = Suc (w_next w)" "req_user_data ?q = ud" "\<not> req_is_observe ?q"
      "req_cb ?q = (case cb of Some f \<Rightarrow> f | None \<Rightarrow> User_cb Golioth_req_rsp_default_handler)"
      "\<not> req_is_pending ?q" "pkt_offset (req_request_wo_block2 ?q) = 0" "blk_current (req_block_ctx ?q) = 0"
      by (simp_all add: fresh_req_def zero_req_def)
    have d1: "detached w ?q b w1" using 2 q(1) by (simp add: detachedI)
    obtain err2 w2 where bu:
      "golioth_coap_req_cb_build sys method pathv format data flags (w_next w) w1 = (err2, w2)"
      by fastforce
    obtain pkt' b' where d2: "detached w (?q\<lparr>
      req_is_observe := (method = COAP_METHOD_GET \<and> flag_observe flags) \<or> req_is_observe ?q,
      req_is_pending := (method = COAP_METHOD_GET \<and> flag_observe flags) \<or> req_is_pending ?q,
      req_request := pkt'\<rparr>) b' w2"
      by (rule golioth_coap_req_cb_build_detached[OF d1 assms(2) bu])
    show ?thesis
    proof (cases "err2 = 0")
      case False
      then show ?thesis using assms(3) n 2 bu detached_free[OF assms(1) d2]
        by (simp add: golioth_coap_req_cb_def)
    next
      case True
      obtain err3 w3 where sc: "golioth_coap_req_schedule sys (w_next w) w2 = (err3, w3)" by fastforce
      have res: "(err, w') = (if err3 \<noteq> 0 then (err3, golioth_coap_req_free (w_next w) w3) else (0, w3))"
        using assms(3) n 2 bu True sc by (simp add: golioth_coap_req_cb_def)
      show ?thesis
        using golioth_coap_req_schedule_detached[OF d2 sc]
      proof (elim disjE conjE exE)
        fix p
        assume "err3 = - ENETDOWN" and "detached w (?q\<lparr>
          req_is_observe := (method = COAP_METHOD_GET \<and> flag_observe flags) \<or> req_is_observe ?q,
          req_is_pending := (method = COAP_METHOD_GET \<and> flag_observe flags) \<or> req_is_pending ?q,
          req_request := pkt'\<rparr>\<lparr>req_pending := p\<rparr>) b' w3"
        with res detached_free[OF assms(1)] show ?thesis by simp
      next
        fix t e3
        assume "err3 = 0" "is_connected w" and w3: "w3 = scheduled w (?q\<lparr>
          req_is_observe := (method = COAP_METHOD_GET \<and> flag_observe flags) \<or> req_is_observe ?q,
          req_is_pending := (method = COAP_METHOD_GET \<and> flag_observe flags) \<or> req_is_pending ?q,
          req_request := pkt'\<rparr>\<lparr>req_pending := \<lparr>pend_t0 = t, pend_timeout = 0, pend_retries = 3\<rparr>\<rparr>) b' e3"
        moreover have "4 \<le> length b'" using d2 by (simp add: detached_def)
        ultimately show ?thesis using res q by fastforce
      qed
    qed
  qed
qed

end
