(* ===== verification/ReqInvariant.thy ===== *)
theory ReqInvariant
  imports CoapReqCore
begin

text \<open>
  The memory invariant of the request layer, its preservation by the primitive operations, and
  the contract between the request layer and the callbacks it runs.
\<close>

section \<open>The invariant\<close>

text \<open>
  \<open>world_ok\<close> holds between calls into the SDK: no bad memory access has happened; the request objects
  in memory are exactly those in the client's list (none leaked, none dangling), each with a
  buffer of its own that can hold a header and user data its callback understands; the addresses not yet handed out are free; and a
  disconnected client has no request.
\<close>

text \<open>
  What \<^verbatim>\<open>user_data\<close> must point to for the callback it is handed to. The settings callback also
  needs the function the application registers (\<open>S\<close>).
\<close>

definition settings_ready :: "'e world \<Rightarrow> bool" where
  "settings_ready w \<longleftrightarrow> settings_callback (cl_settings (w_client w)) \<noteq> None"

fun user_ud_ok :: "bool \<Rightarrow> golioth_user_cb \<Rightarrow> user_data \<Rightarrow> bool" where
  "user_ud_ok S Golioth_lightdb_get_prealloc_cb ud = (\<exists>p. ud = UD_prealloc p)"
| "user_ud_ok S On_setting ud = (S \<and> ud = UD_client)"
| "user_ud_ok S On_rpc ud = (ud = UD_client)"
| "user_ud_ok S _ ud = True"

fun ud_ok :: "bool \<Rightarrow> golioth_req_cb \<Rightarrow> user_data \<Rightarrow> bool" where
  "ud_ok S Golioth_req_sync_cb ud = (\<exists>p. ud = UD_sync p)"
| "ud_ok S (User_cb c) ud = user_ud_ok S c ud"

definition sync_ok :: "bool \<Rightarrow> golioth_req_sync_data \<Rightarrow> bool" where
  "sync_ok S s \<longleftrightarrow> (\<forall>c. sync_cb s = Some c \<longrightarrow> user_ud_ok S c (sync_user_data s))"

definition heap_ok ::
  "bool \<Rightarrow> ptr list \<Rightarrow> bool \<Rightarrow> (ptr \<rightharpoonup> golioth_coap_req) \<Rightarrow> (ptr \<rightharpoonup> u8 list) \<Rightarrow> ptr \<Rightarrow> bool" where
  "heap_ok S l c R B n \<longleftrightarrow>
     distinct l \<and> dom R = set l \<and> dom B = req_data ` ran R \<and>
     (\<forall>r r' q q'. R r = Some q \<longrightarrow> R r' = Some q' \<longrightarrow> req_data q = req_data q' \<longrightarrow> r = r') \<and>
     (\<forall>p\<ge>n. R p = None \<and> B p = None) \<and> (\<forall>p b. B p = Some b \<longrightarrow> 4 \<le> length b) \<and>
     (\<forall>r q. R r = Some q \<longrightarrow> ud_ok S (req_cb q) (req_user_data q)) \<and>
     (c \<or> l = [])"

definition world_ok :: "'e world \<Rightarrow> bool" where
  "world_ok w \<longleftrightarrow> \<not> w_fault w \<and> (\<forall>p. sync_ok (settings_ready w) (w_syncs w p)) \<and>
     heap_ok (settings_ready w) (reqs_list w) (is_connected w) (w_reqs w) (w_bufs w) (w_next w)"

lemma heap_okI:
  assumes "distinct l" "dom R = set l" "dom B = req_data ` ran R"
    and "\<And>r r' q q'. R r = Some q \<Longrightarrow> R r' = Some q' \<Longrightarrow> req_data q = req_data q' \<Longrightarrow> r = r'"
    and "\<And>p. n \<le> p \<Longrightarrow> R p = None" "\<And>p. n \<le> p \<Longrightarrow> B p = None"
    and "\<And>p b. B p = Some b \<Longrightarrow> 4 \<le> length b"
    and "\<And>r q. R r = Some q \<Longrightarrow> ud_ok S (req_cb q) (req_user_data q)" and "c \<or> l = []"
  shows "heap_ok S l c R B n"
  using assms unfolding heap_ok_def by blast

lemma heap_okD:
  assumes "heap_ok S l c R B n"
  shows "distinct l" "dom R = set l" "dom B = req_data ` ran R" "c \<or> l = []"
    and "\<And>r r' q q'. R r = Some q \<Longrightarrow> R r' = Some q' \<Longrightarrow> req_data q = req_data q' \<Longrightarrow> r = r'"
    and "\<And>p. n \<le> p \<Longrightarrow> R p = None" "\<And>p. n \<le> p \<Longrightarrow> B p = None"
    and "\<And>p b. B p = Some b \<Longrightarrow> 4 \<le> length b"
    and "\<And>r q. R r = Some q \<Longrightarrow> ud_ok S (req_cb q) (req_user_data q)"
  using assms unfolding heap_ok_def by blast+

lemma heap_ok_mono: "heap_ok S l c R B n \<Longrightarrow> n \<le> m \<Longrightarrow> heap_ok S l c R B m"
  unfolding heap_ok_def by auto

lemma heap_ok_add:
  assumes H: "heap_ok S l True R B n" and "req_data q = Suc n" and "4 \<le> length b"
    and "ud_ok S (req_cb q) (req_user_data q)"
  shows "heap_ok S (l @ [n]) True (R(n \<mapsto> q)) (B(Suc n \<mapsto> b)) (Suc (Suc n))"
proof (rule heap_okI)
  note D = heap_okD[OF H]
  have fresh: "R n = None" "B (Suc n) = None" using D(6,7) by auto
  show "distinct (l @ [n])" using D(1,2) fresh(1) by auto
  show "dom (R(n \<mapsto> q)) = set (l @ [n])" using D(2) by auto
  show "dom (B(Suc n \<mapsto> b)) = req_data ` ran (R(n \<mapsto> q))"
    using D(3) fresh(1) assms(2) by simp
  have nodata: "req_data q' \<noteq> Suc n" if "R r = Some q'" for r q'
    using that D(3) fresh(2) by (metis domIff imageI ranI)
  show "r = r'" if "(R(n \<mapsto> q)) r = Some q1" "(R(n \<mapsto> q)) r' = Some q2" "req_data q1 = req_data q2"
    for r r' q1 q2
    using that nodata[of r q1] nodata[of r' q2] assms(2) D(5)[of r q1 r' q2] by (auto split: if_splits)
  show "4 \<le> length b'" if "(B(Suc n \<mapsto> b)) p = Some b'" for p b'
    using that assms(3) D(8) by (auto split: if_splits)
  show "ud_ok S (req_cb q') (req_user_data q')" if "(R(n \<mapsto> q)) r = Some q'" for r q'
    using that assms(4) D(9) by (auto split: if_splits)
qed (use heap_okD(6,7)[OF H] in auto)

lemma heap_ok_upd_req:
  assumes H: "heap_ok S l c R B n" and "R r = Some q" and "req_data q' = req_data q"
    and "req_cb q' = req_cb q" and "req_user_data q' = req_user_data q"
  shows "heap_ok S l c (R(r \<mapsto> q')) B n"
proof (rule heap_okI)
  note D = heap_okD[OF H]
  show "dom (R(r \<mapsto> q')) = set l" using D(2) assms(2) by auto
  have to: "\<exists>q0. R x = Some q0 \<and> req_data q0 = req_data q1" if "(R(r \<mapsto> q')) x = Some q1" for x q1
    using that assms(2,3) by (auto split: if_splits)
  have from': "\<exists>q1. (R(r \<mapsto> q')) x = Some q1 \<and> req_data q0 = req_data q1" if "R x = Some q0" for x q0
    using that assms(2,3) by auto
  have "req_data ` ran (R(r \<mapsto> q')) = req_data ` ran R"
  proof (intro equalityI subsetI)
    fix y assume "y \<in> req_data ` ran (R(r \<mapsto> q'))"
    then obtain x q1 where "(R(r \<mapsto> q')) x = Some q1" "y = req_data q1" by (auto simp only: ran_def image_iff mem_Collect_eq)
    with to[of x q1] show "y \<in> req_data ` ran R" by (metis imageI ranI)
  next
    fix y assume "y \<in> req_data ` ran R"
    then obtain x q0 where "R x = Some q0" "y = req_data q0" by (auto simp: ran_def)
    with from'[of x q0] show "y \<in> req_data ` ran (R(r \<mapsto> q'))"
      by (metis imageI ranI)
  qed
  with D(3) show "dom B = req_data ` ran (R(r \<mapsto> q'))" by simp
  show "r1 = r2" if "(R(r \<mapsto> q')) r1 = Some q1" "(R(r \<mapsto> q')) r2 = Some q2" "req_data q1 = req_data q2"
    for r1 r2 q1 q2
    using to[OF that(1)] to[OF that(2)] that(3) D(5) by metis
  show "(R(r \<mapsto> q')) p = None" if "n \<le> p" for p
    using D(6)[OF that] assms(2) by auto
  show "ud_ok S (req_cb q1) (req_user_data q1)" if "(R(r \<mapsto> q')) x = Some q1" for x q1
    using that assms(2,4,5) D(9) by (auto split: if_splits)
qed (use heap_okD[OF H] in auto)

lemma heap_ok_upd_buf:
  assumes H: "heap_ok S l c R B n" and "B p = Some b" and "4 \<le> length b'"
  shows "heap_ok S l c R (B(p \<mapsto> b')) n"
proof (rule heap_okI)
  note D = heap_okD[OF H]
  show "dom (B(p \<mapsto> b')) = req_data ` ran R" using D(3) assms(2) by auto
  show "(B(p \<mapsto> b')) x = None" if "n \<le> x" for x using D(7)[OF that] assms(2) by auto
  show "4 \<le> length d" if "(B(p \<mapsto> b')) x = Some d" for x d
    using that assms(3) D(8) by (auto split: if_splits)
  show "ud_ok S (req_cb q) (req_user_data q)" if "R r = Some q" for r q
    using that D(9) by blast
qed (use heap_okD(1,2,4,6)[OF H] heap_okD(5)[OF H] in auto)

lemma heap_ok_remove:
  assumes H: "heap_ok S l c R B n" and "R r = Some q"
  shows "heap_ok S (remove1 r l) c (R(r := None)) (B(req_data q := None)) n"
proof (rule heap_okI)
  note D = heap_okD[OF H]
  show "dom (R(r := None)) = set (remove1 r l)" using D(1,2) by auto
  have "req_data ` ran (R(r := None)) = req_data ` ran R - {req_data q}"
  proof (intro equalityI subsetI)
    fix y assume "y \<in> req_data ` ran (R(r := None))"
    then obtain x q1 where "x \<noteq> r" "R x = Some q1" "y = req_data q1"
      by (auto simp: ran_def split: if_splits)
    with D(5)[of x q1 r q] assms(2) show "y \<in> req_data ` ran R - {req_data q}"
      by (auto intro: ranI)
  next
    fix y assume "y \<in> req_data ` ran R - {req_data q}"
    then obtain x q1 where x: "R x = Some q1" "y = req_data q1" "y \<noteq> req_data q"
      by (auto simp: ran_def)
    with assms(2) have "(R(r := None)) x = Some q1" by auto
    with x(2) show "y \<in> req_data ` ran (R(r := None))" by (metis imageI ranI)
  qed
  with D(3) show "dom (B(req_data q := None)) = req_data ` ran (R(r := None))" by auto
  show "r1 = r2" if "(R(r := None)) r1 = Some q1" "(R(r := None)) r2 = Some q2" "req_data q1 = req_data q2"
    for r1 r2 q1 q2
    using that D(5)[of r1 q1 r2 q2] by (simp split: if_splits)
  show "4 \<le> length d" if "(B(req_data q := None)) x = Some d" for x d
    using that D(8) by (simp split: if_splits)
  show "ud_ok S (req_cb q1) (req_user_data q1)" if "(R(r := None)) x = Some q1" for x q1
    using that D(9) by (simp split: if_splits)
qed (use heap_okD[OF H] in auto)

section \<open>Worlds\<close>

lemma world_okD:
  assumes "world_ok w"
  shows "\<not> w_fault w" "distinct (reqs_list w)" "dom (w_reqs w) = set (reqs_list w)"
    "fresh_ok w" "is_connected w \<or> reqs_list w = []" "sync_ok (settings_ready w) (w_syncs w p)"
  using assms unfolding world_ok_def heap_ok_def fresh_ok_def by blast+

lemma world_ok_heap:
  "world_ok w \<Longrightarrow> heap_ok (settings_ready w) (reqs_list w) (is_connected w) (w_reqs w) (w_bufs w) (w_next w)"
  by (simp add: world_ok_def)

lemma world_ok_length: "world_ok w \<Longrightarrow> w_bufs w p = Some b \<Longrightarrow> 4 \<le> length b"
  using heap_okD(8) world_ok_heap by blast

lemma world_ok_buffer:
  assumes "world_ok w" and "w_reqs w r = Some q"
  obtains b where "w_bufs w (req_data q) = Some b"
proof -
  have "req_data q \<in> dom (w_bufs w)"
    using heap_okD(3)[OF world_ok_heap[OF assms(1)]] assms(2) by (auto intro: ranI)
  with that show thesis by blast
qed

lemma world_ok_listed:
  assumes "world_ok w" and "r \<in> set (reqs_list w)"
  obtains q b where "w_reqs w r = Some q" "w_bufs w (req_data q) = Some b"
proof -
  from world_okD(3)[OF assms(1)] assms(2) obtain q where q: "w_reqs w r = Some q" by blast
  from world_ok_buffer[OF assms(1) q] q that show thesis by blast
qed

lemma world_ok_allocated: "world_ok w \<Longrightarrow> w_reqs w r = Some q \<Longrightarrow> r \<in> set (reqs_list w)"
  using world_okD(3) by blast

lemma settings_ready_sel [simp]:
  "settings_ready (w\<lparr>w_reqs := R\<rparr>) = settings_ready w" "settings_ready (w\<lparr>w_bufs := B\<rparr>) = settings_ready w"
  "settings_ready (w\<lparr>w_env := e\<rparr>) = settings_ready w" "settings_ready (w\<lparr>w_syncs := y\<rparr>) = settings_ready w"
  "settings_ready (w\<lparr>w_next := n\<rparr>) = settings_ready w" "settings_ready (fault w) = settings_ready w"
  "settings_ready (w\<lparr>w_client := (w_client w)\<lparr>cl_coap_reqs := l\<rparr>\<rparr>) = settings_ready w"
  "settings_ready (w\<lparr>w_client := (w_client w)\<lparr>cl_sock := s\<rparr>\<rparr>) = settings_ready w"
  "settings_ready (w\<lparr>w_client := (w_client w)\<lparr>cl_coap_reqs_connected := c\<rparr>\<rparr>) = settings_ready w"
  "settings_ready (upd_req r f w) = settings_ready w"
  by (auto simp: settings_ready_def fault_def upd_req_def split: option.splits)

lemma settings_ready_scheduled [simp]: "settings_ready (scheduled w q b e) = settings_ready w"
  by (simp add: settings_ready_def)

lemma settings_ready_client: "w_client w' = w_client w \<Longrightarrow> settings_ready w' = settings_ready w"
  by (simp add: settings_ready_def)

text \<open>The parts of the world the invariant looks at.\<close>

lemma world_ok_cong:
  assumes "world_ok w" and "w_reqs w' = w_reqs w" "w_bufs w' = w_bufs w"
    and "reqs_list w' = reqs_list w" "is_connected w' = is_connected w"
    and "w_fault w' = w_fault w" "w_next w \<le> w_next w'" "w_syncs w' = w_syncs w"
    and "settings_ready w' = settings_ready w"
  shows "world_ok w'"
  using assms heap_ok_mono by (auto simp: world_ok_def)

lemma world_ok_only_env:
  assumes "world_ok w" and "only_env w w'"
  shows "world_ok w'"
  by (rule world_ok_cong[OF assms(1)]) (simp_all add: only_envD[OF assms(2)] settings_ready_def)

lemma world_ok_same_but_env:
  assumes "world_ok w" and "same_but_env w w'"
  shows "world_ok w'"
  by (rule world_ok_cong[OF assms(1)]) (simp_all add: same_but_envD[OF assms(2)] settings_ready_def)

lemma world_ok_env [simp]: "world_ok (w\<lparr>w_env := e\<rparr>) = world_ok w"
  by (simp add: world_ok_def)

lemma world_ok_scheduled:
  assumes "world_ok w" and "is_connected w" and "req_data q = Suc (w_next w)" and "4 \<le> length b"
    and "ud_ok (settings_ready w) (req_cb q) (req_user_data q)"
  shows "world_ok (scheduled w q b e)"
  using assms heap_ok_add[of "settings_ready w" "reqs_list w" "w_reqs w" "w_bufs w" "w_next w" q b]
  by (simp add: world_ok_def)

lemma world_ok_upd_req:
  assumes "world_ok w" and "w_reqs w r = Some q" and "req_data (f q) = req_data q"
    and "req_cb (f q) = req_cb q" and "req_user_data (f q) = req_user_data q"
  shows "world_ok (upd_req r f w)"
  using assms heap_ok_upd_req by (auto simp: world_ok_def upd_req_def)

lemma world_ok_upd_buf:
  assumes "world_ok w" and "w_bufs w p = Some b" and "4 \<le> length b'"
  shows "world_ok (w\<lparr>w_bufs := (w_bufs w)(p \<mapsto> b')\<rparr>)"
  using assms heap_ok_upd_buf by (auto simp: world_ok_def)

lemma cancel_and_free_eq:
  assumes "world_ok w" and "r \<in> set (reqs_list w)"
  obtains q where "w_reqs w r = Some q"
    and "golioth_coap_req_cancel_and_free r w =
      w\<lparr>w_client := (w_client w)\<lparr>cl_coap_reqs := remove1 r (reqs_list w)\<rparr>,
        w_reqs := (w_reqs w)(r := None), w_bufs := (w_bufs w)(req_data q := None)\<rparr>"
proof -
  from world_ok_listed[OF assms] obtain q b where "w_reqs w r = Some q" "w_bufs w (req_data q) = Some b" .
  with assms(2) that show thesis
    by (simp add: golioth_coap_req_cancel_and_free_def golioth_coap_req_cancel_def upd_client_def
        free_buf_def free_req_obj_def)
qed

lemma world_ok_cancel_and_free:
  assumes "world_ok w" and "r \<in> set (reqs_list w)"
  shows "world_ok (golioth_coap_req_cancel_and_free r w)"
    and "reqs_list (golioth_coap_req_cancel_and_free r w) = remove1 r (reqs_list w)"
    and "is_connected (golioth_coap_req_cancel_and_free r w) = is_connected w"
proof -
  from cancel_and_free_eq[OF assms] obtain q where q: "w_reqs w r = Some q"
    and e: "golioth_coap_req_cancel_and_free r w =
      w\<lparr>w_client := (w_client w)\<lparr>cl_coap_reqs := remove1 r (reqs_list w)\<rparr>,
        w_reqs := (w_reqs w)(r := None), w_bufs := (w_bufs w)(req_data q := None)\<rparr>" .
  show "world_ok (golioth_coap_req_cancel_and_free r w)"
    using assms(1) heap_ok_remove[OF world_ok_heap[OF assms(1)] q] unfolding e by (simp add: world_ok_def)
  show "reqs_list (golioth_coap_req_cancel_and_free r w) = remove1 r (reqs_list w)"
    "is_connected (golioth_coap_req_cancel_and_free r w) = is_connected w"
    by (simp_all add: e)
qed


section \<open>What a callback may do\<close>

text \<open>
  \<open>cb_step w w'\<close>: the request layer's view of a callback's effect. A callback may submit new
  requests (they are appended) and ask for the next block of a request; it does not connect,
  disconnect, cancel or free, and it leaves the fixed fields of the pending requests alone.
\<close>

definition same_static :: "golioth_coap_req \<Rightarrow> golioth_coap_req \<Rightarrow> bool" where
  "same_static q q' \<longleftrightarrow> req_cb q' = req_cb q \<and> req_user_data q' = req_user_data q \<and>
     req_is_observe q' = req_is_observe q \<and> req_data q' = req_data q \<and>
     req_is_pending q' = req_is_pending q \<and> req_block_ctx q' = req_block_ctx q \<and>
     req_reply q' = req_reply q"

lemma same_static_refl [simp, intro]: "same_static q q"
  by (simp add: same_static_def)

lemma same_static_trans: "same_static a b \<Longrightarrow> same_static b c \<Longrightarrow> same_static a c"
  by (simp add: same_static_def)

definition cb_step :: "'e world \<Rightarrow> 'e world \<Rightarrow> bool" where
  "cb_step w w' \<longleftrightarrow> world_ok w' \<and> (\<exists>new. reqs_list w' = reqs_list w @ new) \<and>
     is_connected w' = is_connected w \<and> cl_sock (w_client w') = cl_sock (w_client w) \<and>
     (settings_ready w \<longrightarrow> settings_ready w') \<and>
     (\<forall>r q. w_reqs w r = Some q \<longrightarrow> (\<exists>q'. w_reqs w' r = Some q' \<and> same_static q q'))"

lemma cb_step_refl [simp]: "cb_step w w \<longleftrightarrow> world_ok w"
  by (auto simp: cb_step_def)

lemma cb_step_trans:
  assumes "cb_step a b" and "cb_step b c"
  shows "cb_step a c"
proof -
  from assms obtain new1 new2 where "reqs_list b = reqs_list a @ new1" "reqs_list c = reqs_list b @ new2"
    unfolding cb_step_def by blast
  then have "reqs_list c = reqs_list a @ (new1 @ new2)" by simp
  moreover have "\<exists>q'. w_reqs c r = Some q' \<and> same_static q q'" if "w_reqs a r = Some q" for r q
    using assms that unfolding cb_step_def by (meson same_static_trans)
  ultimately show ?thesis using assms unfolding cb_step_def by auto
qed

lemma cb_stepD:
  assumes "cb_step w w'"
  shows "world_ok w'" "set (reqs_list w) \<subseteq> set (reqs_list w')" "is_connected w' = is_connected w"
    "cl_sock (w_client w') = cl_sock (w_client w)" "settings_ready w \<Longrightarrow> settings_ready w'"
  using assms unfolding cb_step_def by auto

lemma cb_step_req:
  assumes "cb_step w w'" and "w_reqs w r = Some q"
  obtains q' where "w_reqs w' r = Some q'" "same_static q q'"
  using assms unfolding cb_step_def by blast

lemma cb_step_only_env: "world_ok w \<Longrightarrow> only_env w w' \<Longrightarrow> cb_step w w'"
  by (auto simp: cb_step_def only_envD world_ok_only_env settings_ready_def)

lemma cb_step_same_but_env: "world_ok w \<Longrightarrow> same_but_env w w' \<Longrightarrow> cb_step w w'"
  by (auto simp: cb_step_def same_but_envD world_ok_same_but_env settings_ready_def)

lemma cb_step_scheduled:
  assumes "world_ok w" "is_connected w" "req_data q = Suc (w_next w)" "4 \<le> length b"
    "ud_ok (settings_ready w) (req_cb q) (req_user_data q)"
  shows "cb_step w (scheduled w q b e)"
proof -
  have "w_reqs w (w_next w) = None"
    using world_okD(4)[OF assms(1)] by (simp add: fresh_ok_def)
  then show ?thesis
    using world_ok_scheduled[OF assms] by (auto simp: cb_step_def)
qed

lemma cb_step_upd_req:
  assumes "world_ok w" and "w_reqs w r = Some q" and "same_static q (f q)"
  shows "cb_step w (upd_req r f w)"
proof -
  have "world_ok (upd_req r f w)"
    using assms by (intro world_ok_upd_req) (auto simp: same_static_def)
  with assms(2,3) show ?thesis by (auto simp: cb_step_def upd_req_def)
qed

lemma cb_step_upd_buf:
  assumes "world_ok w" and "w_bufs w p = Some b" and "4 \<le> length b'"
  shows "cb_step w (w\<lparr>w_bufs := (w_bufs w)(p \<mapsto> b')\<rparr>)"
  using world_ok_upd_buf[OF assms] by (auto simp: cb_step_def)

lemma golioth_coap_req_cb_step:
  assumes "world_ok w" and "coap_lib_ok sys" and "cb = None \<or> ud_ok (settings_ready w) (the cb) ud"
    and "golioth_coap_req_cb sys method pathv format data cb ud flags w = (err, w')"
  shows "cb_step w w'"
proof -
  have "ud_ok (settings_ready w) (case cb of Some f \<Rightarrow> f | None \<Rightarrow> User_cb Golioth_req_rsp_default_handler) ud"
    using assms(3) by (cases cb) auto
  then show ?thesis
    using golioth_coap_req_cb_spec[OF world_okD(4)[OF assms(1)] assms(2,4)] assms(1)
    by (elim disjE conjE exE) (simp_all add: cb_step_only_env cb_step_scheduled)
qed

text \<open>
  A response offers the next block only of a request in the list. A response that reports an
  error offers none, and a callback that gets one leaves the request layer as it is.
\<close>

definition rsp_ok :: "'e world \<Rightarrow> golioth_req_rsp \<Rightarrow> bool" where
  "rsp_ok w rsp \<longleftrightarrow> (rsp_get_next rsp \<noteq> None \<longrightarrow>
     (\<exists>r\<in>set (reqs_list w). rsp_get_next_data rsp = Some r))"

lemma rsp_ok_error [simp]: "rsp_ok w (error_rsp ud e)"
  by (simp add: rsp_ok_def)

definition coap_same :: "'e world \<Rightarrow> 'e world \<Rightarrow> bool" where
  "coap_same w w' \<longleftrightarrow> w_client w' = w_client w \<and> w_reqs w' = w_reqs w \<and> w_bufs w' = w_bufs w \<and>
     w_next w' = w_next w \<and> w_fault w' = w_fault w \<and>
     (\<forall>p. sync_cb (w_syncs w' p) = sync_cb (w_syncs w p) \<and>
          sync_user_data (w_syncs w' p) = sync_user_data (w_syncs w p))"

lemma coap_same_refl [simp, intro]: "coap_same w w"
  by (simp add: coap_same_def)

lemma coap_same_trans: "coap_same a b \<Longrightarrow> coap_same b c \<Longrightarrow> coap_same a c"
  by (simp add: coap_same_def)

lemma coap_same_world_ok: "coap_same w w' \<Longrightarrow> world_ok w' = world_ok w"
  using settings_ready_client[of w' w] by (simp add: coap_same_def world_ok_def sync_ok_def)

lemma coap_same_cb_step: "world_ok w \<Longrightarrow> coap_same w w' \<Longrightarrow> cb_step w w'"
  using settings_ready_client[of w' w]
  by (auto simp: cb_step_def coap_same_world_ok) (auto simp: coap_same_def)

lemma same_but_env_coap_same: "same_but_env w w' \<Longrightarrow> coap_same w w'"
  by (simp add: coap_same_def same_but_envD)

text \<open>
  The contracts of the code that runs a callback, given its name and a response. The request
  layer (the client of this interface) relies on no more than this. What runs a callback with an
  error has the first part of it.
\<close>

locale error_callback =
  fixes run :: "golioth_req_cb \<Rightarrow> golioth_req_rsp \<Rightarrow> 'e world \<Rightarrow> int \<times> 'e world"
  assumes run_error: "rsp_err rsp \<noteq> 0 \<Longrightarrow> rsp_get_next rsp = None \<Longrightarrow> ud_ok (settings_ready w) cb (rsp_user_data rsp) \<Longrightarrow>
      coap_same w (snd (run cb rsp w))"
begin

lemma run_error_rsp:
  assumes "e \<noteq> 0" and "ud_ok (settings_ready w) cb ud"
  shows "coap_same w (snd (run cb (error_rsp ud e) w))"
  using run_error[of "error_rsp ud e" w cb] assms by simp

end

locale req_callback = error_callback +
  assumes run_step: "world_ok w \<Longrightarrow> rsp_ok w rsp \<Longrightarrow> ud_ok (settings_ready w) cb (rsp_user_data rsp) \<Longrightarrow>
      cb_step w (snd (run cb rsp w))"

end
