(* ===== verification/CoapReqRx.thy ===== *)
theory CoapReqRx
  imports ReqInvariant "HOL-Library.Sublist"
begin

text \<open>
  \<^verbatim>\<open>net/golioth/coap_req.c\<close>, second part: matching received packets to requests, the reply
  handler with block-wise transfer, and the order of notifications.

  \<open>run\<close> is the code that runs a callback (the contract \<open>req_callback\<close>).
\<close>

section \<open>The next block\<close>

text \<open>
  The first time the option is appended the packet without it is remembered, and restored
  before it is appended again.
\<close>

definition golioth_coap_req_append_block2_option ::
  "('e, 'x) sys_scheme \<Rightarrow> ptr \<Rightarrow> 'e world \<Rightarrow> int \<times> 'e world" where
  "golioth_coap_req_append_block2_option sys r w =
     (let w1 = upd_req r (\<lambda>q.
            if pkt_offset (req_request_wo_block2 q) \<noteq> 0
            then q\<lparr>req_request := req_request_wo_block2 q\<rparr>
            else q\<lparr>req_request_wo_block2 := req_request q\<rparr>) w
      in case w_reqs w1 r of
           None \<Rightarrow> (0, fault w1)
         | Some q \<Rightarrow> on_request (coap_append_block2_option sys (req_block_ctx q)) r w1)"

definition set_request_id :: "ptr \<Rightarrow> u16 \<Rightarrow> 'e world \<Rightarrow> 'e world" where
  "set_request_id r i w =
     (case w_reqs w r of
        None \<Rightarrow> fault w
      | Some q \<Rightarrow>
          (case w_bufs w (req_data q) of
             None \<Rightarrow> fault w
           | Some b \<Rightarrow>
               (case coap_packet_set_id i b of
                  None \<Rightarrow> fault w
                | Some b' \<Rightarrow> w\<lparr>w_bufs := (w_bufs w)(req_data q \<mapsto> b')\<rparr>)))"

text \<open>A non-zero \<open>status\<close> is only logged.\<close>

definition golioth_coap_req_next_block ::
  "('e, 'x) sys_scheme \<Rightarrow> (golioth_req_cb \<Rightarrow> golioth_req_rsp \<Rightarrow> 'e world \<Rightarrow> int \<times> 'e world)
     \<Rightarrow> ptr \<Rightarrow> int \<Rightarrow> 'e world \<Rightarrow> int \<times> 'e world" where
  "golioth_coap_req_next_block sys run r status w =
     (case env_read (coap_next_id sys) w of
        (next_id, w1) \<Rightarrow>
          (case w_reqs w1 r of
             None \<Rightarrow> (0, fault w1)
           | Some q \<Rightarrow>
               if req_is_observe q
               then (0, snd (run (req_cb q) (error_rsp (req_user_data q) (- ENOTSUP)) w1))
               else
                 (case golioth_coap_req_append_block2_option sys r (set_request_id r next_id w1) of
                    (err, w2) \<Rightarrow>
                      if err \<noteq> 0 then (err, w2)
                      else (0, golioth_coap_pending_init sys r 3 w2))))"

section \<open>Notifications in order\<close>

text \<open>RFC 7641, section 3.4, on the C type \<^verbatim>\<open>int\<close>.\<close>

definition sequence_number_is_newer :: "int \<Rightarrow> int \<Rightarrow> bool" where
  "sequence_number_is_newer v1 v2 \<longleftrightarrow>
     (v1 < v2 \<and> v2 - v1 < 2 ^ 23) \<or> (v1 > v2 \<and> v1 - v2 > 2 ^ 23)"

definition golioth_coap_reply_is_newer :: "golioth_coap_reply \<Rightarrow> int \<Rightarrow> int \<Rightarrow> bool" where
  "golioth_coap_reply_is_newer reply seq uptime \<longleftrightarrow>
     uptime > reply_ts reply + COAP_OBSERVE_TS_DIFF_NEWER \<or>
     sequence_number_is_newer (reply_seq reply) seq"

section \<open>The reply handler\<close>

text \<open>The label \<^verbatim>\<open>cancel_and_free\<close>: a live observation stays, waiting for its next notification.\<close>

definition reply_cancel_and_free :: "ptr \<Rightarrow> int \<Rightarrow> 'e world \<Rightarrow> 'e world" where
  "reply_cancel_and_free r err w =
     (case w_reqs w r of
        None \<Rightarrow> fault w
      | Some q \<Rightarrow>
          if req_is_observe q \<and> err = 0
          then upd_req r (\<lambda>q. q\<lparr>req_is_pending := False\<rparr>) w
          else golioth_coap_req_cancel_and_free r w)"

text \<open>The three ways a response is reported: an error, the last of the data, more to come.\<close>

definition reply_fail ::
  "(golioth_req_cb \<Rightarrow> golioth_req_rsp \<Rightarrow> 'e world \<Rightarrow> int \<times> 'e world) \<Rightarrow> ptr \<Rightarrow> golioth_coap_req
     \<Rightarrow> int \<Rightarrow> 'e world \<Rightarrow> 'e world" where
  "reply_fail run r q err w =
     reply_cancel_and_free r err (snd (run (req_cb q) (error_rsp (req_user_data q) err) w))"

definition reply_done ::
  "(golioth_req_cb \<Rightarrow> golioth_req_rsp \<Rightarrow> 'e world \<Rightarrow> int \<times> 'e world) \<Rightarrow> ptr \<Rightarrow> golioth_coap_req
     \<Rightarrow> u8 list \<Rightarrow> nat \<Rightarrow> nat \<Rightarrow> 'e world \<Rightarrow> 'e world" where
  "reply_done run r q payload off tot w =
     reply_cancel_and_free r 0 (snd (run (req_cb q)
       \<lparr>rsp_data = payload, rsp_off = off, rsp_total = tot,
        rsp_get_next = None, rsp_get_next_data = None,
        rsp_user_data = req_user_data q, rsp_err = 0\<rparr> w))"

definition reply_more ::
  "(golioth_req_cb \<Rightarrow> golioth_req_rsp \<Rightarrow> 'e world \<Rightarrow> int \<times> 'e world) \<Rightarrow> ptr \<Rightarrow> golioth_coap_req
     \<Rightarrow> u8 list \<Rightarrow> nat \<Rightarrow> nat \<Rightarrow> 'e world \<Rightarrow> 'e world" where
  "reply_more run r q payload off tot w =
     (case run (req_cb q)
        \<lparr>rsp_data = payload, rsp_off = off, rsp_total = tot,
         rsp_get_next = Some Golioth_coap_req_next_block, rsp_get_next_data = Some r,
         rsp_user_data = req_user_data q,
         rsp_err = (if req_is_observe q then - EMSGSIZE else 0)\<rparr> w of
        (err, w1) \<Rightarrow>
          if err \<noteq> 0 then reply_cancel_and_free r err w1
          else
            (case w_reqs w1 r of
               None \<Rightarrow> fault w1
             | Some q1 \<Rightarrow>
                 if req_is_observe q1 then reply_cancel_and_free r (- ENOTSUP) w1 else w1))"

text \<open>
  A response with a Block2 option. \<open>new_offset\<close> is a \<^verbatim>\<open>size_t\<close>: the conversion of the library's
  \<^verbatim>\<open>int\<close> result, so the test \<^verbatim>\<open>new_offset < 0\<close> never holds.
\<close>

definition reply_block2 ::
  "('e, 'x) sys_scheme \<Rightarrow> (golioth_req_cb \<Rightarrow> golioth_req_rsp \<Rightarrow> 'e world \<Rightarrow> int \<times> 'e world)
     \<Rightarrow> ptr \<Rightarrow> golioth_coap_req \<Rightarrow> coap_packet \<Rightarrow> u8 list \<Rightarrow> u8 list \<Rightarrow> 'e world \<Rightarrow> 'e world" where
  "reply_block2 sys run r q response bytes payload w =
     (let want_offset = blk_current (req_block_ctx q) in
      case coap_update_from_block sys response bytes (req_block_ctx q) of
        (err, ctx) \<Rightarrow>
          let w1 = upd_req r (\<lambda>q. q\<lparr>req_block_ctx := ctx\<rparr>) w in
          if err \<noteq> 0 then reply_fail run r q (- EBADMSG) w1
          else
            let cur_offset = blk_current ctx in
            if cur_offset < want_offset
            then upd_req r (\<lambda>q. q\<lparr>req_block_ctx := (req_block_ctx q)\<lparr>blk_current := want_offset\<rparr>\<rparr>) w1
            else
              (case coap_next_block_for_option sys response bytes COAP_OPTION_BLOCK2 ctx of
                 (ret, ctx2) \<Rightarrow>
                   let w2 = upd_req r (\<lambda>q. q\<lparr>req_block_ctx := ctx2\<rparr>) w1;
                       new_offset = size_of_int ret
                   in if new_offset < 0 then reply_fail run r q (- EBADMSG) w2
                      else if new_offset = 0
                      then reply_done run r q payload cur_offset (blk_total_size ctx2) w2
                      else reply_more run r q payload cur_offset (blk_total_size ctx2) w2))"

text \<open>The response code, then Block2, then a plain response. The C function always returns 0.\<close>

definition golioth_coap_req_reply_handler ::
  "('e, 'x) sys_scheme \<Rightarrow> (golioth_req_cb \<Rightarrow> golioth_req_rsp \<Rightarrow> 'e world \<Rightarrow> int \<times> 'e world)
     \<Rightarrow> ptr \<Rightarrow> coap_packet \<Rightarrow> u8 list \<Rightarrow> 'e world \<Rightarrow> 'e world" where
  "golioth_coap_req_reply_handler sys run r response bytes w =
     (case w_reqs w r of
        None \<Rightarrow> fault w
      | Some q \<Rightarrow>
          let err = golioth_coap_code_to_posix (coap_header_get_code sys response bytes) in
          if err \<noteq> 0 then reply_fail run r q err w
          else
            let payload = coap_packet_get_payload sys response bytes in
            if coap_get_option_int sys response bytes COAP_OPTION_BLOCK2 \<noteq> - ENOENT
            then reply_block2 sys run r q response bytes payload w
            else reply_done run r q payload 0 (length payload) w)"

section \<open>Matching\<close>

text \<open>
  \<^verbatim>\<open>uint8_t req_token[COAP_TOKEN_MAX_LEN]\<close> after \<^verbatim>\<open>coap_header_get_token\<close>; the bytes past the
  token are indeterminate in C and zero here.
\<close>

definition token_array :: "u8 list \<Rightarrow> u8 list" where
  "token_array tok = take COAP_TOKEN_MAX_LEN (tok @ replicate COAP_TOKEN_MAX_LEN 0)"

definition req_matches ::
  "('e, 'x) sys_scheme \<Rightarrow> coap_packet \<Rightarrow> u8 list \<Rightarrow> coap_packet \<Rightarrow> u8 list \<Rightarrow> bool" where
  "req_matches sys req req_bytes rx rx_bytes =
     (let req_id = coap_header_get_id sys req req_bytes;
          req_token = coap_header_get_token sys req req_bytes;
          rx_id = coap_header_get_id sys rx rx_bytes;
          rx_token = coap_header_get_token sys rx rx_bytes;
          rx_tkl = length rx_token
      in if req_id = 0 \<and> length req_token = 0 then False
         else if req_id \<noteq> rx_id \<and> rx_tkl = 0 then False
         else if rx_tkl > 0 \<and> take rx_tkl (token_array req_token) \<noteq> take rx_tkl (token_array rx_token)
              then False
         else True)"

text \<open>The body for the request that matches.\<close>

definition process_matched ::
  "('e, 'x) sys_scheme \<Rightarrow> (golioth_req_cb \<Rightarrow> golioth_req_rsp \<Rightarrow> 'e world \<Rightarrow> int \<times> 'e world)
     \<Rightarrow> ptr \<Rightarrow> golioth_coap_req \<Rightarrow> coap_packet \<Rightarrow> u8 list \<Rightarrow> 'e world \<Rightarrow> 'e world" where
  "process_matched sys run r q rx bytes w =
     (let observe_seq = coap_get_option_int sys rx bytes COAP_OPTION_OBSERVE in
      if observe_seq = - ENOENT then golioth_coap_req_reply_handler sys run r rx bytes w
      else
        (case env_read (k_uptime_get sys) w of
           (uptime, w1) \<Rightarrow>
             if golioth_coap_reply_is_newer (req_reply q) observe_seq uptime
             then golioth_coap_req_reply_handler sys run r rx bytes
                    (upd_req r (\<lambda>q. q\<lparr>req_reply :=
                       \<lparr>reply_seq = observe_seq, reply_ts = uptime\<rparr>\<rparr>) w1)
             else w1))"

fun process_rx_loop ::
  "('e, 'x) sys_scheme \<Rightarrow> (golioth_req_cb \<Rightarrow> golioth_req_rsp \<Rightarrow> 'e world \<Rightarrow> int \<times> 'e world)
     \<Rightarrow> coap_packet \<Rightarrow> u8 list \<Rightarrow> ptr list \<Rightarrow> 'e world \<Rightarrow> 'e world" where
  "process_rx_loop sys run rx bytes [] w = w"
| "process_rx_loop sys run rx bytes (r # rs) w =
     (case w_reqs w r of
        None \<Rightarrow> fault w
      | Some q \<Rightarrow>
          (case w_bufs w (req_data q) of
             None \<Rightarrow> fault w
           | Some b \<Rightarrow>
               if req_matches sys (req_request q) b rx bytes
               then process_matched sys run r q rx bytes w
               else process_rx_loop sys run rx bytes rs w))"

text \<open>The loop leaves by \<^verbatim>\<open>break\<close> once a request has matched, so it walks the list it starts from.\<close>

definition golioth_coap_req_process_rx ::
  "('e, 'x) sys_scheme \<Rightarrow> (golioth_req_cb \<Rightarrow> golioth_req_rsp \<Rightarrow> 'e world \<Rightarrow> int \<times> 'e world)
     \<Rightarrow> coap_packet \<Rightarrow> u8 list \<Rightarrow> 'e world \<Rightarrow> 'e world" where
  "golioth_coap_req_process_rx sys run rx bytes w =
     process_rx_loop sys run rx bytes (reqs_list w) w"


section \<open>Lemmas\<close>

text \<open>
  The calls that wait for an answer, in the order of the list: request, callback and user data. They
  evolve when some of them end and others are added behind them; none is altered or moved.
\<close>

definition pending_calls :: "'e world \<Rightarrow> (ptr \<times> golioth_req_cb \<times> user_data) list" where
  "pending_calls w =
     map (\<lambda>r. (r, req_cb (the (w_reqs w r)), req_user_data (the (w_reqs w r)))) (reqs_list w)"

definition calls_evolve :: "'a list \<Rightarrow> 'a list \<Rightarrow> bool" where
  "calls_evolve ps ps' \<longleftrightarrow> (\<exists>kept new. ps' = kept @ new \<and> subseq kept ps)"

lemma calls_evolve_refl [simp]: "calls_evolve ps ps"
  unfolding calls_evolve_def by (rule exI[of _ ps], rule exI[of _ "[]"]) simp

lemma calls_evolve_append: "calls_evolve ps (ps @ new)"
  unfolding calls_evolve_def by blast

lemma calls_evolve_subseq: "subseq ps' ps \<Longrightarrow> calls_evolve ps ps'"
  unfolding calls_evolve_def by (rule exI[of _ ps'], rule exI[of _ "[]"]) simp

lemma calls_evolve_trans:
  assumes "calls_evolve a b" and "calls_evolve b c"
  shows "calls_evolve a c"
proof -
  obtain k n k' n' where b: "b = k @ n" "subseq k a" and c: "c = k' @ n'" "subseq k' (k @ n)"
    using assms unfolding calls_evolve_def by blast
  from c(2) obtain k1 k2 where k': "k' = k1 @ k2" "subseq k1 k" "subseq k2 n" by (auto simp: subseq_append_iff)
  with b(2) have "subseq k1 a" by (auto intro: subseq_order.trans)
  with k' c(1) show ?thesis unfolding calls_evolve_def by (intro exI[of _ k1] exI[of _ "k2 @ n'"]) simp
qed

lemma pending_calls_same:
  assumes "reqs_list w' = reqs_list w"
    and "\<And>r. r \<in> set (reqs_list w) \<Longrightarrow> req_cb (the (w_reqs w' r)) = req_cb (the (w_reqs w r)) \<and>
      req_user_data (the (w_reqs w' r)) = req_user_data (the (w_reqs w r))"
  shows "pending_calls w' = pending_calls w"
  using assms by (simp add: pending_calls_def)

lemma pending_calls_env [simp]: "pending_calls (w\<lparr>w_env := e\<rparr>) = pending_calls w"
  by (simp add: pending_calls_def)

lemma pending_calls_cb_step:
  assumes "world_ok w" and "cb_step w w'"
  obtains new where "pending_calls w' = pending_calls w @ new"
proof -
  obtain new where n: "reqs_list w' = reqs_list w @ new" using assms(2) by (auto simp: cb_step_def)
  have "req_cb (the (w_reqs w' r)) = req_cb (the (w_reqs w r)) \<and>
      req_user_data (the (w_reqs w' r)) = req_user_data (the (w_reqs w r))" if "r \<in> set (reqs_list w)" for r
  proof -
    from world_ok_listed[OF assms(1) that] obtain q where "w_reqs w r = Some q" by blast
    then show ?thesis using assms(2) by (fastforce simp: cb_step_def same_static_def)
  qed
  then show thesis by (intro that) (simp add: pending_calls_def n)
qed

text \<open>What a call that handles a received packet keeps.\<close>

definition rx_step :: "'e world \<Rightarrow> 'e world \<Rightarrow> bool" where
  "rx_step w w' \<longleftrightarrow> world_ok w' \<and> is_connected w' = is_connected w \<and>
     cl_sock (w_client w') = cl_sock (w_client w) \<and> calls_evolve (pending_calls w) (pending_calls w')"

lemma rx_stepD:
  assumes "rx_step w w'"
  shows "world_ok w'" and "is_connected w' = is_connected w" and "cl_sock (w_client w') = cl_sock (w_client w)"
    and "calls_evolve (pending_calls w) (pending_calls w')"
  using assms by (simp_all add: rx_step_def)

lemma rx_step_trans: "rx_step a b \<Longrightarrow> rx_step b c \<Longrightarrow> rx_step a c"
  by (auto simp: rx_step_def intro: calls_evolve_trans)

lemma cb_step_rx_step: "world_ok w \<Longrightarrow> cb_step w w' \<Longrightarrow> rx_step w w'"
  by (auto simp: rx_step_def cb_stepD intro: calls_evolve_append elim!: pending_calls_cb_step)

lemma rx_step_refl [simp]: "rx_step w w = world_ok w"
  by (simp add: rx_step_def)

text \<open>A step that leaves the list and what identifies its requests alone.\<close>

lemma rx_step_same:
  assumes "world_ok w'" and "is_connected w' = is_connected w" and "cl_sock (w_client w') = cl_sock (w_client w)"
    and "reqs_list w' = reqs_list w"
    and "\<And>r. r \<in> set (reqs_list w) \<Longrightarrow> req_cb (the (w_reqs w' r)) = req_cb (the (w_reqs w r)) \<and>
      req_user_data (the (w_reqs w' r)) = req_user_data (the (w_reqs w r))"
  shows "rx_step w w'"
  using assms pending_calls_same[OF assms(4,5)] by (simp add: rx_step_def)

lemma rx_step_same_but_env: "world_ok w \<Longrightarrow> same_but_env w w' \<Longrightarrow> rx_step w w'"
  using same_but_envD[of w w'] world_ok_same_but_env[of w w'] by (intro rx_step_same) simp_all

lemma rx_step_coap_same: "world_ok w \<Longrightarrow> coap_same w w' \<Longrightarrow> rx_step w w'"
  by (rule cb_step_rx_step[OF _ coap_same_cb_step])

definition same_id :: "golioth_coap_req \<Rightarrow> golioth_coap_req \<Rightarrow> bool" where
  "same_id q q' \<longleftrightarrow> req_data q' = req_data q \<and> req_cb q' = req_cb q \<and> req_user_data q' = req_user_data q"

lemma same_id_upd [simp]:
  "same_id q (q\<lparr>req_block_ctx := c\<rparr>)" "same_id q (q\<lparr>req_reply := y\<rparr>)"
  "same_id q (q\<lparr>req_pending := p\<rparr>)" "same_id q (q\<lparr>req_is_pending := b\<rparr>)"
  by (simp_all add: same_id_def)

lemma upd_req_ok:
  assumes "world_ok w" and "w_reqs w r = Some q" and "\<And>q. same_id q (f q)"
  shows "rx_step w (upd_req r f w)" and "w_reqs (upd_req r f w) r = Some (f q)"
    and "w_client (upd_req r f w) = w_client w"
proof -
  show "rx_step w (upd_req r f w)"
    using world_ok_upd_req[OF assms(1,2), of f] assms
    by (intro rx_step_same) (auto simp: upd_req_def same_id_def)
qed (use assms in \<open>simp_all add: upd_req_def same_id_def\<close>)

text \<open>A request that is taken off the list and freed is gone, the others are as they were.\<close>

lemma pending_calls_cancel_and_free:
  assumes "world_ok w" and "r \<in> set (reqs_list w)"
  shows "pending_calls (golioth_coap_req_cancel_and_free r w) = filter (\<lambda>c. fst c \<noteq> r) (pending_calls w)"
proof -
  have d: "distinct (reqs_list w)" using heap_okD(1)[OF world_ok_heap[OF assms(1)]] .
  have w': "reqs_list (golioth_coap_req_cancel_and_free r w) = remove1 r (reqs_list w)"
    "w_reqs (golioth_coap_req_cancel_and_free r w) = (w_reqs w)(r := None)"
    by (rule cancel_and_free_eq[OF assms], simp)+
  show ?thesis
    using d by (auto simp: pending_calls_def w' distinct_remove1_removeAll removeAll_filter_not_eq filter_map comp_def
        intro!: map_cong filter_cong)
qed

lemma rx_step_cancel_and_free:
  assumes "world_ok w" and "r \<in> set (reqs_list w)"
  shows "rx_step w (golioth_coap_req_cancel_and_free r w)"
proof -
  have "cl_sock (w_client (golioth_coap_req_cancel_and_free r w)) = cl_sock (w_client w)"
    by (rule cancel_and_free_eq[OF assms]) simp
  with world_ok_cancel_and_free[OF assms] show ?thesis
    by (simp add: rx_step_def pending_calls_cancel_and_free[OF assms] calls_evolve_subseq)
qed

lemma reply_cancel_and_free_ok:
  assumes "world_ok w" and "r \<in> set (reqs_list w)"
  shows "rx_step w (reply_cancel_and_free r e w)"
proof -
  from world_ok_listed[OF assms] obtain q where q: "w_reqs w r = Some q" by blast
  with upd_req_ok(1)[OF assms(1) q] rx_step_cancel_and_free[OF assms] show ?thesis
    by (simp add: reply_cancel_and_free_def)
qed

text \<open>What a handler of request \<open>r\<close> starts from.\<close>

definition serving :: "'e world \<Rightarrow> ptr \<Rightarrow> golioth_coap_req \<Rightarrow> bool" where
  "serving w r q \<longleftrightarrow> world_ok w \<and> r \<in> set (reqs_list w) \<and> ud_ok (settings_ready w) (req_cb q) (req_user_data q)"

lemma servingI:
  assumes "world_ok w" and "w_reqs w r = Some q"
  shows "serving w r q"
  using assms world_ok_allocated heap_okD(9)[OF world_ok_heap[OF assms(1)]] by (auto simp: serving_def)

lemma serving_same_id: "serving w r q \<Longrightarrow> same_id q q' \<Longrightarrow> serving w r q'"
  by (simp add: serving_def same_id_def)

context req_callback
begin

lemma run_listed:
  assumes "serving w r q" and "rsp_ok w rsp" and "rsp_user_data rsp = req_user_data q"
  shows "rx_step w (snd (run (req_cb q) rsp w))" and "world_ok (snd (run (req_cb q) rsp w))"
    and "r \<in> set (reqs_list (snd (run (req_cb q) rsp w)))"
  using run_step[of w rsp "req_cb q"] assms by (auto simp: serving_def dest: cb_stepD cb_step_rx_step)

lemma reply_fail_ok:
  assumes "serving w r q" and "e \<noteq> 0"
  shows "rx_step w (reply_fail run r q e w)"
  unfolding reply_fail_def
  by (rule rx_step_trans[OF run_listed(1)[OF assms(1)] reply_cancel_and_free_ok])
    (use assms in \<open>auto intro!: run_listed[OF assms(1)]\<close>)

lemma reply_done_ok:
  assumes "serving w r q"
  shows "rx_step w (reply_done run r q payload off tot w)"
  unfolding reply_done_def
  by (rule rx_step_trans[OF run_listed(1)[OF assms] reply_cancel_and_free_ok])
    (use assms in \<open>auto simp: rsp_ok_def intro!: run_listed[OF assms]\<close>)

lemma reply_more_ok:
  assumes "serving w r q"
  shows "rx_step w (reply_more run r q payload off tot w)"
proof -
  let ?rsp = "\<lparr>rsp_data = payload, rsp_off = off, rsp_total = tot,
         rsp_get_next = Some Golioth_coap_req_next_block, rsp_get_next_data = Some r,
         rsp_user_data = req_user_data q, rsp_err = (if req_is_observe q then - EMSGSIZE else 0)\<rparr>"
  have "rsp_ok w ?rsp" using assms by (simp add: rsp_ok_def serving_def)
  note ran = run_listed[OF assms this]
  obtain e w1 where e: "run (req_cb q) ?rsp w = (e, w1)" by fastforce
  from ran e have w1: "rx_step w w1" "world_ok w1" "r \<in> set (reqs_list w1)" by simp_all
  from world_ok_listed[OF w1(2,3)] obtain q1 where q1: "w_reqs w1 r = Some q1" by blast
  show ?thesis
    using e q1 w1 rx_step_trans[OF w1(1) reply_cancel_and_free_ok[OF w1(2,3)]]
    by (simp add: reply_more_def)
qed

lemma reply_block2_ok:
  assumes "world_ok w" and "w_reqs w r = Some q"
  shows "rx_step w (reply_block2 sys run r q response bytes payload w)"
proof -
  obtain e ctx where u: "coap_update_from_block sys response bytes (req_block_ctx q) = (e, ctx)"
    by fastforce
  obtain ret ctx2 where n: "coap_next_block_for_option sys response bytes COAP_OPTION_BLOCK2 ctx = (ret, ctx2)"
    by fastforce
  have id: "same_id q (q\<lparr>req_block_ctx := c\<rparr>)" for c q by simp
  define w1 where "w1 = upd_req r (\<lambda>q. q\<lparr>req_block_ctx := ctx\<rparr>) w"
  note W1 = upd_req_ok[OF assms id[where c = ctx], folded w1_def]
  define w2 where "w2 = upd_req r (\<lambda>q. q\<lparr>req_block_ctx := ctx2\<rparr>) w1"
  have s: "serving w r q" using servingI[OF assms] .
  have ok1: "world_ok w1" "rx_step w w1" "serving w1 r q"
    using W1 s settings_ready_client[OF W1(3)] by (simp_all add: rx_step_def serving_def)
  note W2 = upd_req_ok[OF ok1(1) W1(2) id[where c = ctx2], folded w2_def]
  have ok2: "rx_step w w2" "serving w2 r q"
    using W2 ok1 s settings_ready_client[OF W2(3)] rx_step_trans[OF ok1(2) W2(1)]
    by (simp_all add: serving_def rx_stepD)
  have ign: "rx_step w (upd_req r (\<lambda>q. q\<lparr>req_block_ctx := (req_block_ctx q)\<lparr>blk_current := c\<rparr>\<rparr>) w1)" for c
    by (rule rx_step_trans[OF ok1(2)], rule upd_req_ok(1)[OF ok1(1) W1(2)]) simp
  show ?thesis
    using ign rx_step_trans[OF ok1(2) reply_fail_ok[OF ok1(3)], of "- EBADMSG"]
      rx_step_trans[OF ok2(1) reply_done_ok[OF ok2(2)]]
      rx_step_trans[OF ok2(1) reply_more_ok[OF ok2(2)]]
    by (simp add: reply_block2_def u n Let_def w1_def[symmetric] w2_def[symmetric])
qed

lemma reply_handler_ok:
  assumes "world_ok w" and "r \<in> set (reqs_list w)"
  shows "rx_step w (golioth_coap_req_reply_handler sys run r response bytes w)"
proof -
  from world_ok_listed[OF assms] obtain q where q: "w_reqs w r = Some q" by blast
  note s = servingI[OF assms(1) q]
  from q show ?thesis
    by (simp add: golioth_coap_req_reply_handler_def Let_def reply_fail_ok[OF s]
        reply_done_ok[OF s] reply_block2_ok[OF assms(1) q])
qed

lemma process_matched_ok:
  assumes "world_ok w" and "w_reqs w r = Some q"
  shows "rx_step w (process_matched sys run r q rx bytes w)"
proof -
  have r: "r \<in> set (reqs_list w)" using world_ok_allocated[OF assms] .
  obtain uptime w1 where u: "env_read (k_uptime_get sys) w = (uptime, w1)" by fastforce
  then have same: "same_but_env w w1" by blast
  have w1: "world_ok w1" "w_reqs w1 r = Some q" "rx_step w w1" "w_client w1 = w_client w"
    using world_ok_same_but_env[OF assms(1) same] assms(2) same_but_envD[OF same] rx_step_same_but_env[OF assms(1) same]
    by simp_all
  let ?f = "\<lambda>q. q\<lparr>req_reply := \<lparr>reply_seq = coap_get_option_int sys rx bytes COAP_OPTION_OBSERVE,
    reply_ts = uptime\<rparr>\<rparr>"
  have id: "\<And>q. same_id q (?f q)" by simp
  note W2 = upd_req_ok[OF w1(1,2) id]
  have "world_ok (upd_req r ?f w1)" using W2(1) by (simp add: rx_step_def)
  moreover have "r \<in> set (reqs_list (upd_req r ?f w1))" using W2(3) w1(4) r by simp
  ultimately have "rx_step w (golioth_coap_req_reply_handler sys run r rx bytes (upd_req r ?f w1))"
    using rx_step_trans[OF w1(3) rx_step_trans[OF W2(1) reply_handler_ok]] by blast
  with u w1(3) show ?thesis
    by (simp add: process_matched_def Let_def reply_handler_ok[OF assms(1) r])
qed

lemma process_rx_loop_ok:
  "world_ok w \<Longrightarrow> set rs \<subseteq> set (reqs_list w) \<Longrightarrow> rx_step w (process_rx_loop sys run rx bytes rs w)"
proof (induction rs)
  case (Cons r rs)
  then have r: "r \<in> set (reqs_list w)" by simp
  from world_ok_listed[OF Cons.prems(1) r] obtain q b where
    "w_reqs w r = Some q" "w_bufs w (req_data q) = Some b" .
  with Cons show ?case by (simp add: process_matched_ok[OF Cons.prems(1)])
qed simp

lemma process_rx_ok:
  "world_ok w \<Longrightarrow> rx_step w (golioth_coap_req_process_rx sys run rx bytes w)"
  unfolding golioth_coap_req_process_rx_def by (rule process_rx_loop_ok) simp_all

end

section \<open>Asking for the next block\<close>

lemma cb_step_on_request:
  assumes "world_ok w" and "r \<in> set (reqs_list w)" and "pkt_op_keeps_length f"
  shows "cb_step w (snd (on_request f r w))"
proof -
  from world_ok_listed[OF assms(1,2)] obtain q b where q: "w_reqs w r = Some q" "w_bufs w (req_data q) = Some b" .
  obtain err pkt b' where f: "f (req_request q) b = (err, pkt, b')" by (cases "f (req_request q) b")
  have l: "4 \<le> length b'"
    using pkt_op_keeps_lengthD[OF assms(3) f] world_ok_length[OF assms(1) q(2)] by simp
  let ?w = "w\<lparr>w_bufs := (w_bufs w)(req_data q \<mapsto> b')\<rparr>"
  have w: "cb_step w ?w" by (rule cb_step_upd_buf[OF assms(1) q(2) l])
  have "cb_step ?w (upd_req r (\<lambda>q. q\<lparr>req_request := pkt\<rparr>) ?w)"
    by (rule cb_step_upd_req[of _ _ q]) (use cb_stepD(1)[OF w] q in \<open>simp_all add: same_static_def\<close>)
  with w q f show ?thesis by (auto simp: on_request_def intro: cb_step_trans)
qed

lemma cb_step_set_request_id:
  assumes "world_ok w" and "r \<in> set (reqs_list w)"
  shows "cb_step w (set_request_id r i w)"
proof -
  from world_ok_listed[OF assms] obtain q b where q: "w_reqs w r = Some q" "w_bufs w (req_data q) = Some b" .
  have "4 \<le> length b" using world_ok_length[OF assms(1) q(2)] .
  then obtain b' where "coap_packet_set_id i b = Some b'" "length b' = length b"
    by (auto simp: coap_packet_set_id_def)
  with q cb_step_upd_buf[OF assms(1) q(2), of b'] \<open>4 \<le> length b\<close> show ?thesis
    by (simp add: set_request_id_def)
qed

lemma cb_step_pending_init:
  assumes "world_ok w" and "r \<in> set (reqs_list w)"
  shows "cb_step w (golioth_coap_pending_init sys r n w)"
proof -
  from world_ok_listed[OF assms] obtain q where q: "w_reqs w r = Some q" by blast
  obtain t w1 where t: "env_read (k_uptime_get_32 sys) w = (t, w1)" by fastforce
  then have s: "same_but_env w w1" by blast
  have w1: "cb_step w w1" by (rule cb_step_same_but_env[OF assms(1) s])
  have "cb_step w1 (upd_req r (\<lambda>q. q\<lparr>req_pending := \<lparr>pend_t0 = t, pend_timeout = 0, pend_retries = n\<rparr>\<rparr>) w1)"
    by (rule cb_step_upd_req[of _ _ q])
      (use cb_stepD(1)[OF w1] q same_but_envD(2)[OF s] in \<open>simp_all add: same_static_def\<close>)
  with w1 t show ?thesis by (auto simp: golioth_coap_pending_init_def intro: cb_step_trans)
qed

lemma cb_step_append_block2:
  assumes "world_ok w" and "r \<in> set (reqs_list w)" and "coap_lib_ok sys"
  shows "cb_step w (snd (golioth_coap_req_append_block2_option sys r w))"
proof -
  from world_ok_listed[OF assms(1,2)] obtain q where q: "w_reqs w r = Some q" by blast
  let ?f = "\<lambda>q. if pkt_offset (req_request_wo_block2 q) \<noteq> 0
            then q\<lparr>req_request := req_request_wo_block2 q\<rparr>
            else q\<lparr>req_request_wo_block2 := req_request q\<rparr>"
  have w1: "cb_step w (upd_req r ?f w)"
    by (rule cb_step_upd_req[OF assms(1) q]) (simp add: same_static_def)
  have r: "r \<in> set (reqs_list (upd_req r ?f w))" using assms(2) cb_stepD(2)[OF w1] by blast
  from q have "w_reqs (upd_req r ?f w) r = Some (?f q)" by (simp add: upd_req_def)
  then show ?thesis
    using cb_step_trans[OF w1 cb_step_on_request[OF cb_stepD(1)[OF w1] r coap_lib_okD(4)[OF assms(3)]]]
    by (simp add: golioth_coap_req_append_block2_option_def)
qed

context error_callback
begin

lemma next_block_step:
  assumes "world_ok w" and "r \<in> set (reqs_list w)" and "coap_lib_ok sys"
  shows "cb_step w (snd (golioth_coap_req_next_block sys run r status w))"
proof -
  obtain i w1 where i: "env_read (coap_next_id sys) w = (i, w1)" by fastforce
  then have s: "same_but_env w w1" by blast
  have w1: "cb_step w w1" by (rule cb_step_same_but_env[OF assms(1) s])
  have ok1: "world_ok w1" "r \<in> set (reqs_list w1)"
    using cb_stepD(1,2)[OF w1] assms(2) by auto
  from world_ok_listed[OF ok1] obtain q where q: "w_reqs w1 r = Some q" by blast
  have obs: "cb_step w1 (snd (run (req_cb q) (error_rsp (req_user_data q) (- ENOTSUP)) w1))"
    by (rule coap_same_cb_step[OF ok1(1) run_error_rsp])
      (use servingI[OF ok1(1) q] in \<open>simp_all add: serving_def\<close>)
  have w2: "cb_step w1 (set_request_id r i w1)" by (rule cb_step_set_request_id[OF ok1])
  have ok2: "world_ok (set_request_id r i w1)" "r \<in> set (reqs_list (set_request_id r i w1))"
    using cb_stepD(1,2)[OF w2] ok1(2) by auto
  obtain err w3 where a: "golioth_coap_req_append_block2_option sys r (set_request_id r i w1) = (err, w3)"
    by fastforce
  have w3: "cb_step (set_request_id r i w1) w3" using cb_step_append_block2[OF ok2 assms(3)] a by simp
  have ok3: "world_ok w3" "r \<in> set (reqs_list w3)" using cb_stepD(1,2)[OF w3] ok2(2) by auto
  note t3 = cb_step_trans[OF w1 cb_step_trans[OF w2 w3]]
  show ?thesis
    using cb_step_trans[OF w1 obs] t3 cb_step_trans[OF t3 cb_step_pending_init[OF ok3, of sys 3]]
    by (simp add: golioth_coap_req_next_block_def i q a)
qed

end

section \<open>Which request a packet goes to\<close>

definition request_matches ::
  "('e, 'x) sys_scheme \<Rightarrow> coap_packet \<Rightarrow> u8 list \<Rightarrow> 'e world \<Rightarrow> ptr \<Rightarrow> bool" where
  "request_matches sys rx bytes w r =
     (case w_reqs w r of
        None \<Rightarrow> False
      | Some q \<Rightarrow>
          (case w_bufs w (req_data q) of
             None \<Rightarrow> False
           | Some b \<Rightarrow> req_matches sys (req_request q) b rx bytes))"

text \<open>The first request in the list that matches gets the packet; without one nothing happens.\<close>

lemma process_rx_loop_find:
  assumes "world_ok w" and "set rs \<subseteq> set (reqs_list w)"
  shows "process_rx_loop sys run rx bytes rs w =
    (case find (request_matches sys rx bytes w) rs of
       None \<Rightarrow> w
     | Some r \<Rightarrow> process_matched sys run r (the (w_reqs w r)) rx bytes w)"
  using assms(2)
proof (induction rs)
  case (Cons r rs)
  then have "r \<in> set (reqs_list w)" by simp
  from world_ok_listed[OF assms(1) this] obtain q b where "w_reqs w r = Some q" "w_bufs w (req_data q) = Some b" .
  with Cons show ?case by (simp add: request_matches_def)
qed simp


text \<open>
  The tokens are compared over the received length only: a received token that is a proper prefix
  of the request's matches it.
\<close>

lemma prefix_token_matches:
  assumes "coap_header_get_token sys req req_bytes = tok @ rest" and "coap_header_get_token sys rx rx_bytes = tok"
    and "tok \<noteq> []" and "length (tok @ rest) \<le> COAP_TOKEN_MAX_LEN"
  shows "req_matches sys req req_bytes rx rx_bytes"
  using assms by (simp add: req_matches_def token_array_def Let_def)

text \<open>
  On sequence numbers of 24 bits the comparison is the circular one.
\<close>

lemma sequence_newer_circular:
  assumes "0 \<le> v1" "v1 < 2 ^ 24" "0 \<le> v2" "v2 < 2 ^ 24"
  shows "sequence_number_is_newer v1 v2 \<longleftrightarrow> 0 < (v2 - v1) mod 2 ^ 24 \<and> (v2 - v1) mod 2 ^ 24 < 2 ^ 23"
proof (cases "v1 \<le> v2")
  case True
  then have "(v2 - v1) mod 2 ^ 24 = v2 - v1" using assms by (intro mod_pos_pos_trivial) simp_all
  then show ?thesis using True by (auto simp: sequence_number_is_newer_def)
next
  case False
  have "(v2 - v1) mod 2 ^ 24 = (v2 - v1 + 2 ^ 24) mod 2 ^ 24" by simp
  also have "\<dots> = v2 - v1 + 2 ^ 24" using assms False by (intro mod_pos_pos_trivial) simp_all
  finally show ?thesis using False assms by (auto simp: sequence_number_is_newer_def)
qed

end
