(* ===== verification/CoapReqTimer.thy ===== *)
theory CoapReqTimer
  imports CoapReqRx
begin

text \<open>
  \<^verbatim>\<open>net/golioth/coap_req.c\<close>, last part: (re)transmission with exponential back-off, the timeout
  of the event loop, and what happens to the requests when the client connects and disconnects.

  Loops that walk the list while callbacks run use \<open>dlist_foreach_safe\<close>, and the back-off loop
  \<^verbatim>\<open>while (true)\<close> is a partial function: \<open>None\<close> is a call that does not return.
\<close>

section \<open>Back-off\<close>

text \<open>
  With a random percentage of 100 the C code divides by zero; \<open>mod\<close> on words then gives the
  dividend, and the lemmas below ask for more than 100.
\<close>

definition init_ack_timeout :: "('e, 'x) sys_scheme \<Rightarrow> 'e \<Rightarrow> u32 \<times> 'e" where
  "init_ack_timeout sys e =
     (if conf_randomize_ack sys then
        let max_ack = of_nat (conf_ack_timeout_ms sys * conf_ack_random_percent sys div 100);
            min_ack = of_nat (conf_ack_timeout_ms sys)
        in case sys_rand32_get sys e of (x, e') \<Rightarrow> (min_ack + (x mod (max_ack - min_ack)), e')
      else (of_nat (conf_ack_timeout_ms sys), e))"

definition golioth_coap_pending_cycle ::
  "('e, 'x) sys_scheme \<Rightarrow> golioth_coap_pending \<Rightarrow> 'e \<Rightarrow> bool \<times> golioth_coap_pending \<times> 'e" where
  "golioth_coap_pending_cycle sys p e =
     (if pend_timeout p = 0 then
        (case init_ack_timeout sys e of (t, e') \<Rightarrow> (True, p\<lparr>pend_timeout := t\<rparr>, e'))
      else if pend_retries p = 0 then (False, p, e)
      else (True, \<lparr>pend_t0 = pend_t0 p + pend_timeout p, pend_timeout = push_bit 1 (pend_timeout p),
                   pend_retries = pend_retries p - 1\<rparr>, e))"

text \<open>
  The \<^verbatim>\<open>while\<close> loop of \<^verbatim>\<open>golioth_coap_req_poll_prepare\<close>. Its result is the timeout, or \<open>None\<close>
  when the retries are used up, then the pending data, and whether to send.
\<close>

partial_function (option) poll_loop ::
  "('e, 'x) sys_scheme \<Rightarrow> u32 \<Rightarrow> golioth_coap_pending \<Rightarrow> bool \<Rightarrow> 'e
     \<Rightarrow> (int option \<times> golioth_coap_pending \<times> bool \<times> 'e) option" where
  "poll_loop sys now p send e =
     (let timeout = s32_sub (pend_t0 p + pend_timeout p) now in
      if timeout > 0 then Some (Some timeout, p, send, e)
      else
        (case golioth_coap_pending_cycle sys p e of
           (send', p', e') \<Rightarrow>
             if \<not> send' then Some (None, p', send', e')
             else poll_loop sys now p' send' e'))"

declare poll_loop.simps [code]

definition golioth_coap_req_poll_prepare ::
  "('e, 'x) sys_scheme \<Rightarrow> (golioth_req_cb \<Rightarrow> golioth_req_rsp \<Rightarrow> 'e world \<Rightarrow> int \<times> 'e world)
     \<Rightarrow> ptr \<Rightarrow> u32 \<Rightarrow> 'e world \<Rightarrow> (int \<times> 'e world) option" where
  "golioth_coap_req_poll_prepare sys run r now w =
     (case w_reqs w r of
        None \<Rightarrow> Some (0, fault w)
      | Some q \<Rightarrow>
          (case poll_loop sys now (req_pending q) False (w_env w) of
             None \<Rightarrow> None
           | Some (res, p, send, e) \<Rightarrow>
               let w1 = upd_req r (\<lambda>q. q\<lparr>req_pending := p\<rparr>) (w\<lparr>w_env := e\<rparr>)
               in case res of
                    None \<Rightarrow>
                      Some (INT64_MAX, golioth_coap_req_cancel_and_free r
                        (snd (run (req_cb q) (error_rsp (req_user_data q) (- ETIMEDOUT)) w1)))
                  | Some timeout \<Rightarrow>
                      if send then Some (timeout, snd (golioth_coap_req_send sys r w1))
                      else Some (timeout, w1)))"

definition poll_prepare_body ::
  "('e, 'x) sys_scheme \<Rightarrow> (golioth_req_cb \<Rightarrow> golioth_req_rsp \<Rightarrow> 'e world \<Rightarrow> int \<times> 'e world)
     \<Rightarrow> u32 \<Rightarrow> ptr \<Rightarrow> int \<times> 'e world \<Rightarrow> (int \<times> 'e world) option" where
  "poll_prepare_body sys run now r s =
     (case s of (min_timeout, w) \<Rightarrow>
        (case w_reqs w r of
           None \<Rightarrow> Some (min_timeout, fault w)
         | Some q \<Rightarrow>
             if req_is_observe q \<and> \<not> req_is_pending q then Some (min_timeout, w)
             else
               (case golioth_coap_req_poll_prepare sys run r now w of
                  None \<Rightarrow> None
                | Some (req_timeout, w') \<Rightarrow> Some (min min_timeout req_timeout, w'))))"

text \<open>The \<^verbatim>\<open>int64_t\<close> time is passed on as a \<^verbatim>\<open>uint32_t\<close>.\<close>

definition raw_golioth_coap_reqs_poll_prepare ::
  "('e, 'x) sys_scheme \<Rightarrow> (golioth_req_cb \<Rightarrow> golioth_req_rsp \<Rightarrow> 'e world \<Rightarrow> int \<times> 'e world)
     \<Rightarrow> int \<Rightarrow> 'e world \<Rightarrow> (int \<times> 'e world) option" where
  "raw_golioth_coap_reqs_poll_prepare sys run now w =
     dlist_foreach_safe (\<lambda>s. reqs_list (snd s)) (poll_prepare_body sys run (of_int now))
       (dlist_peek_head (reqs_list w)) (INT64_MAX, w)"

definition golioth_coap_reqs_poll_prepare ::
  "('e, 'x) sys_scheme \<Rightarrow> (golioth_req_cb \<Rightarrow> golioth_req_rsp \<Rightarrow> 'e world \<Rightarrow> int \<times> 'e world)
     \<Rightarrow> int \<Rightarrow> 'e world \<Rightarrow> (int \<times> 'e world) option" where
  "golioth_coap_reqs_poll_prepare sys run now w = raw_golioth_coap_reqs_poll_prepare sys run now w"

section \<open>Connect and disconnect\<close>

definition cancel_body ::
  "(golioth_req_cb \<Rightarrow> golioth_req_rsp \<Rightarrow> 'e world \<Rightarrow> int \<times> 'e world) \<Rightarrow> int \<Rightarrow> ptr \<Rightarrow> 'e world
     \<Rightarrow> 'e world option" where
  "cancel_body run reason r w =
     (case w_reqs w r of
        None \<Rightarrow> Some (fault w)
      | Some q \<Rightarrow>
          Some (golioth_coap_req_cancel_and_free r
            (snd (run (req_cb q) (error_rsp (req_user_data q) reason) w))))"

definition golioth_coap_reqs_cancel_all_with_reason ::
  "(golioth_req_cb \<Rightarrow> golioth_req_rsp \<Rightarrow> 'e world \<Rightarrow> int \<times> 'e world) \<Rightarrow> int \<Rightarrow> 'e world
     \<Rightarrow> 'e world option" where
  "golioth_coap_reqs_cancel_all_with_reason run reason w =
     dlist_foreach_safe reqs_list (cancel_body run reason) (dlist_peek_head (reqs_list w)) w"

definition golioth_coap_reqs_on_connect :: "'e world \<Rightarrow> 'e world" where
  "golioth_coap_reqs_on_connect w = upd_client (\<lambda>c. c\<lparr>cl_coap_reqs_connected := True\<rparr>) w"

definition golioth_coap_reqs_on_disconnect ::
  "(golioth_req_cb \<Rightarrow> golioth_req_rsp \<Rightarrow> 'e world \<Rightarrow> int \<times> 'e world) \<Rightarrow> 'e world \<Rightarrow> 'e world option" where
  "golioth_coap_reqs_on_disconnect run w =
     golioth_coap_reqs_cancel_all_with_reason run (- ESHUTDOWN)
       (upd_client (\<lambda>c. c\<lparr>cl_coap_reqs_connected := False\<rparr>) w)"

section \<open>The back-off loop ends\<close>

definition ack_timeout_ok :: "('e, 'x) sys_scheme \<Rightarrow> bool" where
  "ack_timeout_ok sys \<longleftrightarrow>
     0 < conf_ack_timeout_ms sys \<and> conf_ack_timeout_ms sys < 2 ^ 32 \<and>
     (conf_randomize_ack sys \<longrightarrow>
        conf_ack_timeout_ms sys < conf_ack_timeout_ms sys * conf_ack_random_percent sys div 100 \<and>
        conf_ack_timeout_ms sys * conf_ack_random_percent sys div 100 < 2 ^ 32)"

text \<open>The initial timeout lies between the configured one and its random multiple.\<close>

lemma init_ack_timeout_range:
  assumes "ack_timeout_ok sys"
  shows "conf_ack_timeout_ms sys \<le> unat (fst (init_ack_timeout sys e))"
    and "conf_randomize_ack sys \<Longrightarrow> unat (fst (init_ack_timeout sys e)) <
       conf_ack_timeout_ms sys * conf_ack_random_percent sys div 100"
    and "\<not> conf_randomize_ack sys \<Longrightarrow> unat (fst (init_ack_timeout sys e)) = conf_ack_timeout_ms sys"
proof -
  let ?lo = "conf_ack_timeout_ms sys"
  let ?hi = "conf_ack_timeout_ms sys * conf_ack_random_percent sys div 100"
  show "\<not> conf_randomize_ack sys \<Longrightarrow> unat (fst (init_ack_timeout sys e)) = ?lo"
    using assms by (simp add: init_ack_timeout_def ack_timeout_ok_def unat_of_nat)
  have rnd: "?lo \<le> unat (fst (init_ack_timeout sys e)) \<and> unat (fst (init_ack_timeout sys e)) < ?hi"
    if r: "conf_randomize_ack sys"
  proof -
    obtain x e' where x: "sys_rand32_get sys e = (x, e')" by fastforce
    have lt: "?lo < ?hi" "?hi < 2 ^ 32" using assms r by (auto simp: ack_timeout_ok_def)
    have d: "unat (of_nat ?hi - of_nat ?lo :: u32) = ?hi - ?lo"
    proof -
      have "of_nat ?hi - of_nat ?lo = (of_nat (?hi - ?lo) :: u32)" using lt by (simp add: of_nat_diff)
      moreover have "?hi - ?lo < 2 ^ 32" using lt by linarith
      ultimately show ?thesis by (simp add: unat_of_nat)
    qed
    have m: "unat (x mod (of_nat ?hi - of_nat ?lo)) < ?hi - ?lo"
      using lt by (simp add: unat_mod d)
    have "unat (of_nat ?lo + (x mod (of_nat ?hi - of_nat ?lo)) :: u32)
        = ?lo + unat (x mod (of_nat ?hi - of_nat ?lo))"
    proof -
      have "?lo + unat (x mod (of_nat ?hi - of_nat ?lo)) < 2 ^ 32" using m lt by linarith
      moreover have "unat (of_nat ?lo :: u32) = ?lo" using lt by (simp add: unat_of_nat)
      ultimately show ?thesis by (simp add: unat_word_ariths)
    qed
    with m lt show ?thesis
      using r x by (simp add: init_ack_timeout_def Let_def)
  qed
  show "?lo \<le> unat (fst (init_ack_timeout sys e))"
    using rnd assms by (cases "conf_randomize_ack sys")
      (auto simp: init_ack_timeout_def ack_timeout_ok_def unat_of_nat)
  show "conf_randomize_ack sys \<Longrightarrow> unat (fst (init_ack_timeout sys e)) < ?hi"
    using rnd by blast
qed

lemma init_ack_timeout_nonzero: "ack_timeout_ok sys \<Longrightarrow> fst (init_ack_timeout sys e) \<noteq> 0"
  using init_ack_timeout_range(1)[of sys e] by (auto simp: ack_timeout_ok_def)

definition pend_measure :: "golioth_coap_pending \<Rightarrow> nat" where
  "pend_measure p = 2 * unat (pend_retries p) + (if pend_timeout p = 0 then 1 else 0)"

lemma unat_retries_dec: "r \<noteq> 0 \<Longrightarrow> Suc (unat (r - 1 :: u8)) = unat r"
  by (metis Suc_pred' unat_gt_0 unat_minus_one)

lemma pending_cycle_measure:
  assumes "ack_timeout_ok sys" and "golioth_coap_pending_cycle sys p e = (True, p', e')"
  shows "pend_measure p' < pend_measure p"
  using assms(2) init_ack_timeout_nonzero[OF assms(1), of e] unat_retries_dec[of "pend_retries p"]
  by (auto simp: golioth_coap_pending_cycle_def pend_measure_def split: if_splits prod.splits)

lemma poll_loop_terminates:
  assumes "ack_timeout_ok sys"
  shows "\<exists>res. poll_loop sys now p send e = Some res"
proof (induction "pend_measure p" arbitrary: p send e rule: less_induct)
  case less
  obtain send' p' e' where c: "golioth_coap_pending_cycle sys p e = (send', p', e')"
    by (metis prod_cases3)
  show ?case
  proof (cases "s32_sub (pend_t0 p + pend_timeout p) now > 0 \<or> \<not> send'")
    case True
    then have "poll_loop sys now p send e =
        Some (if s32_sub (pend_t0 p + pend_timeout p) now > 0
              then (Some (s32_sub (pend_t0 p + pend_timeout p) now), p, send, e)
              else (None, p', send', e'))"
      by (cases send') (simp_all add: poll_loop.simps[of sys now p] c Let_def)
    then show ?thesis by (rule exI)
  next
    case False
    then have "pend_measure p' < pend_measure p"
      using pending_cycle_measure[OF assms] c by simp
    from less[OF this] obtain res where "poll_loop sys now p' send' e' = Some res" by blast
    with False c have "poll_loop sys now p send e = Some res"
      by (simp add: poll_loop.simps[of sys now p] Let_def)
    then show ?thesis by (rule exI)
  qed
qed

lemma poll_loop_timeout_pos:
  "poll_loop sys now p send e = Some (Some t, p', send', e') \<Longrightarrow> 0 < t"
proof -
  have "(case res of (Some t, _) \<Rightarrow> 0 < t | _ \<Rightarrow> True)"
    if "poll_loop sys now p send e = Some res" for res
    by (rule poll_loop.raw_induct[where P = "\<lambda>_ _ _ _ _ res. case res of (Some t, _) \<Rightarrow> 0 < t | _ \<Rightarrow> True",
          OF _ that]) (auto simp: Let_def split: if_splits prod.splits)
  from this[of "(Some t, p', send', e')"] show "poll_loop sys now p send e = Some (Some t, p', send', e') \<Longrightarrow> 0 < t"
    by simp
qed


section \<open>The list walks\<close>

text \<open>
  \<^verbatim>\<open>golioth_coap_reqs_on_disconnect\<close> clears the flag before it empties the list: in between, the
  memory is in order (\<open>mem_ok\<close>) although the invariant does not hold.
\<close>

definition mem_ok :: "'e world \<Rightarrow> bool" where
  "mem_ok w \<longleftrightarrow> \<not> w_fault w \<and> (\<forall>p. sync_ok (settings_ready w) (w_syncs w p)) \<and>
     heap_ok (settings_ready w) (reqs_list w) True (w_reqs w) (w_bufs w) (w_next w)"

lemma world_ok_mem_ok: "world_ok w \<longleftrightarrow> mem_ok w \<and> (is_connected w \<or> reqs_list w = [])"
  by (auto simp: world_ok_def mem_ok_def heap_ok_def)

lemma mem_ok_distinct: "mem_ok w \<Longrightarrow> distinct (reqs_list w)"
  by (simp add: mem_ok_def heap_ok_def)

lemma mem_ok_listed:
  assumes "mem_ok w" and "r \<in> set (reqs_list w)"
  obtains q b where "w_reqs w r = Some q" "w_bufs w (req_data q) = Some b"
    "ud_ok (settings_ready w) (req_cb q) (req_user_data q)"
proof -
  have H: "heap_ok (settings_ready w) (reqs_list w) True (w_reqs w) (w_bufs w) (w_next w)" using assms(1) by (simp add: mem_ok_def)
  from heap_okD(2)[OF H] assms(2) obtain q where q: "w_reqs w r = Some q" by blast
  then have "req_data q \<in> dom (w_bufs w)" using heap_okD(3)[OF H] by (auto intro: ranI)
  with q that heap_okD(9)[OF H q] show thesis by blast
qed

lemma mem_ok_cancel_and_free:
  assumes "mem_ok w" and "r \<in> set (reqs_list w)"
  shows "mem_ok (golioth_coap_req_cancel_and_free r w)"
    and "reqs_list (golioth_coap_req_cancel_and_free r w) = remove1 r (reqs_list w)"
    and "is_connected (golioth_coap_req_cancel_and_free r w) = is_connected w"
    and "cl_sock (w_client (golioth_coap_req_cancel_and_free r w)) = cl_sock (w_client w)"
    and "w_env (golioth_coap_req_cancel_and_free r w) = w_env w"
    and "w_reqs (golioth_coap_req_cancel_and_free r w) = (w_reqs w)(r := None)"
proof -
  from mem_ok_listed[OF assms] obtain q b where
    q: "w_reqs w r = Some q" "w_bufs w (req_data q) = Some b" by blast
  have e: "golioth_coap_req_cancel_and_free r w =
      w\<lparr>w_client := (w_client w)\<lparr>cl_coap_reqs := remove1 r (reqs_list w)\<rparr>,
        w_reqs := (w_reqs w)(r := None), w_bufs := (w_bufs w)(req_data q := None)\<rparr>"
    using assms(2) q by (simp add: golioth_coap_req_cancel_and_free_def golioth_coap_req_cancel_def
        upd_client_def free_buf_def free_req_obj_def)
  show "mem_ok (golioth_coap_req_cancel_and_free r w)"
    using assms(1) heap_ok_remove[of "settings_ready w" "reqs_list w" True "w_reqs w" "w_bufs w" "w_next w" r q] q
    unfolding e by (simp add: mem_ok_def)
  show "reqs_list (golioth_coap_req_cancel_and_free r w) = remove1 r (reqs_list w)"
    "is_connected (golioth_coap_req_cancel_and_free r w) = is_connected w"
    "cl_sock (w_client (golioth_coap_req_cancel_and_free r w)) = cl_sock (w_client w)"
    "w_env (golioth_coap_req_cancel_and_free r w) = w_env w"
    "w_reqs (golioth_coap_req_cancel_and_free r w) = (w_reqs w)(r := None)"
    by (simp_all add: e)
qed

lemma coap_same_mem_ok: "coap_same w w' \<Longrightarrow> mem_ok w' = mem_ok w"
  using settings_ready_client[of w' w] by (simp add: coap_same_def mem_ok_def sync_ok_def)

text \<open>What a walk over the requests keeps.\<close>

definition walk_keeps :: "'e world \<Rightarrow> 'e world \<Rightarrow> bool" where
  "walk_keeps w w' \<longleftrightarrow> mem_ok w' \<and> is_connected w' = is_connected w \<and>
     cl_sock (w_client w') = cl_sock (w_client w)"

lemma walk_keeps_trans: "walk_keeps a b \<Longrightarrow> walk_keeps b c \<Longrightarrow> walk_keeps a c"
  by (simp add: walk_keeps_def)

context error_callback
begin

lemma cancel_body_ok:
  assumes "mem_ok w" and "r \<in> set (reqs_list w)" and "e \<noteq> 0"
  obtains q w1 w2 where "w_reqs w r = Some q" "w1 = snd (run (req_cb q) (error_rsp (req_user_data q) e) w)"
    "cancel_body run e r w = Some w2" "walk_keeps w w2" "reqs_list w2 = remove1 r (reqs_list w)"
    "w_reqs w2 = (w_reqs w)(r := None)" "w_env w2 = w_env w1"
proof -
  from mem_ok_listed[OF assms(1,2)] obtain q where q: "w_reqs w r = Some q"
    "ud_ok (settings_ready w) (req_cb q) (req_user_data q)" by blast
  define w1 where "w1 = snd (run (req_cb q) (error_rsp (req_user_data q) e) w)"
  have s: "coap_same w w1" unfolding w1_def by (rule run_error_rsp[OF assms(3) q(2)])
  then have "mem_ok w1" "r \<in> set (reqs_list w1)"
    using assms(1,2) coap_same_mem_ok[OF s] by (simp_all add: coap_same_def)
  note C = mem_ok_cancel_and_free[OF this]
  show thesis
    by (rule that[of q w1 "golioth_coap_req_cancel_and_free r w1"])
      (use q C s in \<open>auto simp: w1_def cancel_body_def walk_keeps_def coap_same_def\<close>)
qed

lemma walk_cancel:
  assumes "mem_ok w" and "reqs_list w = l" and "e \<noteq> 0"
  obtains w' where "walk (cancel_body run e) l w = Some w'" "walk_keeps w w'" "reqs_list w' = []"
  using assms(1,2)
proof (induction l arbitrary: w thesis)
  case Nil
  then show ?case by (simp add: walk_keeps_def)
next
  case (Cons r l)
  from Cons.prems have "r \<in> set (reqs_list w)" by simp
  from cancel_body_ok[OF Cons.prems(2) this assms(3)] obtain w2 where
    w2: "cancel_body run e r w = Some w2" "walk_keeps w w2" "reqs_list w2 = l"
    using Cons.prems(3) by (metis remove1.simps(2))
  moreover have "mem_ok w2" using w2(2) by (simp add: walk_keeps_def)
  ultimately obtain w' where "walk (cancel_body run e) l w2 = Some w'" "walk_keeps w2 w'" "reqs_list w' = []"
    using Cons.IH[of w2] by blast
  with w2 Cons.prems(1)[of w'] walk_keeps_trans show ?case by auto
qed

text \<open>The traversal of the code is that walk.\<close>

lemma cancel_all_walk:
  assumes "mem_ok w" and "e \<noteq> 0"
  shows "golioth_coap_reqs_cancel_all_with_reason run e w = walk (cancel_body run e) (reqs_list w) w"
proof -
  have "\<exists>w'. cancel_body run e r w = Some w' \<and> mem_ok w' \<and>
      (reqs_list w' = reqs_list w \<or> reqs_list w' = remove1 r (reqs_list w))"
    if "mem_ok w" "r \<in> set (reqs_list w)" for r w
    by (rule cancel_body_ok[OF that assms(2)]) (auto simp: walk_keeps_def)
  from foreach_safe_walk[of mem_ok reqs_list, OF this assms(1) mem_ok_distinct[OF assms(1)]]
  show ?thesis unfolding golioth_coap_reqs_cancel_all_with_reason_def by metis
qed

lemma cancel_all_ok:
  assumes "mem_ok w" and "e \<noteq> 0"
  obtains w' where "golioth_coap_reqs_cancel_all_with_reason run e w = Some w'"
    "walk_keeps w w'" "reqs_list w' = []"
  using walk_cancel[OF assms(1) refl assms(2)] cancel_all_walk[OF assms] by metis

lemma on_disconnect_ok:
  assumes "world_ok w"
  obtains w' where "golioth_coap_reqs_on_disconnect run w = Some w'" "world_ok w'"
    "\<not> is_connected w'" "reqs_list w' = []" "cl_sock (w_client w') = cl_sock (w_client w)"
proof -
  let ?w = "upd_client (\<lambda>c. c\<lparr>cl_coap_reqs_connected := False\<rparr>) w"
  have "mem_ok ?w" using assms by (simp add: world_ok_mem_ok mem_ok_def upd_client_def settings_ready_def)
  then obtain w' where "golioth_coap_reqs_on_disconnect run w = Some w'"
    "walk_keeps ?w w'" "reqs_list w' = []"
    unfolding golioth_coap_reqs_on_disconnect_def using cancel_all_ok[of ?w "- ESHUTDOWN"] by auto
  then show thesis using that by (simp add: world_ok_mem_ok walk_keeps_def upd_client_def)
qed

text \<open>Each callback is called once, in the order of the list.\<close>

lemma walk_cancel_log:
  assumes "mem_ok w" and "reqs_list w = l" and "e \<noteq> 0"
    and "\<And>cb rsp w. log (w_env (snd (run cb rsp w))) = log (w_env w) @ [(cb, rsp)]"
    and "walk (cancel_body run e) l w = Some w'"
  shows "log (w_env w') = log (w_env w) @
    map (\<lambda>r. (req_cb (the (w_reqs w r)), error_rsp (req_user_data (the (w_reqs w r))) e)) l"
  using assms(1,2,5)
proof (induction l arbitrary: w)
  case (Cons r l)
  from Cons.prems have "r \<in> set (reqs_list w)" by simp
  from cancel_body_ok[OF Cons.prems(1) this assms(3)] obtain q w1 w2 where
    w2: "w_reqs w r = Some q" "w1 = snd (run (req_cb q) (error_rsp (req_user_data q) e) w)"
      "cancel_body run e r w = Some w2" "walk_keeps w w2" "reqs_list w2 = remove1 r (reqs_list w)"
      "w_reqs w2 = (w_reqs w)(r := None)" "w_env w2 = w_env w1" .
  have "r \<notin> set l" using mem_ok_distinct[OF Cons.prems(1)] Cons.prems(2) by simp
  then have same: "map (\<lambda>x. (req_cb (the (w_reqs w2 x)), error_rsp (req_user_data (the (w_reqs w2 x))) e)) l
    = map (\<lambda>x. (req_cb (the (w_reqs w x)), error_rsp (req_user_data (the (w_reqs w x))) e)) l"
    using w2(6) by auto
  have "mem_ok w2" "reqs_list w2 = l" "walk (cancel_body run e) l w2 = Some w'"
    using w2 Cons.prems by (simp_all add: walk_keeps_def)
  from Cons.IH[OF this] show ?case
    using w2 assms(4)[of "req_cb q" "error_rsp (req_user_data q) e" w] \<open>r \<notin> set l\<close> by (simp add: same)
qed simp

text \<open>The event loop's walk.\<close>

lemma req_poll_prepare_ok:
  assumes "world_ok w" and "r \<in> set (reqs_list w)" and "ack_timeout_ok sys"
  obtains t w' where "golioth_coap_req_poll_prepare sys run r now w = Some (t, w')" "0 < t"
    "rx_step w w'" "reqs_list w' = reqs_list w \<or> reqs_list w' = remove1 r (reqs_list w)"
proof -
  from world_ok_listed[OF assms(1,2)] obtain q b where q: "w_reqs w r = Some q" "w_bufs w (req_data q) = Some b" .
  obtain res p send e where l: "poll_loop sys now (req_pending q) False (w_env w) = Some (res, p, send, e)"
    using poll_loop_terminates[OF assms(3), of now "req_pending q" False "w_env w"] by auto
  define w1 where "w1 = upd_req r (\<lambda>q. q\<lparr>req_pending := p\<rparr>) (w\<lparr>w_env := e\<rparr>)"
  have "rx_step (w\<lparr>w_env := e\<rparr>) w1" "w_client w1 = w_client w"
    using upd_req_ok[of "w\<lparr>w_env := e\<rparr>" r q "\<lambda>q. q\<lparr>req_pending := p\<rparr>"] assms(1) q(1)
    by (simp_all add: w1_def)
  then have w1: "rx_step w w1" "world_ok w1" "w_client w1 = w_client w" by (simp_all add: rx_step_def)
  show thesis
  proof (cases res)
    case None
    let ?w2 = "snd (run (req_cb q) (error_rsp (req_user_data q) (- ETIMEDOUT)) w1)"
    have s: "coap_same w1 ?w2"
      by (rule run_error_rsp) (use servingI[OF assms(1) q(1)] settings_ready_client[OF w1(3)] in \<open>simp_all add: serving_def\<close>)
    then have w2: "world_ok ?w2" "w_client ?w2 = w_client w" using w1(2,3) coap_same_world_ok[OF s] by (simp_all add: coap_same_def)
    then have "mem_ok ?w2" "r \<in> set (reqs_list ?w2)" using assms(2) by (simp_all add: world_ok_mem_ok)
    note C = mem_ok_cancel_and_free[OF this]
    have "rx_step w (golioth_coap_req_cancel_and_free r ?w2)"
      by (rule rx_step_trans[OF w1(1) rx_step_trans[OF rx_step_coap_same[OF w1(2) s] rx_step_cancel_and_free[OF w2(1)]]])
        (use assms(2) w2(2) in simp)
    with C w2 q l None that[of INT64_MAX "golioth_coap_req_cancel_and_free r ?w2"] show thesis
      by (simp add: golioth_coap_req_poll_prepare_def w1_def[symmetric] Let_def)
  next
    case (Some t)
    have t: "0 < t"
      by (rule poll_loop_timeout_pos[of sys now "req_pending q" False "w_env w" t p send e])
        (use l Some in simp)
    have "same_but_env w1 (snd (golioth_coap_req_send sys r w1))"
    proof -
      have "w_reqs w1 r = Some (q\<lparr>req_pending := p\<rparr>)" "w_bufs w1 (req_data q) = Some b"
        using q by (simp_all add: w1_def upd_req_def)
      then show ?thesis
        by (simp add: golioth_coap_req_send_def) (metis golioth_send_coap_frame prod.collapse)
    qed
    then have "rx_step w1 (snd (golioth_coap_req_send sys r w1))"
      "w_client (snd (golioth_coap_req_send sys r w1)) = w_client w"
      using w1(2) same_but_envD(1)[of w1] w1(3) by (auto intro: rx_step_same_but_env)
    with w1 q l Some t show thesis
      by (intro that[of t "if send then snd (golioth_coap_req_send sys r w1) else w1"])
        (auto simp: golioth_coap_req_poll_prepare_def w1_def[symmetric] Let_def intro: rx_step_trans)
  qed
qed

definition poll_ok :: "'b world \<Rightarrow> int \<times> 'b world \<Rightarrow> bool" where
  "poll_ok w s \<longleftrightarrow> rx_step w (snd s) \<and> 0 < fst s \<and> fst s \<le> INT64_MAX"

lemma poll_body_ok:
  assumes "poll_ok w0 s" and "r \<in> set (reqs_list (snd s))" and "ack_timeout_ok sys"
  shows "\<exists>s'. poll_prepare_body sys run now r s = Some s' \<and> poll_ok w0 s' \<and>
      (reqs_list (snd s') = reqs_list (snd s) \<or> reqs_list (snd s') = remove1 r (reqs_list (snd s)))"
proof -
  obtain m w where s: "s = (m, w)" by (cases s)
  have w: "world_ok w" "rx_step w0 w" "r \<in> set (reqs_list w)" "0 < m" "m \<le> INT64_MAX"
    using assms(1,2) s by (simp_all add: poll_ok_def rx_step_def)
  from world_ok_listed[OF w(1,3)] obtain q where q: "w_reqs w r = Some q" by blast
  from req_poll_prepare_ok[OF w(1,3) assms(3)] obtain t w' where
    "golioth_coap_req_poll_prepare sys run r now w = Some (t, w')" "0 < t"
    "rx_step w w'" "reqs_list w' = reqs_list w \<or> reqs_list w' = remove1 r (reqs_list w)" .
  then show ?thesis
    using w q s rx_step_trans[of w0 w w'] by (auto simp: poll_prepare_body_def poll_ok_def)
qed

lemma reqs_poll_prepare_ok:
  assumes "world_ok w" and "ack_timeout_ok sys"
  obtains t w' where "golioth_coap_reqs_poll_prepare sys run now w = Some (t, w')"
    "0 < t" "t \<le> INT64_MAX" "rx_step w w'"
proof -
  have init: "poll_ok w (INT64_MAX, w)" using assms(1) by (simp add: poll_ok_def)
  have d: "distinct (reqs_list (snd (INT64_MAX, w)))" using world_okD(2)[OF assms(1)] by simp
  obtain s' where "dlist_foreach_safe (\<lambda>s. reqs_list (snd s)) (poll_prepare_body sys run (of_int now))
      (dlist_peek_head (reqs_list (snd (INT64_MAX, w)))) (INT64_MAX, w) = Some s'" "poll_ok w s'"
    by (rule foreach_safe_walk[of "poll_ok w" "\<lambda>s. reqs_list (snd s)", OF poll_body_ok[OF _ _ assms(2)] init d])
  then show thesis
    using that[of "fst s'" "snd s'"]
    by (simp add: golioth_coap_reqs_poll_prepare_def raw_golioth_coap_reqs_poll_prepare_def poll_ok_def)
qed

end


section \<open>The back-off schedule\<close>

text \<open>
  The pending data after \<open>i\<close> retransmissions of a request first polled at \<open>t0\<close> with initial timeout \<open>T\<close>:
  the packet was last sent for the slot that began at \<open>(2\<^sup>i - 1) T\<close> and lasts \<open>2\<^sup>i T\<close>.
\<close>

definition backoff :: "u32 \<Rightarrow> nat \<Rightarrow> nat \<Rightarrow> golioth_coap_pending" where
  "backoff t0 T i = \<lparr>pend_t0 = t0 + of_nat ((2 ^ i - 1) * T), pend_timeout = of_nat (2 ^ i * T),
     pend_retries = 3 - of_nat i\<rparr>"

text \<open>The slot that holds the elapsed time \<open>n\<close>: 4 slots of T, 2T, 4T and 8T, then none.\<close>

definition backoff_slot :: "nat \<Rightarrow> nat \<Rightarrow> nat" where
  "backoff_slot T n = (if n < T then 0 else if n < 3 * T then 1 else if n < 7 * T then 2
     else if n < 15 * T then 3 else 4)"

lemma s32_sub_elapsed:
  assumes "d < 2 ^ 31" and "n < 2 ^ 31"
  shows "s32_sub (t0 + of_nat d) (t0 + of_nat n) = int d - int n"
proof -
  have "(t0 + of_nat d) - (t0 + of_nat n) = (of_int (int d - int n) :: u32)" by simp
  moreover have "sint (of_int (int d - int n) :: u32) = int d - int n"
    using assms by (simp add: sint_sbintrunc' signed_take_bit_int_eq_self del: of_int_diff)
  ultimately show ?thesis by (simp add: s32_sub_def)
qed

lemma backoff_deadline: "pend_t0 (backoff t0 T i) + pend_timeout (backoff t0 T i) = t0 + of_nat ((2 ^ Suc i - 1) * T)"
proof -
  have "(2 ^ i - 1) * T + 2 ^ i * T = (2 ^ Suc i - 1) * T"
    by (simp add: distrib_right[symmetric] mult_2[symmetric] algebra_simps)
  then have "(of_nat ((2 ^ i - 1) * T) :: u32) + of_nat (2 ^ i * T) = of_nat ((2 ^ Suc i - 1) * T)"
    by (simp only: of_nat_add[symmetric])
  then show ?thesis by (simp only: backoff_def golioth_coap_pending.select_convs add.assoc)
qed

lemma backoff_cycle:
  assumes "i < 3" and "0 < T" and "15 * T < 2 ^ 31"
  shows "golioth_coap_pending_cycle sys (backoff t0 T i) e = (True, backoff t0 T (Suc i), e)"
proof -
  have i: "i = 0 \<or> i = 1 \<or> i = 2" using assms(1) by auto
  have lt: "2 ^ i * T < 2 ^ 32" using i assms(3) by auto
  have "(of_nat (2 ^ i * T) :: u32) \<noteq> 0"
    using lt assms(2) by (intro of_nat_u32_neq_0) simp_all
  moreover have "(3 :: u8) - of_nat i \<noteq> 0" using i by auto
  moreover have "t0 + of_nat ((2 ^ i - 1) * T) + of_nat (2 ^ i * T) = t0 + (of_nat ((2 ^ Suc i - 1) * T) :: u32)"
    using backoff_deadline[of t0 T i] by (simp add: backoff_def)
  moreover have "push_bit 1 (of_nat (2 ^ i * T) :: u32) = of_nat (2 ^ Suc i * T)"
    by (simp add: push_bit_eq_mult mult.commute)
  ultimately show ?thesis
    by (simp add: golioth_coap_pending_cycle_def backoff_def del: of_nat_mult of_nat_power power_Suc)
qed

lemma backoff_exhausted:
  assumes "0 < T" and "15 * T < 2 ^ 31"
  shows "golioth_coap_pending_cycle sys (backoff t0 T 3) e = (False, backoff t0 T 3, e)"
proof -
  have "(of_nat (8 * T) :: u32) \<noteq> 0"
    using assms by (intro of_nat_u32_neq_0) simp_all
  then show ?thesis by (simp add: golioth_coap_pending_cycle_def backoff_def del: of_nat_mult)
qed

lemma backoff_timeout:
  assumes "i \<le> 3" and "15 * T < 2 ^ 31" and "n < 2 ^ 31"
  shows "s32_sub (pend_t0 (backoff t0 T i) + pend_timeout (backoff t0 T i)) (t0 + of_nat n)
    = int ((2 ^ Suc i - 1) * T) - int n"
proof -
  have i: "i = 0 \<or> i = 1 \<or> i = 2 \<or> i = 3" using assms(1) by auto
  then have "(2 ^ Suc i - 1) * T \<le> 15 * T" by auto
  then show ?thesis using assms(2,3) by (subst backoff_deadline, intro s32_sub_elapsed) linarith+
qed

lemma poll_loop_step:
  assumes "i \<le> 3" and "0 < T" and "15 * T < 2 ^ 31" and "n < 2 ^ 31"
  shows "poll_loop sys (t0 + of_nat n) (backoff t0 T i) send e =
    (if n < (2 ^ Suc i - 1) * T
     then Some (Some (int ((2 ^ Suc i - 1) * T) - int n), backoff t0 T i, send, e)
     else if i = 3 then Some (None, backoff t0 T 3, False, e)
     else poll_loop sys (t0 + of_nat n) (backoff t0 T (Suc i)) True e)"
proof -
  define d where "d = (2 ^ Suc i - 1) * T"
  have t: "s32_sub (pend_t0 (backoff t0 T i) + pend_timeout (backoff t0 T i)) (t0 + of_nat n) = int d - int n"
    unfolding d_def by (rule backoff_timeout[OF assms(1,3,4)])
  have s: "poll_loop sys (t0 + of_nat n) (backoff t0 T i) send e =
     (if int d - int n > 0 then Some (Some (int d - int n), backoff t0 T i, send, e)
      else (case golioth_coap_pending_cycle sys (backoff t0 T i) e of
           (send', p', e') \<Rightarrow> if \<not> send' then Some (None, p', send', e')
             else poll_loop sys (t0 + of_nat n) p' send' e'))"
    by (subst poll_loop.simps) (simp only: t Let_def)
  show ?thesis unfolding d_def[symmetric]
  proof (cases "i = 3")
    case True
    with s show "poll_loop sys (t0 + of_nat n) (backoff t0 T i) send e =
      (if n < d then Some (Some (int d - int n), backoff t0 T i, send, e)
       else if i = 3 then Some (None, backoff t0 T 3, False, e)
       else poll_loop sys (t0 + of_nat n) (backoff t0 T (Suc i)) True e)"
      by (simp add: backoff_exhausted[OF assms(2,3)])
  next
    case False
    with assms(1) have "i < 3" by simp
    with s show "poll_loop sys (t0 + of_nat n) (backoff t0 T i) send e =
      (if n < d then Some (Some (int d - int n), backoff t0 T i, send, e)
       else if i = 3 then Some (None, backoff t0 T 3, False, e)
       else poll_loop sys (t0 + of_nat n) (backoff t0 T (Suc i)) True e)"
      by (simp add: backoff_cycle[OF _ assms(2,3)])
  qed
qed

text \<open>One poll, from any slot: the loop goes straight to the slot of the current time.\<close>

lemma poll_loop_backoff:
  assumes "i \<le> 3" and "0 < T" and "15 * T < 2 ^ 31" and "n < 2 ^ 31"
  shows "poll_loop sys (t0 + of_nat n) (backoff t0 T i) send e =
    (if n < 15 * T then
       Some (Some (int ((2 ^ Suc (max i (backoff_slot T n)) - 1) * T) - int n),
             backoff t0 T (max i (backoff_slot T n)), send \<or> i < backoff_slot T n, e)
     else Some (None, backoff t0 T 3, False, e))"
proof -
  note step = poll_loop_step[OF _ assms(2-4)]
  have i: "i = 0 \<or> i = 1 \<or> i = 2 \<or> i = 3" using assms(1) by auto
  then show ?thesis
    by (elim disjE)
      (auto simp: step backoff_slot_def numeral_2_eq_2[symmetric] numeral_3_eq_3[symmetric])
qed

text \<open>
  C15. The wait of a fresh request follows exponential backoff: with a first timeout T the poll n ms
  after the start waits for the end of the current of the four intervals T, 2T, 4T, 8T, and
  reports a timeout exactly from 15T on; the loop ends.
\<close>

lemma poll_loop_fresh:
  assumes "init_ack_timeout sys e = (of_nat T, e')" and "0 < T" and "15 * T < 2 ^ 31" and "n < 2 ^ 31"
  shows "poll_loop sys (t0 + of_nat n) \<lparr>pend_t0 = t0, pend_timeout = 0, pend_retries = 3\<rparr> False e =
    (if n < 15 * T then
       Some (Some (int ((2 ^ Suc (backoff_slot T n) - 1) * T) - int n), backoff t0 T (backoff_slot T n), True, e')
     else Some (None, backoff t0 T 3, False, e'))"
proof -
  have "\<not> 0 < s32_sub (t0 + 0) (t0 + of_nat n)"
    using s32_sub_elapsed[of 0 n t0] assms(4) by simp
  moreover have "golioth_coap_pending_cycle sys \<lparr>pend_t0 = t0, pend_timeout = 0, pend_retries = 3\<rparr> e
     = (True, backoff t0 T 0, e')"
    using assms(1) by (simp add: golioth_coap_pending_cycle_def backoff_def)
  ultimately show ?thesis
    using poll_loop_backoff[of 0 T n sys t0 True e'] assms(2-4)
    by (subst poll_loop.simps) (simp add: Let_def)
qed

section \<open>The number of transmissions\<close>

text \<open>
  Whatever the clock says, a poll moves forward through the slots, and sends only when it has moved.
\<close>

lemma poll_loop_slots:
  assumes "i \<le> 3" and "0 < T" and "15 * T < 2 ^ 31"
    and "poll_loop sys now (backoff t0 T i) send e = Some (res, p', send', e')"
  shows "\<exists>j\<le>3. i \<le> j \<and> p' = backoff t0 T j \<and> e' = e \<and> (res \<noteq> None \<longrightarrow> send' \<longrightarrow> send \<or> i < j)"
  using assms(1,4)
proof (induction "3 - i" arbitrary: i send)
  case 0
  then have i: "i = 3" by simp
  from 0(3) show ?case unfolding i
    by (subst (asm) poll_loop.simps)
      (auto simp: Let_def backoff_exhausted[OF assms(2,3)] split: if_splits intro!: exI[of _ 3])
next
  case (Suc d)
  then have i: "i < 3" by simp
  show ?case
  proof (cases "0 < s32_sub (pend_t0 (backoff t0 T i) + pend_timeout (backoff t0 T i)) now")
    case True
    with Suc.prems have "p' = backoff t0 T i" "e' = e" "send' = send"
      by (simp_all add: poll_loop.simps[of sys now "backoff t0 T i"] Let_def)
    with Suc.prems(1) show ?thesis by blast
  next
    case False
    with Suc.prems have "poll_loop sys now (backoff t0 T (Suc i)) True e = Some (res, p', send', e')"
      by (simp add: poll_loop.simps[of sys now "backoff t0 T i"] Let_def backoff_cycle[OF i assms(2,3)])
    moreover have "d = 3 - Suc i" "Suc i \<le> 3" using Suc.hyps(2) i by simp_all
    ultimately show ?thesis using Suc.hyps(1)[of "Suc i" True] by (meson Suc_le_lessD order_less_imp_le)
  qed
qed

text \<open>How often a request is sent over a sequence of polls, at any times.\<close>

fun transmissions :: "('e, 'x) sys_scheme \<Rightarrow> u32 list \<Rightarrow> golioth_coap_pending \<Rightarrow> 'e \<Rightarrow> nat option" where
  "transmissions sys [] p e = Some 0"
| "transmissions sys (now # nows) p e =
     (case poll_loop sys now p False e of
        None \<Rightarrow> None
      | Some (None, _) \<Rightarrow> Some 0
      | Some (Some t, p', send, e') \<Rightarrow>
          map_option (\<lambda>n. n + (if send then 1 else 0)) (transmissions sys nows p' e'))"

lemma transmissions_backoff:
  assumes "ack_timeout_ok sys" and "0 < T" and "15 * T < 2 ^ 31" and "i \<le> 3"
  shows "\<exists>n\<le>3 - i. transmissions sys nows (backoff t0 T i) e = Some n"
  using assms(4)
proof (induction nows arbitrary: i)
  case (Cons now nows)
  obtain res p' send' e' where l: "poll_loop sys now (backoff t0 T i) False e = Some (res, p', send', e')"
    using poll_loop_terminates[OF assms(1), of now "backoff t0 T i" False e] by auto
  from poll_loop_slots[OF Cons.prems assms(2,3) l] obtain j where
    j: "j \<le> 3" "i \<le> j" "p' = backoff t0 T j" "e' = e" "res \<noteq> None \<longrightarrow> send' \<longrightarrow> i < j" by auto
  from Cons.IH[OF j(1)] obtain n where "n \<le> 3 - j" "transmissions sys nows p' e' = Some n"
    using j by auto
  then show ?case using l j Cons.prems by (cases res) auto
qed simp

text \<open>
  C16. A new request is sent at most four times: once, and three times again.
\<close>

lemma transmissions_fresh:
  assumes "ack_timeout_ok sys" and "fst (init_ack_timeout sys e) = of_nat T" and "0 < T" and "15 * T < 2 ^ 31"
  shows "\<exists>n\<le>4. transmissions sys nows \<lparr>pend_t0 = t0, pend_timeout = 0, pend_retries = 3\<rparr> e = Some n"
proof (induction nows)
  case (Cons now nows)
  let ?p = "\<lparr>pend_t0 = t0, pend_timeout = 0, pend_retries = 3\<rparr> :: golioth_coap_pending"
  obtain e1 where i: "init_ack_timeout sys e = (of_nat T, e1)" using assms(2) by (cases "init_ack_timeout sys e") simp
  then have c: "golioth_coap_pending_cycle sys ?p e = (True, backoff t0 T 0, e1)"
    by (simp add: golioth_coap_pending_cycle_def backoff_def)
  show ?case
  proof (cases "0 < s32_sub t0 now")
    case True
    then have "poll_loop sys now ?p False e = Some (Some (s32_sub t0 now), ?p, False, e)"
      by (subst poll_loop.simps) (simp add: Let_def)
    with Cons show ?thesis by auto
  next
    case False
    then have "poll_loop sys now ?p False e = poll_loop sys now (backoff t0 T 0) True e1"
      by (subst poll_loop.simps) (simp add: Let_def c)
    moreover obtain res p' send' e' where l: "poll_loop sys now (backoff t0 T 0) True e1 = Some (res, p', send', e')"
      using poll_loop_terminates[OF assms(1), of now "backoff t0 T 0" True e1] by auto
    moreover obtain j where j: "j \<le> 3" "p' = backoff t0 T j"
      using poll_loop_slots[OF _ assms(3,4) l] by auto
    moreover obtain n where "n \<le> 3 - j" "transmissions sys nows p' e' = Some n"
      using transmissions_backoff[OF assms(1,3,4) j(1)] j(2) by blast
    ultimately show ?thesis by (cases res) auto
  qed
qed simp

end
