(* ===== verification/CoapReqSync.thy ===== *)
theory CoapReqSync
  imports CoapReqTimer
begin

text \<open>
  \<^verbatim>\<open>net/golioth/coap_req.c\<close>: the blocking call \<^verbatim>\<open>golioth_coap_req_sync\<close> and its callback.

  The structure \<^verbatim>\<open>golioth_req_sync_data\<close> lives on the caller's stack, at the address \<open>p\<close>. The
  call is split where it blocks: \<open>begin\<close> submits the request, then the receiving thread runs
  (\<open>wait\<close>, a parameter), and \<open>end\<close> takes the semaphore. \<open>None\<close> is a caller that is still
  blocked.
\<close>

section \<open>The callback\<close>

text \<open>A semaphore with a limit of 1.\<close>

definition sem_give :: "ptr \<Rightarrow> 'e world \<Rightarrow> 'e world" where
  "sem_give p w = w\<lparr>w_syncs := (w_syncs w)(p := (w_syncs w p)\<lparr>sync_sem := 1\<rparr>)\<rparr>"

definition set_sync_err :: "ptr \<Rightarrow> int \<Rightarrow> 'e world \<Rightarrow> 'e world" where
  "set_sync_err p e w = w\<lparr>w_syncs := (w_syncs w)(p := (w_syncs w p)\<lparr>sync_err := e\<rparr>)\<rparr>"

text \<open>
  \<open>inner\<close> runs the callback it forwards to and \<open>get_next\<close> is the function the response's
  \<^verbatim>\<open>get_next\<close> stands for.
\<close>

definition golioth_req_sync_cb ::
  "(golioth_user_cb \<Rightarrow> golioth_req_rsp \<Rightarrow> 'e world \<Rightarrow> int \<times> 'e world)
     \<Rightarrow> (ptr \<Rightarrow> int \<Rightarrow> 'e world \<Rightarrow> int \<times> 'e world) \<Rightarrow> golioth_req_rsp \<Rightarrow> 'e world \<Rightarrow> int \<times> 'e world" where
  "golioth_req_sync_cb inner get_next rsp w =
     (case rsp_user_data rsp of
        UD_sync p \<Rightarrow>
          if rsp_err rsp \<noteq> 0 then (0, sem_give p (set_sync_err p (rsp_err rsp) w))
          else
            (case (case sync_cb (w_syncs w p) of
                     Some cb \<Rightarrow> inner cb (rsp\<lparr>rsp_user_data := sync_user_data (w_syncs w p)\<rparr>) w
                   | None \<Rightarrow> (0, w)) of
               (err, w1) \<Rightarrow>
                 if err \<noteq> 0 then (err, sem_give p w1)
                 else if rsp_get_next rsp \<noteq> None
                 then (case rsp_get_next_data rsp of
                         Some r \<Rightarrow> (0, snd (get_next r 0 w1))
                       | None \<Rightarrow> (0, fault w1))
                 else (0, sem_give p w1))
      | _ \<Rightarrow> (0, fault w))"

section \<open>The call\<close>

definition golioth_coap_req_sync_begin ::
  "('e, 'x) sys_scheme \<Rightarrow> u8 \<Rightarrow> u8 list list \<Rightarrow> nat \<Rightarrow> u8 list \<Rightarrow> golioth_user_cb option
     \<Rightarrow> user_data \<Rightarrow> nat \<Rightarrow> ptr \<Rightarrow> 'e world \<Rightarrow> int \<times> 'e world" where
  "golioth_coap_req_sync_begin sys method pathv format data cb ud flags p w =
     golioth_coap_req_cb sys method pathv format data (Some Golioth_req_sync_cb) (UD_sync p) flags
       (w\<lparr>w_syncs := (w_syncs w)(p := \<lparr>sync_sem = 0, sync_err = 0, sync_cb = cb, sync_user_data = ud\<rparr>)\<rparr>)"

definition golioth_coap_req_sync_end :: "ptr \<Rightarrow> 'e world \<Rightarrow> (int \<times> 'e world) option" where
  "golioth_coap_req_sync_end p w =
     (if sync_sem (w_syncs w p) = 0 then None
      else
        let w1 = w\<lparr>w_syncs := (w_syncs w)(p := (w_syncs w p)\<lparr>sync_sem := sync_sem (w_syncs w p) - 1\<rparr>)\<rparr>
        in if sync_err (w_syncs w1 p) \<noteq> 0 then Some (sync_err (w_syncs w1 p), w1) else Some (0, w1))"

definition golioth_coap_req_sync ::
  "('e, 'x) sys_scheme \<Rightarrow> ('e world \<Rightarrow> 'e world) \<Rightarrow> u8 \<Rightarrow> u8 list list \<Rightarrow> nat \<Rightarrow> u8 list
     \<Rightarrow> golioth_user_cb option \<Rightarrow> user_data \<Rightarrow> nat \<Rightarrow> ptr \<Rightarrow> 'e world \<Rightarrow> (int \<times> 'e world) option" where
  "golioth_coap_req_sync sys wait method pathv format data cb ud flags p w =
     (case golioth_coap_req_sync_begin sys method pathv format data cb ud flags p w of
        (err, w1) \<Rightarrow> if err \<noteq> 0 then Some (err, w1) else golioth_coap_req_sync_end p (wait w1))"

section \<open>Lemmas\<close>

lemma sem_give_sel [simp]:
  "w_client (sem_give p w) = w_client w" "w_reqs (sem_give p w) = w_reqs w"
  "w_bufs (sem_give p w) = w_bufs w" "w_preallocs (sem_give p w) = w_preallocs w"
  "w_next (sem_give p w) = w_next w" "w_fault (sem_give p w) = w_fault w" "w_env (sem_give p w) = w_env w"
  "w_syncs (sem_give p w) = (w_syncs w)(p := (w_syncs w p)\<lparr>sync_sem := 1\<rparr>)"
  by (simp_all add: sem_give_def)

lemma set_sync_err_sel [simp]:
  "w_client (set_sync_err p e w) = w_client w" "w_reqs (set_sync_err p e w) = w_reqs w"
  "w_bufs (set_sync_err p e w) = w_bufs w" "w_preallocs (set_sync_err p e w) = w_preallocs w"
  "w_next (set_sync_err p e w) = w_next w" "w_fault (set_sync_err p e w) = w_fault w"
  "w_env (set_sync_err p e w) = w_env w"
  "w_syncs (set_sync_err p e w) = (w_syncs w)(p := (w_syncs w p)\<lparr>sync_err := e\<rparr>)"
  by (simp_all add: set_sync_err_def)

lemma coap_same_sem_give [simp]: "coap_same w (sem_give p w)" "coap_same w (set_sync_err p e w)"
  by (simp_all add: coap_same_def)

text \<open>An error ends the wait, and is what the caller gets.\<close>

lemma sync_cb_error:
  assumes "rsp_err rsp \<noteq> 0" and "rsp_user_data rsp = UD_sync p"
  shows "golioth_req_sync_cb inner get_next rsp w = (0, sem_give p (set_sync_err p (rsp_err rsp) w))"
  using assms by (simp add: golioth_req_sync_cb_def)

lemma sync_cb_error_same:
  assumes "rsp_err rsp \<noteq> 0" and "rsp_user_data rsp = UD_sync p"
  shows "coap_same w (snd (golioth_req_sync_cb inner get_next rsp w))"
  using coap_same_trans[OF coap_same_sem_give(2) coap_same_sem_give(1)] by (simp add: sync_cb_error[OF assms])

lemma sync_cb_step:
  assumes "world_ok w" and "rsp_ok w rsp" and "rsp_user_data rsp = UD_sync p"
    and inner: "\<And>cb rsp. rsp_ok w rsp \<Longrightarrow> user_ud_ok (settings_ready w) cb (rsp_user_data rsp) \<Longrightarrow> cb_step w (snd (inner cb rsp w))"
    and getn: "\<And>w r. world_ok w \<Longrightarrow> r \<in> set (reqs_list w) \<Longrightarrow> cb_step w (snd (get_next r 0 w))"
  shows "cb_step w (snd (golioth_req_sync_cb inner get_next rsp w))"
proof (cases "rsp_err rsp = 0")
  case False
  with assms(1,3) show ?thesis by (intro coap_same_cb_step sync_cb_error_same)
next
  case True
  let ?s = "w_syncs w p"
  define res where "res = (case sync_cb ?s of
      Some cb \<Rightarrow> inner cb (rsp\<lparr>rsp_user_data := sync_user_data ?s\<rparr>) w | None \<Rightarrow> (0, w))"
  obtain err w1 where r: "res = (err, w1)" by (cases res)
  have w1: "cb_step w w1"
  proof (cases "sync_cb ?s")
    case None
    with r assms(1) show ?thesis by (simp add: res_def)
  next
    case (Some cb)
    have "user_ud_ok (settings_ready w) cb (sync_user_data ?s)" using world_okD(6)[OF assms(1)] Some by (simp add: sync_ok_def)
    with Some r inner[of "rsp\<lparr>rsp_user_data := sync_user_data ?s\<rparr>" cb] assms(2) show ?thesis
      by (simp add: res_def rsp_ok_def)
  qed
  have give: "cb_step w (sem_give p w1)"
    by (rule cb_step_trans[OF w1 coap_same_cb_step[OF cb_stepD(1)[OF w1]]]) simp
  have nxt: "cb_step w (snd (get_next r 0 w1))" if "r \<in> set (reqs_list w)" for r
    using cb_step_trans[OF w1 getn] cb_stepD(1,2)[OF w1] that by blast
  show ?thesis
    using True r give nxt assms(2,3)
    by (auto simp: golioth_req_sync_cb_def res_def[symmetric] rsp_ok_def)
qed

lemma sync_begin_ok:
  assumes "world_ok w" and "coap_lib_ok sys" and "\<forall>c. cb = Some c \<longrightarrow> user_ud_ok (settings_ready w) c ud"
    and "golioth_coap_req_sync_begin sys method pathv format data cb ud flags p w = (err, w')"
  shows "world_ok w'" and "sync_sem (w_syncs w' p) = 0"
    and "err = 0 \<Longrightarrow> reqs_list w' = reqs_list w @ [w_next w] \<and> (\<exists>q. w_reqs w' (w_next w) = Some q \<and>
       req_cb q = Golioth_req_sync_cb \<and> req_user_data q = UD_sync p)"
    and "err \<noteq> 0 \<Longrightarrow> reqs_list w' = reqs_list w"
proof -
  let ?w = "w\<lparr>w_syncs := (w_syncs w)(p := \<lparr>sync_sem = 0, sync_err = 0, sync_cb = cb, sync_user_data = ud\<rparr>)\<rparr>"
  have w: "world_ok ?w" using assms(1,3) by (simp add: world_ok_def sync_ok_def)
  note c = assms(4)[unfolded golioth_coap_req_sync_begin_def]
  show "world_ok w'"
    using golioth_coap_req_cb_step[OF w assms(2) _ c] cb_stepD(1) by simp
  from golioth_coap_req_cb_spec[OF world_okD(4)[OF w] assms(2) c]
  show "sync_sem (w_syncs w' p) = 0"
    "err = 0 \<Longrightarrow> reqs_list w' = reqs_list w @ [w_next w] \<and> (\<exists>q. w_reqs w' (w_next w) = Some q \<and>
       req_cb q = Golioth_req_sync_cb \<and> req_user_data q = UD_sync p)"
    "err \<noteq> 0 \<Longrightarrow> reqs_list w' = reqs_list w"
    by (elim disjE conjE exE; simp add: only_envD)+
qed


end
