(* ===== verification/GoliothClient.thy ===== *)
theory GoliothClient
  imports CoapReqSync
begin

text \<open>
  \<^verbatim>\<open>net/golioth/golioth.c\<close>: the client's socket. Connecting tries the addresses of the server in
  turn, disconnecting fails all pending requests, and a received datagram is checked, parsed,
  handed to the request layer and acknowledged.

  \<open>run\<close> runs a request's callback, \<open>on_connect\<close> the application's function stored in the client.
  The build-time options are a record.
\<close>

section \<open>Configuration\<close>

text \<open>\<open>conf_int_bytes\<close> is the memory representation of a C \<^verbatim>\<open>int\<close>.\<close>

record golioth_conf =
  conf_hostname_verification :: bool
  conf_hostname_verification_skip :: bool
  conf_use_connection_id :: bool
  conf_recv_use_msg_trunc :: bool
  conf_ciphersuites :: "int list"
  conf_int_bytes :: "int \<Rightarrow> u8 list"

abbreviation (input) IPPROTO_DTLS_1_2 :: int where "IPPROTO_DTLS_1_2 \<equiv> 273"
abbreviation (input) SOCK_DGRAM :: int where "SOCK_DGRAM \<equiv> 2"
abbreviation (input) TLS_SEC_TAG_LIST :: nat where "TLS_SEC_TAG_LIST \<equiv> 1"
abbreviation (input) TLS_HOSTNAME :: nat where "TLS_HOSTNAME \<equiv> 2"
abbreviation (input) TLS_CIPHERSUITE_LIST :: nat where "TLS_CIPHERSUITE_LIST \<equiv> 3"
abbreviation (input) TLS_DTLS_CID :: nat where "TLS_DTLS_CID \<equiv> 14"
abbreviation (input) ZSOCK_MSG_DONTWAIT :: int where "ZSOCK_MSG_DONTWAIT \<equiv> 64"
abbreviation (input) ZSOCK_MSG_TRUNC :: int where "ZSOCK_MSG_TRUNC \<equiv> 32"

section \<open>Setup\<close>

definition zero_client :: golioth_client where
  "zero_client = \<lparr>cl_proto = 0, cl_sec_tag_list = None, cl_sec_tag_count = 0, cl_rx_buffer = [],
     cl_rx_buffer_len = 0, cl_rx_received = 0, cl_rx_packet = \<lparr>pkt_offset = 0, pkt_lib = []\<rparr>,
     cl_sock = 0, cl_coap_reqs = [], cl_coap_reqs_connected = False, cl_on_connect = None,
     cl_wakeup = None, cl_rpc = \<lparr>rpc_methods = []\<rparr>,
     cl_settings = \<lparr>settings_initialized = False, settings_callback = None\<rparr>\<rparr>"

definition golioth_init :: "'e world \<Rightarrow> 'e world" where
  "golioth_init w =
     golioth_coap_reqs_init (upd_client (\<lambda>c. c\<lparr>cl_sock := - 1\<rparr>) (upd_client (\<lambda>_. zero_client) w))"

definition golioth_is_connected :: "'e world \<Rightarrow> bool" where
  "golioth_is_connected w \<longleftrightarrow> cl_sock (w_client w) \<ge> 0"

text \<open>A \<^verbatim>\<open>NULL\<close> list is \<open>None\<close>.\<close>

definition golioth_set_proto_coap_dtls :: "int list option \<Rightarrow> nat \<Rightarrow> 'e world \<Rightarrow> int \<times> 'e world" where
  "golioth_set_proto_coap_dtls sec_tag_list sec_tag_count w =
     (if sec_tag_list = None \<or> sec_tag_count = 0 then (- EINVAL, w)
      else (0, upd_client (\<lambda>c. c\<lparr>cl_proto := IPPROTO_DTLS_1_2, cl_sec_tag_list := sec_tag_list,
                cl_sec_tag_count := sec_tag_count\<rparr>) w))"

section \<open>Connecting\<close>

definition setsockopt_errno ::
  "('e, 'x) sys_scheme \<Rightarrow> int \<Rightarrow> nat \<Rightarrow> u8 list \<Rightarrow> 'e world \<Rightarrow> int \<times> 'e world" where
  "setsockopt_errno sys sock opt val w =
     (case env_read (zsock_setsockopt sys sock opt val) w of
        (ret, w1) \<Rightarrow> if ret < 0 then (- sys_errno sys (w_env w1), w1) else (0, w1))"

definition golioth_setsockopt_dtls ::
  "('e, 'x) sys_scheme \<Rightarrow> golioth_conf \<Rightarrow> int \<Rightarrow> u8 list \<Rightarrow> 'e world \<Rightarrow> int \<times> 'e world" where
  "golioth_setsockopt_dtls sys conf sock host w =
     err_then
       (case cl_sec_tag_list (w_client w) of
          Some tags \<Rightarrow>
            if cl_sec_tag_count (w_client w) \<noteq> 0
            then setsockopt_errno sys sock TLS_SEC_TAG_LIST
                   (concat (map (conf_int_bytes conf) (take (cl_sec_tag_count (w_client w)) tags))) w
            else (0, w)
        | None \<Rightarrow> (0, w)) (\<lambda>w.
     err_then
       (if conf_hostname_verification conf
        then setsockopt_errno sys sock TLS_HOSTNAME
               (if conf_hostname_verification_skip conf then [] else host @ [0]) w
        else (0, w)) (\<lambda>w.
     err_then
       (if conf_ciphersuites conf \<noteq> []
        then setsockopt_errno sys sock TLS_CIPHERSUITE_LIST
               (concat (map (conf_int_bytes conf) (conf_ciphersuites conf))) w
        else (0, w)) (\<lambda>w.
       if conf_use_connection_id conf
       then setsockopt_errno sys sock TLS_DTLS_CID (conf_int_bytes conf 1) w
       else (0, w))))"

definition raw_golioth_close :: "('e, 'x) sys_scheme \<Rightarrow> int \<Rightarrow> 'e world \<Rightarrow> int \<times> 'e world" where
  "raw_golioth_close sys sock w =
     (if sock < 0 then (- ENOTCONN, w)
      else
        (case env_read (zsock_close sys sock) w of
           (ret, w1) \<Rightarrow> if ret < 0 then (- sys_errno sys (w_env w1), w1) else (0, w1)))"

text \<open>The part of \<^verbatim>\<open>golioth_connect_sockaddr\<close> up to the label \<^verbatim>\<open>close_sock\<close>, and the whole.\<close>

definition connect_sock_setup ::
  "('e, 'x) sys_scheme \<Rightarrow> golioth_conf \<Rightarrow> u8 list \<Rightarrow> u8 list \<Rightarrow> int \<Rightarrow> 'e world \<Rightarrow> int \<times> 'e world" where
  "connect_sock_setup sys conf host addr sock w =
     err_then (golioth_setsockopt_dtls sys conf sock host w) (\<lambda>w.
       (case env_read (zsock_connect sys sock addr) w of
          (ret, w1) \<Rightarrow>
            if ret < 0 then (- sys_errno sys (w_env w1), w1)
            else
              (case raw_golioth_send_empty_coap sys (upd_client (\<lambda>c. c\<lparr>cl_sock := sock\<rparr>) w1) of
                 (err, w2) \<Rightarrow>
                   if err \<noteq> 0 then (err, upd_client (\<lambda>c. c\<lparr>cl_sock := - 1\<rparr>) w2) else (0, w2))))"

definition golioth_connect_sockaddr ::
  "('e, 'x) sys_scheme \<Rightarrow> golioth_conf \<Rightarrow> u8 list \<Rightarrow> int \<Rightarrow> u8 list \<Rightarrow> 'e world \<Rightarrow> int \<times> 'e world" where
  "golioth_connect_sockaddr sys conf host sa_family addr w =
     (case env_read (zsock_socket sys sa_family (cl_proto (w_client w))) w of
        (sock, w1) \<Rightarrow>
          if sock < 0 then (- sys_errno sys (w_env w1), w1)
          else
            (case connect_sock_setup sys conf host addr sock w1 of
               (err, w2) \<Rightarrow>
                 if err \<noteq> 0 then (err, snd (raw_golioth_close sys sock w2)) else (err, w2)))"

fun connect_addrs ::
  "('e, 'x) sys_scheme \<Rightarrow> golioth_conf \<Rightarrow> u8 list \<Rightarrow> (int \<times> u8 list) list \<Rightarrow> int \<Rightarrow> 'e world
     \<Rightarrow> int \<times> 'e world" where
  "connect_addrs sys conf host [] err w = (err, w)"
| "connect_addrs sys conf host ((family, addr) # addrs) err w =
     (case golioth_connect_sockaddr sys conf host family addr w of
        (err', w1) \<Rightarrow> if err' = 0 then (0, w1) else connect_addrs sys conf host addrs err' w1)"

definition raw_golioth_connect ::
  "('e, 'x) sys_scheme \<Rightarrow> golioth_conf \<Rightarrow> u8 list \<Rightarrow> u16 \<Rightarrow> 'e world \<Rightarrow> int \<times> 'e world" where
  "raw_golioth_connect sys conf host port w =
     (case zsock_getaddrinfo sys host port (w_env w) of
        (ret, addrs, e) \<Rightarrow>
          if ret < 0 then (- EAGAIN, w\<lparr>w_env := e\<rparr>)
          else connect_addrs sys conf host addrs (- ENOENT) (w\<lparr>w_env := e\<rparr>))"

definition golioth_connect ::
  "('e, 'x) sys_scheme \<Rightarrow> golioth_conf \<Rightarrow> (nat \<Rightarrow> 'e world \<Rightarrow> 'e world) \<Rightarrow> u8 list \<Rightarrow> u16
     \<Rightarrow> 'e world \<Rightarrow> int \<times> 'e world" where
  "golioth_connect sys conf on_connect host port w =
     (if cl_sock (w_client w) \<ge> 0 then (- EALREADY, w)
      else
        (case raw_golioth_connect sys conf host port w of
           (err, w1) \<Rightarrow>
             if err \<noteq> 0 then (err, w1)
             else
               let w2 = golioth_coap_reqs_on_connect w1
               in case cl_on_connect (w_client w2) of
                    None \<Rightarrow> (0, w2)
                  | Some f \<Rightarrow> (0, on_connect f w2)))"

section \<open>Disconnecting\<close>

definition golioth_close :: "('e, 'x) sys_scheme \<Rightarrow> 'e world \<Rightarrow> int \<times> 'e world" where
  "golioth_close sys w =
     (case raw_golioth_close sys (cl_sock (w_client w)) w of
        (ret, w1) \<Rightarrow> (ret, upd_client (\<lambda>c. c\<lparr>cl_sock := - 1\<rparr>) w1))"

definition golioth_disconnect ::
  "('e, 'x) sys_scheme \<Rightarrow> (golioth_req_cb \<Rightarrow> golioth_req_rsp \<Rightarrow> 'e world \<Rightarrow> int \<times> 'e world)
     \<Rightarrow> 'e world \<Rightarrow> (int \<times> 'e world) option" where
  "golioth_disconnect sys run w =
     map_option (golioth_close sys) (golioth_coap_reqs_on_disconnect run w)"

section \<open>Receiving\<close>

definition golioth_process_rx_data ::
  "('e, 'x) sys_scheme \<Rightarrow> (golioth_req_cb \<Rightarrow> golioth_req_rsp \<Rightarrow> 'e world \<Rightarrow> int \<times> 'e world)
     \<Rightarrow> u8 list \<Rightarrow> 'e world \<Rightarrow> int \<times> 'e world" where
  "golioth_process_rx_data sys run data w =
     (case coap_packet_parse sys data of
        (err, pkt) \<Rightarrow>
          let w1 = upd_client (\<lambda>c. c\<lparr>cl_rx_packet := pkt\<rparr>) w
          in if err \<noteq> 0 then (err, w1)
             else
               let w2 = golioth_coap_req_process_rx sys run pkt data w1
               in if coap_header_get_type sys pkt data = COAP_TYPE_CON
                  then (0, snd (golioth_ack_packet sys pkt data w2))
                  else (0, w2))"

definition golioth_process_rx_ping ::
  "('e, 'x) sys_scheme \<Rightarrow> u8 list \<Rightarrow> 'e world \<Rightarrow> int \<times> 'e world" where
  "golioth_process_rx_ping sys data w =
     (case coap_packet_parse sys data of
        (err, pkt) \<Rightarrow>
          let w1 = upd_client (\<lambda>c. c\<lparr>cl_rx_packet := pkt\<rparr>) w
          in if err \<noteq> 0 then (err, w1) else golioth_ack_packet sys pkt data w1)"

text \<open>The second result is what was written into the buffer.\<close>

definition raw_golioth_recv ::
  "('e, 'x) sys_scheme \<Rightarrow> nat \<Rightarrow> int \<Rightarrow> 'e world \<Rightarrow> int \<times> u8 list \<times> 'e world" where
  "raw_golioth_recv sys len flags w =
     (if cl_sock (w_client w) < 0 then (- ENOTCONN, [], w)
      else
        (case zsock_recv sys (cl_sock (w_client w)) len flags (w_env w) of
           (rcvd, bytes, e) \<Rightarrow>
             let w1 = w\<lparr>w_env := e\<rparr>
             in if rcvd < 0 then (- sys_errno sys e, bytes, w1)
                else if rcvd = 0 then (- ENOTCONN, bytes, w1)
                else (rcvd, bytes, w1)))"

definition golioth_recv ::
  "('e, 'x) sys_scheme \<Rightarrow> nat \<Rightarrow> int \<Rightarrow> 'e world \<Rightarrow> int \<times> u8 list \<times> 'e world" where
  "golioth_recv sys len flags w = raw_golioth_recv sys len flags w"

definition golioth_process_rx ::
  "('e, 'x) sys_scheme \<Rightarrow> golioth_conf
     \<Rightarrow> (golioth_req_cb \<Rightarrow> golioth_req_rsp \<Rightarrow> 'e world \<Rightarrow> int \<times> 'e world)
     \<Rightarrow> 'e world \<Rightarrow> int \<times> 'e world" where
  "golioth_process_rx sys conf run w =
     (let flags = ZSOCK_MSG_DONTWAIT + (if conf_recv_use_msg_trunc conf then ZSOCK_MSG_TRUNC else 0);
          rx_len = cl_rx_buffer_len (w_client w)
      in case golioth_recv sys rx_len flags w of
           (ret, bytes, w1) \<Rightarrow>
             let w2 = upd_client (\<lambda>c. c\<lparr>cl_rx_buffer := bytes @ drop (length bytes) (cl_rx_buffer c)\<rparr>) w1
             in if ret = - EAGAIN \<or> ret = - EWOULDBLOCK then (0, w2)
                else if ret < 0 then (ret, w2)
                else
                  let w3 = upd_client (\<lambda>c. c\<lparr>cl_rx_received := nat ret\<rparr>) w2;
                      len = (if ret > int rx_len then rx_len else nat ret);
                      data = take len (cl_rx_buffer (w_client w3));
                      err = coap_data_check_rx_packet_type (Some (cl_rx_buffer (w_client w3))) len
                  in if err = - ENOMSG then golioth_process_rx_ping sys data w3
                     else if err \<noteq> 0 then (err, w3)
                     else golioth_process_rx_data sys run data w3)"

text \<open>\<^verbatim>\<open>fd\<close> and \<^verbatim>\<open>timeout\<close> are written when the pointers are not NULL.\<close>

definition golioth_poll_prepare ::
  "('e, 'x) sys_scheme \<Rightarrow> (golioth_req_cb \<Rightarrow> golioth_req_rsp \<Rightarrow> 'e world \<Rightarrow> int \<times> 'e world)
     \<Rightarrow> int \<Rightarrow> bool \<Rightarrow> bool \<Rightarrow> 'e world \<Rightarrow> (int option \<times> int option \<times> 'e world) option" where
  "golioth_poll_prepare sys run now want_fd want_timeout w =
     (let fd = (if want_fd then Some (cl_sock (w_client w)) else None)
      in if want_timeout
         then map_option (\<lambda>(t, w1). (fd, Some t, w1)) (golioth_coap_reqs_poll_prepare sys run now w)
         else Some (fd, None, w))"

section \<open>The client's invariant\<close>

text \<open>
  Between calls the flag of the request layer and the socket agree: there are requests only on a
  connected client, and a connected client has a socket.
\<close>

definition client_ok :: "'e world \<Rightarrow> bool" where
  "client_ok w \<longleftrightarrow> world_ok w \<and> (is_connected w \<longleftrightarrow> 0 \<le> cl_sock (w_client w)) \<and>
     - 1 \<le> cl_sock (w_client w)"

text \<open>A failed call leaves a positive number in \<^verbatim>\<open>errno\<close>.\<close>

definition errno_ok :: "('e, 'x) sys_scheme \<Rightarrow> bool" where
  "errno_ok sys \<longleftrightarrow> (\<forall>e. 0 < sys_errno sys e)"

lemma client_ok_rx_step: "client_ok w \<Longrightarrow> rx_step w w' \<Longrightarrow> client_ok w'"
  by (simp add: client_ok_def rx_step_def)

lemma rx_step_upd_client:
  assumes "world_ok w" and "\<And>c. cl_coap_reqs (f c) = cl_coap_reqs c"
    and "\<And>c. cl_coap_reqs_connected (f c) = cl_coap_reqs_connected c" and "\<And>c. cl_sock (f c) = cl_sock c"
    and "\<And>c. cl_settings (f c) = cl_settings c"
  shows "rx_step w (upd_client f w)"
  using assms by (intro rx_step_same) (simp_all add: world_ok_def upd_client_def settings_ready_def)

lemma golioth_init_ok:
  assumes "fresh_ok w" and "w_reqs w = Map.empty" and "w_bufs w = Map.empty" and "\<not> w_fault w"
    and "\<And>p. sync_ok False (w_syncs w p)"
  shows "client_ok (golioth_init w)" and "\<not> is_connected (golioth_init w)"
  using assms by (auto simp: golioth_init_def golioth_coap_reqs_init_def upd_client_def client_ok_def
      world_ok_def heap_ok_def zero_client_def settings_ready_def)

section \<open>Connecting\<close>

lemma setsockopt_frame: "setsockopt_errno sys s opt v w = (e, w') \<Longrightarrow> same_but_env w w'"
  by (auto simp: setsockopt_errno_def split: prod.splits if_splits)

lemma dtls_frame: "golioth_setsockopt_dtls sys conf s host w = (e, w') \<Longrightarrow> same_but_env w w'"
proof -
  have opt: "same_but_env w (snd (setsockopt_errno sys s opt v w1))" if "same_but_env w w1" for opt v w1
    using setsockopt_frame same_but_env_trans[OF that] by (metis prod.collapse)
  have "same_but_env w (snd (golioth_setsockopt_dtls sys conf s host w))"
    unfolding golioth_setsockopt_dtls_def
    by (intro err_then_inv[where P = "same_but_env w"])
      (auto intro: opt split: option.splits)
  then show "golioth_setsockopt_dtls sys conf s host w = (e, w') \<Longrightarrow> same_but_env w w'" by simp
qed

lemma close_frame: "raw_golioth_close sys s w = (e, w') \<Longrightarrow> same_but_env w w'"
  by (auto simp: raw_golioth_close_def split: prod.splits if_splits)

lemma send_empty_frame: "raw_golioth_send_empty_coap sys w = (e, w') \<Longrightarrow> same_but_env w w'"
  by (auto simp: raw_golioth_send_empty_coap_def split: prod.splits if_splits
      dest: raw_golioth_send_frame same_but_env_read intro: same_but_env_trans)

text \<open>Setting the socket of a client.\<close>

definition with_sock :: "int \<Rightarrow> 'e world \<Rightarrow> 'e world" where
  "with_sock s w = upd_client (\<lambda>c. c\<lparr>cl_sock := s\<rparr>) w"

lemma with_sock_same: "cl_sock (w_client w) = s \<Longrightarrow> with_sock s w = w"
  by (simp add: with_sock_def upd_client_def)

lemma with_sock_frame:
  "same_but_env w w' \<Longrightarrow> same_but_env (with_sock s w) (with_sock s w')"
proof -
  assume "same_but_env w w'"
  then obtain e where "w' = w\<lparr>w_env := e\<rparr>" unfolding same_but_env_def by blast
  then show ?thesis by (simp add: same_but_env_def with_sock_def upd_client_def)
qed

lemma with_sock_with_sock [simp]: "with_sock s (with_sock t w) = with_sock s w"
  by (simp add: with_sock_def upd_client_def)

lemma connect_sock_setup_spec:
  assumes "connect_sock_setup sys conf host addr s w = (e, w')" and "errno_ok sys"
    and "cl_sock (w_client w) = - 1"
  shows "(e \<noteq> 0 \<and> same_but_env w w') \<or> (e = 0 \<and> same_but_env (with_sock s w) w')"
  using assms(1) unfolding connect_sock_setup_def
proof (cases rule: err_then_cases)
  case stop
  then show ?thesis using dtls_frame by metis
next
  case (go w1)
  have f1: "same_but_env w w1" using dtls_frame go(1) by blast
  obtain ret w2 where c: "env_read (zsock_connect sys s addr) w1 = (ret, w2)" by fastforce
  then have f2: "same_but_env w w2" using f1 same_but_env_read same_but_env_trans by blast
  show ?thesis
  proof (cases "ret < 0")
    case True
    with c go(2) have "e = - sys_errno sys (w_env w2)" "w' = w2" by auto
    with f2 assms(2) show ?thesis by (simp add: errno_ok_def) (metis less_irrefl)
  next
    case False
    obtain err w3 where s: "raw_golioth_send_empty_coap sys (with_sock s w2) = (err, w3)" by fastforce
    have f3: "same_but_env (with_sock s w) w3"
      using same_but_env_trans[OF with_sock_frame[OF f2] send_empty_frame[OF s]] .
    have undo: "same_but_env w (with_sock (- 1) w3)"
      using with_sock_frame[OF f3, of "- 1"] with_sock_same[OF assms(3)] by simp
    from False c go(2) s have "(e, w') = (if err \<noteq> 0 then (err, with_sock (- 1) w3) else (0, w3))"
      by (auto simp: with_sock_def)
    with f3 undo show ?thesis by (auto split: if_splits)
  qed
qed

lemma connect_sockaddr_spec:
  assumes "golioth_connect_sockaddr sys conf host fam addr w = (e, w')" and "errno_ok sys"
    and "cl_sock (w_client w) = - 1"
  shows "(e \<noteq> 0 \<and> same_but_env w w') \<or> (e = 0 \<and> (\<exists>s\<ge>0. same_but_env (with_sock s w) w'))"
proof -
  obtain s w1 where c: "env_read (zsock_socket sys fam (cl_proto (w_client w))) w = (s, w1)" by fastforce
  then have f1: "same_but_env w w1" by blast
  show ?thesis
  proof (cases "s < 0")
    case True
    with c assms(1) have "e = - sys_errno sys (w_env w1)" "w' = w1"
      by (auto simp: golioth_connect_sockaddr_def)
    with f1 assms(2) show ?thesis by (simp add: errno_ok_def) (metis less_irrefl)
  next
    case False
    obtain err w2 where t: "connect_sock_setup sys conf host addr s w1 = (err, w2)" by fastforce
    have "cl_sock (w_client w1) = - 1" using same_but_envD(1)[OF f1] assms(3) by simp
    note S = connect_sock_setup_spec[OF t assms(2) this]
    show ?thesis
    proof (cases "err = 0")
      case True
      with S f1 have "same_but_env (with_sock s w) w2" using with_sock_frame same_but_env_trans by blast
      with False c t True assms(1) show ?thesis
        by (auto simp: golioth_connect_sockaddr_def intro!: exI[of _ s])
    next
      case False
      obtain e2 w3 where cl: "raw_golioth_close sys s w2 = (e2, w3)" by fastforce
      have "same_but_env w w3"
        using S False f1 close_frame[OF cl] same_but_env_trans by blast
      with False \<open>\<not> s < 0\<close> c t cl assms(1) show ?thesis by (auto simp: golioth_connect_sockaddr_def)
    qed
  qed
qed

lemma connect_addrs_spec:
  assumes "connect_addrs sys conf host addrs e0 w = (e, w')" and "errno_ok sys"
    and "cl_sock (w_client w) = - 1" and "e0 \<noteq> 0"
  shows "(e \<noteq> 0 \<and> same_but_env w w') \<or> (e = 0 \<and> (\<exists>s\<ge>0. same_but_env (with_sock s w) w'))"
  using assms(1,3,4)
proof (induction addrs arbitrary: e0 w)
  case Nil
  then show ?case by simp
next
  case (Cons a addrs)
  obtain fam addr where a: "a = (fam, addr)" by (cases a)
  obtain e1 w1 where c: "golioth_connect_sockaddr sys conf host fam addr w = (e1, w1)" by fastforce
  note S = connect_sockaddr_spec[OF c assms(2) Cons.prems(2)]
  show ?case
  proof (cases "e1 = 0")
    case True
    with S c Cons.prems(1) a show ?thesis by simp
  next
    case False
    with S have f: "same_but_env w w1" by simp
    have "cl_sock (w_client w1) = - 1" using same_but_envD(1)[OF f] Cons.prems(2) by simp
    moreover have "connect_addrs sys conf host addrs e1 w1 = (e, w')"
      using False c Cons.prems(1) a by simp
    ultimately have "(e \<noteq> 0 \<and> same_but_env w1 w') \<or> (e = 0 \<and> (\<exists>s\<ge>0. same_but_env (with_sock s w1) w'))"
      using Cons.IH False by blast
    then show ?thesis using f with_sock_frame same_but_env_trans by blast
  qed
qed

lemma raw_connect_spec:
  assumes "raw_golioth_connect sys conf host port w = (e, w')" and "errno_ok sys"
    and "cl_sock (w_client w) = - 1"
  shows "(e \<noteq> 0 \<and> same_but_env w w') \<or> (e = 0 \<and> (\<exists>s\<ge>0. same_but_env (with_sock s w) w'))"
proof -
  obtain ret addrs e1 where g: "zsock_getaddrinfo sys host port (w_env w) = (ret, addrs, e1)"
    by (metis prod_cases3)
  have sock: "cl_sock (w_client (w\<lparr>w_env := e1\<rparr>)) = - 1" using assms(3) by simp
  have f: "same_but_env w (w\<lparr>w_env := e1\<rparr>)" by simp
  show ?thesis
  proof (cases "ret < 0")
    case True
    with assms(1) g show ?thesis by (auto simp: raw_golioth_connect_def)
  next
    case False
    with assms(1) g have "connect_addrs sys conf host addrs (- ENOENT) (w\<lparr>w_env := e1\<rparr>) = (e, w')"
      by (simp add: raw_golioth_connect_def)
    from connect_addrs_spec[OF this assms(2) sock] show ?thesis
      using same_but_env_trans[OF f] same_but_env_trans[OF with_sock_frame[OF f]] by auto
  qed
qed

text \<open>Connecting establishes the invariant whether it succeeds or not.\<close>

lemma golioth_connect_ok:
  assumes "client_ok w" and "errno_ok sys"
    and on_connect: "\<And>f w. world_ok w \<Longrightarrow> cb_step w (on_connect f w)"
    and "golioth_connect sys conf on_connect host port w = (e, w')"
  shows "client_ok w'" and "e = 0 \<Longrightarrow> is_connected w' \<and> 0 \<le> cl_sock (w_client w')"
    and "e \<noteq> 0 \<Longrightarrow> same_but_env w w'"
proof -
  consider (connected) "0 \<le> cl_sock (w_client w)" | (not) "cl_sock (w_client w) = - 1"
    using assms(1) by (fastforce simp: client_ok_def)
  then have "client_ok w' \<and> (e = 0 \<longrightarrow> is_connected w' \<and> 0 \<le> cl_sock (w_client w')) \<and>
    (e \<noteq> 0 \<longrightarrow> same_but_env w w')"
  proof cases
    case connected
    then show ?thesis using assms(1,4) by (auto simp: golioth_connect_def)
  next
    case not
    obtain e1 w1 where c: "raw_golioth_connect sys conf host port w = (e1, w1)" by fastforce
    from raw_connect_spec[OF c assms(2) not] show ?thesis
    proof (elim disjE conjE exE)
      assume "e1 \<noteq> 0" and f: "same_but_env w w1"
      then show ?thesis
        using not c assms(1,4) client_ok_rx_step[OF assms(1) rx_step_same_but_env[OF _ f]]
        by (auto simp: golioth_connect_def client_ok_def)
    next
      fix s assume "e1 = 0" "0 \<le> s" and f: "same_but_env (with_sock s w) w1"
      have "\<not> is_connected w" using not assms(1) by (simp add: client_ok_def)
      then have "world_ok (with_sock s w)" "reqs_list w = []"
        using assms(1) by (auto simp: client_ok_def world_ok_def heap_ok_def with_sock_def upd_client_def)
      then have "world_ok w1" "reqs_list w1 = []" "cl_sock (w_client w1) = s"
        using world_ok_same_but_env[OF _ f] same_but_envD(1)[OF f] by (simp_all add: with_sock_def upd_client_def)
      then have w2: "world_ok (golioth_coap_reqs_on_connect w1)"
        "is_connected (golioth_coap_reqs_on_connect w1)"
        "cl_sock (w_client (golioth_coap_reqs_on_connect w1)) = s"
        by (simp_all add: golioth_coap_reqs_on_connect_def upd_client_def world_ok_def heap_ok_def)
      then show ?thesis
        using not c assms(4) \<open>e1 = 0\<close> \<open>0 \<le> s\<close> cb_stepD[OF on_connect[OF w2(1)]]
        by (auto simp: golioth_connect_def Let_def client_ok_def split: option.splits)
    qed
  qed
  then show "client_ok w'" and "e = 0 \<Longrightarrow> is_connected w' \<and> 0 \<le> cl_sock (w_client w')"
    and "e \<noteq> 0 \<Longrightarrow> same_but_env w w'" by blast+
qed

section \<open>Receiving and disconnecting\<close>

lemma ack_frame: "golioth_ack_packet sys pkt data w = (e, w') \<Longrightarrow> same_but_env w w'"
  by (auto simp: golioth_ack_packet_def split: prod.splits if_splits dest: golioth_send_coap_frame)

lemma rx_step_ack: "world_ok w \<Longrightarrow> rx_step w (snd (golioth_ack_packet sys pkt data w))"
  by (rule rx_step_same_but_env) (metis ack_frame prod.collapse)+

lemma recv_frame: "golioth_recv sys len flags w = (r, bytes, w') \<Longrightarrow> same_but_env w w'"
  by (auto simp: golioth_recv_def raw_golioth_recv_def Let_def split: prod.splits if_splits)

lemma process_rx_ping_ok: "world_ok w \<Longrightarrow> rx_step w (snd (golioth_process_rx_ping sys data w))"
proof -
  assume w: "world_ok w"
  obtain err pkt where p: "coap_packet_parse sys data = (err, pkt)" by fastforce
  have s: "rx_step w (upd_client (\<lambda>c. c\<lparr>cl_rx_packet := pkt\<rparr>) w)"
    by (rule rx_step_upd_client[OF w]) simp_all
  then have "world_ok (upd_client (\<lambda>c. c\<lparr>cl_rx_packet := pkt\<rparr>) w)" by (simp add: rx_step_def)
  from rx_step_trans[OF s rx_step_ack[OF this, of sys pkt data]] s p show ?thesis
    by (simp add: golioth_process_rx_ping_def Let_def)
qed

context req_callback
begin

lemma process_rx_data_ok: "world_ok w \<Longrightarrow> rx_step w (snd (golioth_process_rx_data sys run data w))"
proof -
  assume w: "world_ok w"
  obtain err pkt where p: "coap_packet_parse sys data = (err, pkt)" by fastforce
  let ?w1 = "upd_client (\<lambda>c. c\<lparr>cl_rx_packet := pkt\<rparr>) w"
  have s1: "rx_step w ?w1" by (rule rx_step_upd_client[OF w]) simp_all
  then have "world_ok ?w1" by (simp add: rx_step_def)
  from process_rx_ok[OF this] have s2: "rx_step ?w1 (golioth_coap_req_process_rx sys run pkt data ?w1)" .
  then have "world_ok (golioth_coap_req_process_rx sys run pkt data ?w1)" by (simp add: rx_step_def)
  note s3 = rx_step_ack[OF this]
  show ?thesis
    using p s1 rx_step_trans[OF s1 s2] rx_step_trans[OF rx_step_trans[OF s1 s2] s3, of sys pkt data]
    by (simp add: golioth_process_rx_data_def Let_def)
qed

lemma golioth_process_rx_ok:
  assumes "world_ok w"
  shows "rx_step w (snd (golioth_process_rx sys conf run w))"
proof -
  define flags where "flags = ZSOCK_MSG_DONTWAIT + (if conf_recv_use_msg_trunc conf then ZSOCK_MSG_TRUNC else 0)"
  obtain ret bytes w1 where r: "golioth_recv sys (cl_rx_buffer_len (w_client w)) flags w = (ret, bytes, w1)"
    by (metis prod_cases3)
  have s1: "rx_step w w1" by (rule rx_step_same_but_env[OF assms recv_frame[OF r]])
  define w2 where "w2 = upd_client (\<lambda>c. c\<lparr>cl_rx_buffer := bytes @ drop (length bytes) (cl_rx_buffer c)\<rparr>) w1"
  have s2: "rx_step w1 w2" unfolding w2_def
    by (rule rx_step_upd_client) (use s1 in \<open>simp_all add: rx_step_def\<close>)
  define w3 where "w3 = upd_client (\<lambda>c. c\<lparr>cl_rx_received := nat ret\<rparr>) w2"
  have s3: "rx_step w2 w3" unfolding w3_def
    by (rule rx_step_upd_client) (use s2 in \<open>simp_all add: rx_step_def\<close>)
  have w3: "world_ok w3" using s3 by (simp add: rx_step_def)
  note t2 = rx_step_trans[OF s1 s2] and t3 = rx_step_trans[OF rx_step_trans[OF s1 s2] s3]
  have ping: "rx_step w (snd (golioth_process_rx_ping sys d w3))" for d
    by (rule rx_step_trans[OF t3 process_rx_ping_ok[OF w3]])
  have data: "rx_step w (snd (golioth_process_rx_data sys run d w3))" for d
    by (rule rx_step_trans[OF t3 process_rx_data_ok[OF w3]])
  show ?thesis
    unfolding golioth_process_rx_def Let_def flags_def[symmetric] r prod.case
      w2_def[symmetric] w3_def[symmetric]
    using t2 t3 ping data by simp
qed

lemma golioth_disconnect_ok:
  assumes "client_ok w"
  obtains e w' where "golioth_disconnect sys run w = Some (e, w')" "client_ok w'"
    "\<not> is_connected w'" "reqs_list w' = []" "cl_sock (w_client w') = - 1"
proof -
  have "world_ok w" using assms by (simp add: client_ok_def)
  from on_disconnect_ok[OF this] obtain w1 where w1: "golioth_coap_reqs_on_disconnect run w = Some w1"
    "world_ok w1" "\<not> is_connected w1" "reqs_list w1 = []" by metis
  obtain e w2 where c: "raw_golioth_close sys (cl_sock (w_client w1)) w1 = (e, w2)" by fastforce
  note f = close_frame[OF c]
  have w2: "world_ok w2" "\<not> is_connected w2" "reqs_list w2 = []"
    using world_ok_same_but_env[OF w1(2) f] w1 same_but_envD(1)[OF f] by simp_all
  show thesis
    by (rule that[of e "upd_client (\<lambda>c. c\<lparr>cl_sock := - 1\<rparr>) w2"])
      (use w1 w2 c in \<open>simp_all add: golioth_disconnect_def golioth_close_def client_ok_def upd_client_def world_ok_def\<close>)
qed

lemma golioth_poll_prepare_ok:
  assumes "world_ok w" and "ack_timeout_ok sys"
  obtains t w' where "golioth_poll_prepare sys run now True True w = Some (Some (cl_sock (w_client w)), Some t, w')"
    "0 < t" "t \<le> INT64_MAX" "rx_step w w'"
proof -
  obtain t w' where "golioth_coap_reqs_poll_prepare sys run now w = Some (t, w')"
    "0 < t" "t \<le> INT64_MAX" "rx_step w w'"
    by (rule reqs_poll_prepare_ok[OF assms])
  then show thesis using that by (simp add: golioth_poll_prepare_def)
qed

end

section \<open>No socket is leaked\<close>

text \<open>
  \<open>fds\<close> reads the open sockets off the environment: opening adds one, closing removes it, and the
  other calls leave them.
\<close>

definition fd_ledger :: "('e, 'x) sys_scheme \<Rightarrow> ('e \<Rightarrow> int set) \<Rightarrow> bool" where
  "fd_ledger sys fds \<longleftrightarrow>
     (\<forall>f p e s e'. zsock_socket sys f p e = (s, e') \<longrightarrow>
        (if s < 0 then fds e' = fds e else s \<notin> fds e \<and> fds e' = insert s (fds e))) \<and>
     (\<forall>s e. fds (snd (zsock_close sys s e)) = fds e - {s}) \<and>
     (\<forall>s opt v e. fds (snd (zsock_setsockopt sys s opt v e)) = fds e) \<and>
     (\<forall>s a e. fds (snd (zsock_connect sys s a e)) = fds e) \<and>
     (\<forall>s d f e. fds (snd (zsock_send sys s d f e)) = fds e) \<and>
     (\<forall>h p e. fds (snd (snd (zsock_getaddrinfo sys h p e))) = fds e) \<and>
     (\<forall>e. fds (snd (coap_next_id sys e)) = fds e)"

lemma fd_ledgerD:
  assumes "fd_ledger sys fds"
  shows "zsock_socket sys f p e = (s, e') \<Longrightarrow> s < 0 \<Longrightarrow> fds e' = fds e"
    and "zsock_socket sys f p e = (s, e') \<Longrightarrow> 0 \<le> s \<Longrightarrow> s \<notin> fds e \<and> fds e' = insert s (fds e)"
    and "zsock_close sys s e = (r, e') \<Longrightarrow> fds e' = fds e - {s}"
    and "zsock_setsockopt sys s opt v e = (r, e') \<Longrightarrow> fds e' = fds e"
    and "zsock_connect sys s a e = (r, e') \<Longrightarrow> fds e' = fds e"
    and "zsock_send sys s d fl e = (r, e') \<Longrightarrow> fds e' = fds e"
    and "zsock_getaddrinfo sys h port e = (r, as, e') \<Longrightarrow> fds e' = fds e"
    and "coap_next_id sys e = (i, e') \<Longrightarrow> fds e' = fds e"
proof -
  note A = assms[unfolded fd_ledger_def]
  have S: "zsock_socket sys f p e = (s, e') \<Longrightarrow>
      if s < 0 then fds e' = fds e else s \<notin> fds e \<and> fds e' = insert s (fds e)"
    by (rule conjunct1[OF A, rule_format])
  show "zsock_socket sys f p e = (s, e') \<Longrightarrow> s < 0 \<Longrightarrow> fds e' = fds e" using S by simp
  show "zsock_socket sys f p e = (s, e') \<Longrightarrow> 0 \<le> s \<Longrightarrow> s \<notin> fds e \<and> fds e' = insert s (fds e)"
    using S by simp
  note A2 = conjunct2[OF A]
  note A3 = conjunct2[OF A2]
  note A4 = conjunct2[OF A3]
  note A5 = conjunct2[OF A4]
  note A6 = conjunct2[OF A5]
  show "zsock_close sys s e = (r, e') \<Longrightarrow> fds e' = fds e - {s}"
    using conjunct1[OF A2, rule_format, of s e] by simp
  show "zsock_setsockopt sys s opt v e = (r, e') \<Longrightarrow> fds e' = fds e"
    using conjunct1[OF A3, rule_format, of s opt v e] by simp
  show "zsock_connect sys s a e = (r, e') \<Longrightarrow> fds e' = fds e"
    using conjunct1[OF A4, rule_format, of s a e] by simp
  show "zsock_send sys s d fl e = (r, e') \<Longrightarrow> fds e' = fds e"
    using conjunct1[OF A5, rule_format, of s d fl e] by simp
  show "zsock_getaddrinfo sys h port e = (r, as, e') \<Longrightarrow> fds e' = fds e"
    using conjunct1[OF A6, rule_format, of h port e] by simp
  show "coap_next_id sys e = (i, e') \<Longrightarrow> fds e' = fds e"
    using conjunct2[OF A6, rule_format, of e] by simp
qed

lemma fds_setsockopt:
  "fd_ledger sys fds \<Longrightarrow> fds (w_env (snd (setsockopt_errno sys s opt v w))) = fds (w_env w)"
  by (auto simp: setsockopt_errno_def env_read_def split: prod.splits dest: fd_ledgerD(4))

lemma fds_dtls:
  assumes "fd_ledger sys fds"
  shows "fds (w_env (snd (golioth_setsockopt_dtls sys conf s host w))) = fds (w_env w)"
  unfolding golioth_setsockopt_dtls_def
  by (intro err_then_inv[where P = "\<lambda>w1. fds (w_env w1) = fds (w_env w)"])
    (auto simp: fds_setsockopt[OF assms] split: option.splits)

lemma fds_send_empty:
  assumes "fd_ledger sys fds"
  shows "fds (w_env (snd (raw_golioth_send_empty_coap sys w))) = fds (w_env w)"
  by (auto simp: raw_golioth_send_empty_coap_def raw_golioth_send_def env_read_def split: prod.splits
      dest: fd_ledgerD(6,8)[OF assms])

lemma fds_close:
  assumes "fd_ledger sys fds" and "0 \<le> s"
  shows "fds (w_env (snd (raw_golioth_close sys s w))) = fds (w_env w) - {s}"
  using assms(2)
  by (auto simp: raw_golioth_close_def env_read_def split: prod.splits dest: fd_ledgerD(3)[OF assms(1)])

lemma fds_connect_setup:
  assumes "fd_ledger sys fds"
  shows "fds (w_env (snd (connect_sock_setup sys conf host addr s w))) = fds (w_env w)"
  unfolding connect_sock_setup_def
proof (rule err_then_inv[where P = "\<lambda>w1. fds (w_env w1) = fds (w_env w)"])
  show "fds (w_env (snd (golioth_setsockopt_dtls sys conf s host w))) = fds (w_env w)"
    by (rule fds_dtls[OF assms])
next
  fix w1 :: "'a world"
  assume w1: "fds (w_env w1) = fds (w_env w)"
  obtain ret e2 where c: "zsock_connect sys s addr (w_env w1) = (ret, e2)" by fastforce
  let ?w2 = "upd_client (\<lambda>c. c\<lparr>cl_sock := s\<rparr>) (w1\<lparr>w_env := e2\<rparr>)"
  have e2: "fds e2 = fds (w_env w)" using fd_ledgerD(5)[OF assms c] w1 by simp
  obtain err w3 where e: "raw_golioth_send_empty_coap sys ?w2 = (err, w3)" by fastforce
  have "fds (w_env w3) = fds (w_env w)"
    using fds_send_empty[OF assms, of ?w2] e e2 by (simp add: upd_client_def)
  with c e e2 show "fds (w_env (snd (case env_read (zsock_connect sys s addr) w1 of
          (ret, w1) \<Rightarrow>
            if ret < 0 then (- sys_errno sys (w_env w1), w1)
            else
              (case raw_golioth_send_empty_coap sys (upd_client (\<lambda>c. c\<lparr>cl_sock := s\<rparr>) w1) of
                 (err, w2) \<Rightarrow>
                   if err \<noteq> 0 then (err, upd_client (\<lambda>c. c\<lparr>cl_sock := - 1\<rparr>) w2) else (0, w2))))) = fds (w_env w)"
    by (simp add: env_read_def upd_client_def)
qed

lemma fds_connect_sockaddr:
  assumes "fd_ledger sys fds" and "errno_ok sys" and "cl_sock (w_client w) = - 1"
    and "golioth_connect_sockaddr sys conf host fam addr w = (e, w')"
  shows "fds (w_env w') = fds (w_env w) \<union> (if e = 0 then {cl_sock (w_client w')} else {})"
proof -
  obtain s w1 where c: "env_read (zsock_socket sys fam (cl_proto (w_client w))) w = (s, w1)" by fastforce
  then obtain e1 where z: "zsock_socket sys fam (cl_proto (w_client w)) (w_env w) = (s, e1)" "w1 = w\<lparr>w_env := e1\<rparr>"
    by (auto simp: env_read_def split: prod.splits)
  show ?thesis
  proof (cases "s < 0")
    case True
    with c z assms(4) have "e = - sys_errno sys e1" "w' = w\<lparr>w_env := e1\<rparr>"
      by (auto simp: golioth_connect_sockaddr_def)
    with fd_ledgerD(1)[OF assms(1) z(1) True] assms(2) show ?thesis
      by (simp add: errno_ok_def) (metis less_irrefl)
  next
    case False
    then have new: "s \<notin> fds (w_env w)" "fds (w_env w1) = insert s (fds (w_env w))"
      using fd_ledgerD(2)[OF assms(1) z(1)] z(2) by simp_all
    obtain err w2 where t: "connect_sock_setup sys conf host addr s w1 = (err, w2)" by fastforce
    have w2: "fds (w_env w2) = insert s (fds (w_env w))"
      using fds_connect_setup[OF assms(1), of conf host addr s w1] t new(2) by simp
    show ?thesis
    proof (cases "err = 0")
      case True
      have "cl_sock (w_client w1) = - 1" using assms(3) z(2) by simp
      from connect_sock_setup_spec[OF t assms(2) this] True have "same_but_env (with_sock s w1) w2" by simp
      then have "cl_sock (w_client w2) = s" using same_but_envD(1) by (fastforce simp: with_sock_def upd_client_def)
      with True False c t assms(4) w2 show ?thesis by (auto simp: golioth_connect_sockaddr_def)
    next
      case err: False
      obtain e3 w3 where cl: "raw_golioth_close sys s w2 = (e3, w3)" by fastforce
      have "fds (w_env w3) = fds (w_env w)"
        using fds_close[OF assms(1), of s w2] False cl w2 new(1) by simp
      with err False c t cl assms(4) show ?thesis by (auto simp: golioth_connect_sockaddr_def)
    qed
  qed
qed

lemma fds_connect_addrs:
  assumes "fd_ledger sys fds" and "errno_ok sys" and "cl_sock (w_client w) = - 1" and "e0 \<noteq> 0"
    and "connect_addrs sys conf host addrs e0 w = (e, w')"
  shows "fds (w_env w') = fds (w_env w) \<union> (if e = 0 then {cl_sock (w_client w')} else {})"
  using assms(3-)
proof (induction addrs arbitrary: e0 w)
  case (Cons a addrs)
  obtain fam addr where a: "a = (fam, addr)" by (cases a)
  obtain e1 w1 where c: "golioth_connect_sockaddr sys conf host fam addr w = (e1, w1)" by fastforce
  note L = fds_connect_sockaddr[OF assms(1,2) Cons.prems(1) c]
  show ?case
  proof (cases "e1 = 0")
    case True
    with L c Cons.prems(3) a show ?thesis by auto
  next
    case False
    with connect_sockaddr_spec[OF c assms(2) Cons.prems(1)] have f: "same_but_env w w1" by simp
    have "cl_sock (w_client w1) = - 1" using same_but_envD(1)[OF f] Cons.prems(1) by simp
    moreover have "connect_addrs sys conf host addrs e1 w1 = (e, w')" using False c Cons.prems(3) a by simp
    ultimately show ?thesis using Cons.IH[of w1 e1] False L by simp
  qed
qed auto

text \<open>
  C18. A connection attempt leaks no socket: afterwards the open descriptors are those from before, and
  the client's socket if it succeeded.
\<close>

lemma fds_connect:
  assumes "fd_ledger sys fds" and "errno_ok sys" and "cl_sock (w_client w) = - 1"
    and "raw_golioth_connect sys conf host port w = (e, w')"
  shows "fds (w_env w') = fds (w_env w) \<union> (if e = 0 then {cl_sock (w_client w')} else {})"
proof -
  obtain ret addrs e1 where g: "zsock_getaddrinfo sys host port (w_env w) = (ret, addrs, e1)"
    by (metis prod_cases3)
  have e1: "fds e1 = fds (w_env w)" by (rule fd_ledgerD(7)[OF assms(1) g])
  show ?thesis
  proof (cases "ret < 0")
    case True
    with assms(4) g have "e = - EAGAIN" "w_env w' = e1" by (auto simp: raw_golioth_connect_def)
    then show ?thesis by (simp add: e1)
  next
    case False
    with assms(4) g have "connect_addrs sys conf host addrs (- ENOENT) (w\<lparr>w_env := e1\<rparr>) = (e, w')"
      by (simp add: raw_golioth_connect_def)
    moreover have "cl_sock (w_client (w\<lparr>w_env := e1\<rparr>)) = - 1" using assms(3) by simp
    ultimately have "fds (w_env w') = fds (w_env (w\<lparr>w_env := e1\<rparr>)) \<union>
        (if e = 0 then {cl_sock (w_client w')} else {})"
      by (intro fds_connect_addrs[OF assms(1,2)]) simp_all
    then show ?thesis by (simp add: e1)
  qed
qed

end
