(* ===== verification/ZcborLib.thy ===== *)
theory ZcborLib
  imports Prelude
begin

text \<open>
  The zcbor library and the states its functions work on.

  A decoding state's pointers are indices into \<open>zs_mem\<close>, the memory that holds the payload; the
  payload ends at \<open>zs_payload_end\<close>, the memory does not, and a read past the end gives
  what is there. \<open>zs_const\<close> stands for what \<^verbatim>\<open>constant_state\<close> points to; the copies of a state
  share it. An encoding state holds the bytes written so far. The fields \<open>zs_lib\<close> and
  \<open>ze_lib\<close> are the library's own.
\<close>

record zcbor_state =
  zs_mem :: "nat \<Rightarrow> u8"
  zs_payload :: nat
  zs_payload_bak :: nat
  zs_payload_end :: nat
  zs_elem_count :: u32
  zs_indefinite :: bool
  zs_const :: "int list"
  zs_lib :: "int list"

record zcbor_enc =
  ze_payload :: "u8 list"
  ze_lib :: "int list"

text \<open>\<^verbatim>\<open>*state->payload\<close>\<close>

definition zs_byte :: "zcbor_state \<Rightarrow> u8" where
  "zs_byte st = zs_mem st (zs_payload st)"

abbreviation (input) ZCBOR_MAJOR_TYPE_PINT :: nat where "ZCBOR_MAJOR_TYPE_PINT \<equiv> 0"
abbreviation (input) ZCBOR_MAJOR_TYPE_NINT :: nat where "ZCBOR_MAJOR_TYPE_NINT \<equiv> 1"
abbreviation (input) ZCBOR_MAJOR_TYPE_BSTR :: nat where "ZCBOR_MAJOR_TYPE_BSTR \<equiv> 2"
abbreviation (input) ZCBOR_MAJOR_TYPE_TSTR :: nat where "ZCBOR_MAJOR_TYPE_TSTR \<equiv> 3"
abbreviation (input) ZCBOR_MAJOR_TYPE_LIST :: nat where "ZCBOR_MAJOR_TYPE_LIST \<equiv> 4"
abbreviation (input) ZCBOR_MAJOR_TYPE_MAP :: nat where "ZCBOR_MAJOR_TYPE_MAP \<equiv> 5"
abbreviation (input) ZCBOR_MAJOR_TYPE_TAG :: nat where "ZCBOR_MAJOR_TYPE_TAG \<equiv> 6"
abbreviation (input) ZCBOR_MAJOR_TYPE_SIMPLE :: nat where "ZCBOR_MAJOR_TYPE_SIMPLE \<equiv> 7"

abbreviation (input) ZCBOR_VALUE_IN_HEADER :: nat where "ZCBOR_VALUE_IN_HEADER \<equiv> 23"
abbreviation (input) ZCBOR_VALUE_IS_1_BYTE :: nat where "ZCBOR_VALUE_IS_1_BYTE \<equiv> 24"
abbreviation (input) ZCBOR_VALUE_IS_8_BYTES :: nat where "ZCBOR_VALUE_IS_8_BYTES \<equiv> 27"
abbreviation (input) ZCBOR_VALUE_IS_INDEFINITE_LENGTH :: nat
  where "ZCBOR_VALUE_IS_INDEFINITE_LENGTH \<equiv> 31"

abbreviation (input) ZCBOR_LARGE_ELEM_COUNT :: nat where "ZCBOR_LARGE_ELEM_COUNT \<equiv> 2147483632"
abbreviation (input) ZCBOR_ERR_LOW_ELEM_COUNT :: int where "ZCBOR_ERR_LOW_ELEM_COUNT \<equiv> 2"
abbreviation (input) ZCBOR_ERR_NO_PAYLOAD :: int where "ZCBOR_ERR_NO_PAYLOAD \<equiv> 4"
abbreviation (input) ZCBOR_ERR_WRONG_TYPE :: int where "ZCBOR_ERR_WRONG_TYPE \<equiv> 8"
abbreviation (input) ZCBOR_ERR_INT_SIZE :: int where "ZCBOR_ERR_INT_SIZE \<equiv> 10"
abbreviation (input) ZCBOR_ERR_ADDITIONAL_INVAL :: int where "ZCBOR_ERR_ADDITIONAL_INVAL \<equiv> 12"

record zcbor_lib =
  zcbor_before_0_7 :: bool
    \<comment> \<open>the version of the library, which selects the SDK's own \<^verbatim>\<open>zcbor_any_skip\<close>\<close>
  zcbor_new_decode_state :: "nat \<Rightarrow> u8 list \<Rightarrow> nat \<Rightarrow> zcbor_state"
    \<comment> \<open>number of backups, payload, number of elements (\<^verbatim>\<open>ZCBOR_STATE_D\<close>)\<close>
  zcbor_str_addr :: "zcbor_state \<Rightarrow> u32"
    \<comment> \<open>the address of a string just decoded\<close>
  raw_memory :: "u32 \<Rightarrow> nat \<Rightarrow> u8 list"
    \<comment> \<open>the bytes at an address that is not that of an object\<close>
  stack_len :: nat
    \<comment> \<open>what an uninitialised \<^verbatim>\<open>size_t\<close> on the stack holds\<close>
  stack_string :: "string \<Rightarrow> u8 list"
    \<comment> \<open>an uninitialised \<^verbatim>\<open>struct zcbor_string\<close>, by the name of the variable\<close>
  stack_state :: zcbor_state
    \<comment> \<open>an uninitialised \<^verbatim>\<open>zcbor_state_t\<close>\<close>
  stack_int64 :: int
    \<comment> \<open>an uninitialised \<^verbatim>\<open>int64_t\<close>\<close>
  zcbor_check_error :: "zcbor_state \<Rightarrow> bool"
  zcbor_error :: "int \<Rightarrow> zcbor_state \<Rightarrow> zcbor_state"
  zcbor_map_start_decode :: "zcbor_state \<Rightarrow> bool \<times> zcbor_state"
  zcbor_map_end_decode :: "zcbor_state \<Rightarrow> bool \<times> zcbor_state"
  zcbor_list_start_decode :: "zcbor_state \<Rightarrow> bool \<times> zcbor_state"
  zcbor_list_end_decode :: "zcbor_state \<Rightarrow> bool \<times> zcbor_state"
  zcbor_list_map_end_force_decode :: "zcbor_state \<Rightarrow> bool \<times> zcbor_state"
  zcbor_tstr_decode :: "zcbor_state \<Rightarrow> bool \<times> u8 list \<times> zcbor_state"
  zcbor_uint32_decode :: "zcbor_state \<Rightarrow> bool \<times> u32 \<times> zcbor_state"
  zcbor_int64_decode :: "zcbor_state \<Rightarrow> bool \<times> int \<times> zcbor_state"
  zcbor_float_decode :: "zcbor_state \<Rightarrow> bool \<times> 64 word \<times> zcbor_state"
  zcbor_bool_decode :: "zcbor_state \<Rightarrow> bool \<times> bool \<times> zcbor_state"
  zcbor_nil_expect :: "zcbor_state \<Rightarrow> bool \<times> zcbor_state"
  zcbor_tag_decode :: "zcbor_state \<Rightarrow> bool \<times> u32 \<times> zcbor_state"
  lib_zcbor_any_skip :: "zcbor_state \<Rightarrow> bool \<times> zcbor_state"
    \<comment> \<open>the library's function, not the macro\<close>
  float_of_double :: "64 word \<Rightarrow> u32"
    \<comment> \<open>the conversion \<^verbatim>\<open>(float)\<close> on bit patterns\<close>
  zcbor_new_encode_state :: "nat \<Rightarrow> nat \<Rightarrow> zcbor_enc"
    \<comment> \<open>number of states, size of the buffer\<close>
  zcbor_map_start_encode :: "nat \<Rightarrow> zcbor_enc \<Rightarrow> bool \<times> zcbor_enc"
  zcbor_map_end_encode :: "nat \<Rightarrow> zcbor_enc \<Rightarrow> bool \<times> zcbor_enc"
  zcbor_list_start_encode :: "nat \<Rightarrow> zcbor_enc \<Rightarrow> bool \<times> zcbor_enc"
  zcbor_list_end_encode :: "nat \<Rightarrow> zcbor_enc \<Rightarrow> bool \<times> zcbor_enc"
  zcbor_tstr_put :: "u8 list \<Rightarrow> zcbor_enc \<Rightarrow> bool \<times> zcbor_enc"
    \<comment> \<open>also \<^verbatim>\<open>zcbor_tstr_put_lit\<close>, \<^verbatim>\<open>zcbor_tstr_put_term\<close>, \<^verbatim>\<open>zcbor_tstr_encode\<close>\<close>
  zcbor_uint32_put :: "nat \<Rightarrow> zcbor_enc \<Rightarrow> bool \<times> zcbor_enc"
  zcbor_uint64_put :: "nat \<Rightarrow> zcbor_enc \<Rightarrow> bool \<times> zcbor_enc"
  zcbor_int64_put :: "int \<Rightarrow> zcbor_enc \<Rightarrow> bool \<times> zcbor_enc"

section \<open>What the loops rely on\<close>

text \<open>
  A decoder that succeeds has moved forward, not past the end; one that fails has not moved.
  Leaving a list or a map does not move back.
\<close>

definition moves :: "zcbor_state \<Rightarrow> zcbor_state \<Rightarrow> bool" where
  "moves st st' \<longleftrightarrow> zs_payload st < zs_payload st' \<and> zs_payload st' \<le> zs_payload_end st \<and>
     zs_payload_end st' = zs_payload_end st"

definition stays :: "zcbor_state \<Rightarrow> zcbor_state \<Rightarrow> bool" where
  "stays st st' \<longleftrightarrow> zs_payload st' = zs_payload st \<and> zs_payload_end st' = zs_payload_end st"

definition leaves :: "zcbor_state \<Rightarrow> zcbor_state \<Rightarrow> bool" where
  "leaves st st' \<longleftrightarrow> zs_payload st \<le> zs_payload st' \<and> zs_payload_end st' = zs_payload_end st \<and>
     (zs_payload st \<le> zs_payload_end st \<longrightarrow> zs_payload st' \<le> zs_payload_end st)"

definition step_moves :: "(zcbor_state \<Rightarrow> bool \<times> zcbor_state) \<Rightarrow> bool" where
  "step_moves f \<longleftrightarrow> (\<forall>st st'. (f st = (True, st') \<longrightarrow> moves st st') \<and> (f st = (False, st') \<longrightarrow> stays st st'))"

definition value_moves :: "(zcbor_state \<Rightarrow> bool \<times> 'v \<times> zcbor_state) \<Rightarrow> bool" where
  "value_moves f \<longleftrightarrow> (\<forall>st v st'. (f st = (True, v, st') \<longrightarrow> moves st st') \<and>
     (f st = (False, v, st') \<longrightarrow> stays st st'))"

definition zcbor_lib_ok :: "('l) zcbor_lib_scheme \<Rightarrow> bool" where
  "zcbor_lib_ok lib \<longleftrightarrow>
     step_moves (zcbor_map_start_decode lib) \<and> step_moves (zcbor_list_start_decode lib) \<and>
     step_moves (zcbor_nil_expect lib) \<and> step_moves (lib_zcbor_any_skip lib) \<and>
     value_moves (zcbor_tstr_decode lib) \<and> value_moves (zcbor_uint32_decode lib) \<and>
     value_moves (zcbor_int64_decode lib) \<and> value_moves (zcbor_float_decode lib) \<and>
     value_moves (zcbor_bool_decode lib) \<and> value_moves (zcbor_tag_decode lib) \<and>
     (\<forall>st st'. zcbor_map_end_decode lib st = (True, st') \<longrightarrow> leaves st st') \<and>
     (\<forall>st st'. zcbor_list_end_decode lib st = (True, st') \<longrightarrow> leaves st st') \<and>
     (\<forall>st st'. zcbor_list_map_end_force_decode lib st = (True, st') \<longrightarrow> leaves st st') \<and>
     (\<forall>e st. stays st (zcbor_error lib e st))"

lemma moves_trans: "moves a b \<Longrightarrow> moves b c \<Longrightarrow> moves a c"
  by (simp add: moves_def)

lemma stays_refl [simp]: "stays st st"
  by (simp add: stays_def)

lemma stays_trans: "stays a b \<Longrightarrow> stays b c \<Longrightarrow> stays a c"
  by (simp add: stays_def)

lemma moves_stays: "moves a b \<Longrightarrow> stays b c \<Longrightarrow> moves a c" "stays a b \<Longrightarrow> moves b c \<Longrightarrow> moves a c"
  by (simp_all add: moves_def stays_def)

lemma moves_leaves: "moves a b \<Longrightarrow> leaves b c \<Longrightarrow> moves a c"
  by (auto simp: moves_def leaves_def)

lemma step_movesD:
  "step_moves f \<Longrightarrow> f st = (True, st') \<Longrightarrow> moves st st'"
  "step_moves f \<Longrightarrow> f st = (False, st') \<Longrightarrow> stays st st'"
  by (simp_all add: step_moves_def)

lemma value_movesD:
  "value_moves g \<Longrightarrow> g st = (True, v, st') \<Longrightarrow> moves st st'"
  "value_moves g \<Longrightarrow> g st = (False, v, st') \<Longrightarrow> stays st st'"
  unfolding value_moves_def by blast+

lemma zcbor_lib_ok_moves:
  assumes "zcbor_lib_ok lib"
  shows "step_moves (zcbor_map_start_decode lib)" "step_moves (zcbor_list_start_decode lib)"
    "step_moves (zcbor_nil_expect lib)" "step_moves (lib_zcbor_any_skip lib)"
    "value_moves (zcbor_tstr_decode lib)" "value_moves (zcbor_uint32_decode lib)"
    "value_moves (zcbor_int64_decode lib)" "value_moves (zcbor_float_decode lib)"
    "value_moves (zcbor_bool_decode lib)" "value_moves (zcbor_tag_decode lib)"
  using assms by (simp_all add: zcbor_lib_ok_def)

lemma zcbor_lib_ok_leaves:
  assumes "zcbor_lib_ok lib"
  shows "zcbor_list_end_decode lib st = (True, st') \<Longrightarrow> leaves st st'"
    and "zcbor_map_end_decode lib st = (True, st') \<Longrightarrow> leaves st st'"
    and "zcbor_list_map_end_force_decode lib st = (True, st') \<Longrightarrow> leaves st st'"
    and "stays st (zcbor_error lib e st)"
  using assms by (simp_all add: zcbor_lib_ok_def)

end
