(* ===== verification/Application.thy ===== *)
theory Application
  imports ReqInvariant ZcborLib
begin

text \<open>
  What an application gives the SDK: response callbacks, the settings callback, RPC methods, the
  function to call on a connection. They are parameters; \<open>app_ok\<close> is what the SDK may expect of
  them.
\<close>

text \<open>The tagged union of \<^verbatim>\<open>include/net/golioth/settings.h\<close>; a float is its bit pattern.\<close>

datatype golioth_settings_value =
    SETTINGS_VALUE_UNKNOWN
  | SETTINGS_VALUE_BOOL bool
  | SETTINGS_VALUE_FLOAT u32
  | SETTINGS_VALUE_STRING "u8 list"
  | SETTINGS_VALUE_INT64 int

abbreviation (input) GOLIOTH_SETTINGS_SUCCESS :: int where "GOLIOTH_SETTINGS_SUCCESS \<equiv> 0"
abbreviation (input) GOLIOTH_SETTINGS_VALUE_FORMAT_NOT_VALID :: int
  where "GOLIOTH_SETTINGS_VALUE_FORMAT_NOT_VALID \<equiv> 3"
abbreviation (input) GOLIOTH_RPC_UNKNOWN :: nat where "GOLIOTH_RPC_UNKNOWN \<equiv> 2"

text \<open>A response callback is given the function that a response's \<^verbatim>\<open>get_next\<close> stands for.\<close>

record 'e app =
  app_cb :: "nat \<Rightarrow> (ptr \<Rightarrow> int \<Rightarrow> 'e world \<Rightarrow> int \<times> 'e world) \<Rightarrow> golioth_req_rsp \<Rightarrow> 'e world
      \<Rightarrow> int \<times> 'e world"
  app_setting :: "nat \<Rightarrow> u8 list \<Rightarrow> golioth_settings_value \<Rightarrow> 'e world \<Rightarrow> int \<times> 'e world"
  app_rpc :: "nat \<Rightarrow> zcbor_state \<Rightarrow> zcbor_enc \<Rightarrow> nat \<Rightarrow> 'e world \<Rightarrow> nat \<times> zcbor_enc \<times> 'e world"
  app_on_connect :: "nat \<Rightarrow> 'e world \<Rightarrow> 'e world"

text \<open>Build-time sizes of the services.\<close>

record service_conf =
  conf_rpc_max_num_methods :: nat
  conf_rpc_max_response_len :: nat
  conf_settings_max_response_len :: nat

text \<open>
  An application's functions may submit requests and ask for the next block, no more. With an
  error there is nothing to ask for, and a callback that is told of one only acts on its own
  data.
\<close>

definition app_ok :: "('e, 'y) app_scheme \<Rightarrow> bool" where
  "app_ok app \<longleftrightarrow>
     (\<forall>i nb rsp w. (\<forall>r status w. world_ok w \<longrightarrow> r \<in> set (reqs_list w) \<longrightarrow> cb_step w (snd (nb r status w))) \<longrightarrow>
        world_ok w \<longrightarrow> rsp_ok w rsp \<longrightarrow> cb_step w (snd (app_cb app i nb rsp w))) \<and>
     (\<forall>i nb rsp w. rsp_err rsp \<noteq> 0 \<longrightarrow> rsp_get_next rsp = None \<longrightarrow>
        coap_same w (snd (app_cb app i nb rsp w))) \<and>
     (\<forall>i key v w. world_ok w \<longrightarrow> cb_step w (snd (app_setting app i key v w))) \<and>
     (\<forall>i st enc a w. world_ok w \<longrightarrow> cb_step w (snd (snd (app_rpc app i st enc a w)))) \<and>
     (\<forall>i w. world_ok w \<longrightarrow> cb_step w (app_on_connect app i w))"

lemma app_okD:
  assumes "app_ok app"
  shows "(\<And>r status w. world_ok w \<Longrightarrow> r \<in> set (reqs_list w) \<Longrightarrow> cb_step w (snd (nb r status w))) \<Longrightarrow>
      world_ok w \<Longrightarrow> rsp_ok w rsp \<Longrightarrow> cb_step w (snd (app_cb app i nb rsp w))"
    and "rsp_err rsp \<noteq> 0 \<Longrightarrow> rsp_get_next rsp = None \<Longrightarrow> coap_same w (snd (app_cb app i nb rsp w))"
    and "world_ok w \<Longrightarrow> cb_step w (snd (app_setting app i key v w))"
    and "world_ok w \<Longrightarrow> cb_step w (snd (snd (app_rpc app i st enc a w)))"
    and "world_ok w \<Longrightarrow> cb_step w (app_on_connect app i w)"
  using assms unfolding app_ok_def by blast+

text \<open>\<^verbatim>\<open>ok = f(zse) && g(zse)\<close>, for encoding functions.\<close>

definition enc_and ::
  "(zcbor_enc \<Rightarrow> bool \<times> zcbor_enc) \<Rightarrow> (zcbor_enc \<Rightarrow> bool \<times> zcbor_enc) \<Rightarrow> zcbor_enc
     \<Rightarrow> bool \<times> zcbor_enc" where
  "enc_and f g enc = (case f enc of (ok, enc1) \<Rightarrow> if \<not> ok then (False, enc1) else g enc1)"

text \<open>\<^verbatim>\<open>if (!ok) return err;\<close> between encoding steps.\<close>

definition enc_step ::
  "int \<Rightarrow> (zcbor_enc \<Rightarrow> bool \<times> zcbor_enc) \<Rightarrow> int \<times> zcbor_enc \<Rightarrow> int \<times> zcbor_enc" where
  "enc_step err f s =
     err_then s (\<lambda>enc. case f enc of (ok, enc1) \<Rightarrow> if \<not> ok then (err, enc1) else (0, enc1))"

text \<open>The body \<^verbatim>\<open>"?OK"\<close> that answers an observation: \<^verbatim>\<open>len == 3 && data[1] == 'O' && data[2] == 'K'\<close>.\<close>

definition is_ok_body :: "u8 list \<Rightarrow> bool" where
  "is_ok_body d \<longleftrightarrow> length d = 3 \<and> d ! 1 = 0x4F \<and> d ! 2 = 0x4B"

text \<open>Changes of the client that the request layer does not see.\<close>

lemma cb_step_upd_client:
  assumes "world_ok w" and "\<And>c. cl_coap_reqs (f c) = cl_coap_reqs c"
    and "\<And>c. cl_coap_reqs_connected (f c) = cl_coap_reqs_connected c" and "\<And>c. cl_sock (f c) = cl_sock c"
    and "\<And>c. cl_settings (f c) = cl_settings c"
  shows "cb_step w (upd_client f w)"
proof -
  have "settings_ready (upd_client f w) = settings_ready w"
    by (simp add: settings_ready_def upd_client_def assms(5))
  then have "world_ok (upd_client f w)"
    by (intro world_ok_cong[OF assms(1)]) (simp_all add: upd_client_def assms(2,3))
  with \<open>settings_ready _ = _\<close> show ?thesis
    by (auto simp: cb_step_def upd_client_def assms(2,3,4))
qed

text \<open>Changes of the application's own data, which are in the environment.\<close>

definition upd_env :: "('e \<Rightarrow> 'e) \<Rightarrow> 'e world \<Rightarrow> 'e world" where
  "upd_env g w = w\<lparr>w_env := g (w_env w)\<rparr>"

lemma upd_env_same [simp]: "same_but_env w (upd_env g w)" "coap_same w (upd_env g w)"
  by (simp_all add: upd_env_def coap_same_def)

lemma upd_env_env [simp]: "w_env (upd_env g w) = g (w_env w)"
  by (simp add: upd_env_def)

lemma upd_env_twice [simp]: "upd_env g (upd_env h w) = upd_env (\<lambda>s. g (h s)) w"
  by (simp add: upd_env_def)

lemma cb_step_upd_env [simp]: "world_ok w \<Longrightarrow> cb_step w (upd_env g w)"
  by (rule cb_step_same_but_env) simp_all

end
