(* ===== verification/ZcborAnySkip.thy ===== *)
theory ZcborAnySkip
  imports ZcborLib
begin

text \<open>
  \<^verbatim>\<open>net/golioth/zcbor_any_skip_fixed.c\<close>: the SDK's replacement of \<^verbatim>\<open>zcbor_any_skip\<close> for old
  versions of the library, on a little-endian target (no \<^verbatim>\<open>CONFIG_BIG_ENDIAN\<close>).

  A function that fails returns \<open>False\<close>; errors are recorded through \<^verbatim>\<open>zcbor_error\<close>. The
  loops are partial functions: \<open>None\<close> is a call that does not return.
\<close>

section \<open>Headers\<close>

definition additional_len :: "nat \<Rightarrow> nat" where
  "additional_len additional =
     (if ZCBOR_VALUE_IS_1_BYTE \<le> additional \<and> additional \<le> ZCBOR_VALUE_IS_8_BYTES
      then 2 ^ (additional - ZCBOR_VALUE_IS_1_BYTE) else 0)"

definition MAJOR_TYPE :: "u8 \<Rightarrow> nat" where
  "MAJOR_TYPE header_byte = unat (drop_bit 5 header_byte AND 7)"

definition ADDITIONAL :: "u8 \<Rightarrow> nat" where
  "ADDITIONAL header_byte = unat (header_byte AND 31)"

definition initial_checks :: "('l) zcbor_lib_scheme \<Rightarrow> zcbor_state \<Rightarrow> bool \<times> zcbor_state" where
  "initial_checks lib st =
     (if \<not> zcbor_check_error lib st then (False, st)
      else if zs_payload st \<ge> zs_payload_end st then (False, zcbor_error lib ZCBOR_ERR_NO_PAYLOAD st)
      else (True, st))"

text \<open>The result is the \<^verbatim>\<open>result_len\<close> bytes of the number, least significant first.\<close>

definition value_extract ::
  "('l) zcbor_lib_scheme \<Rightarrow> nat \<Rightarrow> zcbor_state \<Rightarrow> bool \<times> u8 list \<times> zcbor_state" where
  "value_extract lib result_len st =
     (case initial_checks lib st of
        (False, st1) \<Rightarrow> (False, [], st1)
      | (True, st1) \<Rightarrow>
          if zs_elem_count st1 = 0 then (False, [], zcbor_error lib ZCBOR_ERR_LOW_ELEM_COUNT st1)
          else
            let additional = ADDITIONAL (zs_byte st1);
                st2 = st1\<lparr>zs_payload_bak := zs_payload st1, zs_payload := Suc (zs_payload st1)\<rparr>;
                res = replicate result_len 0
            in if additional \<le> ZCBOR_VALUE_IN_HEADER
               then (True, res[0 := of_nat additional],
                     st2\<lparr>zs_elem_count := zs_elem_count st2 - 1\<rparr>)
               else
                 let len = additional_len additional;
                     fail = (\<lambda>e. (False, res, zcbor_error lib e (st2\<lparr>zs_payload := zs_payload st2 - 1\<rparr>)))
                 in if len > result_len then fail ZCBOR_ERR_INT_SIZE
                    else if len = 0 then fail ZCBOR_ERR_ADDITIONAL_INVAL
                    else if zs_payload st2 + len > zs_payload_end st2 then fail ZCBOR_ERR_NO_PAYLOAD
                    else (True,
                          map (\<lambda>i. zs_mem st2 (zs_payload st2 + (len - i - 1))) [0..<len] @ drop len res,
                          st2\<lparr>zs_payload := zs_payload st2 + len,
                              zs_elem_count := zs_elem_count st2 - 1\<rparr>))"

definition array_end_expect :: "('l) zcbor_lib_scheme \<Rightarrow> zcbor_state \<Rightarrow> bool \<times> zcbor_state" where
  "array_end_expect lib st =
     (case initial_checks lib st of
        (False, st1) \<Rightarrow> (False, st1)
      | (True, st1) \<Rightarrow>
          if zs_byte st1 \<noteq> 0xFF then (False, zcbor_error lib ZCBOR_ERR_WRONG_TYPE st1)
          else (True, st1\<lparr>zs_payload := Suc (zs_payload st1)\<rparr>))"

definition zcbor_array_at_end :: "zcbor_state \<Rightarrow> bool" where
  "zcbor_array_at_end st \<longleftrightarrow>
     (\<not> zs_indefinite st \<and> zs_elem_count st = 0) \<or>
     (zs_indefinite st \<and> zs_payload st < zs_payload_end st \<and> zs_byte st = 0xFF)"

section \<open>Skipping\<close>

text \<open>The memory a \<^verbatim>\<open>uint64_t\<close> is read from, least significant byte first.\<close>

definition le_value :: "u8 list \<Rightarrow> nat" where
  "le_value bytes = foldr (\<lambda>b acc. unat b + 256 * acc) bytes 0"

text \<open>\<^verbatim>\<open>while (major_type == ZCBOR_MAJOR_TYPE_TAG)\<close>; the result is whether it ended well.\<close>

partial_function (option) skip_tags ::
  "('l) zcbor_lib_scheme \<Rightarrow> zcbor_state \<Rightarrow> (bool \<times> zcbor_state) option" where
  "skip_tags lib copy =
     (if MAJOR_TYPE (zs_byte copy) \<noteq> ZCBOR_MAJOR_TYPE_TAG then Some (True, copy)
      else
        (case zcbor_tag_decode lib copy of
           (ok, _, copy1) \<Rightarrow>
             if \<not> ok then Some (False, copy1)
             else if zs_payload copy1 \<ge> zs_payload_end copy1
             then Some (False, zcbor_error lib ZCBOR_ERR_NO_PAYLOAD copy1)
             else skip_tags lib copy1))"

declare skip_tags.simps [code]

text \<open>
  \<^verbatim>\<open>while (!zcbor_array_at_end(&state_copy))\<close>. The file does not include the header that
  renames \<^verbatim>\<open>zcbor_any_skip\<close>, so this is the library's function.
\<close>

partial_function (option) skip_elems ::
  "('l) zcbor_lib_scheme \<Rightarrow> zcbor_state \<Rightarrow> (bool \<times> zcbor_state) option" where
  "skip_elems lib copy =
     (if zcbor_array_at_end copy then Some (True, copy)
      else
        (case lib_zcbor_any_skip lib copy of
           (ok, copy1) \<Rightarrow> if \<not> ok then Some (False, copy1) else skip_elems lib copy1))"

declare skip_elems.simps [code]

text \<open>The case of \<^verbatim>\<open>ZCBOR_MAJOR_TYPE_LIST\<close>.\<close>

definition skip_container ::
  "('l) zcbor_lib_scheme \<Rightarrow> bool \<Rightarrow> nat \<Rightarrow> zcbor_state \<Rightarrow> (bool \<times> zcbor_state) option" where
  "skip_container lib indefinite val copy =
     (let copy1 = (if indefinite then copy\<lparr>zs_payload := Suc (zs_payload copy)\<rparr> else copy);
          val1 = (if indefinite then ZCBOR_LARGE_ELEM_COUNT else val);
          copy2 = copy1\<lparr>zs_elem_count := of_nat val1, zs_indefinite := indefinite\<rparr>
      in case skip_elems lib copy2 of
           None \<Rightarrow> None
         | Some (ok, copy3) \<Rightarrow>
             if \<not> ok then Some (False, copy3)
             else if indefinite then Some (array_end_expect lib copy3)
             else Some (True, copy3))"

text \<open>The \<^verbatim>\<open>switch\<close>, on the copy of the state.\<close>

definition skip_body ::
  "('l) zcbor_lib_scheme \<Rightarrow> nat \<Rightarrow> bool \<Rightarrow> nat \<Rightarrow> zcbor_state \<Rightarrow> (bool \<times> zcbor_state) option" where
  "skip_body lib major indefinite val copy =
     (if major = ZCBOR_MAJOR_TYPE_BSTR \<or> major = ZCBOR_MAJOR_TYPE_TSTR then
        (if val > zs_payload_end copy - zs_payload copy
         then Some (False, zcbor_error lib ZCBOR_ERR_NO_PAYLOAD copy)
         else Some (True, copy\<lparr>zs_payload := zs_payload copy + val\<rparr>))
      else if major = ZCBOR_MAJOR_TYPE_MAP then
        (if val > SIZE_MAX div 2 then Some (False, zcbor_error lib ZCBOR_ERR_INT_SIZE copy)
         else skip_container lib indefinite (val * 2) copy)
      else if major = ZCBOR_MAJOR_TYPE_LIST then skip_container lib indefinite val copy
      else Some (True, copy))"

text \<open>
  The copy is committed at the end; on a failure only what both states share is kept.
\<close>

definition zcbor_any_skip_fixed ::
  "('l) zcbor_lib_scheme \<Rightarrow> zcbor_state \<Rightarrow> (bool \<times> zcbor_state) option" where
  "zcbor_any_skip_fixed lib st =
     (case initial_checks lib st of
        (False, st1) \<Rightarrow> Some (False, st1)
      | (True, st1) \<Rightarrow>
          let fail = (\<lambda>copy. Some (False, st1\<lparr>zs_const := zs_const copy\<rparr>))
          in case skip_tags lib st1 of
               None \<Rightarrow> None
             | Some (ok, copy) \<Rightarrow>
                 if \<not> ok then fail copy
                 else
                   let major = MAJOR_TYPE (zs_byte copy);
                       indefinite = (ADDITIONAL (zs_byte copy) = ZCBOR_VALUE_IS_INDEFINITE_LENGTH \<and>
                         (major = ZCBOR_MAJOR_TYPE_LIST \<or> major = ZCBOR_MAJOR_TYPE_MAP));
                       (ok1, bytes, copy1) = (if indefinite then (True, [], copy) else value_extract lib 8 copy)
                   in if \<not> ok1 then fail copy1
                      else
                        (case skip_body lib major indefinite (le_value bytes) copy1 of
                           None \<Rightarrow> None
                         | Some (ok2, copy2) \<Rightarrow>
                             if \<not> ok2 then fail copy2
                             else Some (True, st1\<lparr>zs_payload := zs_payload copy2,
                                                  zs_elem_count := zs_elem_count st1 - 1,
                                                  zs_const := zs_const copy2\<rparr>)))"

text \<open>What \<^verbatim>\<open>zcbor_any_skip\<close> means in the files that include \<^verbatim>\<open>zcbor_any_skip_fixed.h\<close>.\<close>

definition zcbor_any_skip ::
  "('l) zcbor_lib_scheme \<Rightarrow> zcbor_state \<Rightarrow> (bool \<times> zcbor_state) option" where
  "zcbor_any_skip lib st =
     (if zcbor_before_0_7 lib then zcbor_any_skip_fixed lib st else Some (lib_zcbor_any_skip lib st))"

section \<open>The reference: well-formed items\<close>

text \<open>The value and the length of the header at \<open>i\<close> (RFC 8949, section 3).\<close>

definition be_value :: "(nat \<Rightarrow> u8) \<Rightarrow> nat \<Rightarrow> nat \<Rightarrow> nat" where
  "be_value m i len = foldl (\<lambda>acc k. unat (m (i + k)) + 256 * acc) 0 [0..<len]"

definition cbor_head :: "(nat \<Rightarrow> u8) \<Rightarrow> nat \<Rightarrow> (nat \<times> nat) option" where
  "cbor_head m i =
     (let a = ADDITIONAL (m i) in
      if a \<le> 23 then Some (a, 1)
      else if a \<le> 27 then Some (be_value m (Suc i) (2 ^ (a - 24)), 1 + 2 ^ (a - 24))
      else None)"

text \<open>
  \<open>cbor_item m i j\<close>: the bytes from \<open>i\<close> up to \<open>j\<close> are one item. It is the grammar of RFC 8949 but for two points, in which
  it is what the code implements: a map of indefinite length may have a key without a value, and strings
  have no indefinite length. (Nor does it look into the values of simple items.)
\<close>

inductive cbor_item :: "(nat \<Rightarrow> u8) \<Rightarrow> nat \<Rightarrow> nat \<Rightarrow> bool"
  and cbor_items :: "(nat \<Rightarrow> u8) \<Rightarrow> nat \<Rightarrow> nat \<Rightarrow> nat \<Rightarrow> bool"
  and cbor_seq :: "(nat \<Rightarrow> u8) \<Rightarrow> nat \<Rightarrow> nat \<Rightarrow> bool"
  for m where
  simple: "MAJOR_TYPE (m i) \<in> {0, 1, 7} \<Longrightarrow> cbor_head m i = Some (v, h) \<Longrightarrow> cbor_item m i (i + h)"
| str: "MAJOR_TYPE (m i) \<in> {2, 3} \<Longrightarrow> cbor_head m i = Some (v, h) \<Longrightarrow> cbor_item m i (i + h + v)"
| list: "MAJOR_TYPE (m i) = 4 \<Longrightarrow> cbor_head m i = Some (v, h) \<Longrightarrow> cbor_items m v (i + h) j \<Longrightarrow>
    cbor_item m i j"
| cmap: "MAJOR_TYPE (m i) = 5 \<Longrightarrow> cbor_head m i = Some (v, h) \<Longrightarrow> cbor_items m (v * 2) (i + h) j \<Longrightarrow>
    cbor_item m i j"
| tag: "MAJOR_TYPE (m i) = 6 \<Longrightarrow> cbor_head m i = Some (v, h) \<Longrightarrow> cbor_item m (i + h) j \<Longrightarrow>
    cbor_item m i j"
| indef: "MAJOR_TYPE (m i) \<in> {4, 5} \<Longrightarrow> ADDITIONAL (m i) = 31 \<Longrightarrow> cbor_seq m (Suc i) j \<Longrightarrow>
    m j = 0xFF \<Longrightarrow> cbor_item m i (Suc j)"
| items_nil: "cbor_items m 0 i i"
| items_cons: "cbor_item m i j \<Longrightarrow> cbor_items m n j k \<Longrightarrow> cbor_items m (Suc n) i k"
| seq_nil: "cbor_seq m i i"
| seq_cons: "cbor_item m i j \<Longrightarrow> cbor_seq m j k \<Longrightarrow> cbor_seq m i k"

section \<open>Headers are read right\<close>

lemma le_value_append: "le_value (xs @ ys) = le_value xs + 256 ^ length xs * le_value ys"
  by (induction xs) (simp_all add: le_value_def algebra_simps)

lemma le_value_zeros [simp]: "le_value (replicate n 0) = 0"
  by (induction n) (simp_all add: le_value_def)

lemma le_value_rev: "le_value (rev xs) = foldl (\<lambda>acc b. unat b + 256 * acc) 0 xs"
  unfolding le_value_def foldr_conv_foldl by simp

lemma map_backwards: "map (\<lambda>i. f (len - i - 1)) [0..<len] = rev (map f [0..<len])"
  by (rule nth_equalityI) (auto simp: rev_nth)

lemma le_value_read:
  "le_value (map (\<lambda>i. m (p + (len - i - 1))) [0..<len] @ drop len (replicate 8 0)) = be_value m p len"
proof -
  have "map (\<lambda>i. m (p + (len - i - 1))) [0..<len] = rev (map (\<lambda>k. m (p + k)) [0..<len])"
    by (rule map_backwards)
  then show ?thesis
    by (simp add: le_value_append le_value_rev be_value_def foldl_map)
qed

lemma foldl_map_unat: "foldl (\<lambda>acc b. unat b + 256 * acc) 0 (map f xs) =
    foldl (\<lambda>acc k. unat (f k) + 256 * acc) 0 xs"
  by (simp add: foldl_map)

text \<open>A number of \<open>len\<close> bytes is in the range of its width.\<close>

lemma be_value_bound: "be_value m i len < 256 ^ len"
proof (induction len)
  case (Suc len)
  have "unat (m (i + len)) < 256" using unsigned_less[of "m (i + len)", where 'a = nat] by simp
  with Suc show ?case by (simp add: be_value_def)
qed (simp add: be_value_def)

lemma ADDITIONAL_le: "ADDITIONAL b \<le> 31"
proof -
  have "b AND 31 \<le> 31" by (rule word_and_le1)
  then have "unat (b AND 31) \<le> unat (31 :: u8)" by (simp only: word_le_nat_alt)
  then show ?thesis by (simp add: ADDITIONAL_def)
qed

text \<open>
  Only \<open>zs_payload\<close>, \<open>zs_payload_bak\<close> and \<open>zs_elem_count\<close> change, and a successful call
  has read the header the grammar describes.
\<close>

definition same_input :: "zcbor_state \<Rightarrow> zcbor_state \<Rightarrow> bool" where
  "same_input st st' \<longleftrightarrow> zs_mem st' = zs_mem st \<and> zs_payload_end st' = zs_payload_end st \<and>
     zs_indefinite st' = zs_indefinite st"

lemma initial_checks_True: "initial_checks lib st = (True, st') \<Longrightarrow> st' = st \<and> zs_payload st < zs_payload_end st"
  by (auto simp: initial_checks_def split: if_splits)

lemma le_value_small: "a \<le> 31 \<Longrightarrow> le_value ((replicate 8 0)[0 := of_nat a]) = a"
proof -
  have "(replicate 8 0)[0 := x] = x # replicate 7 (0 :: u8)" for x by (simp add: numeral_eq_Suc)
  moreover have "le_value (x # ys) = unat x + 256 * le_value ys" for x ys
    by (simp add: le_value_def)
  moreover assume "a \<le> 31"
  ultimately show ?thesis by (simp add: unat_of_nat)
qed

lemma value_extract_cases:
  assumes "initial_checks lib st = (True, st)" and "zs_elem_count st \<noteq> 0"
  defines "a \<equiv> ADDITIONAL (zs_byte st)"
  defines "len \<equiv> additional_len a"
  shows "a \<le> 23 \<Longrightarrow> value_extract lib 8 st = (True, (replicate 8 0)[0 := of_nat a],
      st\<lparr>zs_payload_bak := zs_payload st, zs_payload := Suc (zs_payload st),
         zs_elem_count := zs_elem_count st - 1\<rparr>)"
    and "\<not> a \<le> 23 \<Longrightarrow> 8 < len \<or> len = 0 \<or> zs_payload_end st < Suc (zs_payload st) + len \<Longrightarrow>
      \<not> fst (value_extract lib 8 st)"
    and "\<not> a \<le> 23 \<Longrightarrow> \<not> (8 < len \<or> len = 0 \<or> zs_payload_end st < Suc (zs_payload st) + len) \<Longrightarrow>
      value_extract lib 8 st = (True,
        map (\<lambda>i. zs_mem st (Suc (zs_payload st) + (len - i - 1))) [0..<len] @ drop len (replicate 8 0),
        st\<lparr>zs_payload_bak := zs_payload st, zs_payload := Suc (zs_payload st) + len,
           zs_elem_count := zs_elem_count st - 1\<rparr>)"
  using assms(1,2) unfolding a_def len_def
  by (simp_all add: value_extract_def Let_def cong: if_cong) auto

lemma value_extract_head:
  assumes "value_extract lib 8 st = (True, bytes, st')"
  obtains h where "cbor_head (zs_mem st) (zs_payload st) = Some (le_value bytes, h)"
    and "zs_payload st' = zs_payload st + h" and "zs_payload st' \<le> zs_payload_end st"
    and "0 < h" and "same_input st st'" and "zs_elem_count st' = zs_elem_count st - 1"
    and "zs_elem_count st \<noteq> 0"
proof -
  let ?a = "ADDITIONAL (zs_byte st)"
  let ?len = "additional_len ?a"
  obtain ok st1 where i: "initial_checks lib st = (ok, st1)" by fastforce
  with assms have ok: "ok" by (cases ok) (simp_all add: value_extract_def)
  with i have st1: "initial_checks lib st = (True, st)" "zs_payload st < zs_payload_end st"
    using initial_checks_True[of lib st st1] by simp_all
  have E: "zs_elem_count st \<noteq> 0"
    using assms st1(1) by (cases "zs_elem_count st = 0") (simp_all add: value_extract_def)
  note C = value_extract_cases[OF st1(1) E]
  show thesis
  proof (cases "?a \<le> 23")
    case True
    with C(1) assms have "bytes = (replicate 8 0)[0 := of_nat ?a]"
      "st' = st\<lparr>zs_payload_bak := zs_payload st, zs_payload := Suc (zs_payload st),
         zs_elem_count := zs_elem_count st - 1\<rparr>" by simp_all
    with True st1(2) E le_value_small[of ?a] that[of 1] show thesis
      by (simp add: cbor_head_def zs_byte_def same_input_def)
  next
    case False
    have len: "\<not> (8 < ?len \<or> ?len = 0 \<or> zs_payload_end st < Suc (zs_payload st) + ?len)"
      using C(2)[OF False] assms by fastforce
    with C(3)[OF False] assms have
      b: "bytes = map (\<lambda>i. zs_mem st (Suc (zs_payload st) + (?len - i - 1))) [0..<?len] @ drop ?len (replicate 8 0)"
      and st': "st' = st\<lparr>zs_payload_bak := zs_payload st, zs_payload := Suc (zs_payload st) + ?len,
           zs_elem_count := zs_elem_count st - 1\<rparr>" by simp_all
    from len have a: "24 \<le> ?a" "?a \<le> 27" "?len = 2 ^ (?a - 24)"
      by (auto simp: additional_len_def split: if_splits)
    have "cbor_head (zs_mem st) (zs_payload st) = Some (le_value bytes, 1 + ?len)"
      using False a unfolding b le_value_read by (simp add: cbor_head_def zs_byte_def Let_def)
    with st' len E that[of "1 + ?len"] show thesis by (simp add: same_input_def)
  qed
qed

section \<open>It returns\<close>

lemma skip_tags_terminates:
  assumes "zcbor_lib_ok lib"
  shows "skip_tags lib copy \<noteq> None"
proof (induction "zs_payload_end copy - zs_payload copy" arbitrary: copy rule: less_induct)
  case less
  obtain ok t copy1 where t: "zcbor_tag_decode lib copy = (ok, t, copy1)" by (metis prod_cases3)
  show ?case
  proof (cases "MAJOR_TYPE (zs_byte copy) = ZCBOR_MAJOR_TYPE_TAG \<and> ok \<and> zs_payload copy1 < zs_payload_end copy1")
    case True
    then have "moves copy copy1" using value_movesD(1)[OF zcbor_lib_ok_moves(10)[OF assms], of copy t copy1] t by simp
    then have "zs_payload_end copy1 - zs_payload copy1 < zs_payload_end copy - zs_payload copy"
      by (auto simp: moves_def)
    from less[OF this] True t show ?thesis by (subst skip_tags.simps) simp
  next
    case False
    then have "skip_tags lib copy \<in> {Some (True, copy), Some (False, copy1),
        Some (False, zcbor_error lib ZCBOR_ERR_NO_PAYLOAD copy1)}"
      using t by (subst skip_tags.simps) auto
    then show ?thesis by auto
  qed
qed

lemma skip_elems_terminates:
  assumes "zcbor_lib_ok lib"
  shows "skip_elems lib copy \<noteq> None"
proof (induction "zs_payload_end copy - zs_payload copy" arbitrary: copy rule: less_induct)
  case less
  obtain ok copy1 where t: "lib_zcbor_any_skip lib copy = (ok, copy1)" by fastforce
  show ?case
  proof (cases "zcbor_array_at_end copy \<or> \<not> ok")
    case True
    then have "skip_elems lib copy \<in> {Some (True, copy), Some (False, copy1)}"
      using t by (subst skip_elems.simps) auto
    then show ?thesis by auto
  next
    case False
    then have "moves copy copy1" using step_movesD(1)[OF zcbor_lib_ok_moves(4)[OF assms], of copy copy1] t by simp
    then have "zs_payload_end copy1 - zs_payload copy1 < zs_payload_end copy - zs_payload copy"
      by (auto simp: moves_def)
    from less[OF this] False t show ?thesis by (subst skip_elems.simps) simp
  qed
qed

lemma skip_body_terminates:
  assumes "zcbor_lib_ok lib"
  shows "skip_body lib major indefinite val copy \<noteq> None"
proof -
  have "skip_container lib indefinite v copy \<noteq> None" for v
  proof -
    have "(skip_elems lib c = None) = False" for c using skip_elems_terminates[OF assms] by blast
    then show ?thesis
      by (cases indefinite) (auto simp: skip_container_def Let_def simp del: not_None_eq split: option.splits)
  qed
  then have "(skip_container lib indefinite v copy = None) = False" for v by blast
  then show ?thesis by (simp add: skip_body_def del: not_None_eq)
qed

text \<open>The shape of a call: a failure, or the copy committed.\<close>

lemma any_skip_fixed_cases:
  assumes "zcbor_any_skip_fixed lib st = Some (ok, st')"
  obtains (failed) "\<not> ok"
  | (skipped) copy major indefinite bytes copy1 copy2 where "ok"
    "zs_payload st < zs_payload_end st" "skip_tags lib st = Some (True, copy)"
    "major = MAJOR_TYPE (zs_byte copy)"
    "indefinite \<longleftrightarrow> ADDITIONAL (zs_byte copy) = 31 \<and> (major = 4 \<or> major = 5)"
    "if indefinite then bytes = [] \<and> copy1 = copy else value_extract lib 8 copy = (True, bytes, copy1)"
    "skip_body lib major indefinite (le_value bytes) copy1 = Some (True, copy2)"
    "st' = st\<lparr>zs_payload := zs_payload copy2, zs_elem_count := zs_elem_count st - 1, zs_const := zs_const copy2\<rparr>"
proof (cases ok)
  case True
  obtain ok0 st1 where i: "initial_checks lib st = (ok0, st1)" by fastforce
  with assms True have "ok0" by (cases ok0) (simp_all add: zcbor_any_skip_fixed_def)
  with i have st1: "st1 = st" "zs_payload st < zs_payload_end st" "initial_checks lib st = (True, st)"
    using initial_checks_True[of lib st st1] by simp_all
  obtain ok1 copy where t: "skip_tags lib st = Some (ok1, copy)"
    using assms st1(3) by (auto simp: zcbor_any_skip_fixed_def Let_def split: option.splits)
  have ok1: "ok1" using assms True st1(3) t by (cases ok1) (simp_all add: zcbor_any_skip_fixed_def Let_def)
  define major where "major = MAJOR_TYPE (zs_byte copy)"
  define indefinite where "indefinite = (ADDITIONAL (zs_byte copy) = 31 \<and> (major = 4 \<or> major = 5))"
  obtain ok2 bytes copy1 where v: "(if indefinite then (True, [], copy) else value_extract lib 8 copy)
      = (ok2, bytes, copy1)" by (metis prod_cases3)
  have eq: "zcbor_any_skip_fixed lib st =
    (if \<not> ok2 then Some (False, st\<lparr>zs_const := zs_const copy1\<rparr>)
     else (case skip_body lib major indefinite (le_value bytes) copy1 of
             None \<Rightarrow> None
           | Some (ok3, copy2) \<Rightarrow>
               if \<not> ok3 then Some (False, st\<lparr>zs_const := zs_const copy2\<rparr>)
               else Some (True, st\<lparr>zs_payload := zs_payload copy2,
                 zs_elem_count := zs_elem_count st - 1, zs_const := zs_const copy2\<rparr>)))"
    using t ok1 v unfolding zcbor_any_skip_fixed_def st1(3)
    by (simp add: Let_def major_def[symmetric] indefinite_def[symmetric] cong: if_cong)
  from assms True eq have ok2: "ok2" by (auto split: if_splits)
  obtain ok3 copy2 where b: "skip_body lib major indefinite (le_value bytes) copy1 = Some (ok3, copy2)"
    using assms eq ok2 by (auto split: option.splits)
  from assms True eq ok2 b have "ok3" "st' = st\<lparr>zs_payload := zs_payload copy2,
      zs_elem_count := zs_elem_count st - 1, zs_const := zs_const copy2\<rparr>"
    by (auto split: if_splits)
  show thesis
  proof (rule skipped[OF True st1(2) _ major_def indefinite_def])
    show "skip_tags lib st = Some (True, copy)" using t ok1 by simp
    show "if indefinite then bytes = [] \<and> copy1 = copy else value_extract lib 8 copy = (True, bytes, copy1)"
      using v ok2 by (simp split: if_splits)
    show "skip_body lib major indefinite (le_value bytes) copy1 = Some (True, copy2)" using b \<open>ok3\<close> by simp
  qed fact
qed (rule failed)

lemma any_skip_fixed_terminates:
  assumes "zcbor_lib_ok lib"
  shows "zcbor_any_skip_fixed lib st \<noteq> None"
proof -
  have t: "(skip_tags lib c = None) = False" for c using skip_tags_terminates[OF assms] by blast
  have b: "(skip_body lib m i v c = None) = False" for m i v c using skip_body_terminates[OF assms] by blast
  show ?thesis
    by (simp add: zcbor_any_skip_fixed_def Let_def t b del: not_None_eq split: option.splits prod.splits bool.splits)
qed

lemma any_skip_terminates: "zcbor_lib_ok lib \<Longrightarrow> zcbor_any_skip lib st \<noteq> None"
  using any_skip_fixed_terminates by (auto simp: zcbor_any_skip_def)

text \<open>A successful skip moves forward, by the progress of the library's decoders alone.\<close>

lemma skip_tags_moves:
  assumes "zcbor_lib_ok lib"
  shows "skip_tags lib st = Some (True, copy) \<Longrightarrow> zs_payload st < zs_payload_end st \<Longrightarrow>
    zs_payload st \<le> zs_payload copy \<and> zs_payload copy < zs_payload_end copy \<and>
    zs_payload_end copy = zs_payload_end st"
proof (induction "zs_payload_end st - zs_payload st" arbitrary: st rule: less_induct)
  case less
  obtain ok t copy1 where t: "zcbor_tag_decode lib st = (ok, t, copy1)" by (metis prod_cases3)
  show ?case
  proof (cases "MAJOR_TYPE (zs_byte st) = 6")
    case False
    with less.prems show ?thesis by (simp add: skip_tags.simps[of lib st])
  next
    case True
    with less.prems t have c: "ok" "zs_payload copy1 < zs_payload_end copy1" "skip_tags lib copy1 = Some (True, copy)"
      by (auto simp: skip_tags.simps[of lib st] split: if_splits)
    with t have "moves st copy1"
      using value_movesD(1)[OF zcbor_lib_ok_moves(10)[OF assms], of st t copy1] by simp
    then have m: "zs_payload st < zs_payload copy1" "zs_payload copy1 \<le> zs_payload_end st"
      "zs_payload_end copy1 = zs_payload_end st" by (simp_all add: moves_def)
    then have "zs_payload_end copy1 - zs_payload copy1 < zs_payload_end st - zs_payload st" by linarith
    from less.hyps[OF this c(3,2)] m show ?thesis by simp
  qed
qed

lemma skip_elems_moves:
  assumes "zcbor_lib_ok lib"
  shows "skip_elems lib st = Some (True, copy) \<Longrightarrow>
    zs_payload st \<le> zs_payload copy \<and> (zs_payload st \<le> zs_payload_end st \<longrightarrow> zs_payload copy \<le> zs_payload_end st) \<and>
    zs_payload_end copy = zs_payload_end st"
proof (induction "zs_payload_end st - zs_payload st" arbitrary: st rule: less_induct)
  case less
  obtain ok copy1 where t: "lib_zcbor_any_skip lib st = (ok, copy1)" by fastforce
  show ?case
  proof (cases "zcbor_array_at_end st")
    case True
    with less.prems show ?thesis by (simp add: skip_elems.simps[of lib st])
  next
    case False
    with less.prems t have c: "ok" "skip_elems lib copy1 = Some (True, copy)"
      by (auto simp: skip_elems.simps[of lib st] split: if_splits)
    with t have "moves st copy1"
      using step_movesD(1)[OF zcbor_lib_ok_moves(4)[OF assms], of st copy1] by simp
    then have m: "zs_payload st < zs_payload copy1" "zs_payload copy1 \<le> zs_payload_end st"
      "zs_payload_end copy1 = zs_payload_end st" by (simp_all add: moves_def)
    then have "zs_payload_end copy1 - zs_payload copy1 < zs_payload_end st - zs_payload st" by linarith
    from less.hyps[OF this c(2)] m show ?thesis by simp
  qed
qed

lemma skip_container_moves:
  assumes "zcbor_lib_ok lib" and "skip_container lib ind val st = Some (True, copy)"
    and "zs_payload st \<le> zs_payload_end st" and "ind \<longrightarrow> zs_payload st < zs_payload_end st"
  shows "zs_payload st \<le> zs_payload copy \<and> zs_payload copy \<le> zs_payload_end st \<and>
    (ind \<longrightarrow> zs_payload st < zs_payload copy) \<and> zs_payload_end copy = zs_payload_end st"
proof (cases ind)
  case False
  from assms(2) False have "skip_elems lib (st\<lparr>zs_elem_count := of_nat val, zs_indefinite := False\<rparr>) = Some (True, copy)"
    by (auto simp: skip_container_def Let_def split: option.splits if_splits)
  from skip_elems_moves[OF assms(1) this] False assms(3) show ?thesis by simp
next
  case True
  from assms(2) True obtain c3 where c3: "skip_elems lib (st\<lparr>zs_payload := Suc (zs_payload st),
      zs_elem_count := of_nat ZCBOR_LARGE_ELEM_COUNT, zs_indefinite := True\<rparr>) = Some (True, c3)"
    "array_end_expect lib c3 = (True, copy)"
    by (auto simp: skip_container_def Let_def split: option.splits if_splits)
  obtain ok st1 where i: "initial_checks lib c3 = (ok, st1)" by fastforce
  with c3(2) have "ok" by (cases ok) (simp_all add: array_end_expect_def)
  with i c3(2) have "zs_payload copy = Suc (zs_payload c3)" "zs_payload c3 < zs_payload_end c3"
    "zs_payload_end copy = zs_payload_end c3"
    using initial_checks_True[of lib c3 st1] by (auto simp: array_end_expect_def split: if_splits)
  with skip_elems_moves[OF assms(1) c3(1)] True show ?thesis by simp
qed

lemma any_skip_fixed_moves:
  assumes "zcbor_lib_ok lib" and "zcbor_any_skip_fixed lib st = Some (True, st')"
  shows "moves st st'"
  using assms(2)
proof (cases rule: any_skip_fixed_cases)
  case (skipped copy major ind bytes copy1 copy2)
  note T = skip_tags_moves[OF assms(1) skipped(3,2)]
  have c1: "zs_payload copy \<le> zs_payload copy1 \<and> zs_payload copy1 \<le> zs_payload_end st \<and>
      zs_payload_end copy1 = zs_payload_end st \<and> (\<not> ind \<longrightarrow> zs_payload copy < zs_payload copy1) \<and>
      (ind \<longrightarrow> zs_payload copy1 < zs_payload_end st)"
  proof (cases ind)
    case True
    with skipped(6) T show ?thesis by simp
  next
    case False
    with skipped(6) have "value_extract lib 8 copy = (True, bytes, copy1)" by simp
    from value_extract_head[OF this] T False show ?thesis by (metis add.commute less_add_same_cancel2 less_imp_le same_input_def)
  qed
  have "zs_payload copy1 \<le> zs_payload copy2 \<and> zs_payload copy2 \<le> zs_payload_end st \<and>
      (ind \<longrightarrow> zs_payload copy1 < zs_payload copy2)"
  proof (cases "major = 4 \<or> major = 5")
    case True
    with skipped(7) obtain v where "skip_container lib ind v copy1 = Some (True, copy2)"
      by (auto simp: skip_body_def split: if_splits)
    from skip_container_moves[OF assms(1) this] c1 show ?thesis by auto
  next
    case False
    with skipped(5,7) c1 show ?thesis by (auto simp: skip_body_def split: if_splits)
  qed
  with T c1 skipped(8) show ?thesis by (auto simp: moves_def)
qed simp

lemma any_skip_moves:
  assumes "zcbor_lib_ok lib" and "zcbor_any_skip lib st = Some (True, st')"
  shows "moves st st'"
  using assms any_skip_fixed_moves step_movesD(1)[OF zcbor_lib_ok_moves(4)[OF assms(1)]]
  by (auto simp: zcbor_any_skip_def split: if_splits)

section \<open>It skips one item\<close>

text \<open>
  The library's functions it uses skip what the grammar says: \<^verbatim>\<open>zcbor_any_skip\<close> an item, counted
  as one element, \<^verbatim>\<open>zcbor_tag_decode\<close> the header of a tag.
\<close>

definition skips_items :: "('l) zcbor_lib_scheme \<Rightarrow> bool" where
  "skips_items lib \<longleftrightarrow>
     (\<forall>st st'. lib_zcbor_any_skip lib st = (True, st') \<longrightarrow>
        cbor_item (zs_mem st) (zs_payload st) (zs_payload st') \<and> same_input st st' \<and>
        zs_elem_count st' = zs_elem_count st - 1 \<and> moves st st') \<and>
     (\<forall>st t st'. zcbor_tag_decode lib st = (True, t, st') \<longrightarrow> same_input st st' \<and>
        (\<exists>v h. cbor_head (zs_mem st) (zs_payload st) = Some (v, h) \<and>
           zs_payload st' = zs_payload st + h))"

lemma skips_itemsD:
  assumes "skips_items lib"
  shows "lib_zcbor_any_skip lib st = (True, st') \<Longrightarrow>
      cbor_item (zs_mem st) (zs_payload st) (zs_payload st') \<and> same_input st st' \<and>
      zs_elem_count st' = zs_elem_count st - 1 \<and> moves st st'"
    and "zcbor_tag_decode lib st = (True, t, st') \<Longrightarrow> same_input st st' \<and>
      (\<exists>v h. cbor_head (zs_mem st) (zs_payload st) = Some (v, h) \<and> zs_payload st' = zs_payload st + h)"
  using assms unfolding skips_items_def by blast+

lemma same_input_trans: "same_input a b \<Longrightarrow> same_input b c \<Longrightarrow> same_input a c"
  by (simp add: same_input_def)

lemma skip_tags_spec:
  assumes "skip_tags lib st = Some r" and "skips_items lib" and "zs_payload st < zs_payload_end st"
    and "r = (True, copy)"
  shows "same_input st copy \<and> zs_payload st \<le> zs_payload copy \<and> zs_payload copy < zs_payload_end copy \<and>
    MAJOR_TYPE (zs_byte copy) \<noteq> 6 \<and>
    (\<forall>j. cbor_item (zs_mem st) (zs_payload copy) j \<longrightarrow> cbor_item (zs_mem st) (zs_payload st) j)"
proof -
  define P where "P lib st r \<longleftrightarrow> (skips_items lib \<longrightarrow> zs_payload st < zs_payload_end st \<longrightarrow> (\<forall>copy. r = (True, copy) \<longrightarrow>
    same_input st copy \<and> zs_payload st \<le> zs_payload copy \<and> zs_payload copy < zs_payload_end copy \<and>
    MAJOR_TYPE (zs_byte copy) \<noteq> 6 \<and>
    (\<forall>j. cbor_item (zs_mem st) (zs_payload copy) j \<longrightarrow> cbor_item (zs_mem st) (zs_payload st) j)))"
    for lib :: "'a zcbor_lib_scheme" and st r
  have "P lib st r" using assms(1)
  proof (rule skip_tags.raw_induct[where P = P, rotated])
    fix self :: "'a zcbor_lib_scheme \<Rightarrow> zcbor_state \<Rightarrow> (bool \<times> zcbor_state) option" and lib st r
    assume IH: "\<And>lib st r. self lib st = Some r \<Longrightarrow> P lib st r"
      and body: "(if MAJOR_TYPE (zs_byte st) \<noteq> ZCBOR_MAJOR_TYPE_TAG then Some (True, st)
        else (case zcbor_tag_decode lib st of
           (ok, _, copy1) \<Rightarrow>
             if \<not> ok then Some (False, copy1)
             else if zs_payload copy1 \<ge> zs_payload_end copy1
             then Some (False, zcbor_error lib ZCBOR_ERR_NO_PAYLOAD copy1)
             else self lib copy1)) = Some r"
    show "P lib st r"
    proof (cases "MAJOR_TYPE (zs_byte st) = 6")
      case False
      with body show ?thesis by (auto simp: P_def same_input_def)
    next
      case True
      obtain ok t copy1 where t: "zcbor_tag_decode lib st = (ok, t, copy1)" by (metis prod_cases3)
      show ?thesis unfolding P_def
      proof (intro impI allI)
        fix copy assume lib: "skips_items lib" and r: "r = (True, copy)"
        from body True t r have c: "ok" "zs_payload copy1 < zs_payload_end copy1" "self lib copy1 = Some (True, copy)"
          by (auto split: if_splits)
        obtain v h where h: "same_input st copy1"
          "cbor_head (zs_mem st) (zs_payload st) = Some (v, h)" "zs_payload copy1 = zs_payload st + h"
          using skips_itemsD(2)[OF lib, of st t copy1] c(1) t by auto
        from IH[OF c(3)] lib c(2) have "same_input copy1 copy" "zs_payload copy1 \<le> zs_payload copy" "zs_payload copy < zs_payload_end copy"
          "MAJOR_TYPE (zs_byte copy) \<noteq> 6"
          "\<And>j. cbor_item (zs_mem copy1) (zs_payload copy) j \<Longrightarrow> cbor_item (zs_mem copy1) (zs_payload copy1) j"
          by (auto simp: P_def)
        then show "same_input st copy \<and> zs_payload st \<le> zs_payload copy \<and> zs_payload copy < zs_payload_end copy \<and>
    MAJOR_TYPE (zs_byte copy) \<noteq> 6 \<and>
            (\<forall>j. cbor_item (zs_mem st) (zs_payload copy) j \<longrightarrow> cbor_item (zs_mem st) (zs_payload st) j)"
          using h True same_input_trans[OF h(1)] tag[of "zs_mem st" "zs_payload st" v h]
          by (auto simp: same_input_def zs_byte_def)
      qed
    qed
  qed
  with assms(2-) show ?thesis by (simp add: P_def)
qed

lemma skip_elems_spec:
  assumes "skip_elems lib st = Some r" and "skips_items lib" and "r = (True, copy)"
  shows "same_input st copy \<and> zs_payload st \<le> zs_payload copy \<and>
    (zs_payload copy \<le> zs_payload_end st \<or> copy = st) \<and>
    (if zs_indefinite st
     then cbor_seq (zs_mem st) (zs_payload st) (zs_payload copy) \<and>
       zs_payload copy < zs_payload_end st \<and> zs_byte copy = 0xFF
     else cbor_items (zs_mem st) (unat (zs_elem_count st)) (zs_payload st) (zs_payload copy))"
proof -
  define Q where "Q st copy \<longleftrightarrow> same_input st copy \<and> zs_payload st \<le> zs_payload copy \<and>
    (zs_payload copy \<le> zs_payload_end st \<or> copy = st) \<and>
    (if zs_indefinite st
     then cbor_seq (zs_mem st) (zs_payload st) (zs_payload copy) \<and>
       zs_payload copy < zs_payload_end st \<and> zs_byte copy = 0xFF
     else cbor_items (zs_mem st) (unat (zs_elem_count st)) (zs_payload st) (zs_payload copy))" for st copy
  define P where "P lib st r \<longleftrightarrow> (skips_items lib \<longrightarrow> (\<forall>copy. r = (True, copy) \<longrightarrow> Q st copy))"
    for lib :: "'a zcbor_lib_scheme" and st r
  have "P lib st r" using assms(1)
  proof (rule skip_elems.raw_induct[where P = P, rotated])
    fix self :: "'a zcbor_lib_scheme \<Rightarrow> zcbor_state \<Rightarrow> (bool \<times> zcbor_state) option" and lib st r
    assume IH: "\<And>lib st r. self lib st = Some r \<Longrightarrow> P lib st r"
      and body: "(if zcbor_array_at_end st then Some (True, st)
        else (case lib_zcbor_any_skip lib st of
           (ok, copy1) \<Rightarrow> if \<not> ok then Some (False, copy1) else self lib copy1)) = Some r"
    obtain ok copy1 where t: "lib_zcbor_any_skip lib st = (ok, copy1)" by fastforce
    show "P lib st r" unfolding P_def
    proof (intro impI allI)
      fix copy assume lib: "skips_items lib" and r: "r = (True, copy)"
      show "Q st copy"
      proof (cases "zcbor_array_at_end st")
        case True
        with body r have "copy = st" by simp
        with True show ?thesis
          by (auto simp: Q_def same_input_def zcbor_array_at_end_def intro: items_nil seq_nil)
      next
        case False
        with body r t have c: "ok" "self lib copy1 = Some (True, copy)" by (auto split: if_splits)
        have s: "cbor_item (zs_mem st) (zs_payload st) (zs_payload copy1)"
          "same_input st copy1" "zs_elem_count copy1 = zs_elem_count st - 1" "moves st copy1"
          using skips_itemsD(1)[OF lib, of st copy1] c(1) t by simp_all
        have q: "Q copy1 copy" using IH[OF c(2)] lib by (simp add: P_def)
        show ?thesis
        proof (cases "zs_indefinite st")
          case True
          with q s seq_cons[OF s(1)] show ?thesis by (auto simp: Q_def same_input_def moves_def)
        next
          case notindef: False
          with False have "zs_elem_count st \<noteq> 0" by (simp add: zcbor_array_at_end_def)
          then have "unat (zs_elem_count st) = Suc (unat (zs_elem_count copy1))"
            using s(3) by (metis Suc_pred' unat_gt_0 unat_minus_one)
          with notindef q s items_cons[OF s(1)] show ?thesis by (auto simp: Q_def same_input_def moves_def)
        qed
      qed
    qed
  qed
  with assms(2,3) have "Q st copy" by (simp add: P_def)
  then show ?thesis by (simp add: Q_def)
qed

lemma MAJOR_TYPE_le: "MAJOR_TYPE b \<le> 7"
proof -
  have "drop_bit 5 b AND 7 \<le> 7" by (rule word_and_le1)
  then have "unat (drop_bit 5 b AND 7) \<le> unat (7 :: u8)" by (simp only: word_le_nat_alt)
  then show ?thesis by (simp add: MAJOR_TYPE_def)
qed

text \<open>
  The element count of a list is cut to 32 bits, so a header that claims \<open>2\<^sup>3\<^sup>2\<close> elements or
  more is the exception (\<open>lists_fit\<close> excludes it).
\<close>

definition lists_fit :: "(nat \<Rightarrow> u8) \<Rightarrow> bool" where
  "lists_fit m \<longleftrightarrow> (\<forall>i v h. MAJOR_TYPE (m i) = 4 \<longrightarrow> cbor_head m i = Some (v, h) \<longrightarrow> v < 2 ^ 32)"

lemma skip_container_spec:
  assumes "skip_container lib ind val st = Some (True, copy)" and "skips_items lib"
    and "\<not> ind \<longrightarrow> val < 2 ^ 32" and "zs_payload st \<le> zs_payload_end st" and "ind \<longrightarrow> zs_payload st < zs_payload_end st"
  shows "zs_payload st \<le> zs_payload copy \<and> zs_payload copy \<le> zs_payload_end st \<and>
    (if ind then zs_payload st < zs_payload copy \<and> zs_mem st (zs_payload copy - 1) = 0xFF \<and>
       cbor_seq (zs_mem st) (Suc (zs_payload st)) (zs_payload copy - 1)
     else cbor_items (zs_mem st) val (zs_payload st) (zs_payload copy))"
proof (cases ind)
  case False
  let ?c = "st\<lparr>zs_elem_count := of_nat val, zs_indefinite := False\<rparr>"
  from assms(1) False have "skip_elems lib ?c = Some (True, copy)"
    by (auto simp: skip_container_def Let_def split: option.splits if_splits)
  from skip_elems_spec[OF this assms(2) refl] False assms(3,4) show ?thesis
    by (auto simp: unat_of_nat same_input_def)
next
  case True
  let ?c = "st\<lparr>zs_payload := Suc (zs_payload st), zs_elem_count := of_nat ZCBOR_LARGE_ELEM_COUNT, zs_indefinite := True\<rparr>"
  from assms(1) True obtain c3 where c3: "skip_elems lib ?c = Some (True, c3)"
    "array_end_expect lib c3 = (True, copy)"
    by (auto simp: skip_container_def Let_def split: option.splits if_splits)
  obtain ok st1 where i: "initial_checks lib c3 = (ok, st1)" by fastforce
  with c3(2) have "ok" by (cases ok) (simp_all add: array_end_expect_def)
  with i c3(2) have "zs_payload copy = Suc (zs_payload c3)" "zs_payload c3 < zs_payload_end c3"
    using initial_checks_True[of lib c3 st1] by (auto simp: array_end_expect_def split: if_splits)
  with skip_elems_spec[OF c3(1) assms(2) refl] True show ?thesis
    by (auto simp: same_input_def zs_byte_def)
qed

text \<open>The item behind the tags.\<close>

lemma skip_body_item:
  assumes "skip_body lib major ind (le_value bytes) copy1 = Some (True, copy2)" and "skips_items lib"
    and "lists_fit (zs_mem copy)" and "zs_payload copy < zs_payload_end copy"
    and major: "major = MAJOR_TYPE (zs_byte copy)" "major \<noteq> 6"
    and ind: "ind \<longleftrightarrow> ADDITIONAL (zs_byte copy) = 31 \<and> (major = 4 \<or> major = 5)"
    and head: "if ind then bytes = [] \<and> copy1 = copy else value_extract lib 8 copy = (True, bytes, copy1)"
  shows "cbor_item (zs_mem copy) (zs_payload copy) (zs_payload copy2) \<and> zs_payload copy < zs_payload copy2 \<and>
    zs_payload copy2 \<le> zs_payload_end copy"
proof (cases ind)
  case True
  with head have c1: "bytes = []" "copy1 = copy" by simp_all
  have maj: "major = 4 \<or> major = 5" "ADDITIONAL (zs_byte copy) = 31" using True ind by simp_all
  with assms(1) True c1 have "skip_container lib True 0 copy = Some (True, copy2)"
    by (auto simp: skip_body_def le_value_def)
  from skip_container_spec[OF this assms(2)] assms(4) major maj
    indef[of "zs_mem copy" "zs_payload copy" "zs_payload copy2 - 1"]
  show ?thesis by (auto simp: zs_byte_def)
next
  case False
  let ?m = "zs_mem copy" and ?i = "zs_payload copy"
  have v: "value_extract lib 8 copy = (True, bytes, copy1)" using False head by simp
  obtain h where h: "cbor_head ?m ?i = Some (le_value bytes, h)" "zs_payload copy1 = ?i + h" "0 < h"
    "zs_payload copy1 \<le> zs_payload_end copy" "same_input copy copy1"
    using value_extract_head[OF v] by metis
  have c1: "zs_mem copy1 = ?m" "zs_payload_end copy1 = zs_payload_end copy"
    using h(5) by (simp_all add: same_input_def)
  have m: "major = MAJOR_TYPE (?m ?i)" using major by (simp add: zs_byte_def)
  consider "major = 2 \<or> major = 3" | "major = 5" | "major = 4" | "major \<in> {0, 1, 7}"
    using MAJOR_TYPE_le[of "?m ?i"] m major(2) by fastforce
  then show ?thesis
  proof cases
    case 1
    with assms(1) c1 have "zs_payload copy2 = zs_payload copy1 + le_value bytes"
      "le_value bytes \<le> zs_payload_end copy - zs_payload copy1"
      by (auto simp: skip_body_def split: if_splits)
    with 1 h m str[OF _ h(1)] show ?thesis by auto
  next
    case 2
    with assms(1) False have "skip_container lib False (le_value bytes * 2) copy1 = Some (True, copy2)"
      "le_value bytes \<le> SIZE_MAX div 2" by (auto simp: skip_body_def split: if_splits)
    from skip_container_spec[OF this(1) assms(2)] this(2) h c1 m 2 cmap[OF _ h(1)] show ?thesis by auto
  next
    case 3
    with assms(1) False have s: "skip_container lib False (le_value bytes) copy1 = Some (True, copy2)"
      by (auto simp: skip_body_def split: if_splits)
    have "le_value bytes < 2 ^ 32" using assms(3)[unfolded lists_fit_def, rule_format, OF _ h(1)] 3 m by simp
    from skip_container_spec[OF s assms(2)] this h c1 m 3 list[OF _ h(1)] show ?thesis by auto
  next
    case 4
    with assms(1) have "copy2 = copy1" by (auto simp: skip_body_def split: if_splits)
    with 4 h m simple[OF _ h(1)] show ?thesis by auto
  qed
qed

text \<open>
  The SDK's replacement of the library's skip function agrees with the CBOR grammar: when it
  succeeds, the bytes between the old position and the new one are one well-formed data item, with
  its tags, nested or of indefinite length, inside the payload; one element is counted, and nothing
  else of the decoder's state has changed.
\<close>

lemma any_skip_fixed_sound:
  assumes "zcbor_any_skip_fixed lib st = Some (True, st')" and "skips_items lib" and "lists_fit (zs_mem st)"
  shows "cbor_item (zs_mem st) (zs_payload st) (zs_payload st') \<and> moves st st' \<and> same_input st st' \<and>
    zs_elem_count st' = zs_elem_count st - 1"
  using assms(1)
proof (cases rule: any_skip_fixed_cases)
  case (skipped copy major ind bytes copy1 copy2)
  note T = skip_tags_spec[OF skipped(3) assms(2) skipped(2) refl]
  then have m: "zs_mem copy = zs_mem st" "zs_payload_end copy = zs_payload_end st"
    "zs_payload copy < zs_payload_end copy" "major \<noteq> 6" using skipped(4) by (simp_all add: same_input_def)
  from skip_body_item[OF skipped(7) assms(2) _ m(3) skipped(4) m(4) skipped(5,6)] assms(3) m(1,2)
  have "cbor_item (zs_mem st) (zs_payload copy) (zs_payload copy2)" "zs_payload copy < zs_payload copy2"
    "zs_payload copy2 \<le> zs_payload_end st" by simp_all
  with T skipped(8) show ?thesis by (auto simp: moves_def same_input_def)
qed simp

end
