(* ===== verification/ZcborUtils.thy ===== *)
theory ZcborUtils
  imports ZcborAnySkip
begin

text \<open>
  \<^verbatim>\<open>net/golioth/zcbor_utils.c\<close>: decoding a CBOR map whose entries are given by a table of keys and
  decoding functions.

  A decoding function works on a decoding state and on the values it fills in (\<open>'v\<close>, all of
  them together); \<open>None\<close> is a call that does not return.
\<close>

section \<open>Keys and entries\<close>

text \<open>
  \<^verbatim>\<open>struct zcbor_map_key\<close>: the number and the string share memory, the number lies over the
  string's pointer. \<open>mk_word\<close> is that word, \<open>mk_len\<close> the length next to it, and \<open>mk_bytes\<close>
  what the word points to when it was last written as a pointer.
\<close>

datatype map_key_type = ZCBOR_MAP_KEY_TYPE_U32 | ZCBOR_MAP_KEY_TYPE_TSTR

record zcbor_map_key =
  mk_type :: map_key_type
  mk_word :: u32
  mk_len :: nat
  mk_bytes :: "u8 list option"

datatype entry_key = U32_KEY u32 | TSTR_KEY "u8 list"

record 'v zcbor_map_entry =
  me_key :: entry_key
  me_decode :: "zcbor_state \<Rightarrow> 'v \<Rightarrow> (int \<times> zcbor_state \<times> 'v) option"

text \<open>\<^verbatim>\<open>memcmp(literal, key->tstr.value, n) == 0\<close>\<close>

definition key_memcmp_eq :: "('l) zcbor_lib_scheme \<Rightarrow> u8 list \<Rightarrow> zcbor_map_key \<Rightarrow> bool" where
  "key_memcmp_eq lib lit key =
     (case mk_bytes key of
        Some bytes \<Rightarrow> take (length lit) bytes = lit
      | None \<Rightarrow> raw_memory lib (mk_word key) (length lit) = lit)"

text \<open>The index of the entry found. The type of the key is not looked at.\<close>

fun map_entry_get ::
  "('l) zcbor_lib_scheme \<Rightarrow> 'v zcbor_map_entry list \<Rightarrow> zcbor_map_key \<Rightarrow> nat option" where
  "map_entry_get lib [] key = None"
| "map_entry_get lib (entry # entries) key =
     (if (case me_key entry of
            U32_KEY u \<Rightarrow> u = mk_word key
          | TSTR_KEY lit \<Rightarrow> mk_len key = length lit \<and> key_memcmp_eq lib lit key)
      then Some 0
      else map_option Suc (map_entry_get lib entries key))"

section \<open>Decoding\<close>

definition zcbor_list_or_map_end :: "zcbor_state \<Rightarrow> bool" where
  "zcbor_list_or_map_end st = (if zs_indefinite st then zs_byte st = 0xFF else zs_elem_count st = 0)"

text \<open>The first result of the two value decoders is the C result.\<close>

definition zcbor_map_int64_decode :: "('l) zcbor_lib_scheme \<Rightarrow> zcbor_state \<Rightarrow> int \<times> int \<times> zcbor_state" where
  "zcbor_map_int64_decode lib st =
     (case zcbor_int64_decode lib st of
        (ok, i, st1) \<Rightarrow> if \<not> ok then (- EBADMSG, i, st1) else (0, i, st1))"

definition zcbor_map_tstr_decode ::
  "('l) zcbor_lib_scheme \<Rightarrow> zcbor_state \<Rightarrow> int \<times> u8 list \<times> zcbor_state" where
  "zcbor_map_tstr_decode lib st =
     (case zcbor_tstr_decode lib st of
        (ok, s, st1) \<Rightarrow> if \<not> ok then (- EBADMSG, s, st1) else (0, s, st1))"

definition zcbor_map_key_decode ::
  "('l) zcbor_lib_scheme \<Rightarrow> zcbor_state \<Rightarrow> zcbor_map_key \<Rightarrow> int \<times> zcbor_state \<times> zcbor_map_key" where
  "zcbor_map_key_decode lib st key =
     (let major_type = MAJOR_TYPE (zs_byte st) in
      if major_type = ZCBOR_MAJOR_TYPE_TSTR then
        (case zcbor_tstr_decode lib st of
           (ok, s, st1) \<Rightarrow>
             if \<not> ok then (- EBADMSG, st1, key)
             else (0, st1, \<lparr>mk_type = ZCBOR_MAP_KEY_TYPE_TSTR, mk_word = zcbor_str_addr lib st1,
                            mk_len = length s, mk_bytes = Some s\<rparr>))
      else if major_type = ZCBOR_MAJOR_TYPE_PINT then
        (case zcbor_uint32_decode lib st of
           (ok, u, st1) \<Rightarrow>
             if \<not> ok then (- EBADMSG, st1, key)
             else (0, st1, key\<lparr>mk_type := ZCBOR_MAP_KEY_TYPE_U32, mk_word := u, mk_bytes := None\<rparr>))
      else (- EBADMSG, st, key))"

text \<open>
  The loop of \<^verbatim>\<open>zcbor_map_decode\<close>; its result is the error of an early \<^verbatim>\<open>return\<close> or 0, and the
  number of entries decoded.
\<close>

partial_function (option) map_decode_loop ::
  "('l) zcbor_lib_scheme \<Rightarrow> 'v zcbor_map_entry list \<Rightarrow> nat \<Rightarrow> zcbor_map_key \<Rightarrow> zcbor_state \<Rightarrow> 'v
     \<Rightarrow> (int \<times> nat \<times> zcbor_state \<times> 'v) option" where
  "map_decode_loop lib entries num_decoded key st v =
     (if \<not> (num_decoded < length entries \<and> \<not> zcbor_list_or_map_end st) then Some (0, num_decoded, st, v)
      else
        (case zcbor_map_key_decode lib st key of
           (err, st1, key1) \<Rightarrow>
             if err \<noteq> 0 then Some (err, num_decoded, st1, v)
             else
               (case map_entry_get lib entries key1 of
                  Some i \<Rightarrow>
                    (case me_decode (entries ! i) st1 v of
                       None \<Rightarrow> None
                     | Some (err2, st2, v2) \<Rightarrow>
                         if err2 \<noteq> 0 then Some (err2, num_decoded, st2, v2)
                         else map_decode_loop lib entries (Suc num_decoded) key1 st2 v2)
                | None \<Rightarrow>
                    (case zcbor_any_skip lib st1 of
                       None \<Rightarrow> None
                     | Some (ok, st2) \<Rightarrow>
                         if \<not> ok then Some (- EBADMSG, num_decoded, st2, v)
                         else map_decode_loop lib entries num_decoded key1 st2 v))))"

declare map_decode_loop.simps [code]

definition uninit_key :: "('l) zcbor_lib_scheme \<Rightarrow> zcbor_map_key" where
  "uninit_key lib = \<lparr>mk_type = ZCBOR_MAP_KEY_TYPE_U32, mk_word = 0, mk_len = stack_len lib, mk_bytes = None\<rparr>"

definition zcbor_map_decode ::
  "('l) zcbor_lib_scheme \<Rightarrow> 'v zcbor_map_entry list \<Rightarrow> zcbor_state \<Rightarrow> 'v
     \<Rightarrow> (int \<times> zcbor_state \<times> 'v) option" where
  "zcbor_map_decode lib entries st v =
     (case zcbor_map_start_decode lib st of
        (ok, st1) \<Rightarrow>
          if \<not> ok then Some (- EBADMSG, st1, v)
          else
            (case map_decode_loop lib entries 0 (uninit_key lib) st1 v of
               None \<Rightarrow> None
             | Some (err, num_decoded, st2, v2) \<Rightarrow>
                 if err \<noteq> 0 then Some (err, st2, v2)
                 else if num_decoded \<noteq> 0 \<and> num_decoded < length entries then Some (- EBADMSG, st2, v2)
                 else
                   let err = (if num_decoded = 0 then - ENOENT else 0)
                   in (case zcbor_list_map_end_force_decode lib st2 of
                         (ok, st3) \<Rightarrow> if \<not> ok then Some (- EBADMSG, st3, v2) else Some (err, st3, v2))))"

section \<open>The contract with the decoding functions\<close>

lemma map_entry_get_lt: "map_entry_get lib entries key = Some i \<Longrightarrow> i < length entries"
  by (induction entries arbitrary: i) (auto split: if_splits)

text \<open>What every decoding function keeps of the values, the whole map keeps.\<close>

lemma map_loop_inv:
  fixes entries :: "'v zcbor_map_entry list" and lib :: "('l) zcbor_lib_scheme"
  assumes "map_decode_loop lib entries n key st v = Some res"
    and "\<And>i st v e st' v'. i < length entries \<Longrightarrow> I v \<Longrightarrow> me_decode (entries ! i) st v = Some (e, st', v') \<Longrightarrow> I v'"
    and "I v"
  shows "I (snd (snd (snd res)))"
proof -
  define P where "P lib ents n key st v res \<longleftrightarrow> (ents = entries \<longrightarrow> I v \<longrightarrow> I (snd (snd (snd res))))"
    for lib :: "'l zcbor_lib_scheme" and ents :: "'v zcbor_map_entry list" and n :: nat
      and key :: zcbor_map_key and st :: zcbor_state and v :: 'v
      and res :: "int \<times> nat \<times> zcbor_state \<times> 'v"
  have step: "I v'" if "map_entry_get lib entries k = Some i" "me_decode (entries ! i) st v = Some (e, st', v')" "I v"
    for lib :: "'l zcbor_lib_scheme" and k i st v e st' v'
    by (rule assms(2)[OF map_entry_get_lt[OF that(1)] that(3,2)])
  have "P lib entries n key st v res"
    by (rule map_decode_loop.raw_induct[where P = P, OF _ assms(1)], unfold P_def, intro impI)
      (auto split: if_splits prod.splits option.splits dest: step)
  with assms(3) show ?thesis by (simp add: P_def)
qed

lemma map_decode_inv:
  assumes "\<And>i st v e st' v'. i < length entries \<Longrightarrow> I v \<Longrightarrow> me_decode (entries ! i) st v = Some (e, st', v') \<Longrightarrow> I v'"
    and "I v" and "zcbor_map_decode lib entries st v = Some (e, st', v')"
  shows "I v'"
  using assms(2,3) map_loop_inv[of lib entries 0 "uninit_key lib" _ v _ I, OF _ assms(1)]
  by (fastforce simp: zcbor_map_decode_def Let_def split: prod.splits if_splits option.splits)

lemma map_int64_moves: "zcbor_lib_ok lib \<Longrightarrow> zcbor_map_int64_decode lib st = (0, i, st') \<Longrightarrow> moves st st'"
  using value_movesD(1)[OF zcbor_lib_ok_moves(7)]
  by (auto simp: zcbor_map_int64_decode_def split: prod.splits if_splits)

lemma map_tstr_moves: "zcbor_lib_ok lib \<Longrightarrow> zcbor_map_tstr_decode lib st = (0, s, st') \<Longrightarrow> moves st st'"
  using value_movesD(1)[OF zcbor_lib_ok_moves(5)]
  by (auto simp: zcbor_map_tstr_decode_def split: prod.splits if_splits)

lemma key_decode_moves:
  assumes "zcbor_lib_ok lib" and "zcbor_map_key_decode lib st key = (0, st', key')"
  shows "moves st st'"
  using assms(2) value_movesD(1)[OF zcbor_lib_ok_moves(5)[OF assms(1)]]
    value_movesD(1)[OF zcbor_lib_ok_moves(6)[OF assms(1)]]
  by (auto simp: zcbor_map_key_decode_def Let_def split: if_splits prod.splits)

text \<open>
  What \<^verbatim>\<open>zcbor_map_decode\<close> relies on: on a library that moves forward, the decoding functions
  return, and a successful one has moved forward.
\<close>

locale entry_decoders =
  fixes lib :: "('l) zcbor_lib_scheme" and entries :: "'v zcbor_map_entry list"
  assumes decode_returns: "zcbor_lib_ok lib \<Longrightarrow> i < length entries \<Longrightarrow> me_decode (entries ! i) st v \<noteq> None"
    and decode_moves: "zcbor_lib_ok lib \<Longrightarrow> i < length entries \<Longrightarrow>
      me_decode (entries ! i) st v = Some (0, st', v') \<Longrightarrow> moves st st'"
begin

lemma loop_step:
  assumes "zcbor_lib_ok lib" and "n < length entries" and "\<not> zcbor_list_or_map_end st"
  obtains (stop) e st' v' where "map_decode_loop lib entries n key st v = Some (e, n, st', v')" "e \<noteq> 0"
  | (entry) key1 st1 i st2 v2 where "zcbor_map_key_decode lib st key = (0, st1, key1)"
      "map_entry_get lib entries key1 = Some i" "me_decode (entries ! i) st1 v = Some (0, st2, v2)" "moves st st2"
      "map_decode_loop lib entries n key st v = map_decode_loop lib entries (Suc n) key1 st2 v2"
  | (skip) key1 st1 st2 where "zcbor_map_key_decode lib st key = (0, st1, key1)"
      "map_entry_get lib entries key1 = None" "zcbor_any_skip lib st1 = Some (True, st2)" "moves st st2"
      "map_decode_loop lib entries n key st v = map_decode_loop lib entries n key1 st2 v"
proof -
  obtain err st1 key1 where k: "zcbor_map_key_decode lib st key = (err, st1, key1)" by (metis prod_cases3)
  have s: "map_decode_loop lib entries n key st v =
     (if err \<noteq> 0 then Some (err, n, st1, v)
      else (case map_entry_get lib entries key1 of
          Some i \<Rightarrow> (case me_decode (entries ! i) st1 v of None \<Rightarrow> None
             | Some (err2, st2, v2) \<Rightarrow> if err2 \<noteq> 0 then Some (err2, n, st2, v2)
                 else map_decode_loop lib entries (Suc n) key1 st2 v2)
        | None \<Rightarrow> (case zcbor_any_skip lib st1 of None \<Rightarrow> None
             | Some (ok, st2) \<Rightarrow> if \<not> ok then Some (- EBADMSG, n, st2, v)
                 else map_decode_loop lib entries n key1 st2 v)))"
    using assms(2,3) k by (subst map_decode_loop.simps) simp
  show thesis
  proof (cases "err = 0")
    case False
    with s show thesis by (intro stop) simp_all
  next
    case True
    with k have k0: "zcbor_map_key_decode lib st key = (0, st1, key1)" by simp
    note m1 = key_decode_moves[OF assms(1) k0]
    show thesis
    proof (cases "map_entry_get lib entries key1")
      case (Some i)
      note i = map_entry_get_lt[OF Some]
      obtain err2 st2 v2 where d: "me_decode (entries ! i) st1 v = Some (err2, st2, v2)"
        using decode_returns[OF assms(1) i, of st1 v] by auto
      show thesis
      proof (cases "err2 = 0")
        case False
        with s True Some d show thesis by (intro stop) simp_all
      next
        case e0: True
        with d have d0: "me_decode (entries ! i) st1 v = Some (0, st2, v2)" by simp
        show thesis
          by (rule entry[OF k0 Some d0 moves_trans[OF m1 decode_moves[OF assms(1) i d0]]])
            (simp add: s True Some d0)
      qed
    next
      case None
      obtain ok st2 where d: "zcbor_any_skip lib st1 = Some (ok, st2)"
        using any_skip_terminates[OF assms(1), of st1] by auto
      show thesis
      proof (cases ok)
        case False
        with s True None d show thesis by (intro stop[of "- EBADMSG" st2 v]) simp_all
      next
        case ok: True
        with d have d1: "zcbor_any_skip lib st1 = Some (True, st2)" by simp
        show thesis
          by (rule skip[OF k0 None d1 moves_trans[OF m1 any_skip_moves[OF assms(1) d1]]])
            (simp add: s True None d1)
      qed
    qed
  qed
qed

lemma loop_end:
  assumes "\<not> (n < length entries \<and> \<not> zcbor_list_or_map_end st)"
  shows "map_decode_loop lib entries n key st v = Some (0, n, st, v)"
  using assms by (subst map_decode_loop.simps) simp

text \<open>The loop ends, and has not moved back.\<close>

lemma map_loop_returns:
  assumes "zcbor_lib_ok lib"
  shows "\<exists>e n' st' v'. map_decode_loop lib entries n key st v = Some (e, n', st', v') \<and>
    (e = 0 \<longrightarrow> st' = st \<or> moves st st')"
proof (induction "zs_payload_end st - zs_payload st" arbitrary: st n key v rule: less_induct)
  case less
  show ?case
  proof (cases "n < length entries \<and> \<not> zcbor_list_or_map_end st")
    case False
    from loop_end[OF this] show ?thesis by auto
  next
    case True
    then have n: "n < length entries" "\<not> zcbor_list_or_map_end st" by simp_all
    have dec: "zs_payload_end st2 - zs_payload st2 < zs_payload_end st - zs_payload st" if "moves st st2" for st2
      using that by (auto simp: moves_def)
    show ?thesis
    proof (cases rule: loop_step[OF assms n, of key v, case_names stop entry skip])
      case (stop e st' v')
      then show ?thesis by blast
    next
      case (entry key1 st1 i st2 v2)
      from less[OF dec[OF entry(4)], of "Suc n" key1 v2] entry(4,5) show ?thesis
        by (metis moves_trans)
    next
      case (skip key1 st1 st2)
      from less[OF dec[OF skip(4)], of n key1 v] skip(4,5) show ?thesis
        by (metis moves_trans)
    qed
  qed
qed

lemma map_decode_returns:
  assumes "zcbor_lib_ok lib"
  obtains e st' v' where "zcbor_map_decode lib entries st v = Some (e, st', v')" "e = 0 \<Longrightarrow> moves st st'"
proof -
  obtain ok st1 where s: "zcbor_map_start_decode lib st = (ok, st1)" by fastforce
  show thesis
  proof (cases ok)
    case False
    with s that[of "- EBADMSG" st1 v] show thesis by (simp add: zcbor_map_decode_def)
  next
    case True
    with s have m1: "moves st st1" using step_movesD(1)[OF zcbor_lib_ok_moves(1)[OF assms], of st st1] by simp
    obtain e n st2 v2 where l: "map_decode_loop lib entries 0 (uninit_key lib) st1 v = Some (e, n, st2, v2)"
      and m2: "e = 0 \<Longrightarrow> st2 = st1 \<or> moves st1 st2"
      using map_loop_returns[OF assms] by blast
    obtain ok3 st3 where f: "zcbor_list_map_end_force_decode lib st2 = (ok3, st3)" by fastforce
    have m3: "moves st st3" if "e = 0" "ok3"
    proof -
      have "moves st st2" using m1 m2[OF that(1)] moves_trans by blast
      then show ?thesis using moves_leaves zcbor_lib_ok_leaves(3)[OF assms, of st2 st3] f that(2) by simp
    qed
    have eq: "zcbor_map_decode lib entries st v =
      (if e \<noteq> 0 then Some (e, st2, v2)
       else if n \<noteq> 0 \<and> n < length entries then Some (- EBADMSG, st2, v2)
       else if \<not> ok3 then Some (- EBADMSG, st3, v2)
       else Some (if n = 0 then - ENOENT else 0, st3, v2))"
      using s True l f by (simp add: zcbor_map_decode_def Let_def)
    consider "e \<noteq> 0" | "e = 0" "n \<noteq> 0 \<and> n < length entries" | "e = 0" "\<not> (n \<noteq> 0 \<and> n < length entries)" "\<not> ok3"
      | "e = 0" "\<not> (n \<noteq> 0 \<and> n < length entries)" "ok3" by blast
    then show thesis
    proof cases
      case 1
      show thesis by (rule that[of e st2 v2]) (use eq 1 in auto)
    next
      case 2
      show thesis by (rule that[of "- EBADMSG" st2 v2]) (use eq 2 in auto)
    next
      case 3
      show thesis by (rule that[of "- EBADMSG" st3 v2]) (use eq 3 in auto)
    next
      case 4
      show thesis by (rule that[of "if n = 0 then - ENOENT else 0" st3 v2]) (use eq 4 m3 in auto)
    qed
  qed
qed

text \<open>
  \<open>log\<close> lists the entries decoded so far: a successful call has decoded exactly as many entries
  as the table has.
\<close>

lemma map_loop_log:
  assumes "zcbor_lib_ok lib"
    and log: "\<And>i st v st' v'. i < length entries \<Longrightarrow> me_decode (entries ! i) st v = Some (0, st', v') \<Longrightarrow>
      log v' = log v @ [i]"
    and "map_decode_loop lib entries n key st v = Some (0, n', st', v')" and "n \<le> length entries"
  shows "\<exists>l. log v' = log v @ l \<and> n' = n + length l \<and> n' \<le> length entries \<and> set l \<subseteq> {..<length entries}"
  using assms(3,4)
proof (induction "zs_payload_end st - zs_payload st" arbitrary: st n key v rule: less_induct)
  case less
  show ?case
  proof (cases "n < length entries \<and> \<not> zcbor_list_or_map_end st")
    case False
    from loop_end[OF this] less.prems show ?thesis by auto
  next
    case True
    then have n: "n < length entries" "\<not> zcbor_list_or_map_end st" by simp_all
    have dec: "zs_payload_end st2 - zs_payload st2 < zs_payload_end st - zs_payload st" if "moves st st2" for st2
      using that by (auto simp: moves_def)
    show ?thesis
    proof (cases rule: loop_step[OF assms(1) n, of key v, case_names stop entry skip])
      case (stop e st' v')
      with less.prems show ?thesis by simp
    next
      case (entry key1 st1 i st2 v2)
      note i = map_entry_get_lt[OF entry(2)]
      from less.hyps[OF dec[OF entry(4)], of "Suc n" key1 v2] entry(5) less.prems(1) n(1)
      obtain l where "log v' = log v2 @ l" "n' = Suc n + length l" "n' \<le> length entries" "set l \<subseteq> {..<length entries}"
        by auto
      with log[OF i entry(3)] i show ?thesis by (intro exI[of _ "i # l"]) simp
    next
      case (skip key1 st1 st2)
      from less.hyps[OF dec[OF skip(4)], of n key1 v] skip(5) less.prems show ?thesis by simp
    qed
  qed
qed

lemma map_decode_log:
  assumes "zcbor_lib_ok lib"
    and log: "\<And>i st v st' v'. i < length entries \<Longrightarrow> me_decode (entries ! i) st v = Some (0, st', v') \<Longrightarrow>
      log v' = log v @ [i]"
    and "zcbor_map_decode lib entries st v = Some (0, st', v')"
  shows "\<exists>l. log v' = log v @ l \<and> length l = length entries \<and> set l \<subseteq> {..<length entries} \<and>
    (distinct l \<longrightarrow> set l = {..<length entries})"
proof -
  obtain st1 e n st2 where l: "map_decode_loop lib entries 0 (uninit_key lib) st1 v = Some (e, n, st2, v')"
    and e: "e = 0" "n \<noteq> 0" "\<not> n < length entries"
    using assms(3) by (auto simp: zcbor_map_decode_def Let_def split: if_splits prod.splits option.splits)
  have "\<exists>l. log v' = log v @ l \<and> n = 0 + length l \<and> n \<le> length entries \<and> set l \<subseteq> {..<length entries}"
    by (rule map_loop_log[OF assms(1), where st = st1 and st' = st2 and key = "uninit_key lib"])
      (use log l e(1) in simp_all)
  then obtain l where l: "log v' = log v @ l" "n = length l" "n \<le> length entries" "set l \<subseteq> {..<length entries}"
    by auto
  then have len: "length l = length entries" using e(3) by simp
  have "set l = {..<length entries}" if "distinct l"
    using distinct_card[OF that] len card_subset_eq[OF _ l(4)] by simp
  with l len show ?thesis by blast
qed

end

end
