(* ===== verification/Lightdb.thy ===== *)
theory Lightdb
  imports CoapReqSync
begin

text \<open>
  \<^verbatim>\<open>net/golioth/lightdb.c\<close> and \<^verbatim>\<open>net/golioth/stream.c\<close>: the LightDB and Stream services as
  requests with their methods, paths and flags, and the callback that assembles a response in a
  buffer of the caller.

  The blocking functions take the address \<open>p\<close> of the stack object and \<open>wait\<close>, what the receiving
  thread does meanwhile (\<open>golioth_coap_req_sync\<close>).
\<close>

abbreviation (input) GOLIOTH_CONTENT_FORMAT_APP_OCTET_STREAM :: nat
  where "GOLIOTH_CONTENT_FORMAT_APP_OCTET_STREAM \<equiv> 42"

definition LIGHTDB_PATH :: "u8 list" where "LIGHTDB_PATH = ascii ''.d''"
definition STREAM_PATH :: "u8 list" where "STREAM_PATH = ascii ''.s''"

section \<open>LightDB\<close>

definition golioth_coap_req_lightdb_cb ::
  "('e, 'x) sys_scheme \<Rightarrow> u8 \<Rightarrow> u8 list \<Rightarrow> nat \<Rightarrow> u8 list \<Rightarrow> golioth_user_cb option \<Rightarrow> user_data
     \<Rightarrow> nat \<Rightarrow> 'e world \<Rightarrow> int \<times> 'e world" where
  "golioth_coap_req_lightdb_cb sys method path format data cb ud flags w =
     golioth_coap_req_cb sys method [LIGHTDB_PATH, path] format data (map_option User_cb cb) ud flags w"

definition golioth_coap_req_lightdb_sync ::
  "('e, 'x) sys_scheme \<Rightarrow> ('e world \<Rightarrow> 'e world) \<Rightarrow> ptr \<Rightarrow> u8 \<Rightarrow> u8 list \<Rightarrow> nat \<Rightarrow> u8 list
     \<Rightarrow> golioth_user_cb option \<Rightarrow> user_data \<Rightarrow> nat \<Rightarrow> 'e world \<Rightarrow> (int \<times> 'e world) option" where
  "golioth_coap_req_lightdb_sync sys wait p method path format data cb ud flags w =
     golioth_coap_req_sync sys wait method [LIGHTDB_PATH, path] format data cb ud flags p w"

definition golioth_lightdb_get_cb ::
  "('e, 'x) sys_scheme \<Rightarrow> u8 list \<Rightarrow> nat \<Rightarrow> golioth_user_cb option \<Rightarrow> user_data \<Rightarrow> 'e world
     \<Rightarrow> int \<times> 'e world" where
  "golioth_lightdb_get_cb sys path format cb ud w =
     golioth_coap_req_lightdb_cb sys COAP_METHOD_GET path format [] cb ud 0 w"

text \<open>
  The copy \<^verbatim>\<open>memcpy(&data[off], rsp->data, len)\<close> into a buffer of \<open>pre_capacity\<close> bytes; a copy
  past its end is recorded in \<open>pre_overrun\<close>.
\<close>

definition buf_write :: "nat \<Rightarrow> u8 list \<Rightarrow> u8 list \<Rightarrow> u8 list" where
  "buf_write off d buf = take off buf @ d @ drop (off + length d) buf"

definition golioth_lightdb_get_prealloc_cb ::
  "golioth_req_rsp \<Rightarrow> 'e world \<Rightarrow> int \<times> 'e world" where
  "golioth_lightdb_get_prealloc_cb rsp w =
     (case rsp_user_data rsp of
        UD_prealloc p \<Rightarrow>
          let pre = w_preallocs w p;
              tot = (if rsp_total rsp = 0 then (rsp_off rsp + length (rsp_data rsp)) mod 2 ^ 32
                     else rsp_total rsp)
          in if pre_capacity pre < tot then (- ENOSPC, w)
             else if rsp_off rsp + length (rsp_data rsp) \<le> pre_capacity pre
             then (0, w\<lparr>w_preallocs := (w_preallocs w)(p := pre\<lparr>pre_len := tot,
                     pre_data := buf_write (rsp_off rsp) (rsp_data rsp) (pre_data pre)\<rparr>)\<rparr>)
             else (0, w\<lparr>w_preallocs := (w_preallocs w)(p := pre\<lparr>pre_len := tot, pre_overrun := True\<rparr>)\<rparr>)
      | _ \<Rightarrow> (0, fault w))"

text \<open>
  \<open>data\<close> is the caller's buffer, with \<^verbatim>\<open>*len\<close> its length; \<open>d\<close> is the address of
  \<^verbatim>\<open>prealloc_data\<close>. The result holds the new \<^verbatim>\<open>*len\<close>, unchanged on an error.
\<close>

definition golioth_lightdb_get ::
  "('e, 'x) sys_scheme \<Rightarrow> ('e world \<Rightarrow> 'e world) \<Rightarrow> ptr \<Rightarrow> ptr \<Rightarrow> u8 list \<Rightarrow> nat \<Rightarrow> u8 list
     \<Rightarrow> 'e world \<Rightarrow> (int \<times> nat \<times> 'e world) option" where
  "golioth_lightdb_get sys wait p d path format data w =
     (case golioth_coap_req_lightdb_sync sys wait p COAP_METHOD_GET path format []
             (Some Golioth_lightdb_get_prealloc_cb) (UD_prealloc d) 0
             (w\<lparr>w_preallocs := (w_preallocs w)(d := \<lparr>pre_data = data, pre_capacity = length data,
                pre_len = 0, pre_overrun = False\<rparr>)\<rparr>) of
        None \<Rightarrow> None
      | Some (err, w1) \<Rightarrow>
          if err \<noteq> 0 then Some (err, length data, w1)
          else Some (0, pre_len (w_preallocs w1 d), w1))"

definition golioth_lightdb_set_cb ::
  "('e, 'x) sys_scheme \<Rightarrow> u8 list \<Rightarrow> nat \<Rightarrow> u8 list \<Rightarrow> golioth_user_cb option \<Rightarrow> user_data
     \<Rightarrow> 'e world \<Rightarrow> int \<times> 'e world" where
  "golioth_lightdb_set_cb sys path format data cb ud w =
     golioth_coap_req_lightdb_cb sys COAP_METHOD_POST path format data cb ud
       GOLIOTH_COAP_REQ_NO_RESP_BODY w"

definition golioth_lightdb_set ::
  "('e, 'x) sys_scheme \<Rightarrow> ('e world \<Rightarrow> 'e world) \<Rightarrow> ptr \<Rightarrow> u8 list \<Rightarrow> nat \<Rightarrow> u8 list
     \<Rightarrow> 'e world \<Rightarrow> (int \<times> 'e world) option" where
  "golioth_lightdb_set sys wait p path format data w =
     golioth_coap_req_lightdb_sync sys wait p COAP_METHOD_POST path format data None UD_null
       GOLIOTH_COAP_REQ_NO_RESP_BODY w"

definition golioth_lightdb_observe_cb ::
  "('e, 'x) sys_scheme \<Rightarrow> u8 list \<Rightarrow> nat \<Rightarrow> golioth_user_cb option \<Rightarrow> user_data \<Rightarrow> 'e world
     \<Rightarrow> int \<times> 'e world" where
  "golioth_lightdb_observe_cb sys path format cb ud w =
     golioth_coap_req_lightdb_cb sys COAP_METHOD_GET path format [] cb ud GOLIOTH_COAP_REQ_OBSERVE w"

definition golioth_lightdb_delete_cb ::
  "('e, 'x) sys_scheme \<Rightarrow> u8 list \<Rightarrow> golioth_user_cb option \<Rightarrow> user_data \<Rightarrow> 'e world
     \<Rightarrow> int \<times> 'e world" where
  "golioth_lightdb_delete_cb sys path cb ud w =
     golioth_coap_req_lightdb_cb sys COAP_METHOD_DELETE path GOLIOTH_CONTENT_FORMAT_APP_OCTET_STREAM
       [] cb ud GOLIOTH_COAP_REQ_NO_RESP_BODY w"

definition golioth_lightdb_delete ::
  "('e, 'x) sys_scheme \<Rightarrow> ('e world \<Rightarrow> 'e world) \<Rightarrow> ptr \<Rightarrow> u8 list \<Rightarrow> 'e world
     \<Rightarrow> (int \<times> 'e world) option" where
  "golioth_lightdb_delete sys wait p path w =
     golioth_coap_req_lightdb_sync sys wait p COAP_METHOD_DELETE path
       GOLIOTH_CONTENT_FORMAT_APP_OCTET_STREAM [] None UD_null GOLIOTH_COAP_REQ_NO_RESP_BODY w"

section \<open>Stream\<close>

definition golioth_stream_push_cb ::
  "('e, 'x) sys_scheme \<Rightarrow> u8 list \<Rightarrow> nat \<Rightarrow> u8 list \<Rightarrow> golioth_user_cb option \<Rightarrow> user_data
     \<Rightarrow> 'e world \<Rightarrow> int \<times> 'e world" where
  "golioth_stream_push_cb sys path format data cb ud w =
     golioth_coap_req_cb sys COAP_METHOD_POST [STREAM_PATH, path] format data (map_option User_cb cb)
       ud GOLIOTH_COAP_REQ_NO_RESP_BODY w"

definition golioth_stream_push ::
  "('e, 'x) sys_scheme \<Rightarrow> ('e world \<Rightarrow> 'e world) \<Rightarrow> ptr \<Rightarrow> u8 list \<Rightarrow> nat \<Rightarrow> u8 list
     \<Rightarrow> 'e world \<Rightarrow> (int \<times> 'e world) option" where
  "golioth_stream_push sys wait p path format data w =
     golioth_coap_req_sync sys wait COAP_METHOD_POST [STREAM_PATH, path] format data None UD_null
       GOLIOTH_COAP_REQ_NO_RESP_BODY p w"

section \<open>Lemmas\<close>

lemma prealloc_cb_same:
  assumes "rsp_user_data rsp = UD_prealloc p"
  shows "coap_same w (snd (golioth_lightdb_get_prealloc_cb rsp w))"
  using assms by (simp add: golioth_lightdb_get_prealloc_cb_def Let_def coap_same_def)

text \<open>
  The blocks of a transfer, one callback call each, at consecutive offsets: the buffer the caller
  gave ends up holding the whole value, whatever the block sizes.
\<close>

definition block_rsp :: "ptr \<Rightarrow> nat \<Rightarrow> nat \<Rightarrow> u8 list \<Rightarrow> golioth_req_rsp" where
  "block_rsp d tot off b = \<lparr>rsp_data = b, rsp_off = off, rsp_total = tot, rsp_get_next = None,
     rsp_get_next_data = None, rsp_user_data = UD_prealloc d, rsp_err = 0\<rparr>"

fun deliver :: "ptr \<Rightarrow> nat \<Rightarrow> nat \<Rightarrow> u8 list list \<Rightarrow> 'e world \<Rightarrow> int \<times> 'e world" where
  "deliver d tot off [] w = (0, w)"
| "deliver d tot off (b # bs) w =
     err_then (golioth_lightdb_get_prealloc_cb (block_rsp d tot off b) w)
       (deliver d tot (off + length b) bs)"

lemma buf_write_append:
  assumes "length a = off" and "off + length d \<le> length buf" and "take off buf = a"
  shows "take (off + length d) (buf_write off d buf) = a @ d"
    and "length (buf_write off d buf) = length buf"
    and "drop (off + length d) (buf_write off d buf) = drop (off + length d) buf"
  using assms by (simp_all add: buf_write_def min_def)

text \<open>\<open>pre_ready\<close>: the buffer is as the caller declared it and nothing was written past it.\<close>

definition pre_ready :: "golioth_lightdb_get_prealloc_data \<Rightarrow> bool" where
  "pre_ready p \<longleftrightarrow> pre_capacity p = length (pre_data p) \<and> \<not> pre_overrun p"

lemma prealloc_cb_fits:
  assumes "pre_ready (w_preallocs w d)" and "0 < tot" and "tot \<le> pre_capacity (w_preallocs w d)"
    and "off + length b \<le> tot"
  shows "golioth_lightdb_get_prealloc_cb (block_rsp d tot off b) w =
    (0, w\<lparr>w_preallocs := (w_preallocs w)(d := (w_preallocs w d)\<lparr>pre_len := tot,
      pre_data := buf_write off b (pre_data (w_preallocs w d))\<rparr>)\<rparr>)"
  using assms by (simp add: golioth_lightdb_get_prealloc_cb_def block_rsp_def Let_def)

text \<open>
  The blocks of a value whose total size is known and fits are written one behind the other into
  the caller's buffer, and the length is the total.
\<close>

lemma deliver_known_total:
  assumes "pre_ready (w_preallocs w d)" and "0 < tot" and "tot \<le> pre_capacity (w_preallocs w d)"
    and "off + length (concat bs) \<le> tot" and "deliver d tot off bs w = (e, w')"
  shows "e = 0 \<and> pre_ready (w_preallocs w' d) \<and>
    pre_capacity (w_preallocs w' d) = pre_capacity (w_preallocs w d) \<and>
    (bs \<noteq> [] \<longrightarrow> pre_len (w_preallocs w' d) = tot) \<and>
    take (off + length (concat bs)) (pre_data (w_preallocs w' d)) =
      take off (pre_data (w_preallocs w d)) @ concat bs"
  using assms(1,3-)
proof (induction bs arbitrary: off w)
  case Nil
  then show ?case by auto
next
  case (Cons b bs)
  let ?p = "w_preallocs w d"
  define p1 where "p1 = ?p\<lparr>pre_len := tot, pre_data := buf_write off b (pre_data ?p)\<rparr>"
  define w1 where "w1 = w\<lparr>w_preallocs := (w_preallocs w)(d := p1)\<rparr>"
  have fits: "off + length b \<le> tot" "off + length b \<le> length (pre_data ?p)"
    using Cons.prems(1-3) by (simp_all add: pre_ready_def)
  have step: "golioth_lightdb_get_prealloc_cb (block_rsp d tot off b) w = (0, w1)"
    unfolding w1_def p1_def by (rule prealloc_cb_fits[OF Cons.prems(1) assms(2) Cons.prems(2) fits(1)])
  have len: "length (buf_write off b (pre_data ?p)) = length (pre_data ?p)"
    using fits(2) by (auto simp: buf_write_def min_def)
  have p1: "w_preallocs w1 d = p1" "pre_ready p1" "pre_capacity p1 = pre_capacity ?p" "pre_len p1 = tot"
    "take (off + length b) (pre_data p1) = take off (pre_data ?p) @ b"
    using Cons.prems(1) len fits(2) buf_write_append(1)[of "take off (pre_data ?p)" off b "pre_data ?p"]
    by (simp_all add: w1_def p1_def pre_ready_def min_def)
  have d: "deliver d tot (off + length b) bs w1 = (e, w')"
    using Cons.prems(4) step by simp
  have "tot \<le> pre_capacity p1" "off + length b + length (concat bs) \<le> tot"
    using Cons.prems(2,3) p1(3) by simp_all
  note I = Cons.IH[of w1 "off + length b", unfolded p1(1), OF p1(2) this d]
  show ?case
  proof (cases "bs = []")
    case True
    with d have "w' = w1" "e = 0" by simp_all
    then show ?thesis using p1 True by simp
  next
    case False
    then show ?thesis using I p1(3,5) by (simp add: add.assoc)
  qed
qed

text \<open>
  The capacity is compared with the total the server claims, not with what is copied: a block that
  ends after a total that fits is written past the caller's buffer.
\<close>

lemma prealloc_cb_overrun:
  assumes "rsp_user_data rsp = UD_prealloc d" and "0 < rsp_total rsp"
    and "rsp_total rsp \<le> pre_capacity (w_preallocs w d)"
    and "pre_capacity (w_preallocs w d) < rsp_off rsp + length (rsp_data rsp)"
  shows "\<exists>w'. golioth_lightdb_get_prealloc_cb rsp w = (0, w') \<and> pre_overrun (w_preallocs w' d)"
  using assms by (simp add: golioth_lightdb_get_prealloc_cb_def Let_def)

end
