(* ===== verification/Fw.thy ===== *)
theory Fw
  imports Application ZcborUtils Lightdb
begin

text \<open>
  \<^verbatim>\<open>net/golioth/fw.c\<close>: parsing the manifest of the desired firmware, observing it, downloading an
  image and reporting the state of an update.
\<close>

definition GOLIOTH_FW_DESIRED :: "u8 list" where "GOLIOTH_FW_DESIRED = ascii ''.u/desired''"
definition GOLIOTH_FW_REPORT_STATE :: "u8 list" where "GOLIOTH_FW_REPORT_STATE = ascii ''.u/c''"

abbreviation (input) MANIFEST_KEY_SEQUENCE_NUMBER :: u32 where "MANIFEST_KEY_SEQUENCE_NUMBER \<equiv> 1"
abbreviation (input) MANIFEST_KEY_COMPONENTS :: u32 where "MANIFEST_KEY_COMPONENTS \<equiv> 3"
abbreviation (input) COMPONENT_KEY_VERSION :: u32 where "COMPONENT_KEY_VERSION \<equiv> 2"
abbreviation (input) COMPONENT_KEY_URI :: u32 where "COMPONENT_KEY_URI \<equiv> 5"

section \<open>The manifest\<close>

text \<open>
  A caller's buffer and the number its length pointer points to: the space on entry, the length
  of the string after it has been decoded.
\<close>

record component_tstr_value =
  tv_value :: "u8 list"
  tv_value_len :: nat

record component_info =
  ci_version :: component_tstr_value
  ci_uri :: component_tstr_value

definition component_entry_decode_value ::
  "('l) zcbor_lib_scheme \<Rightarrow> zcbor_state \<Rightarrow> component_tstr_value \<Rightarrow> int \<times> zcbor_state \<times> component_tstr_value" where
  "component_entry_decode_value lib zsd val =
     (case zcbor_tstr_decode lib zsd of
        (ok, tstr, zsd1) \<Rightarrow>
          if \<not> ok then (- EBADMSG, zsd1, val)
          else if length tstr > tv_value_len val then (- ENOMEM, zsd1, val)
          else (0, zsd1, \<lparr>tv_value = buf_write 0 tstr (tv_value val), tv_value_len = length tstr\<rparr>))"

definition component_entries :: "('l) zcbor_lib_scheme \<Rightarrow> component_info zcbor_map_entry list" where
  "component_entries lib =
     [\<lparr>me_key = U32_KEY COMPONENT_KEY_VERSION,
       me_decode = (\<lambda>st ci. case component_entry_decode_value lib st (ci_version ci) of
          (err, st', v) \<Rightarrow> Some (err, st', ci\<lparr>ci_version := v\<rparr>))\<rparr>,
      \<lparr>me_key = U32_KEY COMPONENT_KEY_URI,
       me_decode = (\<lambda>st ci. case component_entry_decode_value lib st (ci_uri ci) of
          (err, st', v) \<Rightarrow> Some (err, st', ci\<lparr>ci_uri := v\<rparr>))\<rparr>]"

definition components_decode ::
  "('l) zcbor_lib_scheme \<Rightarrow> zcbor_state \<Rightarrow> component_info
     \<Rightarrow> (int \<times> zcbor_state \<times> component_info) option" where
  "components_decode lib zsd component =
     (case zcbor_list_start_decode lib zsd of
        (ok, zsd1) \<Rightarrow>
          if \<not> ok then Some (- EBADMSG, zsd1, component)
          else
            (case zcbor_map_decode lib (component_entries lib) zsd1 component of
               None \<Rightarrow> None
             | Some (err, zsd2, component2) \<Rightarrow>
                 if err \<noteq> 0 then Some (err, zsd2, component2)
                 else
                   (case zcbor_list_end_decode lib zsd2 of
                      (ok, zsd3) \<Rightarrow>
                        if \<not> ok then Some (- EBADMSG, zsd3, component2)
                        else Some (err, zsd3, component2))))"

text \<open>The entries of the manifest fill in its sequence number and the component.\<close>

definition manifest_entries ::
  "('l) zcbor_lib_scheme \<Rightarrow> (int \<times> component_info) zcbor_map_entry list" where
  "manifest_entries lib =
     [\<lparr>me_key = U32_KEY MANIFEST_KEY_SEQUENCE_NUMBER,
       me_decode = (\<lambda>st (n, ci). case zcbor_map_int64_decode lib st of
          (err, i, st') \<Rightarrow> Some (err, st', (if err = 0 then i else n), ci))\<rparr>,
      \<lparr>me_key = U32_KEY MANIFEST_KEY_COMPONENTS,
       me_decode = (\<lambda>st (n, ci). map_option (\<lambda>(err, st', ci'). (err, st', n, ci'))
          (components_decode lib st ci))\<rparr>]"

text \<open>
  \<open>version\<close> and \<open>uri\<close> are the caller's buffers with their lengths. The sequence number is
  decoded and dropped.
\<close>

definition golioth_fw_desired_parse ::
  "('l) zcbor_lib_scheme \<Rightarrow> u8 list \<Rightarrow> component_tstr_value \<Rightarrow> component_tstr_value
     \<Rightarrow> (int \<times> component_tstr_value \<times> component_tstr_value) option" where
  "golioth_fw_desired_parse lib payload version uri =
     (case zcbor_map_decode lib (manifest_entries lib) (zcbor_new_decode_state lib 3 payload 1)
             (0, \<lparr>ci_version = version, ci_uri = uri\<rparr>) of
        None \<Rightarrow> None
      | Some (err, _, _, ci) \<Rightarrow>
          if err \<noteq> 0 then Some (err, ci_version ci, ci_uri ci) else Some (0, ci_version ci, ci_uri ci))"

section \<open>Requests\<close>

definition golioth_fw_observe_desired ::
  "('e, 'x) sys_scheme \<Rightarrow> golioth_user_cb option \<Rightarrow> user_data \<Rightarrow> 'e world \<Rightarrow> int \<times> 'e world" where
  "golioth_fw_observe_desired sys cb ud w =
     golioth_coap_req_cb sys COAP_METHOD_GET [GOLIOTH_FW_DESIRED] GOLIOTH_CONTENT_FORMAT_APP_CBOR []
       (map_option User_cb cb) ud GOLIOTH_COAP_REQ_OBSERVE w"

text \<open>\<^verbatim>\<open>uri\<close> is the memory from the string on; \<open>None\<close> of the library call is a read past it.\<close>

definition append_uri_path_from_string ::
  "('e, 'x) sys_scheme \<Rightarrow> u8 list \<Rightarrow> nat \<Rightarrow> ptr \<Rightarrow> 'e world \<Rightarrow> int \<times> 'e world" where
  "append_uri_path_from_string sys uri uri_len r w =
     (case w_reqs w r of
        None \<Rightarrow> (0, fault w)
      | Some q \<Rightarrow>
          (case w_bufs w (req_data q) of
             None \<Rightarrow> (0, fault w)
           | Some b \<Rightarrow>
               (case coap_packet_append_uri_path_from_string sys uri uri_len (req_request q) b of
                  None \<Rightarrow> (0, fault w)
                | Some res \<Rightarrow> on_request (\<lambda>_ _. res) r w)))"

definition golioth_fw_download ::
  "('e, 'x) sys_scheme \<Rightarrow> u8 list \<Rightarrow> nat \<Rightarrow> golioth_user_cb option \<Rightarrow> user_data \<Rightarrow> 'e world
     \<Rightarrow> int \<times> 'e world" where
  "golioth_fw_download sys uri uri_len cb ud w =
     (case golioth_coap_req_new sys COAP_METHOD_GET COAP_TYPE_CON GOLIOTH_COAP_MAX_NON_PAYLOAD_LEN
             (map_option User_cb cb) ud w of
        (err, r, w1) \<Rightarrow>
          if err \<noteq> 0 then (err, w1)
          else
            (case err_then (append_uri_path_from_string sys uri uri_len r w1)
                    (golioth_coap_req_schedule sys r) of
               (err2, w2) \<Rightarrow> if err2 \<noteq> 0 then (err2, golioth_coap_req_free r w2) else (0, w2)))"

section \<open>Reporting\<close>

text \<open>A version that is NULL or empty is left out. The error is \<open>-ENOMEM\<close> throughout.\<close>

definition put_entry ::
  "('l) zcbor_lib_scheme \<Rightarrow> string \<Rightarrow> (zcbor_enc \<Rightarrow> bool \<times> zcbor_enc) \<Rightarrow> zcbor_enc \<Rightarrow> bool \<times> zcbor_enc" where
  "put_entry lib key put = enc_and (zcbor_tstr_put lib (ascii key)) put"

definition put_version ::
  "('l) zcbor_lib_scheme \<Rightarrow> string \<Rightarrow> u8 list option \<Rightarrow> zcbor_enc \<Rightarrow> bool \<times> zcbor_enc" where
  "put_version lib key version enc =
     (case version of
        Some v \<Rightarrow> if v \<noteq> [] then put_entry lib key (zcbor_tstr_put lib v) enc else (True, enc)
      | None \<Rightarrow> (True, enc))"

definition fw_report_state_encode ::
  "('l) zcbor_lib_scheme \<Rightarrow> u8 list option \<Rightarrow> u8 list option \<Rightarrow> nat \<Rightarrow> nat \<Rightarrow> zcbor_enc
     \<Rightarrow> int \<times> zcbor_enc" where
  "fw_report_state_encode lib current_version target_version state res zse =
     enc_step (- ENOMEM) (zcbor_map_end_encode lib 1)
       (enc_step (- ENOMEM) (put_version lib ''t'' target_version)
         (enc_step (- ENOMEM) (put_version lib ''v'' current_version)
           (enc_step (- ENOMEM) (put_entry lib ''r'' (zcbor_uint32_put lib res))
             (enc_step (- ENOMEM) (put_entry lib ''s'' (zcbor_uint32_put lib state))
               (enc_step (- ENOMEM) (zcbor_map_start_encode lib 1) (0, zse))))))"

definition golioth_fw_report_state_cb ::
  "('e, 'x) sys_scheme \<Rightarrow> ('l) zcbor_lib_scheme \<Rightarrow> u8 list \<Rightarrow> u8 list option \<Rightarrow> u8 list option
     \<Rightarrow> nat \<Rightarrow> nat \<Rightarrow> golioth_user_cb option \<Rightarrow> user_data \<Rightarrow> 'e world \<Rightarrow> int \<times> 'e world" where
  "golioth_fw_report_state_cb sys lib package_name current_version target_version state res cb ud w =
     (case fw_report_state_encode lib current_version target_version state res
             (zcbor_new_encode_state lib 1 64) of
        (err, zse) \<Rightarrow>
          if err \<noteq> 0 then (err, w)
          else golioth_coap_req_cb sys COAP_METHOD_POST [GOLIOTH_FW_REPORT_STATE, package_name]
                 GOLIOTH_CONTENT_FORMAT_APP_CBOR (ze_payload zse) (map_option User_cb cb) ud 0 w)"

definition golioth_fw_report_state ::
  "('e, 'x) sys_scheme \<Rightarrow> ('l) zcbor_lib_scheme \<Rightarrow> ('e world \<Rightarrow> 'e world) \<Rightarrow> ptr \<Rightarrow> u8 list
     \<Rightarrow> u8 list option \<Rightarrow> u8 list option \<Rightarrow> nat \<Rightarrow> nat \<Rightarrow> 'e world \<Rightarrow> (int \<times> 'e world) option" where
  "golioth_fw_report_state sys lib wait p package_name current_version target_version state res w =
     (case fw_report_state_encode lib current_version target_version state res
             (zcbor_new_encode_state lib 1 64) of
        (err, zse) \<Rightarrow>
          if err \<noteq> 0 then Some (err, w)
          else golioth_coap_req_sync sys wait COAP_METHOD_POST [GOLIOTH_FW_REPORT_STATE, package_name]
                 GOLIOTH_CONTENT_FORMAT_APP_CBOR (ze_payload zse) None UD_null 0 p w)"

section \<open>The decoding functions keep their contract\<close>

lemma component_entry_moves:
  "zcbor_lib_ok lib \<Longrightarrow> component_entry_decode_value lib st v = (0, st', v') \<Longrightarrow> moves st st'"
  using value_movesD(1)[OF zcbor_lib_ok_moves(5)]
  by (auto simp: component_entry_decode_value_def split: prod.splits if_splits)

interpretation component: entry_decoders lib "component_entries lib"
  for lib :: "('l) zcbor_lib_scheme"
proof
  fix i st v st' v'
  assume ok: "zcbor_lib_ok lib" and i: "i < length (component_entries lib)"
  then have "i = 0 \<or> i = 1" by (auto simp: component_entries_def)
  then show "me_decode (component_entries lib ! i) st v \<noteq> None"
    and "me_decode (component_entries lib ! i) st v = Some (0, st', v') \<Longrightarrow> moves st st'"
    by (auto simp: component_entries_def split: prod.splits dest: component_entry_moves[OF ok])
qed

lemma components_decode_returns:
  assumes "zcbor_lib_ok lib"
  obtains e st' ci' where "components_decode lib st ci = Some (e, st', ci')" "e = 0 \<Longrightarrow> moves st st'"
proof -
  obtain ok st1 where s: "zcbor_list_start_decode lib st = (ok, st1)" by fastforce
  obtain e st2 ci2 where m: "zcbor_map_decode lib (component_entries lib) st1 ci = Some (e, st2, ci2)"
    "e = 0 \<Longrightarrow> moves st1 st2"
    using component.map_decode_returns[OF assms, of st1 ci] by blast
  obtain ok3 st3 where l: "zcbor_list_end_decode lib st2 = (ok3, st3)" by fastforce
  have eq: "components_decode lib st ci =
    (if \<not> ok then Some (- EBADMSG, st1, ci) else if e \<noteq> 0 then Some (e, st2, ci2)
     else if \<not> ok3 then Some (- EBADMSG, st3, ci2) else Some (e, st3, ci2))"
    by (simp add: components_decode_def s m(1) l)
  have mv: "moves st st3" if "ok" "e = 0" "ok3"
  proof -
    have "moves st st1" using step_movesD(1)[OF zcbor_lib_ok_moves(2)[OF assms], of st st1] s that(1) by simp
    moreover have "leaves st2 st3" using zcbor_lib_ok_leaves(1)[OF assms, of st2 st3] l that(3) by simp
    ultimately show ?thesis using m(2)[OF that(2)] moves_trans moves_leaves by blast
  qed
  consider "\<not> ok" | "ok" "e \<noteq> 0" | "ok" "e = 0" "\<not> ok3" | "ok" "e = 0" "ok3" by blast
  then show thesis
  proof cases
    case 1 show thesis by (rule that[of "- EBADMSG" st1 ci]) (use eq 1 in auto)
  next
    case 2 show thesis by (rule that[of e st2 ci2]) (use eq 2 in auto)
  next
    case 3 show thesis by (rule that[of "- EBADMSG" st3 ci2]) (use eq 3 in auto)
  next
    case 4 show thesis by (rule that[of e st3 ci2]) (use eq 4 mv in auto)
  qed
qed

interpretation manifest: entry_decoders lib "manifest_entries lib"
  for lib :: "('l) zcbor_lib_scheme"
proof
  fix i st and v :: "int \<times> component_info" and st' v'
  assume ok: "zcbor_lib_ok lib" and i: "i < length (manifest_entries lib)"
  obtain n ci where v: "v = (n, ci)" by (cases v)
  obtain e st2 ci2 where c: "components_decode lib st ci = Some (e, st2, ci2)" "e = 0 \<Longrightarrow> moves st st2"
    using components_decode_returns[OF ok, of st ci] by blast
  from i have "i = 0 \<or> i = 1" by (auto simp: manifest_entries_def)
  then show "me_decode (manifest_entries lib ! i) st v \<noteq> None"
    and "me_decode (manifest_entries lib ! i) st v = Some (0, st', v') \<Longrightarrow> moves st st'"
    using c by (auto simp: manifest_entries_def v split: prod.splits dest: map_int64_moves[OF ok])
qed

lemma fw_desired_parse_returns:
  assumes "zcbor_lib_ok lib"
  shows "golioth_fw_desired_parse lib payload version uri \<noteq> None"
proof -
  obtain e st' v' where "zcbor_map_decode lib (manifest_entries lib) (zcbor_new_decode_state lib 3 payload 1)
      (0, \<lparr>ci_version = version, ci_uri = uri\<rparr>) = Some (e, st', v')"
    using manifest.map_decode_returns[OF assms, of "zcbor_new_decode_state lib 3 payload 1"
        "(0, \<lparr>ci_version = version, ci_uri = uri\<rparr>)"] by blast
  then show ?thesis by (cases v') (simp add: golioth_fw_desired_parse_def)
qed

section \<open>What the parser does to the caller's buffers\<close>

text \<open>What every decoding of a string keeps of a buffer, the parser keeps.\<close>

definition entry_keeps :: "('l) zcbor_lib_scheme \<Rightarrow> (component_tstr_value \<Rightarrow> bool) \<Rightarrow> bool" where
  "entry_keeps lib P \<longleftrightarrow> (\<forall>st v. P v \<longrightarrow> P (snd (snd (component_entry_decode_value lib st v))))"

definition info_inv :: "(component_tstr_value \<Rightarrow> bool) \<Rightarrow> (component_tstr_value \<Rightarrow> bool) \<Rightarrow> component_info \<Rightarrow> bool" where
  "info_inv P Q ci \<longleftrightarrow> P (ci_version ci) \<and> Q (ci_uri ci)"

lemma components_decode_inv:
  assumes "entry_keeps lib P" and "entry_keeps lib Q" and "info_inv P Q ci"
    and "components_decode lib st ci = Some (e, st', ci')"
  shows "info_inv P Q ci'"
proof -
  have inv: "info_inv P Q v'"
    if "i < length (component_entries lib)" "info_inv P Q v" "me_decode (component_entries lib ! i) s v = Some (e, s', v')"
    for i s v e s' v'
  proof -
    from that(1) have "i = 0 \<or> i = 1" by (auto simp: component_entries_def)
    moreover have "P (snd (snd (component_entry_decode_value lib s (ci_version v))))"
      "Q (snd (snd (component_entry_decode_value lib s (ci_uri v))))"
      using that(2) assms(1,2) by (simp_all add: info_inv_def entry_keeps_def)
    ultimately show ?thesis
      using that(2,3) by (auto simp: component_entries_def info_inv_def split: prod.splits)
  qed
  obtain ok st1 where s: "zcbor_list_start_decode lib st = (ok, st1)" by fastforce
  show ?thesis
  proof (cases ok)
    case False
    with assms(3,4) s show ?thesis by (auto simp: components_decode_def)
  next
    case True
    obtain e2 st2 ci2 where m: "zcbor_map_decode lib (component_entries lib) st1 ci = Some (e2, st2, ci2)"
      using assms(4) True s by (auto simp: components_decode_def split: option.splits)
    have "info_inv P Q ci2"
      by (rule map_decode_inv[of "component_entries lib" "info_inv P Q" ci lib st1 e2 st2, OF _ assms(3) m])
        (rule inv)
    with assms(4) True s m show ?thesis
      by (auto simp: components_decode_def split: prod.splits if_splits)
  qed
qed

lemma desired_parse_inv:
  assumes "entry_keeps lib P" and "entry_keeps lib Q"
    and "golioth_fw_desired_parse lib payload version uri = Some (e, version', uri')"
    and "P version" and "Q uri"
  shows "P version' \<and> Q uri'"
proof -
  have inv: "info_inv P Q (snd v')"
    if "i < length (manifest_entries lib)" "info_inv P Q (snd v)" "me_decode (manifest_entries lib ! i) s v = Some (e, s', v')"
    for i s and v :: "int \<times> component_info" and e s' v'
  proof -
    from that(1) have "i = 0 \<or> i = 1" by (auto simp: manifest_entries_def)
    with that(2,3) show ?thesis
      using components_decode_inv[OF assms(1,2), of "snd v" s]
      by (auto simp: manifest_entries_def split: prod.splits)
  qed
  obtain e2 st2 v2 where m: "zcbor_map_decode lib (manifest_entries lib) (zcbor_new_decode_state lib 3 payload 1)
      (0, \<lparr>ci_version = version, ci_uri = uri\<rparr>) = Some (e2, st2, v2)"
    using assms(3) by (auto simp: golioth_fw_desired_parse_def split: option.splits)
  have i0: "info_inv P Q (snd (0::int, \<lparr>ci_version = version, ci_uri = uri\<rparr>))"
    using assms(4,5) by (simp add: info_inv_def)
  have "info_inv P Q (snd v2)"
    by (rule map_decode_inv[of "manifest_entries lib" "\<lambda>v. info_inv P Q (snd v)", OF _ i0 m]) (rule inv)
  with assms(3) m show ?thesis
    by (auto simp: golioth_fw_desired_parse_def info_inv_def split: prod.splits if_splits)
qed

text \<open>A buffer of the given size, and a length within it.\<close>

definition tv_fits :: "nat \<Rightarrow> component_tstr_value \<Rightarrow> bool" where
  "tv_fits cap v \<longleftrightarrow> length (tv_value v) = cap \<and> tv_value_len v \<le> cap"

lemma entry_keeps_fits: "entry_keeps lib (tv_fits cap)"
  by (auto simp: entry_keeps_def component_entry_decode_value_def tv_fits_def buf_write_def min_def split: prod.splits)

text \<open>
  C32. Whatever bytes a manifest is made of, the parser comes to an end, and what it has written of the
  version and the URI is inside the buffers of the caller, with lengths that do not exceed the
  space the caller gave.
\<close>

lemma fw_desired_parse_fits:
  assumes "zcbor_lib_ok lib" and "tv_fits a version" and "tv_fits b uri"
  shows "\<exists>e version' uri'. golioth_fw_desired_parse lib payload version uri = Some (e, version', uri') \<and>
    tv_fits a version' \<and> tv_fits b uri'"
proof -
  obtain e version' uri' where p: "golioth_fw_desired_parse lib payload version uri = Some (e, version', uri')"
    using fw_desired_parse_returns[OF assms(1)] by (metis not_None_eq prod_cases3)
  from desired_parse_inv[OF entry_keeps_fits entry_keeps_fits this assms(2,3)] p show ?thesis by blast
qed

section \<open>Downloading keeps the request layer's invariant\<close>

lemma append_uri_path_string_detached:
  assumes "detached w0 q b w" and "coap_lib_ok sys"
    and "\<And>pkt b. coap_packet_append_uri_path_from_string sys uri len pkt b \<noteq> None"
    and "append_uri_path_from_string sys uri len (w_next w0) w = (err, w')"
  obtains pkt b' where "detached w0 (q\<lparr>req_request := pkt\<rparr>) b' w'"
proof -
  from assms(1) obtain e where w: "w = with_req w0 q b e" "req_data q = Suc (w_next w0)" "4 \<le> length b"
    by (rule detachedE)
  obtain err' pkt b' where
    f: "coap_packet_append_uri_path_from_string sys uri len (req_request q) b = Some (err', pkt, b')"
    using assms(3)[of "req_request q" b] by (metis not_None_eq prod_cases3)
  have l: "length b' = length b"
    using coap_lib_okD(2)[OF assms(2)] f
    by (auto simp: coap_packet_append_uri_path_from_string_def
        coap_packet_append_uri_path_from_string_range_def split: option.splits dest: uri_path_loop_length)
  have "w' = with_req w0 (q\<lparr>req_request := pkt\<rparr>) b' e"
    using assms(4) f w by (simp add: append_uri_path_from_string_def on_request_def with_req_upd)
  then show thesis using w l that detachedI[of "q\<lparr>req_request := pkt\<rparr>" w0 b' e] by simp
qed

text \<open>
  A firmware download queues one request, or fails and leaves the client as it was.
\<close>

lemma golioth_fw_download_ok:
  assumes "world_ok w" and "coap_lib_ok sys"
    and "\<And>pkt b. coap_packet_append_uri_path_from_string sys uri len pkt b \<noteq> None"
    and "cb = None \<or> user_ud_ok (settings_ready w) (the cb) ud"
    and "golioth_fw_download sys uri len cb ud w = (err, w')"
  shows "cb_step w w' \<and> (err \<noteq> 0 \<longrightarrow> only_env w w') \<and>
    (err = 0 \<longrightarrow> is_connected w \<and> reqs_list w' = reqs_list w @ [w_next w])"
proof -
  let ?cb = "map_option User_cb cb"
  note F = world_okD(4)[OF assms(1)]
  obtain err1 r w1 where n: "golioth_coap_req_new sys COAP_METHOD_GET COAP_TYPE_CON
      GOLIOTH_COAP_MAX_NON_PAYLOAD_LEN ?cb ud w = (err1, r, w1)"
    by (metis prod_cases3)
  have ud: "ud_ok (settings_ready w) (case ?cb of Some f \<Rightarrow> f | None \<Rightarrow> User_cb Golioth_req_rsp_default_handler) ud"
    using assms(4) by (cases cb) auto
  consider "err1 \<noteq> 0" "only_env w w1"
    | pkt b e where "err1 = 0" "r = w_next w" "length b = GOLIOTH_COAP_MAX_NON_PAYLOAD_LEN"
      "w1 = with_req w (fresh_req (w_client w) ?cb ud (Suc (w_next w)) pkt) b e"
    using golioth_coap_req_new_spec[OF F assms(2) n] by blast
  then show ?thesis
  proof cases
    case 1
    then have "err = err1" "w' = w1" using assms(5) n by (auto simp: golioth_fw_download_def)
    with 1 assms(1) show ?thesis by (auto intro: cb_step_only_env)
  next
    case (2 pkt b e)
    let ?q = "fresh_req (w_client w) ?cb ud (Suc (w_next w)) pkt"
    have d1: "detached w ?q b w1" using 2 by (simp add: detachedI fresh_req_def zero_req_def)
    obtain err2 w2 where bu: "append_uri_path_from_string sys uri len (w_next w) w1 = (err2, w2)" by fastforce
    obtain pkt' b' where d2: "detached w (?q\<lparr>req_request := pkt'\<rparr>) b' w2"
      by (rule append_uri_path_string_detached[OF d1 assms(2) assms(3) bu])
    show ?thesis
    proof (cases "err2 = 0")
      case False
      then have "err = err2" "w' = golioth_coap_req_free (w_next w) w2"
        using assms(5) n 2 bu by (auto simp: golioth_fw_download_def err_then_def)
      with False detached_free[OF F d2] assms(1) show ?thesis by (auto intro: cb_step_only_env)
    next
      case True
      obtain err3 w3 where sc: "golioth_coap_req_schedule sys (w_next w) w2 = (err3, w3)" by fastforce
      have res: "(err, w') = (if err3 \<noteq> 0 then (err3, golioth_coap_req_free (w_next w) w3) else (0, w3))"
        using assms(5) n 2 bu True sc by (simp add: golioth_fw_download_def err_then_def)
      show ?thesis
        using golioth_coap_req_schedule_detached[OF d2 sc]
      proof (elim disjE conjE exE)
        fix p
        assume "err3 = - ENETDOWN" and "detached w (?q\<lparr>req_request := pkt'\<rparr>\<lparr>req_pending := p\<rparr>) b' w3"
        with res detached_free[OF F] assms(1) show ?thesis by (auto intro: cb_step_only_env)
      next
        fix t e3
        assume c: "err3 = 0" "is_connected w" and w3: "w3 = scheduled w (?q\<lparr>req_request := pkt'\<rparr>
            \<lparr>req_pending := \<lparr>pend_t0 = t, pend_timeout = 0, pend_retries = 3\<rparr>\<rparr>) b' e3"
        have "4 \<le> length b'" using d2 by (simp add: detached_def)
        then have "cb_step w w3"
          unfolding w3 using ud by (intro cb_step_scheduled[OF assms(1) c(2)]) (simp_all add: fresh_req_def zero_req_def)
        with res c w3 show ?thesis by simp
      qed
    qed
  qed
qed

end
