(* ===== verification/Rpc.thy ===== *)
theory Rpc
  imports Application ZcborUtils
begin

text \<open>
  \<^verbatim>\<open>net/golioth/rpc.c\<close>: methods the application registers, called on requests the server sends
  over an observed path.

  \<open>None\<close> of a function is a call that does not return.
\<close>

definition GOLIOTH_RPC_PATH :: "u8 list" where "GOLIOTH_RPC_PATH = ascii ''.rpc''"
definition GOLIOTH_RPC_STATUS_PATH :: "u8 list" where "GOLIOTH_RPC_STATUS_PATH = ascii ''.rpc/status''"

section \<open>Registration and lookup\<close>

definition golioth_rpc_init :: "golioth_client \<Rightarrow> int \<times> golioth_client" where
  "golioth_rpc_init c = (0, c)"

definition golioth_rpc_register ::
  "('c) service_conf_scheme \<Rightarrow> u8 list \<Rightarrow> nat \<Rightarrow> nat \<Rightarrow> 'e world \<Rightarrow> int \<times> 'e world" where
  "golioth_rpc_register conf method_name callback callback_arg w =
     (let methods = rpc_methods (cl_rpc (w_client w)) in
      if conf_rpc_max_num_methods conf \<le> length methods then (- ENOBUFS, w)
      else
        (0, upd_client (\<lambda>c. c\<lparr>cl_rpc := \<lparr>rpc_methods = methods @
           [\<lparr>rpcm_name = method_name, rpcm_callback = callback, rpcm_callback_arg = callback_arg\<rparr>]\<rparr>\<rparr>) w))"

text \<open>\<^verbatim>\<open>strncmp(s, t, n) == 0\<close>; a list that ends stands for a terminator.\<close>

fun strncmp_eq :: "u8 list \<Rightarrow> u8 list \<Rightarrow> nat \<Rightarrow> bool" where
  "strncmp_eq s t 0 = True"
| "strncmp_eq s t (Suc n) =
     (let a = (case s of [] \<Rightarrow> 0 | x # _ \<Rightarrow> x); b = (case t of [] \<Rightarrow> 0 | x # _ \<Rightarrow> x) in
      a = b \<and> (a = 0 \<or> strncmp_eq (tl s) (tl t) n))"

definition rpc_matches :: "u8 list \<Rightarrow> golioth_rpc_method \<Rightarrow> bool" where
  "rpc_matches method m \<longleftrightarrow>
     c_strlen (rpcm_name m) = length method \<and> strncmp_eq (rpcm_name m) method (length method)"

text \<open>
  The result is the C result, \<^verbatim>\<open>*status_code\<close>, and the new encoder and world.
\<close>

definition rpc_find_and_call ::
  "('e, 'y) app_scheme \<Rightarrow> ('l) zcbor_lib_scheme \<Rightarrow> zcbor_enc \<Rightarrow> zcbor_state \<Rightarrow> u8 list \<Rightarrow> 'e world
     \<Rightarrow> int \<times> nat \<times> zcbor_enc \<times> 'e world" where
  "rpc_find_and_call app lib zse params_zsd method w =
     (case find (rpc_matches method) (rpc_methods (cl_rpc (w_client w))) of
        None \<Rightarrow> (0, GOLIOTH_RPC_UNKNOWN, zse, w)
      | Some m \<Rightarrow>
          (case zcbor_tstr_put lib (ascii ''detail'') zse of
             (ok, zse1) \<Rightarrow>
               if \<not> ok then (- ENOMEM, 0, zse1, w)
               else
                 (case zcbor_map_start_encode lib SIZE_MAX zse1 of
                    (ok, zse2) \<Rightarrow>
                      if \<not> ok then (- ENOMEM, 0, zse2, w)
                      else
                        (case app_rpc app (rpcm_callback m) params_zsd zse2 (rpcm_callback_arg m) w of
                           (status, zse3, w1) \<Rightarrow>
                             (case zcbor_map_end_encode lib SIZE_MAX zse3 of
                                (ok, zse4) \<Rightarrow>
                                  if \<not> ok then (- ENOMEM, status, zse4, w1)
                                  else (0, status, zse4, w1))))))"

section \<open>Requests\<close>

definition rpc_send_response ::
  "('e, 'x) sys_scheme \<Rightarrow> u8 list \<Rightarrow> 'e world \<Rightarrow> int \<times> 'e world" where
  "rpc_send_response sys payload w =
     golioth_coap_req_cb sys COAP_METHOD_POST [GOLIOTH_RPC_STATUS_PATH]
       GOLIOTH_CONTENT_FORMAT_APP_CBOR payload (Some (User_cb Golioth_req_rsp_default_handler))
       (UD_string (ascii ''RPC response ACK'')) GOLIOTH_COAP_REQ_NO_RESP_BODY w"

definition golioth_rpc_observe :: "('e, 'x) sys_scheme \<Rightarrow> 'e world \<Rightarrow> int \<times> 'e world" where
  "golioth_rpc_observe sys w =
     golioth_coap_req_cb sys COAP_METHOD_GET [GOLIOTH_RPC_PATH] GOLIOTH_CONTENT_FORMAT_APP_CBOR []
       (Some (User_cb On_rpc)) UD_client GOLIOTH_COAP_REQ_OBSERVE w"

text \<open>The loop of \<^verbatim>\<open>params_decode\<close>.\<close>

partial_function (option) skip_params ::
  "('l) zcbor_lib_scheme \<Rightarrow> zcbor_state \<Rightarrow> (bool \<times> zcbor_state) option" where
  "skip_params lib zsd =
     (if zcbor_list_or_map_end zsd then Some (True, zsd)
      else
        (case zcbor_any_skip lib zsd of
           None \<Rightarrow> None
         | Some (ok, zsd1) \<Rightarrow> if \<not> ok then Some (False, zsd1) else skip_params lib zsd1))"

declare skip_params.simps [code]

definition params_decode ::
  "('l) zcbor_lib_scheme \<Rightarrow> zcbor_state \<Rightarrow> zcbor_state \<Rightarrow> (int \<times> zcbor_state \<times> zcbor_state) option" where
  "params_decode lib zsd params_zsd =
     (case zcbor_list_start_decode lib zsd of
        (ok, zsd1) \<Rightarrow>
          if \<not> ok then Some (- EBADMSG, zsd1, params_zsd)
          else
            (case skip_params lib zsd1 of
               None \<Rightarrow> None
             | Some (ok, zsd2) \<Rightarrow>
                 if \<not> ok then Some (- EBADMSG, zsd2, zsd1)
                 else
                   (case zcbor_list_end_decode lib zsd2 of
                      (ok, zsd3) \<Rightarrow>
                        if \<not> ok then Some (- EBADMSG, zsd3, zsd1) else Some (0, zsd3, zsd1))))"

text \<open>The stack variables the entries of the request fill in.\<close>

record rpc_request =
  rr_id :: "u8 list"
  rr_method :: "u8 list"
  rr_params :: zcbor_state

definition rpc_entries :: "('l) zcbor_lib_scheme \<Rightarrow> rpc_request zcbor_map_entry list" where
  "rpc_entries lib =
     [\<lparr>me_key = TSTR_KEY (ascii ''id''),
       me_decode = (\<lambda>st v. case zcbor_map_tstr_decode lib st of (err, s, st') \<Rightarrow>
          Some (err, st', if err = 0 then v\<lparr>rr_id := s\<rparr> else v))\<rparr>,
      \<lparr>me_key = TSTR_KEY (ascii ''method''),
       me_decode = (\<lambda>st v. case zcbor_map_tstr_decode lib st of (err, s, st') \<Rightarrow>
          Some (err, st', if err = 0 then v\<lparr>rr_method := s\<rparr> else v))\<rparr>,
      \<lparr>me_key = TSTR_KEY (ascii ''params''),
       me_decode = (\<lambda>st v. map_option (\<lambda>(err, st', p). (err, st', v\<lparr>rr_params := p\<rparr>))
          (params_decode lib st (rr_params v)))\<rparr>]"

definition uninit_rpc_request :: "('l) zcbor_lib_scheme \<Rightarrow> rpc_request" where
  "uninit_rpc_request lib = \<lparr>rr_id = stack_string lib ''id'', rr_method = stack_string lib ''method'',
     rr_params = stack_state lib\<rparr>"

text \<open>What \<^verbatim>\<open>on_rpc\<close> does with a decoded request.\<close>

definition rpc_respond ::
  "('e, 'x) sys_scheme \<Rightarrow> ('e, 'y) app_scheme \<Rightarrow> ('l) zcbor_lib_scheme \<Rightarrow> ('c) service_conf_scheme
     \<Rightarrow> rpc_request \<Rightarrow> 'e world \<Rightarrow> int \<times> 'e world" where
  "rpc_respond sys app lib conf v w =
     (case enc_step (- ENOMEM) (enc_and (zcbor_tstr_put lib (ascii ''id'')) (zcbor_tstr_put lib (rr_id v)))
             (enc_step (- ENOMEM) (zcbor_map_start_encode lib 1)
               (0, zcbor_new_encode_state lib 1 (conf_rpc_max_response_len conf))) of
        (err, zse) \<Rightarrow>
          if err \<noteq> 0 then (err, w)
          else
            (case rpc_find_and_call app lib zse (rr_params v) (rr_method v) w of
               (err, status_code, zse1, w1) \<Rightarrow>
                 if err \<noteq> 0 then (err, w1)
                 else
                   (case enc_step (- ENOMEM) (zcbor_map_end_encode lib 1)
                           (enc_step (- ENOMEM)
                              (enc_and (zcbor_tstr_put lib (ascii ''statusCode'')) (zcbor_uint64_put lib status_code))
                              (0, zse1)) of
                      (err, zse2) \<Rightarrow>
                        if err \<noteq> 0 then (err, w1) else rpc_send_response sys (ze_payload zse2) w1)))"

definition on_rpc ::
  "('e, 'x) sys_scheme \<Rightarrow> ('e, 'y) app_scheme \<Rightarrow> ('l) zcbor_lib_scheme \<Rightarrow> ('c) service_conf_scheme
     \<Rightarrow> golioth_req_rsp \<Rightarrow> 'e world \<Rightarrow> (int \<times> 'e world) option" where
  "on_rpc sys app lib conf rsp w =
     (if rsp_err rsp \<noteq> 0 then Some (rsp_err rsp, w)
      else if is_ok_body (rsp_data rsp) then Some (0, w)
      else
        (case zcbor_map_decode lib (rpc_entries lib) (zcbor_new_decode_state lib 2 (rsp_data rsp) 1)
                (uninit_rpc_request lib) of
           None \<Rightarrow> None
         | Some (err, _, v) \<Rightarrow>
             if err \<noteq> 0 then Some (err, w)
             else if rsp_user_data rsp = UD_client then Some (rpc_respond sys app lib conf v w)
             else Some (0, fault w)))"

section \<open>Registration\<close>

lemma strncmp_eq_take:
  "length t = n \<Longrightarrow> 0 \<notin> set (take n s) \<Longrightarrow> n \<le> length s \<Longrightarrow> strncmp_eq s t n \<longleftrightarrow> take n s = t"
proof (induction s t n rule: strncmp_eq.induct)
  case (2 s t n)
  then obtain a s' b t' where "s = a # s'" "t = b # t'" by (cases s; cases t) auto
  with 2 show ?case by (auto simp: Let_def)
qed simp

text \<open>The match is equality with the name up to its terminator.\<close>

lemma rpc_matches_iff: "rpc_matches method m \<longleftrightarrow> takeWhile (\<lambda>c. c \<noteq> 0) (rpcm_name m) = method"
proof -
  let ?t = "takeWhile (\<lambda>c. c \<noteq> 0) (rpcm_name m)"
  have tk: "take (length ?t) (rpcm_name m) = ?t" by (metis append_eq_conv_conj takeWhile_dropWhile_id)
  have le: "length ?t \<le> length (rpcm_name m)" by (rule length_takeWhile_le)
  have "0 \<notin> set ?t" by (auto dest: set_takeWhileD)
  with tk have "0 \<notin> set (take (length ?t) (rpcm_name m))" by simp
  from strncmp_eq_take[OF _ this le, of "method"] tk
  have "strncmp_eq (rpcm_name m) method (length method) \<longleftrightarrow> ?t = method" if "length ?t = length method"
    using that by simp
  then show ?thesis by (auto simp: rpc_matches_def c_strlen_def)
qed


lemma find_append: "find P (xs @ ys) = (case find P xs of None \<Rightarrow> find P ys | Some x \<Rightarrow> Some x)"
  by (induction xs) auto

text \<open>
  A lookup after a registration finds an earlier method of that name, else the new one.
\<close>

lemma golioth_rpc_register_found:
  assumes "golioth_rpc_register conf name cb a w = (0, w')"
  shows "find (rpc_matches method) (rpc_methods (cl_rpc (w_client w'))) =
    (case find (rpc_matches method) (rpc_methods (cl_rpc (w_client w))) of
       Some m \<Rightarrow> Some m
     | None \<Rightarrow> if takeWhile (\<lambda>c. c \<noteq> 0) name = method
         then Some \<lparr>rpcm_name = name, rpcm_callback = cb, rpcm_callback_arg = a\<rparr> else None)"
  using assms
  by (auto simp: golioth_rpc_register_def Let_def upd_client_def find_append rpc_matches_iff
      split: if_splits option.splits)

lemma golioth_rpc_register_bound:
  assumes "length (rpc_methods (cl_rpc (w_client w))) \<le> conf_rpc_max_num_methods conf"
    and "golioth_rpc_register conf name cb a w = (e, w')"
  shows "length (rpc_methods (cl_rpc (w_client w'))) \<le> conf_rpc_max_num_methods conf \<and>
    (e = 0 \<or> e = - ENOBUFS \<and> w' = w)"
  using assms by (auto simp: golioth_rpc_register_def Let_def upd_client_def split: if_splits)

lemma golioth_rpc_register_step:
  assumes "world_ok w" and "golioth_rpc_register conf name cb a w = (e, w')"
  shows "cb_step w w'"
  using assms
  by (auto simp: golioth_rpc_register_def Let_def intro!: cb_step_upd_client split: if_splits)

section \<open>Decoding a request\<close>

lemma skip_params_returns:
  assumes "zcbor_lib_ok lib"
  shows "\<exists>ok st'. skip_params lib st = Some (ok, st') \<and> (ok \<longrightarrow> st' = st \<or> moves st st')"
proof (induction "zs_payload_end st - zs_payload st" arbitrary: st rule: less_induct)
  case less
  show ?case
  proof (cases "zcbor_list_or_map_end st")
    case True
    then show ?thesis by (subst skip_params.simps) (simp add: exI[of _ True])
  next
    case False
    obtain ok st1 where s: "zcbor_any_skip lib st = Some (ok, st1)"
      using any_skip_terminates[OF assms, of st] by auto
    show ?thesis
    proof (cases ok)
      case False
      with \<open>\<not> zcbor_list_or_map_end st\<close> s show ?thesis
        by (subst skip_params.simps) (simp add: exI[of _ False])
    next
      case True
      with s have m: "moves st st1" using any_skip_moves[OF assms, of st st1] by simp
      then have "zs_payload_end st1 - zs_payload st1 < zs_payload_end st - zs_payload st" by (auto simp: moves_def)
      from less[OF this] obtain ok' st' where "skip_params lib st1 = Some (ok', st')"
        "ok' \<longrightarrow> st' = st1 \<or> moves st1 st'" by blast
      with False s True m show ?thesis by (subst skip_params.simps) (auto intro: moves_trans)
    qed
  qed
qed

lemma params_decode_returns:
  assumes "zcbor_lib_ok lib"
  shows "\<exists>e st' p'. params_decode lib st p = Some (e, st', p') \<and> (e = 0 \<longrightarrow> moves st st' \<and> moves st p')"
proof -
  obtain ok st1 where s: "zcbor_list_start_decode lib st = (ok, st1)" by fastforce
  obtain ok2 st2 where k: "skip_params lib st1 = Some (ok2, st2)" "ok2 \<longrightarrow> st2 = st1 \<or> moves st1 st2"
    using skip_params_returns[OF assms, of st1] by blast
  obtain ok3 st3 where l: "zcbor_list_end_decode lib st2 = (ok3, st3)" by fastforce
  have m1: "moves st st1" if "ok"
    using step_movesD(1)[OF zcbor_lib_ok_moves(2)[OF assms], of st st1] s that by simp
  have m3: "moves st st3" if "ok" "ok2" "ok3"
    using m1[OF that(1)] k(2) that(2) zcbor_lib_ok_leaves(1)[OF assms, of st2 st3] l that(3)
    by (auto intro: moves_leaves moves_trans)
  show ?thesis using s k(1) l m1 m3 by (auto simp: params_decode_def)
qed

interpretation rpc_request: entry_decoders lib "rpc_entries lib"
  for lib :: "('l) zcbor_lib_scheme"
proof
  fix i st and v :: rpc_request and st' v'
  assume ok: "zcbor_lib_ok lib" and i: "i < length (rpc_entries lib)"
  obtain e st2 p where c: "params_decode lib st (rr_params v) = Some (e, st2, p)" "e = 0 \<longrightarrow> moves st st2 \<and> moves st p"
    using params_decode_returns[OF ok, of st "rr_params v"] by blast
  from i have "i = 0 \<or> i = 1 \<or> i = 2" by (auto simp: rpc_entries_def)
  then show "me_decode (rpc_entries lib ! i) st v \<noteq> None"
    and "me_decode (rpc_entries lib ! i) st v = Some (0, st', v') \<Longrightarrow> moves st st'"
    using c by (auto simp: rpc_entries_def split: prod.splits if_splits dest: map_tstr_moves[OF ok])
qed

lemma on_rpc_returns:
  assumes "zcbor_lib_ok lib"
  shows "on_rpc sys app lib conf rsp w \<noteq> None"
proof -
  obtain e st' v' where "zcbor_map_decode lib (rpc_entries lib) (zcbor_new_decode_state lib 2 (rsp_data rsp) 1)
      (uninit_rpc_request lib) = Some (e, st', v')"
    using rpc_request.map_decode_returns[OF assms, of "zcbor_new_decode_state lib 2 (rsp_data rsp) 1"
        "uninit_rpc_request lib"] by blast
  then show ?thesis by (simp add: on_rpc_def)
qed

section \<open>The contract of the callback\<close>

lemma rpc_find_and_call_step:
  assumes "app_ok app" and "world_ok w"
    and "rpc_find_and_call app lib zse params method w = (e, status, zse', w')"
  shows "cb_step w w'"
proof -
  have step: "cb_step w w1" if "app_rpc app i st enc a w = (s, enc', w1)" for i st enc a s enc' w1
    using app_okD(4)[OF assms(1,2), of i st enc a] that by simp
  from assms(2,3) show ?thesis
    by (auto simp: rpc_find_and_call_def simp del: ascii_simps
        split: option.splits prod.splits if_splits dest: step)
qed

lemma rpc_send_response_step:
  assumes "coap_lib_ok sys" and "world_ok w"
  shows "cb_step w (snd (rpc_send_response sys payload w))"
  unfolding rpc_send_response_def
  by (rule golioth_coap_req_cb_step[OF assms(2,1) _ prod.collapse[symmetric]]) simp

lemma rpc_respond_step:
  assumes "coap_lib_ok sys" and "app_ok app" and "world_ok w"
  shows "cb_step w (snd (rpc_respond sys app lib conf v w))"
proof -
  have step: "cb_step w w1 \<and> cb_step w (snd (rpc_send_response sys p w1))"
    if "rpc_find_and_call app lib z (rr_params v) (rr_method v) w = (e, s, z', w1)" for z e s z' w1 p
  proof -
    note st = rpc_find_and_call_step[OF assms(2,3) that]
    from st have "world_ok w1" by (simp add: cb_step_def)
    with st rpc_send_response_step[OF assms(1)] cb_step_trans show ?thesis by blast
  qed
  show ?thesis
    using assms(3) by (auto simp: rpc_respond_def simp del: ascii_simps split: prod.split dest: step)
qed

lemma on_rpc_step:
  assumes "coap_lib_ok sys" and "app_ok app" and "world_ok w" and "rsp_user_data rsp = UD_client"
    and "on_rpc sys app lib conf rsp w = Some (e, w')"
  shows "cb_step w w'"
  using assms(3-5) rpc_respond_step[OF assms(1-3), of lib conf]
  by (auto simp: on_rpc_def split: if_splits option.splits dest!: arg_cong[where f = snd])

text \<open>An error of the observation is passed on; nothing else happens.\<close>

lemma on_rpc_error: "rsp_err rsp \<noteq> 0 \<Longrightarrow> on_rpc sys app lib conf rsp w = Some (rsp_err rsp, w)"
  by (simp add: on_rpc_def)

text \<open>A method that is not registered is answered, without calling the application.\<close>

lemma rpc_unknown_method:
  assumes "\<forall>m\<in>set (rpc_methods (cl_rpc (w_client w))). takeWhile (\<lambda>c. c \<noteq> 0) (rpcm_name m) \<noteq> method"
  shows "rpc_find_and_call app lib zse params method w = (0, GOLIOTH_RPC_UNKNOWN, zse, w)"
proof -
  have "find (rpc_matches method) (rpc_methods (cl_rpc (w_client w))) = None"
    using assms by (simp add: find_None_iff rpc_matches_iff)
  then show ?thesis by (simp add: rpc_find_and_call_def)
qed

section \<open>Which method is called\<close>

text \<open>The registrations of an application, in order; their results are ignored.\<close>

definition register_all ::
  "('c) service_conf_scheme \<Rightarrow> (u8 list \<times> nat \<times> nat) list \<Rightarrow> 'e world \<Rightarrow> 'e world" where
  "register_all conf ms w = fold (\<lambda>(name, cb, a) w. snd (golioth_rpc_register conf name cb a w)) ms w"

lemma register_all_methods:
  "rpc_methods (cl_rpc (w_client (register_all conf ms w))) =
     rpc_methods (cl_rpc (w_client w)) @
     map (\<lambda>(name, cb, a). \<lparr>rpcm_name = name, rpcm_callback = cb, rpcm_callback_arg = a\<rparr>)
       (take (conf_rpc_max_num_methods conf - length (rpc_methods (cl_rpc (w_client w)))) ms)"
proof (induction ms arbitrary: w)
  case (Cons m ms)
  obtain name cb a where m: "m = (name, cb, a)" by (metis prod_cases3)
  let ?l = "length (rpc_methods (cl_rpc (w_client w)))" and ?w = "snd (golioth_rpc_register conf name cb a w)"
  have step: "register_all conf (m # ms) w = register_all conf ms ?w" by (simp add: register_all_def m)
  show ?case
  proof (cases "conf_rpc_max_num_methods conf \<le> ?l")
    case True
    then have "?w = w" by (simp add: golioth_rpc_register_def Let_def)
    with Cons[of w] True show ?thesis unfolding step by simp
  next
    case False
    then have "conf_rpc_max_num_methods conf - ?l = Suc (conf_rpc_max_num_methods conf - Suc ?l)" by simp
    with False Cons[of ?w] show ?thesis
      unfolding step by (simp add: golioth_rpc_register_def upd_client_def Let_def m)
  qed
qed (simp add: register_all_def)

lemma find_map: "find P (map f xs) = map_option f (find (P \<circ> f) xs)"
  by (induction xs) auto


end
