(* ===== verification/Settings.thy ===== *)
theory Settings
  imports Application ZcborUtils
begin

text \<open>
  \<^verbatim>\<open>net/golioth/settings.c\<close>: settings the server sends over an observed path, handed one by one to
  the application's callback, with a report of those that were refused.

  \<open>None\<close> of a function is a call that does not return. A key is the C string the application
  sees: the first bytes of the label, up to a NUL among them.
\<close>

definition GOLIOTH_SETTINGS_PATH :: "u8 list" where "GOLIOTH_SETTINGS_PATH = ascii ''.c''"
definition GOLIOTH_SETTINGS_STATUS_PATH :: "u8 list" where "GOLIOTH_SETTINGS_STATUS_PATH = ascii ''.c/status''"
abbreviation (input) GOLIOTH_SETTINGS_MAX_NAME_LEN :: nat where "GOLIOTH_SETTINGS_MAX_NAME_LEN \<equiv> 63"

definition golioth_settings_register_callback :: "nat option \<Rightarrow> 'e world \<Rightarrow> int \<times> 'e world" where
  "golioth_settings_register_callback callback w =
     (if callback = None then (- EINVAL, w)
      else
        (0, if \<not> settings_initialized (cl_settings (w_client w))
            then upd_client (\<lambda>c. c\<lparr>cl_settings := \<lparr>settings_initialized = True, settings_callback = callback\<rparr>\<rparr>) w
            else w))"

definition golioth_settings_observe :: "('e, 'x) sys_scheme \<Rightarrow> 'e world \<Rightarrow> int \<times> 'e world" where
  "golioth_settings_observe sys w =
     golioth_coap_req_cb sys COAP_METHOD_GET [GOLIOTH_SETTINGS_PATH] GOLIOTH_CONTENT_FORMAT_APP_CBOR []
       (Some (User_cb On_setting)) UD_client GOLIOTH_COAP_REQ_OBSERVE w"

section \<open>The response\<close>

text \<open>Results of the encoder that the code ignores are dropped.\<close>

record settings_response =
  sr_zse :: zcbor_enc
  sr_num_errors :: nat

definition settings_send_response ::
  "('e, 'x) sys_scheme \<Rightarrow> u8 list \<Rightarrow> 'e world \<Rightarrow> int \<times> 'e world" where
  "settings_send_response sys payload w =
     golioth_coap_req_cb sys COAP_METHOD_POST [GOLIOTH_SETTINGS_STATUS_PATH]
       GOLIOTH_CONTENT_FORMAT_APP_CBOR payload (Some (User_cb Golioth_req_rsp_default_handler))
       (UD_string (ascii ''Settings response ACK'')) GOLIOTH_COAP_REQ_NO_RESP_BODY w"

definition response_init :: "('l) zcbor_lib_scheme \<Rightarrow> ('c) service_conf_scheme \<Rightarrow> settings_response" where
  "response_init lib conf =
     \<lparr>sr_zse = snd (zcbor_map_start_encode lib SIZE_MAX
                      (zcbor_new_encode_state lib 1 (conf_settings_max_response_len conf))),
      sr_num_errors = 0\<rparr>"

definition add_error_to_response ::
  "('l) zcbor_lib_scheme \<Rightarrow> u8 list \<Rightarrow> int \<Rightarrow> settings_response \<Rightarrow> settings_response" where
  "add_error_to_response lib key code response =
     (let put_lit = (\<lambda>s enc. snd (zcbor_tstr_put lib (ascii s) enc));
          enc0 = (if sr_num_errors response = 0
                  then snd (zcbor_list_start_encode lib SIZE_MAX (put_lit ''errors'' (sr_zse response)))
                  else sr_zse response);
          enc1 = snd (zcbor_map_start_encode lib 2 enc0);
          enc2 = snd (zcbor_tstr_put lib key (put_lit ''setting_key'' enc1));
          enc3 = snd (zcbor_int64_put lib code (put_lit ''error_code'' enc2));
          enc4 = snd (zcbor_map_end_encode lib 2 enc3)
      in \<lparr>sr_zse = enc4, sr_num_errors = Suc (sr_num_errors response)\<rparr>)"

definition finalize_and_send_response ::
  "('e, 'x) sys_scheme \<Rightarrow> ('l) zcbor_lib_scheme \<Rightarrow> settings_response \<Rightarrow> int \<Rightarrow> 'e world \<Rightarrow> int \<times> 'e world" where
  "finalize_and_send_response sys lib response version w =
     (case enc_step (- ENOMEM) (zcbor_map_end_encode lib 1)
             (enc_step (- ENOMEM)
               (enc_and (zcbor_tstr_put lib (ascii ''version'')) (zcbor_int64_put lib version))
               (if 0 < sr_num_errors response
                then enc_step (- ENOMEM) (zcbor_list_end_encode lib SIZE_MAX) (0, sr_zse response)
                else (0, sr_zse response))) of
        (err, zse) \<Rightarrow> if err \<noteq> 0 then (err, w) else settings_send_response sys (ze_payload zse) w)"

section \<open>Decoding\<close>

definition setting_key :: "u8 list \<Rightarrow> u8 list" where
  "setting_key label = takeWhile (\<lambda>c. c \<noteq> 0) (take GOLIOTH_SETTINGS_MAX_NAME_LEN label)"

text \<open>The \<^verbatim>\<open>switch\<close> over the major type; \<open>None\<close> stands for \<^verbatim>\<open>data_type_valid == false\<close>.\<close>

definition setting_value ::
  "('l) zcbor_lib_scheme \<Rightarrow> zcbor_state \<Rightarrow> golioth_settings_value option \<times> zcbor_state" where
  "setting_value lib zsd =
     (let major_type = MAJOR_TYPE (zs_byte zsd) in
      if major_type = ZCBOR_MAJOR_TYPE_TSTR then
        (case zcbor_tstr_decode lib zsd of
           (ok, str, zsd1) \<Rightarrow> (if ok then Some (SETTINGS_VALUE_STRING str) else None, zsd1))
      else if major_type = ZCBOR_MAJOR_TYPE_PINT \<or> major_type = ZCBOR_MAJOR_TYPE_NINT then
        (case zcbor_int64_decode lib zsd of
           (ok, i, zsd1) \<Rightarrow> (if ok then Some (SETTINGS_VALUE_INT64 i) else None, zsd1))
      else if major_type = ZCBOR_MAJOR_TYPE_SIMPLE then
        (case zcbor_float_decode lib zsd of
           (ok, d, zsd1) \<Rightarrow>
             if ok then (Some (SETTINGS_VALUE_FLOAT (float_of_double lib d)), zsd1)
             else
               (case zcbor_bool_decode lib zsd1 of
                  (ok, b, zsd2) \<Rightarrow> (if ok then Some (SETTINGS_VALUE_BOOL b) else None, zsd2)))
      else (None, zsd))"

text \<open>A call of a callback that was never registered is a jump to address 0.\<close>

definition call_setting ::
  "('e, 'y) app_scheme \<Rightarrow> u8 list \<Rightarrow> golioth_settings_value \<Rightarrow> 'e world \<Rightarrow> int \<times> 'e world" where
  "call_setting app key value w =
     (case settings_callback (cl_settings (w_client w)) of
        None \<Rightarrow> (0, fault w)
      | Some i \<Rightarrow> app_setting app i key value w)"

text \<open>What is done with a setting of a valid type.\<close>

definition apply_setting ::
  "('e, 'y) app_scheme \<Rightarrow> ('l) zcbor_lib_scheme \<Rightarrow> u8 list \<Rightarrow> golioth_settings_value
     \<Rightarrow> settings_response \<times> 'e world \<Rightarrow> settings_response \<times> 'e world" where
  "apply_setting app lib key value s =
     (case s of (sr, w) \<Rightarrow>
        (case call_setting app key value w of
           (status, w1) \<Rightarrow>
             (if status \<noteq> GOLIOTH_SETTINGS_SUCCESS then add_error_to_response lib key status sr else sr, w1)))"

partial_function (option) settings_loop ::
  "('e, 'y) app_scheme \<Rightarrow> ('l) zcbor_lib_scheme \<Rightarrow> zcbor_state \<Rightarrow> settings_response \<times> 'e world
     \<Rightarrow> (int \<times> zcbor_state \<times> settings_response \<times> 'e world) option" where
  "settings_loop app lib zsd s =
     (if zcbor_list_or_map_end zsd then Some (0, zsd, s)
      else
        (case zcbor_tstr_decode lib zsd of
           (ok, label, zsd1) \<Rightarrow>
             if \<not> ok then Some (- EBADMSG, zsd1, s)
             else
               (case setting_value lib zsd1 of
                  (Some value, zsd2) \<Rightarrow>
                    settings_loop app lib zsd2 (apply_setting app lib (setting_key label) value s)
                | (None, zsd2) \<Rightarrow>
                    (case zcbor_any_skip lib zsd2 of
                       None \<Rightarrow> None
                     | Some (ok, zsd3) \<Rightarrow>
                         let s' = (add_error_to_response lib (setting_key label)
                                     GOLIOTH_SETTINGS_VALUE_FORMAT_NOT_VALID (fst s), snd s)
                         in if \<not> ok then Some (- EBADMSG, zsd3, s') else settings_loop app lib zsd3 s'))))"

declare settings_loop.simps [code]

definition settings_decode ::
  "('e, 'y) app_scheme \<Rightarrow> ('l) zcbor_lib_scheme \<Rightarrow> zcbor_state \<Rightarrow> settings_response \<times> 'e world
     \<Rightarrow> (int \<times> zcbor_state \<times> settings_response \<times> 'e world) option" where
  "settings_decode app lib zsd s =
     (case zcbor_nil_expect lib zsd of
        (ok, zsd1) \<Rightarrow>
          if ok then Some (- ENOENT, zsd1, s)
          else
            (case zcbor_map_start_decode lib zsd1 of
               (ok, zsd2) \<Rightarrow>
                 if \<not> ok then Some (- EBADMSG, zsd2, s)
                 else
                   (case settings_loop app lib zsd2 s of
                      None \<Rightarrow> None
                    | Some (err, zsd3, s3) \<Rightarrow>
                        if err \<noteq> 0 then Some (err, zsd3, s3)
                        else
                          (case zcbor_map_end_decode lib zsd3 of
                             (ok, zsd4) \<Rightarrow>
                               if \<not> ok then Some (- EBADMSG, zsd4, s3) else Some (0, zsd4, s3)))))"

text \<open>What the entries fill in: the version, the response, and the world the callback acts on.\<close>

definition settings_entries ::
  "('e, 'y) app_scheme \<Rightarrow> ('l) zcbor_lib_scheme \<Rightarrow> (int \<times> settings_response \<times> 'e world) zcbor_map_entry list" where
  "settings_entries app lib =
     [\<lparr>me_key = TSTR_KEY (ascii ''settings''),
       me_decode = (\<lambda>st (version, s). map_option (\<lambda>(err, st', s'). (err, st', version, s'))
          (settings_decode app lib st s))\<rparr>,
      \<lparr>me_key = TSTR_KEY (ascii ''version''),
       me_decode = (\<lambda>st (version, s). case zcbor_map_int64_decode lib st of (err, i, st') \<Rightarrow>
          Some (err, st', if err = 0 then i else version, s))\<rparr>]"

definition on_setting ::
  "('e, 'x) sys_scheme \<Rightarrow> ('e, 'y) app_scheme \<Rightarrow> ('l) zcbor_lib_scheme \<Rightarrow> ('c) service_conf_scheme
     \<Rightarrow> golioth_req_rsp \<Rightarrow> 'e world \<Rightarrow> (int \<times> 'e world) option" where
  "on_setting sys app lib conf rsp w =
     (if rsp_err rsp \<noteq> 0 then Some (rsp_err rsp, w)
      else if is_ok_body (rsp_data rsp) then Some (0, w)
      else if rsp_user_data rsp \<noteq> UD_client then Some (0, fault w)
      else
        (case zcbor_map_decode lib (settings_entries app lib) (zcbor_new_decode_state lib 2 (rsp_data rsp) 1)
                (stack_int64 lib, response_init lib conf, w) of
           None \<Rightarrow> None
         | Some (err, _, version, response, w1) \<Rightarrow>
             if err \<noteq> 0 then (if err = - ENOENT then Some (0, w1) else Some (err, w1))
             else Some (finalize_and_send_response sys lib response version w1)))"

section \<open>Registration\<close>

text \<open>The first callback stays; registering makes the client ready to observe its settings.\<close>

lemma golioth_settings_register_ready:
  assumes "golioth_settings_register_callback (Some cb) w = (e, w')"
    and "settings_initialized (cl_settings (w_client w)) \<longrightarrow> settings_ready w"
  shows "e = 0 \<and> settings_ready w' \<and>
    (settings_initialized (cl_settings (w_client w)) \<longrightarrow> w' = w) \<and>
    (\<not> settings_initialized (cl_settings (w_client w)) \<longrightarrow> settings_callback (cl_settings (w_client w')) = Some cb)"
  using assms by (auto simp: golioth_settings_register_callback_def upd_client_def settings_ready_def split: if_splits)

lemma user_ud_ok_mono: "user_ud_ok S c ud \<Longrightarrow> S \<longrightarrow> S' \<Longrightarrow> user_ud_ok S' c ud"
  by (cases c) auto

lemma ud_ok_mono: "ud_ok S c ud \<Longrightarrow> S \<longrightarrow> S' \<Longrightarrow> ud_ok S' c ud"
  by (cases c) (auto intro: user_ud_ok_mono)

lemma heap_ok_ready: "heap_ok S l c R B n \<Longrightarrow> S \<longrightarrow> S' \<Longrightarrow> heap_ok S' l c R B n"
proof -
  assume H: "heap_ok S l c R B n" and S: "S \<longrightarrow> S'"
  have "\<forall>r q. R r = Some q \<longrightarrow> ud_ok S' (req_cb q) (req_user_data q)"
    using heap_okD(9)[OF H] ud_ok_mono S by blast
  with H show "heap_ok S' l c R B n" unfolding heap_ok_def by (elim conjE, intro conjI)
qed

lemma golioth_settings_register_step:
  assumes "world_ok w" and "settings_initialized (cl_settings (w_client w)) \<longrightarrow> settings_ready w"
    and "golioth_settings_register_callback cb w = (e, w')"
  shows "cb_step w w'"
proof (cases cb)
  case None
  with assms show ?thesis by (simp add: golioth_settings_register_callback_def)
next
  case (Some i)
  note r = golioth_settings_register_ready[OF assms(3)[unfolded Some] assms(2)]
  have same: "w_reqs w' = w_reqs w" "w_bufs w' = w_bufs w" "reqs_list w' = reqs_list w" "w_next w' = w_next w"
    "is_connected w' = is_connected w" "w_fault w' = w_fault w" "w_syncs w' = w_syncs w"
    "cl_sock (w_client w') = cl_sock (w_client w)"
    using assms(3) by (auto simp: golioth_settings_register_callback_def upd_client_def split: if_splits)
  have "sync_ok (settings_ready w') (w_syncs w p)" for p
    using world_okD(6)[OF assms(1), of p] r by (auto simp: sync_ok_def intro: user_ud_ok_mono)
  moreover have "heap_ok (settings_ready w') (reqs_list w) (is_connected w) (w_reqs w) (w_bufs w) (w_next w)"
    by (rule heap_ok_ready[OF world_ok_heap[OF assms(1)]]) (use r in simp)
  ultimately have "world_ok w'" using world_okD(1)[OF assms(1)] by (simp add: world_ok_def same)
  with r same show ?thesis by (auto simp: cb_step_def)
qed

section \<open>The settings in a payload\<close>

text \<open>
  The reference: the settings are a list of keys and values, \<open>None\<close> for a value of another
  type, and are handled one after the other.
\<close>

inductive settings_read ::
  "('l) zcbor_lib_scheme \<Rightarrow> zcbor_state \<Rightarrow> (u8 list \<times> golioth_settings_value option) list \<Rightarrow> zcbor_state \<Rightarrow> bool"
  for lib where
  read_end: "zcbor_list_or_map_end st \<Longrightarrow> settings_read lib st [] st"
| read_value: "\<not> zcbor_list_or_map_end st \<Longrightarrow> zcbor_tstr_decode lib st = (True, label, st1) \<Longrightarrow>
    setting_value lib st1 = (Some v, st2) \<Longrightarrow> settings_read lib st2 items st' \<Longrightarrow>
    settings_read lib st ((setting_key label, Some v) # items) st'"
| read_other: "\<not> zcbor_list_or_map_end st \<Longrightarrow> zcbor_tstr_decode lib st = (True, label, st1) \<Longrightarrow>
    setting_value lib st1 = (None, st2) \<Longrightarrow> zcbor_any_skip lib st2 = Some (True, st3) \<Longrightarrow>
    settings_read lib st3 items st' \<Longrightarrow> settings_read lib st ((setting_key label, None) # items) st'"

inductive_cases settings_read_endE: "settings_read lib st [] st'"
inductive_cases settings_read_ConsE: "settings_read lib st (item # items) st'"

fun handle_setting ::
  "('e, 'y) app_scheme \<Rightarrow> ('l) zcbor_lib_scheme \<Rightarrow> u8 list \<times> golioth_settings_value option
     \<Rightarrow> settings_response \<times> 'e world \<Rightarrow> settings_response \<times> 'e world" where
  "handle_setting app lib (key, Some v) s = apply_setting app lib key v s"
| "handle_setting app lib (key, None) s =
     (add_error_to_response lib key GOLIOTH_SETTINGS_VALUE_FORMAT_NOT_VALID (fst s), snd s)"

lemma setting_value_moves:
  assumes "zcbor_lib_ok lib" and "setting_value lib st = (v, st')"
  shows "if v = None then stays st st' else moves st st'"
proof -
  note V = zcbor_lib_ok_moves(5,7,8,9)[OF assms(1)]
  have fb: "moves st b" if "zcbor_float_decode lib st = (False, d, a)" "zcbor_bool_decode lib a = (True, x, b)" for d a x b
    by (rule moves_stays(2)[OF value_movesD(2)[OF V(3) that(1)] value_movesD(1)[OF V(4) that(2)]])
  have ff: "stays st b" if "zcbor_float_decode lib st = (False, d, a)" "zcbor_bool_decode lib a = (False, x, b)" for d a x b
    by (rule stays_trans[OF value_movesD(2)[OF V(3) that(1)] value_movesD(2)[OF V(4) that(2)]])
  show ?thesis
    using assms(2)
    by (auto simp: setting_value_def Let_def split: if_splits prod.splits
        dest: fb ff value_movesD[OF V(1)] value_movesD[OF V(2)] value_movesD[OF V(3)])
qed

text \<open>One round of the loop.\<close>

lemma settings_loop_cases:
  assumes "zcbor_lib_ok lib"
  obtains (ended) "zcbor_list_or_map_end st" "settings_loop app lib st s = Some (0, st, s)"
  | (label) st1 where "settings_loop app lib st s = Some (- EBADMSG, st1, s)"
  | (skip) key st1 where
      "settings_loop app lib st s = Some (- EBADMSG, st1, handle_setting app lib (key, None) s)"
  | (item) key v st1 where "moves st st1"
      "settings_loop app lib st s = settings_loop app lib st1 (handle_setting app lib (key, v) s)"
      "\<And>items st'. settings_read lib st1 items st' \<Longrightarrow> settings_read lib st ((key, v) # items) st'"
proof (cases "zcbor_list_or_map_end st")
  case True
  then show thesis by (rule ended) (subst settings_loop.simps, simp add: True)
next
  case False
  obtain ok l st1 where t: "zcbor_tstr_decode lib st = (ok, l, st1)" by (metis prod_cases3)
  show thesis
  proof (cases ok)
    case nok: False
    show thesis by (rule label[of st1]) (subst settings_loop.simps, simp add: False t nok)
  next
    case True
    with t have t1: "zcbor_tstr_decode lib st = (True, l, st1)" by simp
    have m1: "moves st st1" by (rule value_movesD(1)[OF zcbor_lib_ok_moves(5)[OF assms] t1])
    obtain vo st2 where v: "setting_value lib st1 = (vo, st2)" by fastforce
    note m2 = setting_value_moves[OF assms v]
    show thesis
    proof (cases vo)
      case (Some x)
      show thesis
      proof (rule item[of st2 "setting_key l" "Some x"])
        show "moves st st2" using m1 m2 Some by (simp add: moves_trans)
        show "settings_loop app lib st s = settings_loop app lib st2 (handle_setting app lib (setting_key l, Some x) s)"
          by (subst settings_loop.simps) (simp add: False t1 v Some)
      qed (use False t1 v Some in \<open>auto intro: read_value\<close>)
    next
      case None
      obtain ok3 st3 where a: "zcbor_any_skip lib st2 = Some (ok3, st3)"
        using any_skip_terminates[OF assms, of st2] by auto
      have eq: "settings_loop app lib st s =
        (if \<not> ok3 then Some (- EBADMSG, st3, handle_setting app lib (setting_key l, None) s)
         else settings_loop app lib st3 (handle_setting app lib (setting_key l, None) s))"
        by (subst settings_loop.simps) (simp add: False t1 v None a Let_def)
      show thesis
      proof (cases ok3)
        case nok: False
        with eq show thesis by (intro skip) simp
      next
        case ok3: True
        with a have a1: "zcbor_any_skip lib st2 = Some (True, st3)" by simp
        have "moves st st3" using m1 m2 None any_skip_moves[OF assms a1] by (auto intro: moves_trans moves_stays)
        then show thesis
          by (rule item[of st3 "setting_key l" None])
            (use eq ok3 False t1 v None a1 in \<open>auto intro: read_other\<close>)
      qed
    qed
  qed
qed

lemma settings_loop_reads:
  assumes "zcbor_lib_ok lib"
  shows "\<exists>e st' items. settings_loop app lib st s = Some (e, st', fold (handle_setting app lib) items s) \<and>
    (e = 0 \<longrightarrow> settings_read lib st items st' \<and> (st' = st \<or> moves st st'))"
proof (induction "zs_payload_end st - zs_payload st" arbitrary: st s rule: less_induct)
  case less
  show ?case
  proof (cases rule: settings_loop_cases[OF assms, of st app s, case_names ended label skip item])
    case ended
    then show ?thesis by (intro exI[of _ 0] exI[of _ st] exI[of _ "[]"]) (simp add: read_end)
  next
    case (label st1)
    then show ?thesis by (intro exI[of _ "- EBADMSG"] exI[of _ st1] exI[of _ "[]"]) simp
  next
    case (skip key st1)
    then show ?thesis by (intro exI[of _ "- EBADMSG"] exI[of _ st1] exI[of _ "[(key, None)]"]) simp
  next
    case (item key v st1)
    from item(1) have "zs_payload_end st1 - zs_payload st1 < zs_payload_end st - zs_payload st"
      by (auto simp: moves_def)
    from less[OF this, of "handle_setting app lib (key, v) s"] obtain e st' items where
      "settings_loop app lib st1 (handle_setting app lib (key, v) s) =
         Some (e, st', fold (handle_setting app lib) items (handle_setting app lib (key, v) s))"
      "e = 0 \<longrightarrow> settings_read lib st1 items st' \<and> (st' = st1 \<or> moves st1 st')" by blast
    with item show ?thesis
      by (intro exI[of _ e] exI[of _ st'] exI[of _ "(key, v) # items"]) (auto intro: moves_trans)
  qed
qed

lemma settings_decode_reads:
  assumes "zcbor_lib_ok lib"
  shows "\<exists>e st' items. settings_decode app lib st s = Some (e, st', fold (handle_setting app lib) items s) \<and>
    (e = 0 \<longrightarrow> moves st st' \<and> (\<exists>st1 st2 st3. zcbor_nil_expect lib st = (False, st1) \<and>
       zcbor_map_start_decode lib st1 = (True, st2) \<and> settings_read lib st2 items st3 \<and>
       zcbor_map_end_decode lib st3 = (True, st')))"
proof -
  obtain ok1 st1 where n: "zcbor_nil_expect lib st = (ok1, st1)" by fastforce
  obtain ok2 st2 where m: "zcbor_map_start_decode lib st1 = (ok2, st2)" by fastforce
  obtain e3 st3 items where l: "settings_loop app lib st2 s = Some (e3, st3, fold (handle_setting app lib) items s)"
    "e3 = 0 \<longrightarrow> settings_read lib st2 items st3 \<and> (st3 = st2 \<or> moves st2 st3)"
    using settings_loop_reads[OF assms, of app st2 s] by blast
  obtain ok4 st4 where d: "zcbor_map_end_decode lib st3 = (ok4, st4)" by fastforce
  consider "ok1" | "\<not> ok1" "\<not> ok2" | "\<not> ok1" "ok2" "e3 \<noteq> 0" | "\<not> ok1" "ok2" "e3 = 0" "\<not> ok4"
    | "\<not> ok1" "ok2" "e3 = 0" "ok4" by blast
  then show ?thesis
  proof cases
    case 1
    with n show ?thesis
      by (intro exI[of _ "- ENOENT"] exI[of _ st1] exI[of _ "[]"]) (simp add: settings_decode_def)
  next
    case 2
    with n m show ?thesis
      by (intro exI[of _ "- EBADMSG"] exI[of _ st2] exI[of _ "[]"]) (simp add: settings_decode_def)
  next
    case 3
    with n m l(1) show ?thesis
      by (intro exI[of _ e3] exI[of _ st3] exI[of _ items]) (simp add: settings_decode_def)
  next
    case 4
    with n m l(1) d show ?thesis
      by (intro exI[of _ "- EBADMSG"] exI[of _ st4] exI[of _ items]) (simp add: settings_decode_def)
  next
    case 5
    have "moves st st2"
      using 5 n m step_movesD[OF zcbor_lib_ok_moves(3)[OF assms], of st st1]
        step_movesD(1)[OF zcbor_lib_ok_moves(1)[OF assms], of st1 st2] moves_stays(2) by simp
    moreover have "leaves st3 st4" using 5 d zcbor_lib_ok_leaves(2)[OF assms, of st3 st4] by simp
    ultimately have "moves st st4" using 5 l(2) by (auto intro: moves_leaves moves_trans)
    with 5 n m l d show ?thesis
      by (intro exI[of _ 0] exI[of _ st4] exI[of _ items]) (auto simp: settings_decode_def)
  qed
qed

interpretation settings: entry_decoders lib "settings_entries app lib"
  for lib :: "('l) zcbor_lib_scheme" and app :: "('e, 'y) app_scheme"
proof
  fix i st and v :: "int \<times> settings_response \<times> 'e world" and st' v'
  assume ok: "zcbor_lib_ok lib" and i: "i < length (settings_entries app lib)"
  obtain n s where v: "v = (n, s)" by (cases v)
  obtain e st2 items where c: "settings_decode app lib st s = Some (e, st2, fold (handle_setting app lib) items s)"
    "e = 0 \<longrightarrow> moves st st2"
    using settings_decode_reads[OF ok, of app st s] by blast
  from i have "i = 0 \<or> i = 1" by (auto simp: settings_entries_def)
  then show "me_decode (settings_entries app lib ! i) st v \<noteq> None"
    and "me_decode (settings_entries app lib ! i) st v = Some (0, st', v') \<Longrightarrow> moves st st'"
    using c by (auto simp: settings_entries_def v split: prod.splits if_splits dest: map_int64_moves[OF ok])
qed

lemma on_setting_returns:
  assumes "zcbor_lib_ok lib"
  shows "on_setting sys app lib conf rsp w \<noteq> None"
proof -
  obtain e st' v' where "zcbor_map_decode lib (settings_entries app lib)
      (zcbor_new_decode_state lib 2 (rsp_data rsp) 1) (stack_int64 lib, response_init lib conf, w) = Some (e, st', v')"
    using settings.map_decode_returns[OF assms, of app "zcbor_new_decode_state lib 2 (rsp_data rsp) 1"
        "(stack_int64 lib, response_init lib conf, w)"] by blast
  then show ?thesis by (cases v') (simp add: on_setting_def)
qed

section \<open>The contract of the callback\<close>

lemma handle_setting_step:
  assumes "app_ok app" and "settings_ready w0" and "cb_step w0 (snd s)"
  shows "cb_step w0 (snd (handle_setting app lib item s))"
proof -
  obtain key vo where item: "item = (key, vo)" by (cases item)
  from assms(2,3) have w: "world_ok (snd s)" "settings_ready (snd s)" by (auto simp: cb_step_def)
  then obtain i where i: "settings_callback (cl_settings (w_client (snd s))) = Some i"
    by (auto simp: settings_ready_def)
  have "cb_step w0 x" if "app_setting app i key v (snd s) = (status, x)" for v status x
    using cb_step_trans[OF assms(3) app_okD(3)[OF assms(1) w(1), of i key v]] that by simp
  then show ?thesis using assms(3) i
    by (cases vo; cases s) (auto simp: item apply_setting_def call_setting_def split: prod.split)
qed

lemma handle_settings_step:
  assumes "app_ok app" and "settings_ready w0" and "cb_step w0 (snd s)"
  shows "cb_step w0 (snd (fold (handle_setting app lib) items s))"
  using assms(3) by (induction items arbitrary: s) (simp_all add: handle_setting_step[OF assms(1,2)])

lemma on_setting_step:
  fixes w :: "'e world"
  assumes "coap_lib_ok sys" and "app_ok app" and "zcbor_lib_ok lib" and "world_ok w"
    and "rsp_err rsp = 0 \<longrightarrow> rsp_user_data rsp = UD_client \<and> settings_ready w"
    and "on_setting sys app lib conf rsp w = Some (e, w')"
  shows "cb_step w w'"
proof (cases "rsp_err rsp \<noteq> 0 \<or> is_ok_body (rsp_data rsp)")
  case True
  with assms(4,6) show ?thesis by (auto simp: on_setting_def split: if_splits)
next
  case False
  let ?I = "\<lambda>v. cb_step w (snd (snd v))"
  have keep: "?I v'"
    if "i < length (settings_entries app lib)" "?I v" "me_decode (settings_entries app lib ! i) s v = Some (e, s', v')"
    for i s and v :: "int \<times> settings_response \<times> 'e world" and e s' v'
  proof -
    obtain n sr where v: "v = (n, sr)" by (cases v)
    obtain e2 st2 items where c: "settings_decode app lib s sr = Some (e2, st2, fold (handle_setting app lib) items sr)"
      using settings_decode_reads[OF assms(3), of app s sr] by blast
    have "cb_step w (snd (fold (handle_setting app lib) items sr))"
      using that(2) v False assms(5) by (intro handle_settings_step[OF assms(2)]) simp_all
    moreover from that(1) have "i = 0 \<or> i = 1" by (auto simp: settings_entries_def)
    ultimately show ?thesis using that(2,3) c by (auto simp: settings_entries_def v split: prod.splits)
  qed
  obtain e1 st1 v1 where m: "zcbor_map_decode lib (settings_entries app lib)
      (zcbor_new_decode_state lib 2 (rsp_data rsp) 1) (stack_int64 lib, response_init lib conf, w) = Some (e1, st1, v1)"
    using settings.map_decode_returns[OF assms(3), of app "zcbor_new_decode_state lib 2 (rsp_data rsp) 1"
        "(stack_int64 lib, response_init lib conf, w)"] by blast
  obtain version sr w1 where v1: "v1 = (version, sr, w1)" by (cases v1)
  have i0: "?I (stack_int64 lib, response_init lib conf, w)" using assms(4) by simp
  have "?I v1" by (rule map_decode_inv[of "settings_entries app lib" ?I, OF _ i0 m]) (rule keep)
  then have w1: "cb_step w w1" by (simp add: v1)
  then have "world_ok w1" by (simp add: cb_step_def)
  from golioth_coap_req_cb_step[OF this assms(1) _ prod.collapse[symmetric]]
  have "cb_step w1 (snd (settings_send_response sys p w1))" for p
    by (simp add: settings_send_response_def)
  then have "cb_step w (snd (finalize_and_send_response sys lib sr version w1))"
    using w1 cb_step_trans by (auto simp: finalize_and_send_response_def simp del: ascii_simps split: prod.split)
  with assms(5,6) False w1 m show ?thesis
    by (auto simp: on_setting_def v1 split: if_splits dest!: arg_cong[where f = snd])
qed

lemma on_setting_error: "rsp_err rsp \<noteq> 0 \<Longrightarrow> on_setting sys app lib conf rsp w = Some (rsp_err rsp, w)"
  by (simp add: on_setting_def)

end
