(* ===== verification/Callbacks.thy ===== *)
theory Callbacks
  imports GoliothClient Fw Rpc Settings
begin

text \<open>
  The callbacks of the SDK, put together: what a call through a request's \<^verbatim>\<open>cb\<close> pointer runs, and
  the interpretation of the request layer's contracts on it.

  A callback asks for the next block through \<^verbatim>\<open>rsp->get_next\<close>. \<^verbatim>\<open>golioth_coap_req_next_block\<close> in
  turn runs a callback, always with an error and without a \<^verbatim>\<open>get_next\<close>, so two levels are enough.
  A callback that does not return would be a fault here; \<open>zcbor_lib_ok\<close> excludes it.
\<close>

definition call_null :: "ptr \<Rightarrow> int \<Rightarrow> 'e world \<Rightarrow> int \<times> 'e world" where
  "call_null r status w = (0, fault w)"

definition returned :: "(int \<times> 'e world) option \<Rightarrow> 'e world \<Rightarrow> int \<times> 'e world" where
  "returned res w = (case res of Some x \<Rightarrow> x | None \<Rightarrow> (0, fault w))"

definition run_user_cb ::
  "('e, 'x) sys_scheme \<Rightarrow> ('e, 'y) app_scheme \<Rightarrow> ('l) zcbor_lib_scheme \<Rightarrow> ('c) service_conf_scheme
     \<Rightarrow> (ptr \<Rightarrow> int \<Rightarrow> 'e world \<Rightarrow> int \<times> 'e world) \<Rightarrow> golioth_user_cb \<Rightarrow> golioth_req_rsp \<Rightarrow> 'e world
     \<Rightarrow> int \<times> 'e world" where
  "run_user_cb sys app lib conf get_next cb rsp w =
     (case cb of
        Golioth_req_rsp_default_handler \<Rightarrow> golioth_req_rsp_default_handler rsp w
      | Golioth_lightdb_get_prealloc_cb \<Rightarrow> golioth_lightdb_get_prealloc_cb rsp w
      | On_setting \<Rightarrow> returned (on_setting sys app lib conf rsp w) w
      | On_rpc \<Rightarrow> returned (on_rpc sys app lib conf rsp w) w
      | App_cb i \<Rightarrow> app_cb app i get_next rsp w)"

definition run_cb ::
  "('e, 'x) sys_scheme \<Rightarrow> ('e, 'y) app_scheme \<Rightarrow> ('l) zcbor_lib_scheme \<Rightarrow> ('c) service_conf_scheme
     \<Rightarrow> (ptr \<Rightarrow> int \<Rightarrow> 'e world \<Rightarrow> int \<times> 'e world) \<Rightarrow> golioth_req_cb \<Rightarrow> golioth_req_rsp \<Rightarrow> 'e world
     \<Rightarrow> int \<times> 'e world" where
  "run_cb sys app lib conf get_next cb rsp w =
     (case cb of
        Golioth_req_sync_cb \<Rightarrow> golioth_req_sync_cb (run_user_cb sys app lib conf get_next) get_next rsp w
      | User_cb c \<Rightarrow> run_user_cb sys app lib conf get_next c rsp w)"

definition run_error_cb ::
  "('e, 'x) sys_scheme \<Rightarrow> ('e, 'y) app_scheme \<Rightarrow> ('l) zcbor_lib_scheme \<Rightarrow> ('c) service_conf_scheme
     \<Rightarrow> golioth_req_cb \<Rightarrow> golioth_req_rsp \<Rightarrow> 'e world \<Rightarrow> int \<times> 'e world" where
  "run_error_cb sys app lib conf = run_cb sys app lib conf call_null"

definition run_callback ::
  "('e, 'x) sys_scheme \<Rightarrow> ('e, 'y) app_scheme \<Rightarrow> ('l) zcbor_lib_scheme \<Rightarrow> ('c) service_conf_scheme
     \<Rightarrow> golioth_req_cb \<Rightarrow> golioth_req_rsp \<Rightarrow> 'e world \<Rightarrow> int \<times> 'e world" where
  "run_callback sys app lib conf =
     run_cb sys app lib conf (golioth_coap_req_next_block sys (run_error_cb sys app lib conf))"

section \<open>The contracts hold\<close>

definition env_ok :: "('e, 'x) sys_scheme \<Rightarrow> ('e, 'y) app_scheme \<Rightarrow> ('l) zcbor_lib_scheme \<Rightarrow> bool" where
  "env_ok sys app lib \<longleftrightarrow> coap_lib_ok sys \<and> app_ok app \<and> zcbor_lib_ok lib"

text \<open>With an error, whatever \<^verbatim>\<open>get_next\<close> is.\<close>

lemma run_user_cb_error:
  assumes "app_ok app" and "rsp_err rsp \<noteq> 0" and "rsp_get_next rsp = None"
    and "user_ud_ok S cb (rsp_user_data rsp)"
  shows "coap_same w (snd (run_user_cb sys app lib conf nb cb rsp w))"
  using assms prealloc_cb_same[of rsp _ w] app_okD(2)[OF assms(1-3)]
  by (cases cb) (auto simp: run_user_cb_def golioth_req_rsp_default_handler_def on_setting_error
      on_rpc_error returned_def)

lemma run_cb_error:
  assumes "app_ok app" and "rsp_err rsp \<noteq> 0" and "rsp_get_next rsp = None"
    and "ud_ok S cb (rsp_user_data rsp)"
  shows "coap_same w (snd (run_cb sys app lib conf nb cb rsp w))"
proof (cases cb)
  case Golioth_req_sync_cb
  with assms(4) obtain p where p: "rsp_user_data rsp = UD_sync p" by auto
  show ?thesis
    using sync_cb_error_same[OF assms(2) p, of w "run_user_cb sys app lib conf nb" nb] Golioth_req_sync_cb
    by (simp add: run_cb_def)
next
  case (User_cb c)
  with run_user_cb_error[OF assms(1-3), of S c w sys lib conf nb] assms(4) show ?thesis
    by (simp add: run_cb_def)
qed

lemma run_user_cb_step:
  assumes "env_ok sys app lib" and "world_ok w" and "rsp_ok w rsp"
    and "user_ud_ok (settings_ready w) cb (rsp_user_data rsp)"
    and nb: "\<And>r status w. world_ok w \<Longrightarrow> r \<in> set (reqs_list w) \<Longrightarrow> cb_step w (snd (nb r status w))"
  shows "cb_step w (snd (run_user_cb sys app lib conf nb cb rsp w))"
proof -
  from assms(1) have ok: "coap_lib_ok sys" "app_ok app" "zcbor_lib_ok lib" by (simp_all add: env_ok_def)
  show ?thesis
  proof (cases cb)
    case Golioth_req_rsp_default_handler
    with assms(2) show ?thesis by (simp add: run_user_cb_def golioth_req_rsp_default_handler_def)
  next
    case Golioth_lightdb_get_prealloc_cb
    with assms(2,4) show ?thesis
      by (auto simp: run_user_cb_def intro!: coap_same_cb_step prealloc_cb_same)
  next
    case On_setting
    obtain e w' where r: "on_setting sys app lib conf rsp w = Some (e, w')"
      using on_setting_returns[OF ok(3), of sys app conf rsp w] by auto
    with On_setting assms(4) on_setting_step[OF ok assms(2) _ r] show ?thesis
      by (simp add: run_user_cb_def returned_def)
  next
    case On_rpc
    obtain e w' where r: "on_rpc sys app lib conf rsp w = Some (e, w')"
      using on_rpc_returns[OF ok(3), of sys app conf rsp w] by auto
    with On_rpc assms(4) on_rpc_step[OF ok(1,2) assms(2) _ r] show ?thesis
      by (simp add: run_user_cb_def returned_def)
  next
    case (App_cb i)
    with app_okD(1)[OF ok(2) nb assms(2,3), where i = i] show ?thesis by (simp add: run_user_cb_def)
  qed
qed

lemma run_cb_step:
  assumes "env_ok sys app lib" and "world_ok w" and "rsp_ok w rsp"
    and "ud_ok (settings_ready w) cb (rsp_user_data rsp)"
    and nb: "\<And>r status w. world_ok w \<Longrightarrow> r \<in> set (reqs_list w) \<Longrightarrow> cb_step w (snd (nb r status w))"
  shows "cb_step w (snd (run_cb sys app lib conf nb cb rsp w))"
proof (cases cb)
  case Golioth_req_sync_cb
  then obtain p where p: "rsp_user_data rsp = UD_sync p" using assms(4) by auto
  have "cb_step w (snd (golioth_req_sync_cb (run_user_cb sys app lib conf nb) nb rsp w))"
    by (rule sync_cb_step[OF assms(2,3) p]) (auto intro: run_user_cb_step[OF assms(1,2)] nb)
  with Golioth_req_sync_cb show ?thesis by (simp add: run_cb_def)
next
  case (User_cb c)
  with run_user_cb_step[OF assms(1-3) _ nb, of c] assms(4) show ?thesis by (simp add: run_cb_def)
qed

text \<open>
  \<open>lawful_run\<close> is \<open>run_callback\<close> where the environment is lawful. The contracts then hold without a
  condition, and a fact about \<open>lawful_run\<close> is one about \<open>run_callback\<close> under \<open>env_ok\<close>.
\<close>

definition lawful_run_error ::
  "('e, 'x) sys_scheme \<Rightarrow> ('e, 'y) app_scheme \<Rightarrow> ('l) zcbor_lib_scheme \<Rightarrow> ('c) service_conf_scheme
     \<Rightarrow> golioth_req_cb \<Rightarrow> golioth_req_rsp \<Rightarrow> 'e world \<Rightarrow> int \<times> 'e world" where
  "lawful_run_error sys app lib conf cb rsp w =
     (if env_ok sys app lib then run_error_cb sys app lib conf cb rsp w else (0, w))"

definition lawful_run ::
  "('e, 'x) sys_scheme \<Rightarrow> ('e, 'y) app_scheme \<Rightarrow> ('l) zcbor_lib_scheme \<Rightarrow> ('c) service_conf_scheme
     \<Rightarrow> golioth_req_cb \<Rightarrow> golioth_req_rsp \<Rightarrow> 'e world \<Rightarrow> int \<times> 'e world" where
  "lawful_run sys app lib conf cb rsp w =
     (if env_ok sys app lib then run_callback sys app lib conf cb rsp w else (0, w))"

lemma lawful_run_eq: "env_ok sys app lib \<Longrightarrow> lawful_run sys app lib conf = run_callback sys app lib conf"
  by (intro ext) (simp add: lawful_run_def)

lemma lawful_run_error_eq:
  "env_ok sys app lib \<Longrightarrow> lawful_run_error sys app lib conf = run_error_cb sys app lib conf"
  by (intro ext) (simp add: lawful_run_error_def)

interpretation err_cb: error_callback "lawful_run_error sys app lib conf"
  for sys :: "('e, 'x) sys_scheme" and app :: "('e, 'y) app_scheme" and lib :: "('l) zcbor_lib_scheme"
    and conf :: "('c) service_conf_scheme"
  by unfold_locales
    (auto simp: lawful_run_error_def run_error_cb_def env_ok_def intro: run_cb_error)

interpretation sdk: req_callback "lawful_run sys app lib conf"
  for sys :: "('e, 'x) sys_scheme" and app :: "('e, 'y) app_scheme" and lib :: "('l) zcbor_lib_scheme"
    and conf :: "('c) service_conf_scheme"
proof
  fix rsp :: golioth_req_rsp and w :: "'e world" and cb
  assume a: "rsp_err rsp \<noteq> 0" "rsp_get_next rsp = None" "ud_ok (settings_ready w) cb (rsp_user_data rsp)"
  then show "coap_same w (snd (lawful_run sys app lib conf cb rsp w))"
    by (simp add: lawful_run_def run_callback_def env_ok_def run_cb_error)
next
  fix w :: "'e world" and rsp :: golioth_req_rsp and cb
  assume a: "world_ok w" "rsp_ok w rsp" "ud_ok (settings_ready w) cb (rsp_user_data rsp)"
  show "cb_step w (snd (lawful_run sys app lib conf cb rsp w))"
  proof (cases "env_ok sys app lib")
    case True
    then have "coap_lib_ok sys" by (simp add: env_ok_def)
    note nb = err_cb.next_block_step[OF _ _ this, of _ _ sys app lib conf, unfolded lawful_run_error_eq[OF True]]
    show ?thesis
      unfolding lawful_run_eq[OF True] run_callback_def by (rule run_cb_step[OF True a]) (rule nb)
  next
    case False
    with a show ?thesis by (simp add: lawful_run_def)
  qed
qed

end
