(* ===== verification/OtDns.thy ===== *)
theory OtDns
  imports Prelude
begin

text \<open>
  \<^verbatim>\<open>net/golioth/ot_dns.c\<close>: resolving the server's address through OpenThread's DNS client.

  OpenThread is a parameter: the results of its calls, and the calls of the callback it makes for
  a query (an error number and, where the response has one, the address as a string). A caller
  that is never woken up is \<open>None\<close>.
\<close>

record ot_lib =
  ot_ip4_address_from_string :: int
  ot_nat64_synthesize :: int
  ot_dns_resolve :: "u8 list \<Rightarrow> int"
  ot_dns_responses :: "u8 list \<Rightarrow> (int \<times> u8 list option) list"

record ot_state =
  ot_sem :: nat
  ot_addr :: "u8 list"

definition ot_dns_callback :: "int \<times> u8 list option \<Rightarrow> ot_state \<Rightarrow> ot_state" where
  "ot_dns_callback response s =
     (case response of (a_error, address) \<Rightarrow>
        if a_error \<noteq> 0 then s
        else s\<lparr>ot_addr := (case address of Some a \<Rightarrow> a | None \<Rightarrow> ot_addr s), ot_sem := 1\<rparr>)"

definition synthesize_ip6_address ::
  "('o) ot_lib_scheme \<Rightarrow> u8 list \<Rightarrow> ot_state \<Rightarrow> (int \<times> ot_state) option" where
  "synthesize_ip6_address ot hostname s =
     (if ot_ip4_address_from_string ot \<noteq> 0 then Some (ot_ip4_address_from_string ot, s)
      else if ot_nat64_synthesize ot \<noteq> 0 then Some (ot_nat64_synthesize ot, s)
      else if ot_dns_resolve ot hostname \<noteq> 0 then Some (ot_dns_resolve ot hostname, s)
      else
        let s1 = fold ot_dns_callback (ot_dns_responses ot hostname) s
        in if ot_sem s1 = 0 then None else Some (0, s1\<lparr>ot_sem := ot_sem s1 - 1\<rparr>))"

section \<open>The outcome of a lookup\<close>

text \<open>The addresses that the responses without an error carry.\<close>

definition answers :: "(int \<times> u8 list option) list \<Rightarrow> u8 list list" where
  "answers rs = List.map_filter (\<lambda>(e, a). if e = 0 then a else None) rs"

lemma callbacks_outcome:
  "fold ot_dns_callback rs s = s\<lparr>ot_addr := last (ot_addr s # answers rs),
     ot_sem := if \<forall>r\<in>set rs. fst r \<noteq> 0 then ot_sem s else 1\<rparr>"
proof (induction rs arbitrary: s)
  case (Cons r rs)
  obtain e a where r: "r = (e, a)" by (cases r)
  have step: "fold ot_dns_callback (r # rs) s = (ot_dns_callback r s)\<lparr>
      ot_addr := last (ot_addr (ot_dns_callback r s) # answers rs),
      ot_sem := if \<forall>r\<in>set rs. fst r \<noteq> 0 then ot_sem (ot_dns_callback r s) else 1\<rparr>"
    by (simp add: Cons)
  show ?case
    unfolding step by (cases "e = 0"; cases a) (simp_all add: r ot_dns_callback_def answers_def map_filter_simps)
qed (simp add: answers_def map_filter_simps)


lemma synthesize_sem:
  "synthesize_ip6_address ot host s = Some (e, s') \<Longrightarrow> ot_sem s \<le> 1 \<Longrightarrow> ot_sem s' \<le> 1"
proof -
  have le: "ot_sem (fold ot_dns_callback rs s) \<le> 1" if "ot_sem s \<le> 1" for rs
    using that by (induction rs arbitrary: s) (auto simp: ot_dns_callback_def split: prod.splits)
  show "synthesize_ip6_address ot host s = Some (e, s') \<Longrightarrow> ot_sem s \<le> 1 \<Longrightarrow> ot_sem s' \<le> 1"
    using le[of "ot_dns_responses ot host"]
    by (auto simp: synthesize_ip6_address_def Let_def split: if_splits)
qed

end
