(* ===== verification/SystemClient.thy ===== *)
theory SystemClient
  imports Callbacks OtDns
begin

text \<open>
  \<^verbatim>\<open>net/golioth/system_client.c\<close>: the thread that keeps one client connected, and what other threads
  ask of it.

  The thread's loop is cut at the points where it blocks and between its accesses to what other
  threads write (the flags, the event counter, the start semaphore). \<open>sy_pc\<close> is where it is, and
  each piece is a function. The event file descriptor is its counter. A wakeup (from
  \<^verbatim>\<open>client->wakeup\<close> or the timer) is a step of its own that may happen at any time.
\<close>

section \<open>State\<close>

datatype cred_type =
    TLS_CREDENTIAL_PSK_ID | TLS_CREDENTIAL_PSK | TLS_CREDENTIAL_SERVER_CERTIFICATE
  | TLS_CREDENTIAL_PRIVATE_KEY | TLS_CREDENTIAL_CA_CERTIFICATE

datatype auth_method = AUTH_PSK | AUTH_CERT | AUTH_NONE

text \<open>
  \<open>tls_credential_get\<close> takes the tag, the type and \<^verbatim>\<open>*credlen\<close>, the size of the buffer, and gives the C
  result with the bytes written and the new \<^verbatim>\<open>*credlen\<close>, their number on a success. \<open>eventfd_create\<close> is \<^verbatim>\<open>eventfd(0, EFD_NONBLOCK)\<close>.
\<close>

record 'e system_lib = "'e sys" +
  tls_credential_get :: "int \<Rightarrow> cred_type \<Rightarrow> nat \<Rightarrow> 'e \<Rightarrow> int \<times> u8 list \<times> nat"
  tls_credential_add :: "int \<Rightarrow> cred_type \<Rightarrow> u8 list \<Rightarrow> 'e \<Rightarrow> int \<times> 'e"
  eventfd_create :: "'e \<Rightarrow> int \<times> 'e"

record system_conf =
  sconf_auth :: auth_method
  sconf_tag :: int
  sconf_psk_id_max_len :: nat
  sconf_psk_max_len :: nat
  sconf_ca_crt :: "u8 list"
  sconf_server_host :: "u8 list"
  sconf_server_port :: u16
  sconf_rx_buf_size :: nat
  sconf_ping_interval_sec :: int
  sconf_rx_timeout_sec :: int
  sconf_log_backend :: bool
  sconf_rpc :: bool
  sconf_openthread :: bool

definition PING_INTERVAL :: "('s) system_conf_scheme \<Rightarrow> int" where
  "PING_INTERVAL sc = sconf_ping_interval_sec sc * 1000"

definition RECV_TIMEOUT :: "('s) system_conf_scheme \<Rightarrow> int" where
  "RECV_TIMEOUT sc = sconf_rx_timeout_sec sc * 1000"

datatype thread_pc =
    Loop_top | Wait_start | Flush_flag | Flush_event | Connecting | Preparing | Polling | Ended

record 'e system =
  sy_world :: "'e world"
  sy_pc :: thread_pc
  sy_reconnect :: bool
  sy_stop :: bool
  sy_event :: nat
  sy_started :: bool
  sy_timer :: "int option"
  sy_recv_expiry :: int
  sy_ping_expiry :: int
  sy_fd_event :: int
  sy_fd_socket :: int
  sy_ot :: ot_state
  sy_log_client :: bool

definition sy_uptime :: "('e, 'x) sys_scheme \<Rightarrow> 'e system \<Rightarrow> int \<times> 'e system" where
  "sy_uptime sys s = (case env_read (k_uptime_get sys) (sy_world s) of (t, w) \<Rightarrow> (t, s\<lparr>sy_world := w\<rparr>))"

section \<open>Events from other threads\<close>

definition client_notify_timeout :: "'e system \<Rightarrow> 'e system" where
  "client_notify_timeout s = s\<lparr>sy_event := sy_event s + 1\<rparr>"

definition golioth_system_client_wakeup :: "'e system \<Rightarrow> 'e system" where
  "golioth_system_client_wakeup s = s\<lparr>sy_event := sy_event s + 1\<rparr>"

definition eventfd_timeout_handle :: "'e system \<Rightarrow> 'e system" where
  "eventfd_timeout_handle s = client_notify_timeout (s\<lparr>sy_timer := None\<rparr>)"

definition golioth_system_client_stop :: "'e system \<Rightarrow> 'e system" where
  "golioth_system_client_stop s =
     (let s1 = s\<lparr>sy_started := False\<rparr>
      in if \<not> sy_stop s1 then s1\<lparr>sy_stop := True, sy_event := sy_event s1 + 1\<rparr> else s1)"

definition golioth_system_client_request_reconnect :: "'e system \<Rightarrow> 'e system" where
  "golioth_system_client_request_reconnect s =
     (if \<not> sy_reconnect s then s\<lparr>sy_reconnect := True, sy_event := sy_event s + 1\<rparr> else s)"

section \<open>Credentials and starting\<close>

fun contains_char :: "u8 list \<Rightarrow> u8 \<Rightarrow> bool" where
  "contains_char [] c = False"
| "contains_char (x # xs) c = (if x = c then True else contains_char xs c)"

definition golioth_psk_id_is_valid :: "u8 list \<Rightarrow> bool" where
  "golioth_psk_id_is_valid psk_id = contains_char psk_id 0x40"

definition golioth_psk_is_valid :: "u8 list \<Rightarrow> bool" where
  "golioth_psk_is_valid psk \<longleftrightarrow> 0 < length psk"

definition golioth_check_psk_credentials ::
  "('e, 'x) system_lib_scheme \<Rightarrow> ('s) system_conf_scheme \<Rightarrow> 'e \<Rightarrow> int" where
  "golioth_check_psk_credentials lib sc e =
     (let err =
        (case tls_credential_get lib (sconf_tag sc) TLS_CREDENTIAL_PSK_ID (sconf_psk_id_max_len sc) e of
           (err, psk_id, _) \<Rightarrow>
             if err < 0 then err
             else if \<not> golioth_psk_id_is_valid psk_id then - EINVAL
             else
               (case tls_credential_get lib (sconf_tag sc) TLS_CREDENTIAL_PSK (sconf_psk_max_len sc) e of
                  (err, psk, _) \<Rightarrow>
                    if err < 0 then err else if \<not> golioth_psk_is_valid psk then - EINVAL else err))
      in if err = - EACCES then 0 else err)"

definition golioth_check_cert_credentials ::
  "('e, 'x) system_lib_scheme \<Rightarrow> ('s) system_conf_scheme \<Rightarrow> 'e \<Rightarrow> int" where
  "golioth_check_cert_credentials lib sc e =
     (case tls_credential_get lib (sconf_tag sc) TLS_CREDENTIAL_SERVER_CERTIFICATE 0 e of
        (err, _, cred_len) \<Rightarrow>
          if err = - ENOENT then err
          else
            (case tls_credential_get lib (sconf_tag sc) TLS_CREDENTIAL_PRIVATE_KEY cred_len e of
               (err, _, _) \<Rightarrow> if err = - ENOENT then err else if err = - EFBIG then 0 else err))"

definition golioth_system_client_start ::
  "('e, 'x) system_lib_scheme \<Rightarrow> ('s) system_conf_scheme \<Rightarrow> 'e system \<Rightarrow> 'e system" where
  "golioth_system_client_start lib sc s =
     (let err = (if sconf_auth sc = AUTH_PSK then golioth_check_psk_credentials lib sc (w_env (sy_world s))
                 else if sconf_auth sc = AUTH_CERT
                 then golioth_check_cert_credentials lib sc (w_env (sy_world s))
                 else 0)
      in if err = 0 then s\<lparr>sy_started := True\<rparr> else s)"

section \<open>Initialisation\<close>

definition init_tls_auth_cert ::
  "('e, 'x) system_lib_scheme \<Rightarrow> ('s) system_conf_scheme \<Rightarrow> 'e system \<Rightarrow> int \<times> 'e system" where
  "init_tls_auth_cert lib sc s =
     (case env_read (tls_credential_add lib (sconf_tag sc) TLS_CREDENTIAL_CA_CERTIFICATE (sconf_ca_crt sc))
             (sy_world s) of
        (err, w) \<Rightarrow> if err < 0 then (err, s\<lparr>sy_world := w\<rparr>) else (0, s\<lparr>sy_world := w\<rparr>))"

definition init_tls ::
  "('e, 'x) system_lib_scheme \<Rightarrow> ('s) system_conf_scheme \<Rightarrow> 'e system \<Rightarrow> int \<times> 'e system" where
  "init_tls lib sc s = (if sconf_auth sc = AUTH_CERT then init_tls_auth_cert lib sc s else (0, s))"

definition client_initialize ::
  "('e, 'x) system_lib_scheme \<Rightarrow> ('s) system_conf_scheme \<Rightarrow> 'e system \<Rightarrow> int \<times> 'e system" where
  "client_initialize lib sc s =
     (let w = upd_client (\<lambda>c. c\<lparr>cl_rx_buffer := replicate (sconf_rx_buf_size sc) 0,
                 cl_rx_buffer_len := sconf_rx_buf_size sc, cl_wakeup := Some Golioth_system_client_wakeup\<rparr>)
                (golioth_init (sy_world s))
      in case golioth_set_proto_coap_dtls (Some [sconf_tag sc]) 1 w of
           (err, w1) \<Rightarrow>
             if err \<noteq> 0 then (err, s\<lparr>sy_world := w1\<rparr>)
             else
               (case env_read (eventfd_create lib) w1 of
                  (fd, w2) \<Rightarrow>
                    let s2 = s\<lparr>sy_world := w2, sy_fd_event := fd,
                               sy_log_client := sy_log_client s \<or> sconf_log_backend sc\<rparr>
                    in if sconf_rpc sc
                       then (case golioth_rpc_init (w_client w2) of
                               (err, c) \<Rightarrow>
                                 if err \<noteq> 0 then (err, s2)
                                 else (0, s2\<lparr>sy_world := upd_client (\<lambda>_. c) w2\<rparr>))
                       else (0, s2)))"

definition golioth_system_init ::
  "('e, 'x) system_lib_scheme \<Rightarrow> ('s) system_conf_scheme \<Rightarrow> 'e system \<Rightarrow> int \<times> 'e system" where
  "golioth_system_init lib sc s =
     err_then (client_initialize lib sc s) (\<lambda>s1. (0, snd (init_tls lib sc s1)))"

section \<open>The thread\<close>

text \<open>
  \<open>ot\<close> is OpenThread. \<^verbatim>\<open>golioth_system_server_host\<close> is the buffer \<open>ot_addr\<close>, both the name that
  is looked up and the place of the result.
\<close>

definition client_connect ::
  "('e, 'x) system_lib_scheme \<Rightarrow> ('s) system_conf_scheme \<Rightarrow> golioth_conf \<Rightarrow> ('o) ot_lib_scheme
     \<Rightarrow> (nat \<Rightarrow> 'e world \<Rightarrow> 'e world) \<Rightarrow> 'e system \<Rightarrow> (int \<times> 'e system) option" where
  "client_connect lib sc gc ot on_connect s =
     (case (if sconf_openthread sc then synthesize_ip6_address ot (ot_addr (sy_ot s)) (sy_ot s)
            else Some (0, sy_ot s)) of
        None \<Rightarrow> None
      | Some (err, o1) \<Rightarrow>
          let s1 = s\<lparr>sy_ot := o1\<rparr>
          in if err \<noteq> 0 then Some (err, s1)
             else
               (case golioth_connect lib gc on_connect (ot_addr o1) (sconf_server_port sc) (sy_world s1) of
                  (err, w) \<Rightarrow>
                    let s2 = s1\<lparr>sy_world := w\<rparr>
                    in if err \<noteq> 0 then Some (err, s2)
                       else Some (0, s2\<lparr>sy_fd_socket := cl_sock (w_client w)\<rparr>)))"

definition client_disconnect ::
  "('e, 'x) sys_scheme \<Rightarrow> (golioth_req_cb \<Rightarrow> golioth_req_rsp \<Rightarrow> 'e world \<Rightarrow> int \<times> 'e world)
     \<Rightarrow> 'e system \<Rightarrow> 'e system option" where
  "client_disconnect sys run s =
     (case golioth_disconnect sys run (sy_world s) of
        None \<Rightarrow> None
      | Some (_, w) \<Rightarrow> Some (s\<lparr>sy_world := w, sy_timer := None\<rparr>))"

text \<open>\<^verbatim>\<open>wait_for_client_start\<close> polls the semaphore and does not take it.\<close>

definition wait_for_client_start :: "'e system \<Rightarrow> bool" where
  "wait_for_client_start s = sy_started s"

definition restart_expiries :: "('e, 'x) sys_scheme \<Rightarrow> ('s) system_conf_scheme \<Rightarrow> 'e system \<Rightarrow> 'e system" where
  "restart_expiries sys sc s =
     (case sy_uptime sys s of
        (t, s1) \<Rightarrow>
          (case sy_uptime sys (s1\<lparr>sy_recv_expiry := t + RECV_TIMEOUT sc\<rparr>) of
             (t2, s2) \<Rightarrow> s2\<lparr>sy_ping_expiry := t2 + PING_INTERVAL sc\<rparr>))"

definition loop_connect ::
  "('e, 'x) system_lib_scheme \<Rightarrow> ('s) system_conf_scheme \<Rightarrow> golioth_conf \<Rightarrow> ('o) ot_lib_scheme
     \<Rightarrow> (nat \<Rightarrow> 'e world \<Rightarrow> 'e world) \<Rightarrow> 'e system \<Rightarrow> 'e system option" where
  "loop_connect lib sc gc ot on_connect s =
     (case client_connect lib sc gc ot on_connect s of
        None \<Rightarrow> None
      | Some (err, s1) \<Rightarrow>
          if err \<noteq> 0 then Some (s1\<lparr>sy_pc := Loop_top\<rparr>)
          else Some ((restart_expiries lib sc s1)\<lparr>sy_pc := Preparing\<rparr>))"

text \<open>\<open>to_int\<close> is the conversion of an \<^verbatim>\<open>int64_t\<close> to \<^verbatim>\<open>int\<close>.\<close>

definition to_int :: "int \<Rightarrow> int" where
  "to_int i = sint (word_of_int i :: u32)"

definition loop_prepare ::
  "('e, 'x) sys_scheme \<Rightarrow> (golioth_req_cb \<Rightarrow> golioth_req_rsp \<Rightarrow> 'e world \<Rightarrow> int \<times> 'e world)
     \<Rightarrow> 'e system \<Rightarrow> 'e system option" where
  "loop_prepare sys run s =
     (case sy_uptime sys s of
        (now, s0) \<Rightarrow>
          (case golioth_poll_prepare sys run now False True (sy_world s0) of
             None \<Rightarrow> None
           | Some (_, golioth_timeout, w1) \<Rightarrow>
               (case sy_uptime sys (s0\<lparr>sy_world := w1\<rparr>) of
                  (t, s1) \<Rightarrow>
                    let timeout = to_int (min (sy_recv_expiry s1) (sy_ping_expiry s1) - t);
                        timeout = to_int (min timeout (the golioth_timeout));
                        timeout = (if timeout < 0 then 0 else timeout)
                    in Some (s1\<lparr>sy_timer := Some timeout, sy_pc := Polling\<rparr>))))"

text \<open>The block \<^verbatim>\<open>if (event_occurred)\<close>; the first result says that it ended with \<^verbatim>\<open>continue\<close>.\<close>

definition loop_event ::
  "('e, 'x) sys_scheme \<Rightarrow> ('s) system_conf_scheme
     \<Rightarrow> (golioth_req_cb \<Rightarrow> golioth_req_rsp \<Rightarrow> 'e world \<Rightarrow> int \<times> 'e world)
     \<Rightarrow> 'e system \<Rightarrow> (bool \<times> 'e system) option" where
  "loop_event sys sc run s =
     (let reconnect_request = sy_reconnect s; stop_request = sy_stop s
      in case sy_uptime sys (s\<lparr>sy_reconnect := False, sy_stop := False\<rparr>) of
           (t, s1) \<Rightarrow>
             let receive_timeout = (sy_recv_expiry s1 \<le> t)
             in if reconnect_request \<or> receive_timeout \<or> stop_request
                then map_option (\<lambda>s2. (True, s2)) (client_disconnect sys run s1)
                else
                  (case sy_uptime sys s1 of
                     (t2, s2) \<Rightarrow>
                       if sy_ping_expiry s2 \<le> t2
                       then (case sy_uptime sys (s2\<lparr>sy_world := snd (golioth_ping sys (sy_world s2))\<rparr>) of
                               (t3, s3) \<Rightarrow> Some (False, s3\<lparr>sy_ping_expiry := t3 + PING_INTERVAL sc\<rparr>))
                       else Some (False, s2)))"

definition loop_socket ::
  "('e, 'x) sys_scheme \<Rightarrow> ('s) system_conf_scheme \<Rightarrow> golioth_conf
     \<Rightarrow> (golioth_req_cb \<Rightarrow> golioth_req_rsp \<Rightarrow> 'e world \<Rightarrow> int \<times> 'e world)
     \<Rightarrow> 'e system \<Rightarrow> 'e system option" where
  "loop_socket sys sc gc run s =
     (let s1 = restart_expiries sys sc s
      in case golioth_process_rx sys gc run (sy_world s1) of
           (err, w) \<Rightarrow>
             let s2 = s1\<lparr>sy_world := w\<rparr>
             in if err \<noteq> 0 then client_disconnect sys run s2 else Some s2)"

text \<open>What follows \<^verbatim>\<open>zsock_poll\<close>: its result and whether the two entries have events.\<close>

definition loop_polled ::
  "('e, 'x) sys_scheme \<Rightarrow> ('s) system_conf_scheme \<Rightarrow> golioth_conf
     \<Rightarrow> (golioth_req_cb \<Rightarrow> golioth_req_rsp \<Rightarrow> 'e world \<Rightarrow> int \<times> 'e world)
     \<Rightarrow> int \<Rightarrow> bool \<Rightarrow> bool \<Rightarrow> 'e system \<Rightarrow> 'e system option" where
  "loop_polled sys sc gc run ret event_revents socket_revents s =
     (if ret < 0 then Some (s\<lparr>sy_pc := Ended\<rparr>)
      else
        let s1 = (if event_revents then s\<lparr>sy_event := 0\<rparr> else s);
            event_occurred = (ret = 0 \<or> event_revents)
        in case (if event_occurred then loop_event sys sc run s1 else Some (False, s1)) of
             None \<Rightarrow> None
           | Some (continued, s2) \<Rightarrow>
               map_option (\<lambda>s3. s3\<lparr>sy_pc := Loop_top\<rparr>)
                 (if \<not> continued \<and> socket_revents then loop_socket sys sc gc run s2 else Some s2))"

section \<open>The threads together\<close>

text \<open>
  \<^verbatim>\<open>zsock_poll\<close> with an infinite timeout fails, or reports the event counter and the socket; it
  waits while there is nothing to report.
\<close>

definition poll_returns :: "'e system \<Rightarrow> int \<Rightarrow> bool \<Rightarrow> bool \<Rightarrow> bool" where
  "poll_returns s ret event_revents socket_revents \<longleftrightarrow>
     ret < 0 \<or> (event_revents = (0 < sy_event s) \<and> (event_revents \<or> socket_revents) \<and>
       ret = (if event_revents then 1 else 0) + (if socket_revents then 1 else 0))"

text \<open>The system client's thread.\<close>

inductive main_step ::
  "('e, 'x) system_lib_scheme \<Rightarrow> ('s) system_conf_scheme \<Rightarrow> golioth_conf \<Rightarrow> ('o) ot_lib_scheme
     \<Rightarrow> (nat \<Rightarrow> 'e world \<Rightarrow> 'e world) \<Rightarrow> (golioth_req_cb \<Rightarrow> golioth_req_rsp \<Rightarrow> 'e world \<Rightarrow> int \<times> 'e world)
     \<Rightarrow> 'e system \<Rightarrow> 'e system \<Rightarrow> bool"
  for lib sc gc ot oc run where
  main_idle: "sy_pc s = Loop_top \<Longrightarrow> cl_sock (w_client (sy_world s)) < 0 \<Longrightarrow>
    main_step lib sc gc ot oc run s (s\<lparr>sy_pc := Wait_start\<rparr>)"
| main_go_on: "sy_pc s = Loop_top \<Longrightarrow> 0 \<le> cl_sock (w_client (sy_world s)) \<Longrightarrow>
    main_step lib sc gc ot oc run s (s\<lparr>sy_pc := Preparing\<rparr>)"
| main_started: "sy_pc s = Wait_start \<Longrightarrow> wait_for_client_start s \<Longrightarrow>
    main_step lib sc gc ot oc run s (s\<lparr>sy_pc := Flush_flag\<rparr>)"
| main_flush_flag: "sy_pc s = Flush_flag \<Longrightarrow>
    main_step lib sc gc ot oc run s (s\<lparr>sy_reconnect := False, sy_pc := Flush_event\<rparr>)"
| main_flush_event: "sy_pc s = Flush_event \<Longrightarrow>
    main_step lib sc gc ot oc run s (s\<lparr>sy_event := 0, sy_pc := Connecting\<rparr>)"
| main_connect: "sy_pc s = Connecting \<Longrightarrow> loop_connect lib sc gc ot oc s = Some s' \<Longrightarrow>
    main_step lib sc gc ot oc run s s'"
| main_prepare: "sy_pc s = Preparing \<Longrightarrow> loop_prepare lib run s = Some s' \<Longrightarrow>
    main_step lib sc gc ot oc run s s'"
| main_polled: "sy_pc s = Polling \<Longrightarrow> poll_returns s ret ev sk \<Longrightarrow>
    loop_polled lib sc gc run ret ev sk s = Some s' \<Longrightarrow> main_step lib sc gc ot oc run s s'"

text \<open>Other threads and the timer. Threads of the application submit requests.\<close>

inductive other_step ::
  "('e, 'x) system_lib_scheme \<Rightarrow> ('s) system_conf_scheme \<Rightarrow> 'e system \<Rightarrow> 'e system \<Rightarrow> bool"
  for lib sc where
  other_start: "other_step lib sc s (golioth_system_client_start lib sc s)"
| other_stop: "other_step lib sc s (golioth_system_client_stop s)"
| other_reconnect: "other_step lib sc s (golioth_system_client_request_reconnect s)"
| other_wakeup: "other_step lib sc s (golioth_system_client_wakeup s)"
| other_timer: "sy_timer s \<noteq> None \<Longrightarrow> other_step lib sc s (eventfd_timeout_handle s)"
| other_request: "cb_step (sy_world s) w \<Longrightarrow> other_step lib sc s (s\<lparr>sy_world := w\<rparr>)"

inductive_cases main_stepE: "main_step lib sc gc ot oc run s s'"
inductive_cases other_stepE: "other_step lib sc s s'"

inductive system_reaches ::
  "('e, 'x) system_lib_scheme \<Rightarrow> ('s) system_conf_scheme \<Rightarrow> golioth_conf \<Rightarrow> ('o) ot_lib_scheme
     \<Rightarrow> (nat \<Rightarrow> 'e world \<Rightarrow> 'e world) \<Rightarrow> (golioth_req_cb \<Rightarrow> golioth_req_rsp \<Rightarrow> 'e world \<Rightarrow> int \<times> 'e world)
     \<Rightarrow> 'e system \<Rightarrow> 'e system \<Rightarrow> bool"
  for lib sc gc ot oc run where
  reaches_refl: "system_reaches lib sc gc ot oc run s s"
| reaches_main: "system_reaches lib sc gc ot oc run s s1 \<Longrightarrow> main_step lib sc gc ot oc run s1 s2 \<Longrightarrow>
    system_reaches lib sc gc ot oc run s s2"
| reaches_other: "system_reaches lib sc gc ot oc run s s1 \<Longrightarrow> other_step lib sc s1 s2 \<Longrightarrow>
    system_reaches lib sc gc ot oc run s s2"

text \<open>
  The invariant: the client's own invariant; the thread is past the connecting part exactly when
  the client is connected; and the polled descriptor is the client's socket.
\<close>

definition system_ok :: "'e system \<Rightarrow> bool" where
  "system_ok s \<longleftrightarrow> client_ok (sy_world s) \<and>
     (sy_pc s \<in> {Wait_start, Flush_flag, Flush_event, Connecting} \<longrightarrow> \<not> is_connected (sy_world s)) \<and>
     (sy_pc s \<in> {Preparing, Polling} \<longrightarrow> is_connected (sy_world s)) \<and>
     (is_connected (sy_world s) \<longrightarrow> sy_fd_socket s = cl_sock (w_client (sy_world s)))"

lemma sy_uptime_frame:
  assumes "sy_uptime sys s = (t, s')"
  shows "same_but_env (sy_world s) (sy_world s')" "sy_fd_socket s' = sy_fd_socket s"
    "sy_reconnect s' = sy_reconnect s" "sy_stop s' = sy_stop s" "sy_event s' = sy_event s" "sy_pc s' = sy_pc s"
    "sy_recv_expiry s' = sy_recv_expiry s" "sy_ping_expiry s' = sy_ping_expiry s" "sy_started s' = sy_started s"
  using assms by (auto simp: sy_uptime_def split: prod.splits)

lemma ping_frame: "golioth_ping sys w = (e, w') \<Longrightarrow> same_but_env w w'"
  by (auto simp: golioth_ping_def split: prod.splits if_splits
      dest: golioth_send_coap_frame same_but_env_read intro: same_but_env_trans)

text \<open>Pieces that only read the clock or send keep everything the invariant looks at.\<close>

definition quiet :: "'e system \<Rightarrow> 'e system \<Rightarrow> bool" where
  "quiet s s' \<longleftrightarrow> rx_step (sy_world s) (sy_world s') \<and> sy_fd_socket s' = sy_fd_socket s"

lemma quiet_trans: "quiet a b \<Longrightarrow> quiet b c \<Longrightarrow> quiet a c"
  by (auto simp: quiet_def intro: rx_step_trans)

lemma quiet_same: "world_ok (sy_world s) \<Longrightarrow> same_but_env (sy_world s) (sy_world s') \<Longrightarrow>
    sy_fd_socket s' = sy_fd_socket s \<Longrightarrow> quiet s s'"
  by (simp add: quiet_def rx_step_same_but_env)

lemma quiet_ok: "quiet s s' \<Longrightarrow> world_ok (sy_world s')"
  by (simp add: quiet_def rx_step_def)

lemma quiet_uptime: "world_ok (sy_world s) \<Longrightarrow> sy_uptime sys s = (t, s') \<Longrightarrow> quiet s s'"
  using sy_uptime_frame(1,2)[of sys s t s'] by (intro quiet_same) simp_all

lemma quiet_restart:
  assumes "world_ok (sy_world s)"
  shows "quiet s (restart_expiries sys sc s)"
proof -
  obtain t s1 where a: "sy_uptime sys s = (t, s1)" by fastforce
  obtain t2 s2 where b: "sy_uptime sys (s1\<lparr>sy_recv_expiry := t + RECV_TIMEOUT sc\<rparr>) = (t2, s2)" by fastforce
  note q1 = quiet_uptime[OF assms a]
  have "quiet s (s1\<lparr>sy_recv_expiry := t + RECV_TIMEOUT sc\<rparr>)" using q1 by (simp add: quiet_def)
  from quiet_trans[OF this quiet_uptime[OF _ b]] quiet_ok[OF q1] show ?thesis
    by (simp add: restart_expiries_def a b quiet_def)
qed

lemma client_ok_quiet: "client_ok (sy_world s) \<Longrightarrow> quiet s s' \<Longrightarrow> client_ok (sy_world s')"
  by (auto simp: quiet_def intro: client_ok_rx_step)

text \<open>
  Without a reconnection in between: a client that is still connected was connected before, and its
  pending calls have only evolved.
\<close>

definition life_kept :: "'e world \<Rightarrow> 'e world \<Rightarrow> bool" where
  "life_kept w w' \<longleftrightarrow>
     (is_connected w' \<longrightarrow> is_connected w \<and> calls_evolve (pending_calls w) (pending_calls w'))"

lemma life_kept_trans: "life_kept a b \<Longrightarrow> life_kept b c \<Longrightarrow> life_kept a c"
  by (auto simp: life_kept_def intro: calls_evolve_trans)

lemma life_kept_refl [simp]: "life_kept w w"
  by (simp add: life_kept_def)

lemma life_kept_down [simp]: "\<not> is_connected w' \<Longrightarrow> life_kept w w'"
  by (simp add: life_kept_def)

lemma quiet_kept: "quiet s s' \<Longrightarrow> life_kept (sy_world s) (sy_world s')"
  by (simp add: quiet_def rx_step_def life_kept_def)

text \<open>\<open>settled\<close>: what the invariant says of a thread at the top of its loop.\<close>

definition settled :: "'e system \<Rightarrow> bool" where
  "settled s \<longleftrightarrow> client_ok (sy_world s) \<and>
     (is_connected (sy_world s) \<longrightarrow> sy_fd_socket s = cl_sock (w_client (sy_world s)))"

lemma settled_quiet: "settled s \<Longrightarrow> quiet s s' \<Longrightarrow> settled s'"
  by (auto simp: settled_def quiet_def rx_step_def intro: client_ok_rx_step)

lemma settled_world: "settled s \<Longrightarrow> world_ok (sy_world s)"
  by (simp add: settled_def client_ok_def)

lemma client_connect_ok:
  assumes "client_ok (sy_world s)" and "errno_ok lib" and "\<not> is_connected (sy_world s)"
    and "\<And>f w. world_ok w \<Longrightarrow> cb_step w (oc f w)"
    and "client_connect lib sc gc ot oc s = Some (e, s')"
  shows "settled s' \<and> (e = 0 \<longleftrightarrow> is_connected (sy_world s'))"
proof -
  obtain e0 o1 where o: "(if sconf_openthread sc then synthesize_ip6_address ot (ot_addr (sy_ot s)) (sy_ot s)
      else Some (0, sy_ot s)) = Some (e0, o1)"
    using assms(5) by (auto simp: client_connect_def split: option.splits)
  obtain e1 w where c: "golioth_connect lib gc oc (ot_addr o1) (sconf_server_port sc) (sy_world s) = (e1, w)"
    by fastforce
  have res: "(e, s') = (if e0 \<noteq> 0 then (e0, s\<lparr>sy_ot := o1\<rparr>)
      else if e1 \<noteq> 0 then (e1, s\<lparr>sy_ot := o1, sy_world := w\<rparr>)
      else (0, s\<lparr>sy_ot := o1, sy_world := w, sy_fd_socket := cl_sock (w_client w)\<rparr>))"
    using assms(5) c unfolding client_connect_def o by (simp add: Let_def split: if_splits)
  have k: "client_ok w" "e1 = 0 \<Longrightarrow> is_connected w" "e1 \<noteq> 0 \<Longrightarrow> same_but_env (sy_world s) w"
    using golioth_connect_ok[OF assms(1,2) _ c] assms(4) by blast+
  have "\<not> is_connected w" if "e1 \<noteq> 0"
    using k(3) that assms(3) same_but_envD(1) by metis
  then show ?thesis
    using res k(1,2) assms(1,3) by (auto simp: settled_def split: if_splits)
qed

context req_callback
begin

lemma client_disconnect_ok:
  assumes "client_ok (sy_world s)"
  obtains s' where "client_disconnect sys run s = Some s'" "settled s'" "\<not> is_connected (sy_world s')"
    "reqs_list (sy_world s') = []" "cl_sock (w_client (sy_world s')) = - 1" "sy_timer s' = None"
    "sy_reconnect s' = sy_reconnect s" "sy_stop s' = sy_stop s" "sy_event s' = sy_event s"
    "sy_started s' = sy_started s"
proof -
  obtain e w where w: "golioth_disconnect sys run (sy_world s) = Some (e, w)" "client_ok w"
    "\<not> is_connected w" "reqs_list w = []" "cl_sock (w_client w) = - 1"
    by (rule golioth_disconnect_ok[OF assms, of sys])
  show thesis
    by (rule that[of "s\<lparr>sy_world := w, sy_timer := None\<rparr>"])
      (use w in \<open>simp_all add: client_disconnect_def settled_def\<close>)
qed

lemma loop_prepare_ok:
  assumes "settled s" and "ack_timeout_ok sys"
  obtains s' where "loop_prepare sys run s = Some s'" "settled s'" "sy_pc s' = Polling"
    "is_connected (sy_world s') = is_connected (sy_world s)" "\<exists>t\<ge>0. sy_timer s' = Some t"
    "sy_reconnect s' = sy_reconnect s" "sy_stop s' = sy_stop s" "sy_event s' = sy_event s"
    "life_kept (sy_world s) (sy_world s')"
proof -
  obtain now s0 where n: "sy_uptime sys s = (now, s0)" by fastforce
  note q0 = quiet_uptime[OF settled_world[OF assms(1)] n]
  obtain g w1 where g: "golioth_coap_reqs_poll_prepare sys run now (sy_world s0) = Some (g, w1)"
    "rx_step (sy_world s0) w1"
    using reqs_poll_prepare_ok[OF quiet_ok[OF q0] assms(2), of now] by blast
  have q1: "quiet s0 (s0\<lparr>sy_world := w1\<rparr>)" using g(2) by (simp add: quiet_def)
  obtain t s1 where t: "sy_uptime sys (s0\<lparr>sy_world := w1\<rparr>) = (t, s1)" by fastforce
  have q2: "quiet s s1" by (rule quiet_trans[OF quiet_trans[OF q0 q1] quiet_uptime[OF quiet_ok[OF q1] t]])
  define d where "d = (let timeout = to_int (min (sy_recv_expiry s1) (sy_ping_expiry s1) - t);
      timeout = to_int (min timeout g) in if timeout < 0 then 0 else timeout)"
  have eq: "loop_prepare sys run s = Some (s1\<lparr>sy_timer := Some d, sy_pc := Polling\<rparr>)"
    by (simp add: loop_prepare_def n golioth_poll_prepare_def g(1) t Let_def d_def)
  have same: "sy_reconnect s1 = sy_reconnect s" "sy_stop s1 = sy_stop s" "sy_event s1 = sy_event s"
    using sy_uptime_frame(3-5)[OF n] sy_uptime_frame(3-5)[OF t] by simp_all
  have q3: "quiet s (s1\<lparr>sy_timer := Some d, sy_pc := Polling\<rparr>)" using q2 by (simp add: quiet_def)
  show thesis
    by (rule that[OF eq settled_quiet[OF assms(1) q3]])
      (use q2 same quiet_kept[OF q3] in \<open>auto simp: quiet_def rx_step_def d_def Let_def\<close>)
qed

lemma loop_event_ok:
  assumes "settled s"
  obtains c s' where "loop_event sys sc run s = Some (c, s')" "settled s'"
    "c \<longrightarrow> \<not> is_connected (sy_world s') \<and> reqs_list (sy_world s') = []"
    "\<not> c \<longrightarrow> is_connected (sy_world s') = is_connected (sy_world s)"
    "sy_reconnect s \<or> sy_stop s \<longrightarrow> c" "\<not> sy_reconnect s'" "\<not> sy_stop s'"
    "life_kept (sy_world s) (sy_world s')"
proof -
  let ?s = "s\<lparr>sy_reconnect := False, sy_stop := False\<rparr>"
  obtain t s1 where t: "sy_uptime sys ?s = (t, s1)" by fastforce
  have s0: "settled ?s" using assms by (simp add: settled_def)
  note f1 = sy_uptime_frame[OF t]
  have q1: "quiet s s1" using quiet_uptime[OF settled_world[OF s0] t] by (simp add: quiet_def)
  note s1 = settled_quiet[OF assms q1]
  show thesis
  proof (cases "sy_reconnect s \<or> sy_recv_expiry s1 \<le> t \<or> sy_stop s")
    case True
    have "client_ok (sy_world s1)" using s1 by (simp add: settled_def)
    from client_disconnect_ok[OF this, of sys] obtain s2 where d: "client_disconnect sys run s1 = Some s2" "settled s2"
      "\<not> is_connected (sy_world s2)" "reqs_list (sy_world s2) = []" "sy_reconnect s2 = sy_reconnect s1"
      "sy_stop s2 = sy_stop s1" by metis
    show thesis by (rule that[of True s2]) (use True d f1 t in \<open>simp_all add: loop_event_def Let_def\<close>)
  next
    case False
    obtain t2 s2 where t2: "sy_uptime sys s1 = (t2, s2)" by fastforce
    note f2 = sy_uptime_frame[OF t2]
    have q2: "quiet s s2" by (rule quiet_trans[OF q1 quiet_uptime[OF settled_world[OF s1] t2]])
    note s2 = settled_quiet[OF assms q2]
    show thesis
    proof (cases "sy_ping_expiry s2 \<le> t2")
      case ping: True
      obtain e w where p: "golioth_ping sys (sy_world s2) = (e, w)" by fastforce
      obtain t3 s3 where t3: "sy_uptime sys (s2\<lparr>sy_world := w\<rparr>) = (t3, s3)" by fastforce
      note f3 = sy_uptime_frame[OF t3]
      have "quiet s2 (s2\<lparr>sy_world := w\<rparr>)"
        using ping_frame[OF p] settled_world[OF s2] by (intro quiet_same) simp_all
      note q3 = quiet_trans[OF q2 quiet_trans[OF this quiet_uptime[OF quiet_ok[OF this] t3]]]
      have q4: "quiet s (s3\<lparr>sy_ping_expiry := t3 + PING_INTERVAL sc\<rparr>)" using q3 by (simp add: quiet_def)
      show thesis
        by (rule that[of False "s3\<lparr>sy_ping_expiry := t3 + PING_INTERVAL sc\<rparr>"])
          (use False ping t t2 t3 p f1 f2 f3 settled_quiet[OF assms q4] q4 quiet_kept[OF q4] in
            \<open>simp_all add: loop_event_def Let_def quiet_def rx_step_def\<close>)
    next
      case noping: False
      show thesis
        by (rule that[of False s2])
          (use False noping t t2 f1 f2 s2 q2 quiet_kept[OF q2] in \<open>simp_all add: loop_event_def Let_def quiet_def rx_step_def\<close>)
    qed
  qed
qed

lemma loop_socket_ok:
  assumes "settled s"
  obtains s' where "loop_socket sys sc gc run s = Some s'" "settled s'" "life_kept (sy_world s) (sy_world s')"
proof -
  note q1 = quiet_restart[OF settled_world[OF assms], of sys sc]
  obtain e w where r: "golioth_process_rx sys gc run (sy_world (restart_expiries sys sc s)) = (e, w)" by fastforce
  have q2: "quiet s ((restart_expiries sys sc s)\<lparr>sy_world := w\<rparr>)"
    using quiet_trans[OF q1, of "(restart_expiries sys sc s)\<lparr>sy_world := w\<rparr>"]
      golioth_process_rx_ok[OF quiet_ok[OF q1], of sys gc] r by (simp add: quiet_def)
  note s2 = settled_quiet[OF assms q2]
  show thesis
  proof (cases "e = 0")
    case True
    with r s2 that quiet_kept[OF q2] show thesis by (simp add: loop_socket_def Let_def)
  next
    case False
    have "client_ok (sy_world ((restart_expiries sys sc s)\<lparr>sy_world := w\<rparr>))" using s2 by (simp add: settled_def)
    from client_disconnect_ok[OF this, of sys] obtain s3 where
      "client_disconnect sys run ((restart_expiries sys sc s)\<lparr>sy_world := w\<rparr>) = Some s3" "settled s3"
      "\<not> is_connected (sy_world s3)" by metis
    with False r that[of s3] show thesis by (simp add: loop_socket_def Let_def)
  qed
qed

lemma loop_polled_ok:
  assumes "settled s"
  obtains s' where "loop_polled sys sc gc run ret ev sk s = Some s'" "settled s'" "sy_pc s' \<in> {Loop_top, Ended}"
    "0 \<le> ret \<and> (ret = 0 \<or> ev) \<and> (sy_reconnect s \<or> sy_stop s) \<longrightarrow> \<not> is_connected (sy_world s') \<and>
       reqs_list (sy_world s') = [] \<and> \<not> sy_reconnect s' \<and> \<not> sy_stop s'"
    "life_kept (sy_world s) (sy_world s')"
proof (cases "ret < 0")
  case True
  with assms that[of "s\<lparr>sy_pc := Ended\<rparr>"] show thesis by (simp add: loop_polled_def settled_def)
next
  case False
  define s1 where "s1 = (if ev then s\<lparr>sy_event := 0\<rparr> else s)"
  have s1: "settled s1" using assms by (simp add: s1_def settled_def)
  have f: "sy_reconnect s1 = sy_reconnect s" "sy_stop s1 = sy_stop s" "sy_world s1 = sy_world s" by (simp_all add: s1_def)
  have top: "settled (s2\<lparr>sy_pc := Loop_top\<rparr>)" if "settled s2" for s2 using that by (simp add: settled_def)
  show thesis
  proof (cases "ret = 0 \<or> ev")
    case occurred: True
    obtain c s2 where e: "loop_event sys sc run s1 = Some (c, s2)" "settled s2"
      "c \<longrightarrow> \<not> is_connected (sy_world s2) \<and> reqs_list (sy_world s2) = []"
      "sy_reconnect s1 \<or> sy_stop s1 \<longrightarrow> c" "\<not> sy_reconnect s2" "\<not> sy_stop s2"
      "life_kept (sy_world s) (sy_world s2)"
      using loop_event_ok[OF s1, of sys sc] f(3) by metis
    show thesis
    proof (cases "\<not> c \<and> sk")
      case True
      obtain s3 where s3: "loop_socket sys sc gc run s2 = Some s3" "settled s3" "life_kept (sy_world s2) (sy_world s3)"
        by (rule loop_socket_ok[OF e(2)])
      show thesis
        by (rule that[of "s3\<lparr>sy_pc := Loop_top\<rparr>"])
          (use False occurred True e s3 f top life_kept_trans[OF e(7) s3(3)] in
            \<open>simp_all add: loop_polled_def Let_def s1_def[symmetric]\<close>)
    next
      case no: False
      show thesis
        by (rule that[of "s2\<lparr>sy_pc := Loop_top\<rparr>"])
          (use False occurred no e f top in \<open>auto simp: loop_polled_def Let_def s1_def[symmetric]\<close>)
    qed
  next
    case quiet: False
    show thesis
    proof (cases sk)
      case True
      obtain s3 where s3: "loop_socket sys sc gc run s1 = Some s3" "settled s3" "life_kept (sy_world s) (sy_world s3)"
        using loop_socket_ok[OF s1] f(3) by metis
      show thesis
        by (rule that[of "s3\<lparr>sy_pc := Loop_top\<rparr>"])
          (use False quiet True s3 top in \<open>simp_all add: loop_polled_def Let_def s1_def\<close>)
    next
      case no: False
      show thesis
        by (rule that[of "s1\<lparr>sy_pc := Loop_top\<rparr>"])
          (use False quiet no s1 top in \<open>simp_all add: loop_polled_def Let_def s1_def\<close>)
    qed
  qed
qed

lemma system_ok_settled: "system_ok s \<Longrightarrow> settled s"
  by (simp add: system_ok_def settled_def)

lemma settled_system_ok:
  assumes "settled s" and "sy_pc s \<in> {Wait_start, Flush_flag, Flush_event, Connecting} \<Longrightarrow> \<not> is_connected (sy_world s)"
    and "sy_pc s \<in> {Preparing, Polling} \<Longrightarrow> is_connected (sy_world s)"
  shows "system_ok s"
  using assms by (auto simp: system_ok_def settled_def)

lemma loop_connect_ok:
  assumes "system_ok s" and "sy_pc s = Connecting" and "errno_ok lib"
    and "\<And>f w. world_ok w \<Longrightarrow> cb_step w (oc f w)" and "loop_connect lib sc gc ot oc s = Some s'"
  shows "system_ok s'"
proof -
  obtain e s1 where c: "client_connect lib sc gc ot oc s = Some (e, s1)"
    using assms(5) by (auto simp: loop_connect_def split: option.splits)
  have "client_ok (sy_world s)" "\<not> is_connected (sy_world s)" using assms(1,2) by (simp_all add: system_ok_def)
  from client_connect_ok[OF this(1) assms(3) this(2) assms(4) c]
  have s1: "settled s1" "e = 0 \<longleftrightarrow> is_connected (sy_world s1)" by blast+
  show ?thesis
  proof (cases "e = 0")
    case False
    with assms(5) c s1 show ?thesis by (auto simp: loop_connect_def system_ok_def settled_def)
  next
    case True
    have q: "quiet s1 ((restart_expiries lib sc s1)\<lparr>sy_pc := Preparing\<rparr>)"
      using quiet_restart[OF settled_world[OF s1(1)], of lib sc] by (simp add: quiet_def)
    have s': "s' = (restart_expiries lib sc s1)\<lparr>sy_pc := Preparing\<rparr>"
      using assms(5) c True by (simp add: loop_connect_def)
    show ?thesis
      by (rule settled_system_ok) (use settled_quiet[OF s1(1) q] q s1(2) True s' in \<open>auto simp: quiet_def rx_step_def\<close>)
  qed
qed

lemma main_step_ok:
  assumes "main_step lib sc gc ot oc run s s'" and "system_ok s" and "errno_ok lib" and "ack_timeout_ok lib"
    and "\<And>f w. world_ok w \<Longrightarrow> cb_step w (oc f w)"
  shows "system_ok s'"
  using assms(1)
proof (cases rule: main_stepE[consumes 1, case_names main_idle main_go_on main_started main_flush_flag main_flush_event main_connect main_prepare main_polled])
  case main_connect
  then show ?thesis using loop_connect_ok[OF assms(2) main_connect(1) assms(3) _ main_connect(2)] assms(5) by blast
next
  case main_prepare
  obtain s2 where s2: "loop_prepare lib run s = Some s2" "settled s2" "sy_pc s2 = Polling"
    "is_connected (sy_world s2) = is_connected (sy_world s)"
    by (rule loop_prepare_ok[OF system_ok_settled[OF assms(2)] assms(4)])
  moreover have "s' = s2" "is_connected (sy_world s)"
    using main_prepare s2(1) assms(2) by (simp_all add: system_ok_def)
  ultimately show ?thesis by (intro settled_system_ok) simp_all
next
  case (main_polled ret ev sk)
  obtain s2 where s2: "loop_polled lib sc gc run ret ev sk s = Some s2" "settled s2" "sy_pc s2 \<in> {Loop_top, Ended}"
    by (rule loop_polled_ok[OF system_ok_settled[OF assms(2)]])
  moreover have "s' = s2" using main_polled s2(1) by simp
  ultimately show ?thesis by (intro settled_system_ok) auto
qed (use assms(2) in \<open>auto simp: system_ok_def client_ok_def\<close>)

lemma main_step_kept:
  assumes "main_step lib sc gc ot oc run s s'" and "system_ok s" and "ack_timeout_ok lib"
  shows "life_kept (sy_world s) (sy_world s') \<or> \<not> is_connected (sy_world s)"
  using assms(1)
proof (cases rule: main_stepE[consumes 1, case_names main_idle main_go_on main_started main_flush_flag main_flush_event main_connect main_prepare main_polled])
  case main_connect
  then show ?thesis using assms(2) by (simp add: system_ok_def)
next
  case main_prepare
  obtain s2 where "loop_prepare lib run s = Some s2" "life_kept (sy_world s) (sy_world s2)"
    by (rule loop_prepare_ok[OF system_ok_settled[OF assms(2)] assms(3)])
  with main_prepare show ?thesis by simp
next
  case (main_polled ret ev sk)
  obtain s2 where "loop_polled lib sc gc run ret ev sk s = Some s2" "life_kept (sy_world s) (sy_world s2)"
    by (rule loop_polled_ok[OF system_ok_settled[OF assms(2)]])
  with main_polled show ?thesis by simp
qed simp_all

lemma other_step_ok:
  assumes "other_step lib sc s s'" and "system_ok s"
  shows "system_ok s'"
  using assms(1)
proof (cases rule: other_stepE[consumes 1, case_names other_start other_stop other_reconnect other_wakeup other_timer other_request])
  case (other_request w)
  then show ?thesis
    using assms(2) cb_stepD[OF other_request(2)] by (auto simp: system_ok_def client_ok_def)
qed (use assms(2) in \<open>auto simp: system_ok_def golioth_system_client_start_def golioth_system_client_stop_def
    golioth_system_client_request_reconnect_def golioth_system_client_wakeup_def eventfd_timeout_handle_def
    client_notify_timeout_def Let_def\<close>)

text \<open>Other threads only add calls.\<close>

lemma other_step_adds:
  assumes "other_step lib sc s s'" and "system_ok s"
  shows "is_connected (sy_world s') = is_connected (sy_world s) \<and>
    (\<exists>new. pending_calls (sy_world s') = pending_calls (sy_world s) @ new)"
  using assms(1)
proof (cases rule: other_stepE[consumes 1, case_names other_start other_stop other_reconnect other_wakeup other_timer other_request])
  case (other_request w)
  have "world_ok (sy_world s)" using assms(2) by (simp add: system_ok_def client_ok_def)
  from pending_calls_cb_step[OF this other_request(2)] show ?thesis
    using cb_stepD[OF other_request(2)] other_request(1) by auto
qed (simp_all add: golioth_system_client_start_def golioth_system_client_stop_def
    golioth_system_client_request_reconnect_def golioth_system_client_wakeup_def eventfd_timeout_handle_def
    client_notify_timeout_def Let_def)

lemma system_reaches_ok:
  assumes "system_reaches lib sc gc ot oc run s s'" and "system_ok s" and "errno_ok lib" and "ack_timeout_ok lib"
    and "\<And>f w. world_ok w \<Longrightarrow> cb_step w (oc f w)"
  shows "system_ok s'"
  using assms(1,2)
  by (induction rule: system_reaches.induct) (auto intro: main_step_ok[OF _ _ assms(3-5)] other_step_ok)

text \<open>
  The thread only stops to wait: for the start, for the socket or an event, or for a name lookup.
\<close>

lemma main_progress:
  assumes "system_ok s" and "ack_timeout_ok lib" and "sy_pc s \<noteq> Ended"
    and "sy_pc s = Wait_start \<longrightarrow> sy_started s" and "sy_pc s = Polling \<longrightarrow> 0 < sy_event s"
    and "sy_pc s = Connecting \<longrightarrow> \<not> sconf_openthread sc"
  shows "\<exists>s'. main_step lib sc gc ot oc run s s'"
proof (cases "sy_pc s")
  case Loop_top
  then show ?thesis
    using main_idle[of s lib sc gc ot oc run] main_go_on[of s lib sc gc ot oc run] by fastforce
next
  case Wait_start
  then show ?thesis using assms(4) main_started[of s lib sc gc ot oc run] by (auto simp: wait_for_client_start_def)
next
  case Flush_flag
  then show ?thesis using main_flush_flag by blast
next
  case Flush_event
  then show ?thesis using main_flush_event by blast
next
  case Connecting
  obtain e w where "golioth_connect lib gc oc (ot_addr (sy_ot s)) (sconf_server_port sc) (sy_world s) = (e, w)"
    by fastforce
  then have "\<exists>s'. loop_connect lib sc gc ot oc s = Some s'"
    using Connecting assms(6) by (simp add: loop_connect_def client_connect_def Let_def)
  then show ?thesis using main_connect[OF Connecting] by blast
next
  case Preparing
  then show ?thesis
    using main_prepare[OF Preparing] loop_prepare_ok[OF system_ok_settled[OF assms(1)] assms(2)] by metis
next
  case Polling
  then have r: "poll_returns s 1 True False" using assms(5) by (simp add: poll_returns_def)
  show ?thesis
    using main_polled[OF Polling r, of lib sc gc run] loop_polled_ok[OF system_ok_settled[OF assms(1)], of lib sc gc 1 True False]
    by metis
next
  case Ended
  with assms(3) show ?thesis by simp
qed

text \<open>
  A request to stop or to reconnect that finds the thread polling makes its next step a
  disconnection (unless the poll fails).
\<close>

lemma request_disconnects:
  assumes "main_step lib sc gc ot oc run s s'" and "system_ok s" and "sy_pc s = Polling"
    and "sy_stop s \<or> sy_reconnect s" and "0 < sy_event s" and "sy_pc s' \<noteq> Ended"
  shows "\<not> is_connected (sy_world s') \<and> reqs_list (sy_world s') = [] \<and> \<not> sy_stop s' \<and> \<not> sy_reconnect s'"
  using assms(1)
proof (cases rule: main_stepE[consumes 1, case_names main_idle main_go_on main_started main_flush_flag main_flush_event main_connect main_prepare main_polled])
  case (main_polled ret ev sk)
  have "0 \<le> ret"
  proof (rule ccontr)
    assume "\<not> 0 \<le> ret"
    with main_polled assms(6) show False by (auto simp: loop_polled_def)
  qed
  moreover from this main_polled assms(5) have "ev" by (simp add: poll_returns_def)
  ultimately show ?thesis
    using loop_polled_ok[OF system_ok_settled[OF assms(2)], of lib sc gc ret ev sk] main_polled assms(4)
    by (metis option.inject)
qed (use assms(3) in simp_all)

end

section \<open>Requests that are lost or late\<close>

text \<open>
  The flag of a stop request survives the start that follows it: the connection it asked to end
  is the next one. The event that went with it is gone by then, and a further request does not
  write another one.
\<close>

lemma stop_survives_restart:
  assumes "main_step lib sc gc ot oc run s1 s2" and "main_step lib sc gc ot oc run s2 s3"
    and "main_step lib sc gc ot oc run s3 s4" and "sy_pc s1 = Wait_start" and "sy_stop s1"
  shows "sy_pc s4 = Connecting \<and> sy_stop s4 \<and> sy_event s4 = 0 \<and>
    sy_event (golioth_system_client_stop s4) = 0"
proof -
  have s2: "s2 = s1\<lparr>sy_pc := Flush_flag\<rparr>" using assms(1,4) by (auto elim: main_stepE)
  then have s3: "s3 = s2\<lparr>sy_reconnect := False, sy_pc := Flush_event\<rparr>" using assms(2) by (auto elim: main_stepE)
  then have "s4 = s3\<lparr>sy_event := 0, sy_pc := Connecting\<rparr>" using assms(3) by (auto elim: main_stepE)
  with s2 s3 assms(5) show ?thesis by (simp add: golioth_system_client_stop_def Let_def)
qed

text \<open>
  A reconnect request between the two flushes keeps its flag and loses its event.
\<close>

lemma reconnect_between_flushes:
  assumes "sy_pc s = Flush_event" and "\<not> sy_reconnect s"
    and "main_step lib sc gc ot oc run (golioth_system_client_request_reconnect s) s'"
  shows "sy_reconnect s' \<and> sy_event s' = 0"
proof -
  have "s' = (golioth_system_client_request_reconnect s)\<lparr>sy_event := 0, sy_pc := Connecting\<rparr>"
    using assms by (auto simp: golioth_system_client_request_reconnect_def elim: main_stepE)
  with assms(2) show ?thesis by (simp add: golioth_system_client_request_reconnect_def)
qed

section \<open>Credentials\<close>

lemma contains_char_iff: "contains_char xs c \<longleftrightarrow> c \<in> set xs"
  by (induction xs) auto

text \<open>
  A start with pre-shared keys needs an identity with an @ in it and a non-empty key, or a store that is not readable.
\<close>

lemma psk_start_iff:
  assumes "sconf_auth sc = AUTH_PSK" and "\<not> sy_started s"
    and "tls_credential_get lib (sconf_tag sc) TLS_CREDENTIAL_PSK_ID (sconf_psk_id_max_len sc) (w_env (sy_world s)) = (e1, psk_id, n1)"
    and "tls_credential_get lib (sconf_tag sc) TLS_CREDENTIAL_PSK (sconf_psk_max_len sc) (w_env (sy_world s)) = (e2, psk, n2)"
    and "e1 \<le> 0" and "e2 \<le> 0"
  shows "sy_started (golioth_system_client_start lib sc s) \<longleftrightarrow>
    e1 = - EACCES \<or> (e1 = 0 \<and> 0x40 \<in> set psk_id \<and> (e2 = - EACCES \<or> e2 = 0 \<and> psk \<noteq> []))"
  using assms
  by (auto simp: golioth_system_client_start_def golioth_check_psk_credentials_def Let_def
      golioth_psk_id_is_valid_def golioth_psk_is_valid_def contains_char_iff)

section \<open>Initialisation\<close>

lemma golioth_system_init_ok:
  assumes "fresh_ok (sy_world s)" and "w_reqs (sy_world s) = Map.empty" and "w_bufs (sy_world s) = Map.empty"
    and "\<not> w_fault (sy_world s)" and "\<And>p. sync_ok False (w_syncs (sy_world s) p)" and "sy_pc s = Loop_top"
    and "golioth_system_init lib sc s = (e, s')"
  shows "system_ok s' \<and> \<not> is_connected (sy_world s') \<and> e = 0 \<and> sy_pc s' = Loop_top"
proof -
  let ?w = "golioth_init (sy_world s)"
  have w: "client_ok ?w" "\<not> is_connected ?w" by (rule golioth_init_ok[OF assms(1-5)])+
  have step: "client_ok (upd_client f w) \<and> \<not> is_connected (upd_client f w)"
    if "client_ok w \<and> \<not> is_connected w" and "\<And>c. cl_coap_reqs (f c) = cl_coap_reqs c"
      and "\<And>c. cl_coap_reqs_connected (f c) = cl_coap_reqs_connected c" and "\<And>c. cl_sock (f c) = cl_sock c"
      and "\<And>c. cl_settings (f c) = cl_settings c" for w f
    using that(1) cb_stepD[OF cb_step_upd_client[OF _ that(2-5)], of w]
    by (auto simp: client_ok_def)
  have same: "client_ok w2 \<and> \<not> is_connected w2" if "client_ok w1 \<and> \<not> is_connected w1" "env_read g w1 = (x, w2)"
    for w1 w2 g and x :: int
    using that client_ok_rx_step[OF _ rx_step_same_but_env] same_but_envD(1)
    by (metis client_ok_def same_but_env_read)
  let ?P = "\<lambda>s. (client_ok (sy_world s) \<and> \<not> is_connected (sy_world s)) \<and> sy_pc s = Loop_top"
  define w1 where "w1 = upd_client (\<lambda>c. c\<lparr>cl_rx_buffer := replicate (sconf_rx_buf_size sc) 0,
    cl_rx_buffer_len := sconf_rx_buf_size sc, cl_wakeup := Some Golioth_system_client_wakeup\<rparr>) ?w"
  define w2 where "w2 = upd_client (\<lambda>c. c\<lparr>cl_proto := IPPROTO_DTLS_1_2, cl_sec_tag_list := Some [sconf_tag sc],
    cl_sec_tag_count := Suc 0\<rparr>) w1"
  have w2: "client_ok w2 \<and> \<not> is_connected w2"
    unfolding w2_def by (rule step, unfold w1_def, rule step) (use w in simp_all)
  obtain fd w3 where fd: "env_read (eventfd_create lib) w2 = (fd, w3)" by fastforce
  note w3 = same[OF w2 fd]
  have id: "upd_client (\<lambda>_. w_client w3) w3 = w3" by (simp add: upd_client_def)
  have "client_initialize lib sc s = (0, s\<lparr>sy_world := w3, sy_fd_event := fd,
      sy_log_client := sy_log_client s \<or> sconf_log_backend sc\<rparr>)"
    by (simp add: client_initialize_def w1_def[symmetric] golioth_set_proto_coap_dtls_def
        w2_def[symmetric] fd golioth_rpc_init_def Let_def id)
  moreover have "?P (snd (init_tls lib sc s1))" if "?P s1" for s1
  proof -
    obtain x w4 where "env_read (tls_credential_add lib (sconf_tag sc) TLS_CREDENTIAL_CA_CERTIFICATE (sconf_ca_crt sc))
        (sy_world s1) = (x, w4)" by fastforce
    with that same[OF _ this] show ?thesis by (simp add: init_tls_def init_tls_auth_cert_def)
  qed
  ultimately have "e = 0" "?P s'" using assms(6,7) w3 by (auto simp: golioth_system_init_def)
  then show ?thesis by (simp add: system_ok_def)
qed

end
