(* ===== verification/SockWrapper.thy ===== *)
theory SockWrapper
  imports Prelude
begin

text \<open>
  \<^verbatim>\<open>net/sockets/sockets_offload_poll_wrapper.c\<close>: sockets whose \<^verbatim>\<open>poll\<close> runs in a thread of its own,
  so that it can be waited for together with other events.

  A pointer to a context is its index in the table. The socket layer below is a parameter. The
  work item that polls is in a queue, running, or neither; it takes the descriptor when it starts.
  The code holds the lock over each change of the table, which is one step here.
\<close>

section \<open>The socket layer and the table\<close>

datatype sock_op =
    Shutdown int | Bind "u8 list" | Connect "u8 list" | Listen int | Accept
  | Sendto "u8 list" int "u8 list option" | Sendmsg "u8 list list" int | Recvfrom nat int
  | Getsockopt int int | Setsockopt int int "u8 list" | Getpeername | Getsockname

record 'e sock_family =
  sf_is_wrapper :: bool
  sf_family :: int
  sf_is_supported :: "int \<Rightarrow> int \<Rightarrow> int \<Rightarrow> bool"
  sf_is_offloaded :: bool
  sf_handler :: "int \<Rightarrow> int \<Rightarrow> int \<Rightarrow> 'e \<Rightarrow> int \<times> 'e"

text \<open>\<open>sl_call\<close> runs an operation on a descriptor; its second result is data it gives back.\<close>

record 'e sock_layer =
  sl_families :: "'e sock_family list"
  sl_call :: "int \<Rightarrow> sock_op \<Rightarrow> 'e \<Rightarrow> int \<times> u8 list \<times> 'e"
  sl_poll :: "int \<Rightarrow> 'e \<Rightarrow> int \<times> 'e"
  sl_close :: "int \<Rightarrow> 'e \<Rightarrow> int \<times> 'e"
  sl_reserve_fd :: "'e \<Rightarrow> int \<times> 'e"
  sl_has_obj :: "int \<Rightarrow> 'e \<Rightarrow> bool"
  sl_ioctl_poll_prepare :: "int \<Rightarrow> 'e \<Rightarrow> int \<times> 'e"
  sl_ioctl :: "int \<Rightarrow> nat \<Rightarrow> 'e \<Rightarrow> int \<times> 'e"

abbreviation (input) AF_UNSPEC :: int where "AF_UNSPEC \<equiv> 0"
abbreviation (input) EXDEV :: int where "EXDEV \<equiv> 18"

record wrapper_context =
  wc_fd :: int
  wc_my_fd :: int
  wc_is_used :: bool
  wc_signal :: "int option"
  wc_queued :: bool
  wc_running :: "int option"
  wc_work_q :: bool

record 'e wrapper_state =
  ws_contexts :: "wrapper_context list"
  ws_errno :: int
  ws_env :: 'e

abbreviation (input) wctx :: "'e wrapper_state \<Rightarrow> nat \<Rightarrow> wrapper_context" where
  "wctx s i \<equiv> ws_contexts s ! i"

definition upd_ctx :: "nat \<Rightarrow> (wrapper_context \<Rightarrow> wrapper_context) \<Rightarrow> 'e wrapper_state \<Rightarrow> 'e wrapper_state" where
  "upd_ctx i f s = s\<lparr>ws_contexts := (ws_contexts s)[i := f (wctx s i)]\<rparr>"

definition ws_read :: "('e \<Rightarrow> 'a \<times> 'e) \<Rightarrow> 'e wrapper_state \<Rightarrow> 'a \<times> 'e wrapper_state" where
  "ws_read f s = (case f (ws_env s) of (x, e) \<Rightarrow> (x, s\<lparr>ws_env := e\<rparr>))"

section \<open>Initialisation\<close>

text \<open>Static storage is zero.\<close>

definition zero_context :: wrapper_context where
  "zero_context = \<lparr>wc_fd = 0, wc_my_fd = 0, wc_is_used = False, wc_signal = None, wc_queued = False,
     wc_running = None, wc_work_q = False\<rparr>"

definition sock_wrapper_init :: "'e wrapper_state \<Rightarrow> int \<times> 'e wrapper_state" where
  "sock_wrapper_init s =
     (0, s\<lparr>ws_contexts := map (\<lambda>c. c\<lparr>wc_signal := None, wc_queued := False, wc_running := None, wc_work_q := True\<rparr>)
                            (ws_contexts s)\<rparr>)"

definition wrapper_ctx_free :: "nat \<Rightarrow> 'e wrapper_state \<Rightarrow> 'e wrapper_state" where
  "wrapper_ctx_free i = upd_ctx i (\<lambda>c. c\<lparr>wc_fd := - 1, wc_my_fd := - 1, wc_is_used := False\<rparr>)"

definition wrapper_is_supported :: "int \<Rightarrow> int \<Rightarrow> int \<Rightarrow> bool" where
  "wrapper_is_supported family type proto = True"

section \<open>Polling\<close>

text \<open>\<^verbatim>\<open>sock_wrapper_poll_handler\<close>, where the work starts and when the poll has returned.\<close>

definition poll_handler_begin :: "nat \<Rightarrow> 'e wrapper_state \<Rightarrow> 'e wrapper_state" where
  "poll_handler_begin i s =
     upd_ctx i (\<lambda>c. c\<lparr>wc_queued := False, wc_running := Some (wc_fd c)\<rparr>) s"

definition poll_handler_end :: "('e, 'x) sock_layer_scheme \<Rightarrow> nat \<Rightarrow> 'e wrapper_state \<Rightarrow> 'e wrapper_state" where
  "poll_handler_end sl i s =
     (case wc_running (wctx s i) of
        None \<Rightarrow> s
      | Some fd \<Rightarrow>
          (case ws_read (sl_poll sl fd) s of
             (retval, s1) \<Rightarrow> upd_ctx i (\<lambda>c. c\<lparr>wc_signal := Some retval, wc_running := None\<rparr>) s1))"

text \<open>
  \<open>room\<close> is the number of events left; the second result tells whether one was taken.
\<close>

definition sock_wrapper_poll_prepare_ctx ::
  "nat \<Rightarrow> bool \<Rightarrow> bool \<Rightarrow> nat \<Rightarrow> 'e wrapper_state \<Rightarrow> int \<times> bool \<times> 'e wrapper_state" where
  "sock_wrapper_poll_prepare_ctx i pollin pollout room s =
     (if pollin \<and> room = 0 then (- ENOMEM, False, s)
      else if pollout then (- ENOTSUP, pollin, s)
      else (0, pollin, upd_ctx i (\<lambda>c. c\<lparr>wc_queued := True\<rparr>) s))"

text \<open>\<open>ready\<close>: the event's state is not \<^verbatim>\<open>K_POLL_STATE_NOT_READY\<close>. The second result is the new \<^verbatim>\<open>ZSOCK_POLLIN\<close>.\<close>

definition sock_wrapper_poll_update_ctx ::
  "nat \<Rightarrow> bool \<Rightarrow> bool \<Rightarrow> 'e wrapper_state \<Rightarrow> int \<times> bool \<times> 'e wrapper_state" where
  "sock_wrapper_poll_update_ctx i pollin ready s =
     (if pollin \<and> ready then (0, True, upd_ctx i (\<lambda>c. c\<lparr>wc_signal := None\<rparr>) s) else (0, False, s))"

datatype ioctl_request = Poll_prepare bool bool nat | Poll_update bool bool | Other_request nat

definition sock_wrapper_ioctl_vmeth ::
  "('e, 'x) sock_layer_scheme \<Rightarrow> nat \<Rightarrow> ioctl_request \<Rightarrow> 'e wrapper_state \<Rightarrow> int \<times> bool \<times> 'e wrapper_state" where
  "sock_wrapper_ioctl_vmeth sl i request s =
     (case request of
        Poll_prepare pollin pollout room \<Rightarrow> sock_wrapper_poll_prepare_ctx i pollin pollout room s
      | Poll_update pollin ready \<Rightarrow> sock_wrapper_poll_update_ctx i pollin ready s
      | Other_request n \<Rightarrow>
          if \<not> sl_has_obj sl (wc_fd (wctx s i)) (ws_env s) then (- 1, False, s)
          else (case ws_read (sl_ioctl sl (wc_fd (wctx s i)) n) s of (ret, s1) \<Rightarrow> (ret, False, s1)))"

section \<open>Operations that are passed on\<close>

definition wrapped ::
  "('e, 'x) sock_layer_scheme \<Rightarrow> nat \<Rightarrow> sock_op \<Rightarrow> 'e wrapper_state \<Rightarrow> int \<times> u8 list \<times> 'e wrapper_state" where
  "wrapped sl i op s =
     (case sl_call sl (wc_fd (wctx s i)) op (ws_env s) of (ret, d, e) \<Rightarrow> (ret, d, s\<lparr>ws_env := e\<rparr>))"

definition sock_wrapper_shutdown_vmeth ::
  "('e, 'x) sock_layer_scheme \<Rightarrow> nat \<Rightarrow> int \<Rightarrow> 'e wrapper_state \<Rightarrow> int \<times> u8 list \<times> 'e wrapper_state" where
  "sock_wrapper_shutdown_vmeth sl i how = wrapped sl i (Shutdown how)"

definition sock_wrapper_bind_vmeth ::
  "('e, 'x) sock_layer_scheme \<Rightarrow> nat \<Rightarrow> u8 list \<Rightarrow> 'e wrapper_state \<Rightarrow> int \<times> u8 list \<times> 'e wrapper_state" where
  "sock_wrapper_bind_vmeth sl i addr = wrapped sl i (Bind addr)"

definition sock_wrapper_connect_vmeth ::
  "('e, 'x) sock_layer_scheme \<Rightarrow> nat \<Rightarrow> u8 list \<Rightarrow> 'e wrapper_state \<Rightarrow> int \<times> u8 list \<times> 'e wrapper_state" where
  "sock_wrapper_connect_vmeth sl i addr = wrapped sl i (Connect addr)"

definition sock_wrapper_listen_vmeth ::
  "('e, 'x) sock_layer_scheme \<Rightarrow> nat \<Rightarrow> int \<Rightarrow> 'e wrapper_state \<Rightarrow> int \<times> u8 list \<times> 'e wrapper_state" where
  "sock_wrapper_listen_vmeth sl i backlog = wrapped sl i (Listen backlog)"

definition sock_wrapper_accept_vmeth ::
  "('e, 'x) sock_layer_scheme \<Rightarrow> nat \<Rightarrow> 'e wrapper_state \<Rightarrow> int \<times> u8 list \<times> 'e wrapper_state" where
  "sock_wrapper_accept_vmeth sl i = wrapped sl i Accept"

definition sock_wrapper_sendto_vmeth ::
  "('e, 'x) sock_layer_scheme \<Rightarrow> nat \<Rightarrow> u8 list \<Rightarrow> int \<Rightarrow> u8 list option \<Rightarrow> 'e wrapper_state
     \<Rightarrow> int \<times> u8 list \<times> 'e wrapper_state" where
  "sock_wrapper_sendto_vmeth sl i buf flags addr = wrapped sl i (Sendto buf flags addr)"

definition sock_wrapper_sendmsg_vmeth ::
  "('e, 'x) sock_layer_scheme \<Rightarrow> nat \<Rightarrow> u8 list list \<Rightarrow> int \<Rightarrow> 'e wrapper_state
     \<Rightarrow> int \<times> u8 list \<times> 'e wrapper_state" where
  "sock_wrapper_sendmsg_vmeth sl i iov flags = wrapped sl i (Sendmsg iov flags)"

definition sock_wrapper_recvfrom_vmeth ::
  "('e, 'x) sock_layer_scheme \<Rightarrow> nat \<Rightarrow> nat \<Rightarrow> int \<Rightarrow> 'e wrapper_state \<Rightarrow> int \<times> u8 list \<times> 'e wrapper_state" where
  "sock_wrapper_recvfrom_vmeth sl i max_len flags = wrapped sl i (Recvfrom max_len flags)"

definition sock_wrapper_read_vmeth ::
  "('e, 'x) sock_layer_scheme \<Rightarrow> nat \<Rightarrow> nat \<Rightarrow> 'e wrapper_state \<Rightarrow> int \<times> u8 list \<times> 'e wrapper_state" where
  "sock_wrapper_read_vmeth sl i count = sock_wrapper_recvfrom_vmeth sl i count 0"

definition sock_wrapper_write_vmeth ::
  "('e, 'x) sock_layer_scheme \<Rightarrow> nat \<Rightarrow> u8 list \<Rightarrow> 'e wrapper_state \<Rightarrow> int \<times> u8 list \<times> 'e wrapper_state" where
  "sock_wrapper_write_vmeth sl i buffer = sock_wrapper_sendto_vmeth sl i buffer 0 None"

definition sock_wrapper_getsockopt_vmeth ::
  "('e, 'x) sock_layer_scheme \<Rightarrow> nat \<Rightarrow> int \<Rightarrow> int \<Rightarrow> 'e wrapper_state \<Rightarrow> int \<times> u8 list \<times> 'e wrapper_state" where
  "sock_wrapper_getsockopt_vmeth sl i level optname = wrapped sl i (Getsockopt level optname)"

definition sock_wrapper_setsockopt_vmeth ::
  "('e, 'x) sock_layer_scheme \<Rightarrow> nat \<Rightarrow> int \<Rightarrow> int \<Rightarrow> u8 list \<Rightarrow> 'e wrapper_state
     \<Rightarrow> int \<times> u8 list \<times> 'e wrapper_state" where
  "sock_wrapper_setsockopt_vmeth sl i level optname optval = wrapped sl i (Setsockopt level optname optval)"

definition sock_wrapper_getpeername_vmeth ::
  "('e, 'x) sock_layer_scheme \<Rightarrow> nat \<Rightarrow> 'e wrapper_state \<Rightarrow> int \<times> u8 list \<times> 'e wrapper_state" where
  "sock_wrapper_getpeername_vmeth sl i = wrapped sl i Getpeername"

definition sock_wrapper_getsockname_vmeth ::
  "('e, 'x) sock_layer_scheme \<Rightarrow> nat \<Rightarrow> 'e wrapper_state \<Rightarrow> int \<times> u8 list \<times> 'e wrapper_state" where
  "sock_wrapper_getsockname_vmeth sl i = wrapped sl i Getsockname"

section \<open>Creating and closing\<close>

text \<open>The search for the family below; the second result is \<^verbatim>\<open>*is_offloaded\<close>, where it is set.\<close>

fun find_family :: "'e sock_family list \<Rightarrow> int \<Rightarrow> int \<Rightarrow> int \<Rightarrow> 'e sock_family option" where
  "find_family [] family type proto = None"
| "find_family (f # fs) family type proto =
     (if sf_is_wrapper f then find_family fs family type proto
      else if sf_family f \<noteq> family \<and> sf_family f \<noteq> AF_UNSPEC then find_family fs family type proto
      else if \<not> sf_is_supported f family type proto then find_family fs family type proto
      else Some f)"

definition sock_wrapper_socket ::
  "('e, 'x) sock_layer_scheme \<Rightarrow> int \<Rightarrow> int \<Rightarrow> int \<Rightarrow> 'e wrapper_state \<Rightarrow> int \<times> bool \<times> 'e wrapper_state" where
  "sock_wrapper_socket sl family type proto s =
     (case find_family (sl_families sl) family type proto of
        Some f \<Rightarrow>
          (case ws_read (sf_handler f family type proto) s of (fd, s1) \<Rightarrow> (fd, sf_is_offloaded f, s1))
      | None \<Rightarrow> (- 1, False, s\<lparr>ws_errno := EAFNOSUPPORT\<rparr>))"

text \<open>The second look at a socket that is not registered as offloaded.\<close>

definition offloaded_after_all ::
  "('e, 'x) sock_layer_scheme \<Rightarrow> int \<Rightarrow> 'e wrapper_state \<Rightarrow> bool \<times> 'e wrapper_state" where
  "offloaded_after_all sl fd s =
     (if sl_has_obj sl fd (ws_env s)
      then (case ws_read (sl_ioctl_poll_prepare sl fd) s of (ret, s1) \<Rightarrow> (ret = - EXDEV, s1))
      else (False, s))"

fun find_unused :: "wrapper_context list \<Rightarrow> nat \<Rightarrow> nat option" where
  "find_unused [] i = None"
| "find_unused (c # cs) i = (if wc_is_used c then find_unused cs (Suc i) else Some i)"

definition wrap_fd ::
  "('e, 'x) sock_layer_scheme \<Rightarrow> int \<Rightarrow> 'e wrapper_state \<Rightarrow> int \<times> 'e wrapper_state" where
  "wrap_fd sl fd s =
     (case find_unused (ws_contexts s) 0 of
        None \<Rightarrow> (- 1, snd (ws_read (sl_close sl fd) (s\<lparr>ws_errno := ENOMEM\<rparr>)))
      | Some i \<Rightarrow>
          (case ws_read (sl_reserve_fd sl) (upd_ctx i (\<lambda>c. c\<lparr>wc_is_used := True, wc_fd := fd\<rparr>) s) of
             (my_fd, s1) \<Rightarrow>
               if my_fd < 0 then (- 1, snd (ws_read (sl_close sl fd) (wrapper_ctx_free i s1)))
               else (my_fd, upd_ctx i (\<lambda>c. c\<lparr>wc_my_fd := my_fd\<rparr>) s1)))"

definition sock_wrapper_create ::
  "('e, 'x) sock_layer_scheme \<Rightarrow> int \<Rightarrow> int \<Rightarrow> int \<Rightarrow> 'e wrapper_state \<Rightarrow> int \<times> 'e wrapper_state" where
  "sock_wrapper_create sl family type proto s =
     (case sock_wrapper_socket sl family type proto s of
        (fd, is_offloaded, s1) \<Rightarrow>
          if fd < 0 then (fd, s1)
          else
            (case (if \<not> is_offloaded then offloaded_after_all sl fd s1 else (True, s1)) of
               (is_offloaded, s2) \<Rightarrow> if \<not> is_offloaded then (fd, s2) else wrap_fd sl fd s2))"

text \<open>\<^verbatim>\<open>k_work_cancel_sync\<close> waits for a running poll; the socket is closed by then.\<close>

definition sock_wrapper_close_vmeth ::
  "('e, 'x) sock_layer_scheme \<Rightarrow> nat \<Rightarrow> 'e wrapper_state \<Rightarrow> int \<times> 'e wrapper_state" where
  "sock_wrapper_close_vmeth sl i s =
     (let s1 = upd_ctx i (\<lambda>c. c\<lparr>wc_queued := False\<rparr>) s;
          s2 = snd (ws_read (sl_close sl (wc_fd (wctx s1 i))) s1);
          s3 = poll_handler_end sl i s2
      in (0, wrapper_ctx_free i s3))"

section \<open>The table of contexts\<close>

text \<open>
  \<open>fds\<close> reads the open descriptors off the environment. The wrapped descriptors and those
  handed out in their place are open and all different.
\<close>

definition fd_result :: "('e \<Rightarrow> int set) \<Rightarrow> 'e \<Rightarrow> int \<Rightarrow> 'e \<Rightarrow> bool" where
  "fd_result fds e r e' \<longleftrightarrow>
     (if r < 0 then fds e' = fds e else r \<notin> fds e \<and> fds e' = insert r (fds e))"

definition sock_ledger :: "('e, 'x) sock_layer_scheme \<Rightarrow> ('e \<Rightarrow> int set) \<Rightarrow> bool" where
  "sock_ledger sl fds \<longleftrightarrow>
     (\<forall>f\<in>set (sl_families sl). \<forall>fam ty pr e r e'. sf_handler f fam ty pr e = (r, e') \<longrightarrow>
        fd_result fds e r e') \<and>
     (\<forall>e r e'. sl_reserve_fd sl e = (r, e') \<longrightarrow>
        fd_result fds e r e') \<and>
     (\<forall>fd e r e'. sl_close sl fd e = (r, e') \<longrightarrow> fds e' = fds e - {fd}) \<and>
     (\<forall>fd e r e'. sl_poll sl fd e = (r, e') \<longrightarrow> fds e' = fds e) \<and>
     (\<forall>fd e r e'. sl_ioctl_poll_prepare sl fd e = (r, e') \<longrightarrow> fds e' = fds e)"

definition table_ok :: "wrapper_context list \<Rightarrow> int set \<Rightarrow> bool" where
  "table_ok cs F \<longleftrightarrow>
     (\<forall>i<length cs. wc_is_used (cs ! i) \<longrightarrow>
        0 \<le> wc_fd (cs ! i) \<and> 0 \<le> wc_my_fd (cs ! i) \<and> wc_fd (cs ! i) \<in> F \<and> wc_my_fd (cs ! i) \<in> F \<and>
        wc_fd (cs ! i) \<noteq> wc_my_fd (cs ! i)) \<and>
     (\<forall>i<length cs. \<forall>j<length cs. i \<noteq> j \<longrightarrow> wc_is_used (cs ! i) \<longrightarrow> wc_is_used (cs ! j) \<longrightarrow>
        wc_fd (cs ! i) \<noteq> wc_fd (cs ! j) \<and> wc_my_fd (cs ! i) \<noteq> wc_my_fd (cs ! j) \<and>
        wc_fd (cs ! i) \<noteq> wc_my_fd (cs ! j))"

definition wrapper_ok :: "('e \<Rightarrow> int set) \<Rightarrow> 'e wrapper_state \<Rightarrow> bool" where
  "wrapper_ok fds s \<longleftrightarrow> table_ok (ws_contexts s) (fds (ws_env s))"

lemma table_ok_mono: "table_ok cs F \<Longrightarrow> F \<subseteq> F' \<Longrightarrow> table_ok cs F'"
  unfolding table_ok_def by blast

lemma table_ok_unused:
  assumes "table_ok cs F" and "\<not> wc_is_used c" and "i < length cs"
  shows "table_ok (cs[i := c]) F"
  using assms by (auto simp: table_ok_def nth_list_update)

text \<open>Dropping a descriptor that no other context uses.\<close>

lemma table_ok_drop:
  assumes "table_ok cs F" and "\<not> wc_is_used c" and "i < length cs" and "wc_is_used (cs ! i)"
  shows "table_ok (cs[i := c]) (F - {wc_fd (cs ! i)})"
  using assms unfolding table_ok_def
  by (simp add: nth_list_update) metis

lemma table_ok_other:
  assumes "table_ok cs F" and "fd \<notin> F"
  shows "table_ok cs (insert fd F)"
  using assms(1) by (rule table_ok_mono) blast

text \<open>Filling a free context with two descriptors that are new.\<close>

lemma table_ok_fill:
  assumes "table_ok cs F" and "a \<notin> F" and "b \<notin> insert a F" and "0 \<le> a" and "0 \<le> b" and "i < length cs"
    and "wc_fd c = a" and "wc_my_fd c = b"
  shows "table_ok (cs[i := c]) (insert b (insert a F))"
  using assms unfolding table_ok_def
  by (simp add: nth_list_update) metis

lemma find_unused_Some:
  "find_unused cs k = Some i \<Longrightarrow> k \<le> i \<and> i - k < length cs \<and> \<not> wc_is_used (cs ! (i - k)) \<and>
     (\<forall>j<i - k. wc_is_used (cs ! j))"
proof (induction cs k rule: find_unused.induct)
  case (2 c cs k)
  show ?case
  proof (cases "wc_is_used c")
    case True
    with 2 have IH: "Suc k \<le> i" "i - Suc k < length cs" "\<not> wc_is_used (cs ! (i - Suc k))"
      "\<forall>j<i - Suc k. wc_is_used (cs ! j)" by simp_all
    then have e: "i - k = Suc (i - Suc k)" by simp
    show ?thesis unfolding e using True IH by (auto simp: less_Suc_eq_0_disj)
  next
    case False
    with 2 show ?thesis by auto
  qed
qed simp

lemma find_unused_None: "find_unused cs k = None \<longleftrightarrow> (\<forall>c\<in>set cs. wc_is_used c)"
  by (induction cs k rule: find_unused.induct) auto

lemma sock_ledgerD:
  assumes "sock_ledger sl fds"
  shows "f \<in> set (sl_families sl) \<Longrightarrow> sf_handler f fam ty pr e = (r, e') \<Longrightarrow>
      fd_result fds e r e'"
    and "sl_reserve_fd sl e = (r, e') \<Longrightarrow> fd_result fds e r e'"
    and "sl_close sl fd e = (r, e') \<Longrightarrow> fds e' = fds e - {fd}"
    and "sl_poll sl fd e = (r, e') \<Longrightarrow> fds e' = fds e"
    and "sl_ioctl_poll_prepare sl fd e = (r, e') \<Longrightarrow> fds e' = fds e"
  using assms by (auto simp: sock_ledger_def)

lemma upd_ctx_sel [simp]:
  "ws_contexts (upd_ctx i f s) = (ws_contexts s)[i := f (wctx s i)]" "ws_env (upd_ctx i f s) = ws_env s"
  "ws_errno (upd_ctx i f s) = ws_errno s"
  by (simp_all add: upd_ctx_def)

lemma find_family_in: "find_family fs fam ty pr = Some f \<Longrightarrow> f \<in> set fs \<and> \<not> sf_is_wrapper f"
  by (induction fs fam ty pr rule: find_family.induct) (auto split: if_splits)

lemma wrap_fd_ok:
  assumes "sock_ledger sl fds" and "table_ok (ws_contexts s) F" and "fds (ws_env s) = insert fd F" and "fd \<notin> F"
    and "0 \<le> fd" and "wrap_fd sl fd s = (r, s')"
  shows "wrapper_ok fds s'" and "r < 0 \<Longrightarrow> fds (ws_env s') = F \<and> r = - 1"
    and "0 \<le> r \<Longrightarrow> fds (ws_env s') = insert r (insert fd F) \<and> r \<notin> insert fd F"
    and "(\<forall>c\<in>set (ws_contexts s). wc_is_used c) \<Longrightarrow> r = - 1 \<and> ws_errno s' = ENOMEM \<and> ws_contexts s' = ws_contexts s"
proof -
  have "wrapper_ok fds s' \<and> (r < 0 \<longrightarrow> fds (ws_env s') = F \<and> r = - 1) \<and>
    (0 \<le> r \<longrightarrow> fds (ws_env s') = insert r (insert fd F) \<and> r \<notin> insert fd F) \<and>
    ((\<forall>c\<in>set (ws_contexts s). wc_is_used c) \<longrightarrow> r = - 1 \<and> ws_errno s' = ENOMEM \<and> ws_contexts s' = ws_contexts s)"
  proof (cases "find_unused (ws_contexts s) 0")
    case None
    obtain x e where c: "sl_close sl fd (ws_env s) = (x, e)" by fastforce
    with sock_ledgerD(3)[OF assms(1) c] assms(2-4,6) None show ?thesis
      by (auto simp: wrap_fd_def ws_read_def wrapper_ok_def)
  next
    case (Some i)
    from find_unused_Some[OF Some] have i: "i < length (ws_contexts s)" "\<not> wc_is_used (wctx s i)" by simp_all
    obtain my e where m: "sl_reserve_fd sl (ws_env s) = (my, e)" by fastforce
    note M = sock_ledgerD(2)[OF assms(1) m, unfolded fd_result_def]
    have full: "\<not> (\<forall>c\<in>set (ws_contexts s). wc_is_used c)" using i by (auto intro: nth_mem)
    show ?thesis
    proof (cases "my < 0")
      case True
      obtain x e2 where c: "sl_close sl fd e = (x, e2)" by fastforce
      from M True assms(3,4) sock_ledgerD(3)[OF assms(1) c] have "fds e2 = F" by auto
      moreover have "table_ok ((ws_contexts s)[i := c]) F" if "\<not> wc_is_used c" for c
        by (rule table_ok_unused[OF assms(2) that i(1)])
      ultimately show ?thesis
        using assms(6) Some m True c full i(1)
        by (auto simp: wrap_fd_def ws_read_def wrapper_ok_def wrapper_ctx_free_def)
    next
      case False
      with M assms(3) have my: "my \<notin> insert fd F" "fds e = insert my (insert fd F)" by auto
      have "table_ok ((ws_contexts s)[i := c]) (insert my (insert fd F))" if "wc_fd c = fd" "wc_my_fd c = my" for c
        by (rule table_ok_fill[OF assms(2,4) my(1) assms(5) _ i(1) that]) (use False in simp)
      then show ?thesis
        using assms(6) Some m False full i(1) my
        by (auto simp: wrap_fd_def ws_read_def wrapper_ok_def)
    qed
  qed
  then show "wrapper_ok fds s'" and "r < 0 \<Longrightarrow> fds (ws_env s') = F \<and> r = - 1"
    and "0 \<le> r \<Longrightarrow> fds (ws_env s') = insert r (insert fd F) \<and> r \<notin> insert fd F"
    and "(\<forall>c\<in>set (ws_contexts s). wc_is_used c) \<Longrightarrow> r = - 1 \<and> ws_errno s' = ENOMEM \<and> ws_contexts s' = ws_contexts s"
    by blast+
qed

text \<open>
  C36. Creating a socket: the table stays sound, and a failure leaves no descriptor behind.
\<close>

lemma sock_wrapper_create_ok:
  assumes "sock_ledger sl fds" and "wrapper_ok fds s" and "sock_wrapper_create sl fam ty pr s = (r, s')"
  shows "wrapper_ok fds s' \<and> (r < 0 \<longrightarrow> fds (ws_env s') = fds (ws_env s)) \<and>
    (0 \<le> r \<longrightarrow> r \<notin> fds (ws_env s) \<and> (fds (ws_env s') = insert r (fds (ws_env s)) \<or>
       (\<exists>fd. fd \<notin> insert r (fds (ws_env s)) \<and> fds (ws_env s') = insert r (insert fd (fds (ws_env s))))))"
proof (cases "find_family (sl_families sl) fam ty pr")
  case None
  with assms(2,3) show ?thesis by (auto simp: sock_wrapper_create_def sock_wrapper_socket_def wrapper_ok_def)
next
  case (Some f)
  obtain fd e1 where h: "sf_handler f fam ty pr (ws_env s) = (fd, e1)" by fastforce
  note H = sock_ledgerD(1)[OF assms(1) conjunct1[OF find_family_in[OF Some]] h, unfolded fd_result_def]
  let ?s1 = "s\<lparr>ws_env := e1\<rparr>"
  have sk: "sock_wrapper_socket sl fam ty pr s = (fd, sf_is_offloaded f, ?s1)"
    by (simp add: sock_wrapper_socket_def Some ws_read_def h)
  show ?thesis
  proof (cases "fd < 0")
    case True
    with assms(3) sk have "r = fd" "s' = ?s1" by (simp_all add: sock_wrapper_create_def)
    with assms(2) True H show ?thesis by (simp add: wrapper_ok_def)
  next
    case False
    with H have new: "fd \<notin> fds (ws_env s)" "fds e1 = insert fd (fds (ws_env s))" by simp_all
    obtain off s2 where o: "(if \<not> sf_is_offloaded f then offloaded_after_all sl fd ?s1 else (True, ?s1)) = (off, s2)"
      by fastforce
    have s2: "ws_contexts s2 = ws_contexts s" "fds (ws_env s2) = insert fd (fds (ws_env s))"
      using o new(2) sock_ledgerD(5)[OF assms(1)]
      by (auto simp: offloaded_after_all_def ws_read_def split: if_splits prod.splits)
    have eq: "(r, s') = (if \<not> off then (fd, s2) else wrap_fd sl fd s2)"
      using assms(3)[symmetric] False unfolding sock_wrapper_create_def sk prod.case o by simp
    have T: "table_ok (ws_contexts s2) (fds (ws_env s))" using assms(2) s2(1) by (simp add: wrapper_ok_def)
    show ?thesis
    proof (cases off)
      case True
      with eq have w: "wrap_fd sl fd s2 = (r, s')" by simp
      have fd0: "0 \<le> fd" using False by simp
      note W = wrap_fd_ok[OF assms(1) T s2(2) new(1) fd0 w]
      show ?thesis using W(1-3) new(1) by (cases "r < 0") auto
    next
      case no: False
      with eq T s2 new False show ?thesis
        by (auto simp: wrapper_ok_def intro: table_ok_other)
    qed
  qed
qed

lemma poll_handler_end_frame:
  assumes "sock_ledger sl fds"
  shows "fds (ws_env (poll_handler_end sl i s)) = fds (ws_env s)"
    and "\<exists>c. ws_contexts (poll_handler_end sl i s) = (ws_contexts s)[i := c] \<and> wc_fd c = wc_fd (wctx s i) \<and>
      wc_my_fd c = wc_my_fd (wctx s i) \<and> wc_is_used c = wc_is_used (wctx s i)"
proof -
  show "fds (ws_env (poll_handler_end sl i s)) = fds (ws_env s)"
    using sock_ledgerD(4)[OF assms] by (auto simp: poll_handler_end_def ws_read_def split: option.splits prod.splits)
  show "\<exists>c. ws_contexts (poll_handler_end sl i s) = (ws_contexts s)[i := c] \<and> wc_fd c = wc_fd (wctx s i) \<and>
      wc_my_fd c = wc_my_fd (wctx s i) \<and> wc_is_used c = wc_is_used (wctx s i)"
  proof (cases "wc_running (wctx s i)")
    case None
    then show ?thesis by (intro exI[of _ "wctx s i"]) (simp add: poll_handler_end_def)
  next
    case (Some fd)
    obtain rv e where "sl_poll sl fd (ws_env s) = (rv, e)" by fastforce
    with Some show ?thesis
      by (intro exI[of _ "(wctx s i)\<lparr>wc_signal := Some rv, wc_running := None\<rparr>"])
        (simp add: poll_handler_end_def ws_read_def)
  qed
qed

text \<open>
  C37. Closing gives back the wrapped descriptor and the context.
\<close>

lemma sock_wrapper_close_ok:
  assumes "sock_ledger sl fds" and "wrapper_ok fds s" and "i < length (ws_contexts s)" and "wc_is_used (wctx s i)"
    and "sock_wrapper_close_vmeth sl i s = (r, s')"
  shows "wrapper_ok fds s' \<and> fds (ws_env s') = fds (ws_env s) - {wc_fd (wctx s i)} \<and>
    \<not> wc_is_used (wctx s' i) \<and> wc_running (wctx s' i) = None \<and> \<not> wc_queued (wctx s' i) \<and> r = 0"
proof -
  define s1 where "s1 = upd_ctx i (\<lambda>c. c\<lparr>wc_queued := False\<rparr>) s"
  obtain x e where c: "sl_close sl (wc_fd (wctx s i)) (ws_env s) = (x, e)" by fastforce
  define s2 where "s2 = s1\<lparr>ws_env := e\<rparr>"
  have fd: "wc_fd (wctx s1 i) = wc_fd (wctx s i)" using assms(3) by (simp add: s1_def)
  have eq: "s' = wrapper_ctx_free i (poll_handler_end sl i s2)" "r = 0"
    using assms(5) c fd by (simp_all add: sock_wrapper_close_vmeth_def Let_def s1_def[symmetric] s2_def ws_read_def)
      (simp add: s1_def)
  obtain c1 where c1: "ws_contexts (poll_handler_end sl i s2) = (ws_contexts s2)[i := c1]"
    using poll_handler_end_frame(2)[OF assms(1)] by blast
  then have "ws_contexts s' = (ws_contexts s)[i := c1\<lparr>wc_fd := - 1, wc_my_fd := - 1, wc_is_used := False\<rparr>]"
    using assms(3) by (simp add: eq wrapper_ctx_free_def s2_def s1_def)
  then obtain c2 where c2: "ws_contexts s' = (ws_contexts s)[i := c2]" "\<not> wc_is_used c2" by simp
  have F: "fds (ws_env s') = fds (ws_env s) - {wc_fd (wctx s i)}"
    using poll_handler_end_frame(1)[OF assms(1), of i s2] sock_ledgerD(3)[OF assms(1) c]
    by (simp add: eq wrapper_ctx_free_def s2_def)
  have "wrapper_ok fds s'"
    using table_ok_drop[OF _ c2(2) assms(3,4)] assms(2) by (simp add: wrapper_ok_def c2(1) F)
  moreover have "wc_running (wctx s' i) = None \<and> \<not> wc_queued (wctx s' i)"
    using assms(3) by (auto simp: eq wrapper_ctx_free_def poll_handler_end_def s2_def s1_def ws_read_def
        split: option.splits prod.splits)
  ultimately show ?thesis using F c2 assms(3) eq(2) by simp
qed

section \<open>Polling\<close>

text \<open>
  A poll that runs when its socket is closed leaves its signal raised, and nothing lowers it
  when the context is used again: the next socket looks readable at once.
\<close>

lemma close_leaves_signal:
  assumes "i < length (ws_contexts s)" and "wc_running (wctx s i) = Some fd"
    and "sock_wrapper_close_vmeth sl i s = (r, s')"
  shows "wc_signal (wctx s' i) \<noteq> None"
  using assms
  by (auto simp: sock_wrapper_close_vmeth_def Let_def wrapper_ctx_free_def poll_handler_end_def ws_read_def
      split: prod.splits)

lemma create_keeps_signal:
  assumes "sock_wrapper_create sl fam ty pr s = (r, s')" and "i < length (ws_contexts s)"
  shows "wc_signal (wctx s' i) = wc_signal (wctx s i)"
proof -
  have keep: "wc_signal (wctx (upd_ctx j f s0) i) = wc_signal (wctx s0 i)"
    if "\<And>c. wc_signal (f c) = wc_signal c" for j f and s0 :: "'a wrapper_state"
    using that by (cases "j < length (ws_contexts s0)") (auto simp: nth_list_update list_update_beyond)
  have "wc_signal (wctx (snd (wrap_fd sl fd s0)) i) = wc_signal (wctx s0 i)" for fd s0
    by (auto simp: wrap_fd_def ws_read_def wrapper_ctx_free_def keep simp del: upd_ctx_sel(1) split: option.splits prod.splits)
  then show ?thesis
    using assms(1)
    by (auto simp: sock_wrapper_create_def sock_wrapper_socket_def offloaded_after_all_def ws_read_def
        split: option.splits prod.splits if_splits dest!: arg_cong[where f = snd])
qed

text \<open>The operations act on the wrapped descriptor and leave the table alone.\<close>

lemma wrapped_frame:
  "wrapped sl i op s = (r, d, s') \<Longrightarrow>
     sl_call sl (wc_fd (wctx s i)) op (ws_env s) = (r, d, ws_env s') \<and> s' = s\<lparr>ws_env := ws_env s'\<rparr>"
  by (auto simp: wrapped_def split: prod.splits)

end
