(* ===== verification/LogBackend.thy ===== *)
theory LogBackend
  imports Application Transport
begin

text \<open>
  \<^verbatim>\<open>logging/log_backend_golioth.c\<close>: a log message becomes one CoAP packet with a CBOR map.

  The code formats a message into the free end of the packet buffer, behind the place where the
  CBOR headers will go, and then encodes it from there. The reserved space keeps the two apart
  (\<open>reserve_enough\<close>), so the formatted text is a value here. \<open>log_room\<close> is the space left for
  the encoder; \<open>zcbor_tstr_encode_ptr\<close> takes the bytes at a pointer and a length.
\<close>

record log_lib = zcbor_lib +
  log_room :: "zcbor_enc \<Rightarrow> nat"
  zcbor_tstr_encode_ptr :: "u8 list \<Rightarrow> nat \<Rightarrow> zcbor_enc \<Rightarrow> bool \<times> zcbor_enc"
  zcbor_bstr_encode_ptr :: "u8 list \<Rightarrow> nat \<Rightarrow> zcbor_enc \<Rightarrow> bool \<times> zcbor_enc"

record log_conf =
  conf_log_max_packet_size :: nat
  conf_log_function_prefix_mask :: "nat set"

text \<open>\<open>lm_text\<close> is what \<^verbatim>\<open>cbpprintf\<close> prints for the package; \<open>None\<close> is an empty package.\<close>

record log_msg =
  lm_level :: nat
  lm_source :: "u8 list option"
  lm_timestamp_us :: nat
  lm_text :: "u8 list option"
  lm_data :: "u8 list"

record golioth_log_ctx =
  lc_client :: bool
  lc_enabled :: bool
  lc_msg_index :: u32
  lc_msg_part :: u32
  lc_panic_mode :: bool

abbreviation (input) LOG_LEVEL_INTERNAL_RAW_STRING :: nat where "LOG_LEVEL_INTERNAL_RAW_STRING \<equiv> 0"
abbreviation (input) CBOR_SPACE_RESERVED :: nat where "CBOR_SPACE_RESERVED \<equiv> 8"

definition LOGS_URI_PATH :: "u8 list" where "LOGS_URI_PATH = ascii ''logs''"

definition level_str :: "nat \<Rightarrow> string" where
  "level_str level =
     (if level = 1 then ''error'' else if level = 2 then ''warn'' else if level = 3 then ''info''
      else ''debug'')"

section \<open>The packet\<close>

definition log_coap_packet_prepare ::
  "('e, 'x) sys_scheme \<Rightarrow> nat \<Rightarrow> 'e world \<Rightarrow> int \<times> coap_packet \<times> u8 list \<times> 'e world" where
  "log_coap_packet_prepare sys buf_len w =
     (case env_read (coap_next_token sys) w of
        (tok, w1) \<Rightarrow>
          (case env_read (coap_next_id sys) w1 of
             (i, w2) \<Rightarrow>
               (case err_then (coap_packet_init sys (replicate buf_len 0) buf_len COAP_TYPE_NON_CON tok
                                COAP_METHOD_POST i)
                       (\<lambda>(pkt, buf). err_then (coap_packet_append_option sys COAP_OPTION_URI_PATH LOGS_URI_PATH pkt buf)
                       (\<lambda>(pkt, buf). err_then (coap_append_option_int sys COAP_OPTION_CONTENT_FORMAT
                                                GOLIOTH_CONTENT_FORMAT_APP_CBOR pkt buf)
                       (\<lambda>(pkt, buf). coap_packet_append_payload_marker sys pkt buf))) of
                  (err, pkt, buf) \<Rightarrow> (err, pkt, buf, w2))))"

definition log_cbor_prepare :: "('l) zcbor_lib_scheme \<Rightarrow> nat \<Rightarrow> zcbor_enc" where
  "log_cbor_prepare lib buf_len = zcbor_new_encode_state lib 1 buf_len"

text \<open>The packet, its buffer, and the encoder that writes behind the headers; or the error.\<close>

definition log_packet_prepare ::
  "('e, 'x) sys_scheme \<Rightarrow> ('l) zcbor_lib_scheme \<Rightarrow> nat \<Rightarrow> 'e world
     \<Rightarrow> (int + coap_packet \<times> u8 list \<times> zcbor_enc) \<times> 'e world" where
  "log_packet_prepare sys lib buf_len w =
     (case log_coap_packet_prepare sys buf_len w of
        (err, pkt, buf, w1) \<Rightarrow>
          if err \<noteq> 0 then (Inl err, w1)
          else (Inr (pkt, buf, log_cbor_prepare lib (buf_len - pkt_offset pkt)), w1))"

definition log_cbor_create_map :: "('l) zcbor_lib_scheme \<Rightarrow> zcbor_enc \<Rightarrow> int \<times> zcbor_enc" where
  "log_cbor_create_map lib enc =
     (case zcbor_map_start_encode lib 1 enc of (ok, enc1) \<Rightarrow> if \<not> ok then (- ENOMEM, enc1) else (0, enc1))"

definition log_cbor_close_map :: "('l) zcbor_lib_scheme \<Rightarrow> zcbor_enc \<Rightarrow> int \<times> zcbor_enc" where
  "log_cbor_close_map lib enc =
     (case zcbor_map_end_encode lib 1 enc of (ok, enc1) \<Rightarrow> if \<not> ok then (- ENOMEM, enc1) else (0, enc1))"

definition log_cbor_append_headers :: "('l) zcbor_lib_scheme \<Rightarrow> log_msg \<Rightarrow> zcbor_enc \<Rightarrow> zcbor_enc" where
  "log_cbor_append_headers lib msg enc =
     (let put = (\<lambda>s e. snd (zcbor_tstr_put lib s e));
          enc1 = (case lm_source msg of
                    Some name \<Rightarrow> put name (put (ascii ''module'') enc)
                  | None \<Rightarrow> enc)
      in put (ascii (level_str (lm_level msg))) (put (ascii ''level'') enc1))"

section \<open>The text\<close>

text \<open>The error, and the room between \<^verbatim>\<open>pdu->begin\<close> and \<^verbatim>\<open>pdu->end\<close>.\<close>

definition log_pdu_prepare_ext ::
  "('l) log_lib_scheme \<Rightarrow> nat \<Rightarrow> nat \<Rightarrow> zcbor_enc \<Rightarrow> int \<times> nat" where
  "log_pdu_prepare_ext lib elements additional_reserved enc =
     (let reserved = CBOR_SPACE_RESERVED * elements + additional_reserved
      in if reserved > log_room lib enc then (- ENOMEM, 0) else (0, log_room lib enc - reserved))"

definition log_pdu_prepare :: "('l) log_lib_scheme \<Rightarrow> zcbor_enc \<Rightarrow> int \<times> nat" where
  "log_pdu_prepare lib enc = log_pdu_prepare_ext lib 1 0 enc"

definition cbprintf_out_func :: "nat \<Rightarrow> u8 list \<Rightarrow> u8 \<Rightarrow> u8 list" where
  "cbprintf_out_func room pdu c = (if length pdu \<ge> room then pdu else pdu @ [c])"

fun find_colon :: "u8 list \<Rightarrow> nat option" where
  "find_colon [] = None"
| "find_colon (c # cs) = (if c = 0x3A then Some 0 else map_option Suc (find_colon cs))"

definition log_pdu_text_finish :: "('l) log_lib_scheme \<Rightarrow> u8 list \<Rightarrow> zcbor_enc \<Rightarrow> int \<times> zcbor_enc" where
  "log_pdu_text_finish lib pdu enc =
     (case zcbor_tstr_encode_ptr lib pdu (length pdu) enc of
        (ok, enc1) \<Rightarrow> if \<not> ok then (- EBADMSG, enc1) else (0, enc1))"

definition log_pdu_bytes_finish :: "('l) log_lib_scheme \<Rightarrow> u8 list \<Rightarrow> zcbor_enc \<Rightarrow> int \<times> zcbor_enc" where
  "log_pdu_bytes_finish lib pdu enc =
     (case zcbor_bstr_encode_ptr lib pdu (length pdu) enc of
        (ok, enc1) \<Rightarrow> if \<not> ok then (- EBADMSG, enc1) else (0, enc1))"

text \<open>\<^verbatim>\<open>pdu->ptr - post_colon\<close>, a \<^verbatim>\<open>size_t\<close>.\<close>

definition msg_len :: "nat \<Rightarrow> nat \<Rightarrow> nat" where
  "msg_len ptr post_colon = nat ((int ptr - int post_colon) mod 2 ^ 32)"

definition log_encode_text ::
  "('l) log_lib_scheme \<Rightarrow> bool \<Rightarrow> u8 list \<Rightarrow> zcbor_enc \<Rightarrow> int \<times> zcbor_enc" where
  "log_encode_text lib has_func text enc =
     (case (if has_func then log_pdu_prepare_ext lib 2 (5 + 1) enc else log_pdu_prepare lib enc) of
        (err, room) \<Rightarrow>
          if err \<noteq> 0 then (err, enc)
          else
            let pdu = foldl (cbprintf_out_func room) [] text
            in case (if has_func then find_colon pdu else None) of
                 Some func_colon \<Rightarrow>
                   let post_colon = func_colon + 2
                   in enc_step (- ENOMEM)
                        (enc_and (zcbor_tstr_put lib (ascii ''msg''))
                           (zcbor_tstr_encode_ptr lib (drop post_colon pdu) (msg_len (length pdu) post_colon)))
                        (enc_step (- ENOMEM)
                          (enc_and (zcbor_tstr_put lib (ascii ''func''))
                             (zcbor_tstr_encode_ptr lib pdu func_colon)) (0, enc))
               | None \<Rightarrow> log_pdu_text_finish lib pdu (snd (zcbor_tstr_put lib (ascii ''msg'') enc)))"

definition log_encode_data :: "('l) log_lib_scheme \<Rightarrow> u8 list \<Rightarrow> zcbor_enc \<Rightarrow> int \<times> zcbor_enc" where
  "log_encode_data lib data enc =
     (let enc1 = snd (zcbor_tstr_put lib (ascii ''hexdump'') enc)
      in case log_pdu_prepare lib enc1 of
           (err, room) \<Rightarrow>
             if err \<noteq> 0 then (err, enc1)
             else
               let len = (if length data > room then room else length data)
               in log_pdu_bytes_finish lib (take len data) enc1)"

section \<open>A message\<close>

definition log_encode ::
  "('l) log_lib_scheme \<Rightarrow> log_conf \<Rightarrow> u32 \<Rightarrow> log_msg \<Rightarrow> zcbor_enc \<Rightarrow> int \<times> zcbor_enc" where
  "log_encode lib conf msg_index msg enc =
     (let level = lm_level msg;
          raw_string = (level = LOG_LEVEL_INTERNAL_RAW_STRING);
          has_func = (level \<in> conf_log_function_prefix_mask conf)
      in err_then
           (err_then
             (err_then
               (enc_step (- ENOMEM) (enc_and (zcbor_tstr_put lib (ascii ''index'')) (zcbor_uint32_put lib (unat msg_index)))
                 (err_then
                   (enc_step (- ENOMEM) (enc_and (zcbor_tstr_put lib (ascii ''uptime'')) (zcbor_uint64_put lib (lm_timestamp_us msg)))
                     (log_cbor_create_map lib enc))
                   (\<lambda>enc. (0, if \<not> raw_string then log_cbor_append_headers lib msg enc else enc))))
               (\<lambda>enc. case lm_text msg of Some text \<Rightarrow> log_encode_text lib has_func text enc | None \<Rightarrow> (0, enc)))
             (\<lambda>enc. if lm_data msg \<noteq> [] then log_encode_data lib (lm_data msg) enc else (0, enc)))
           (log_cbor_close_map lib))"

definition log_packet_finish ::
  "('e, 'x) sys_scheme \<Rightarrow> coap_packet \<Rightarrow> u8 list \<Rightarrow> zcbor_enc \<Rightarrow> int \<times> coap_packet \<times> u8 list" where
  "log_packet_finish sys pkt buf enc = coap_packet_append_payload sys (ze_payload enc) pkt buf"

definition log_msg_process ::
  "('e, 'x) sys_scheme \<Rightarrow> ('l) log_lib_scheme \<Rightarrow> log_conf \<Rightarrow> log_msg \<Rightarrow> golioth_log_ctx \<times> 'e world
     \<Rightarrow> int \<times> golioth_log_ctx \<times> 'e world" where
  "log_msg_process sys lib conf msg s =
     (case s of (ctx, w) \<Rightarrow>
        let finish = ctx\<lparr>lc_msg_part := 0, lc_msg_index := lc_msg_index ctx + 1\<rparr>
        in case log_packet_prepare sys lib (conf_log_max_packet_size conf) w of
             (Inl err, w1) \<Rightarrow> (err, finish, w1)
           | (Inr (pkt, buf, enc0), w1) \<Rightarrow>
               (case log_encode lib conf (lc_msg_index ctx) msg enc0 of
                  (err, enc) \<Rightarrow>
                    if err \<noteq> 0 then (err, finish, w1)
                    else
                      (case log_packet_finish sys pkt buf enc of
                         (err, pkt1, buf1) \<Rightarrow>
                           if err \<noteq> 0 then (err, finish, w1)
                           else (0, finish, snd (golioth_send_coap sys pkt1 buf1 w1)))))"

section \<open>The backend's operations\<close>

definition log_process ::
  "('e, 'x) sys_scheme \<Rightarrow> ('l) log_lib_scheme \<Rightarrow> log_conf \<Rightarrow> log_msg \<Rightarrow> golioth_log_ctx \<times> 'e world
     \<Rightarrow> golioth_log_ctx \<times> 'e world" where
  "log_process sys lib conf msg s =
     (if lc_panic_mode (fst s) then s else snd (log_msg_process sys lib conf msg s))"

definition init_golioth :: "golioth_log_ctx \<Rightarrow> golioth_log_ctx" where
  "init_golioth ctx = ctx\<lparr>lc_enabled := False\<rparr>"

definition log_panic :: "golioth_log_ctx \<Rightarrow> golioth_log_ctx" where
  "log_panic ctx = ctx\<lparr>lc_panic_mode := True\<rparr>"

definition log_dropped :: "nat \<Rightarrow> golioth_log_ctx \<Rightarrow> golioth_log_ctx" where
  "log_dropped cnt ctx = ctx\<lparr>lc_msg_index := lc_msg_index ctx + of_nat cnt\<rparr>"

definition log_backend_golioth_init :: "golioth_log_ctx \<Rightarrow> int \<times> golioth_log_ctx" where
  "log_backend_golioth_init ctx = (0, ctx\<lparr>lc_client := True, lc_enabled := True\<rparr>)"

section \<open>Nothing is written past the buffer\<close>

text \<open>What is formatted is the start of the text, as much as there is room for.\<close>

lemma cbprintf_take: "foldl (cbprintf_out_func room) pdu cs = (if length pdu \<ge> room then pdu
    else pdu @ take (room - length pdu) cs)"
proof (induction cs arbitrary: pdu)
  case (Cons c cs)
  then show ?case by (auto simp: cbprintf_out_func_def take_Cons' not_le Suc_le_eq)
qed simp

lemma pdu_is_prefix: "foldl (cbprintf_out_func room) [] text = take room text"
  by (auto simp: cbprintf_take)

lemma prepare_room:
  "log_pdu_prepare_ext lib n extra enc = (0, room) \<Longrightarrow> room + CBOR_SPACE_RESERVED * n + extra = log_room lib enc"
  by (auto simp: log_pdu_prepare_ext_def Let_def split: if_splits)

text \<open>
  The headers written before a text is moved into its place do not reach it: \<open>h1\<close> and \<open>h2\<close> are
  the header sizes of the two texts (at most 3 bytes for a text below 64 KiB), the labels \<^verbatim>\<open>func\<close> and
  \<^verbatim>\<open>msg\<close> take 5 and 4 bytes, and the second text starts 2 bytes after the first.
\<close>

lemma reserve_enough:
  assumes "h1 \<le> 3" and "h2 \<le> (3::nat)"
  shows "4 + h1 \<le> CBOR_SPACE_RESERVED * 1"
    and "5 + h1 \<le> CBOR_SPACE_RESERVED * 2 + (5 + 1)"
    and "5 + h1 + func_len + 4 + h2 \<le> CBOR_SPACE_RESERVED * 2 + (5 + 1) + func_len + (2::nat)"
  using assms by simp_all

section \<open>Function and message\<close>

lemma find_colon_Some:
  "find_colon cs = Some k \<Longrightarrow> k < length cs \<and> cs ! k = 0x3A \<and> 0x3A \<notin> set (take k cs)"
  by (induction cs arbitrary: k) (auto split: if_splits)

lemma find_colon_None: "find_colon cs = None \<longleftrightarrow> 0x3A \<notin> set cs"
  by (induction cs) auto

lemma msg_len_le: "p \<le> n \<Longrightarrow> n < 2 ^ 32 \<Longrightarrow> msg_len n p = n - p"
  by (simp add: msg_len_def nat_mod_distrib nat_diff_distrib)

lemma split_at_colon:
  assumes "find_colon pdu = Some k" and "k + 1 < length pdu" and "pdu ! (k + 1) = 0x20"
  shows "take k pdu @ [0x3A, 0x20] @ drop (k + 2) pdu = pdu"
proof -
  have "pdu = take k pdu @ pdu ! k # pdu ! Suc k # drop (Suc (Suc k)) pdu"
    using assms(2) by (metis Cons_nth_drop_Suc Suc_eq_plus1 Suc_lessD id_take_nth_drop)
  then show ?thesis using find_colon_Some[OF assms(1)] assms(3) by simp
qed

lemma text_in_room: "length text \<le> room \<Longrightarrow> foldl (cbprintf_out_func room) [] text = text"
  by (simp add: pdu_is_prefix)


text \<open>
  Without a function prefix the text is cut to the space that is left in the packet behind the
  space reserved for the CBOR headers, and a message for which not even that space is left is an
  error; nothing is formatted past the end of the packet buffer.
\<close>

lemma text_cut_to_room:
  "log_encode_text lib False text enc =
     (if log_room lib enc < CBOR_SPACE_RESERVED then (- ENOMEM, enc)
      else log_pdu_text_finish lib (take (log_room lib enc - CBOR_SPACE_RESERVED) text)
             (snd (zcbor_tstr_put lib (ascii ''msg'') enc)))"
  by (simp add: log_encode_text_def log_pdu_prepare_def log_pdu_prepare_ext_def pdu_is_prefix Let_def del: ascii_simps)

section \<open>Numbering\<close>

lemma log_msg_process_index:
  "log_msg_process sys lib conf msg (ctx, w) = (e, ctx', w') \<Longrightarrow>
     lc_msg_index ctx' = lc_msg_index ctx + 1 \<and> lc_panic_mode ctx' = lc_panic_mode ctx"
  by (auto simp: log_msg_process_def Let_def split: prod.splits if_splits sum.splits)

text \<open>Sending a message changes nothing but the environment.\<close>

lemma log_coap_packet_prepare_frame:
  "log_coap_packet_prepare sys n w = (e, pkt, buf, w') \<Longrightarrow> same_but_env w w'"
  by (auto simp: log_coap_packet_prepare_def split: prod.splits intro: same_but_env_trans)

lemma log_msg_process_frame:
  assumes "log_msg_process sys lib conf msg (ctx, w) = (e, ctx', w')"
  shows "same_but_env w w'"
proof -
  obtain res w1 where p: "log_packet_prepare sys lib (conf_log_max_packet_size conf) w = (res, w1)" by fastforce
  then have f: "same_but_env w w1"
    by (auto simp: log_packet_prepare_def dest: log_coap_packet_prepare_frame split: prod.splits if_splits)
  have "same_but_env w (snd (golioth_send_coap sys q b w1))" for q b
    using same_but_env_trans[OF f golioth_send_coap_frame[OF prod.collapse[symmetric]]] by blast
  with assms p f show ?thesis
    by (auto simp: log_msg_process_def Let_def split: prod.splits if_splits sum.splits)
qed

datatype log_event = Log_process log_msg | Log_dropped nat | Log_panic

fun log_step ::
  "('e, 'x) sys_scheme \<Rightarrow> ('l) log_lib_scheme \<Rightarrow> log_conf \<Rightarrow> log_event \<Rightarrow> golioth_log_ctx \<times> 'e world
     \<Rightarrow> golioth_log_ctx \<times> 'e world" where
  "log_step sys lib conf (Log_process msg) s = log_process sys lib conf msg s"
| "log_step sys lib conf (Log_dropped n) s = (log_dropped n (fst s), snd s)"
| "log_step sys lib conf Log_panic s = (log_panic (fst s), snd s)"

fun event_count :: "log_event \<Rightarrow> nat" where
  "event_count (Log_process msg) = 1"
| "event_count (Log_dropped n) = n"
| "event_count Log_panic = 0"

text \<open>
  Without a panic the index counts every message, sent or dropped, so that the server can tell
  which are missing.
\<close>

lemma log_index_counts:
  assumes "Log_panic \<notin> set evs" and "\<not> lc_panic_mode (fst s)"
  shows "lc_msg_index (fst (fold (log_step sys lib conf) evs s)) =
      lc_msg_index (fst s) + of_nat (sum_list (map event_count evs)) \<and>
    same_but_env (snd s) (snd (fold (log_step sys lib conf) evs s))"
  using assms
proof (induction evs arbitrary: s)
  case Nil
  then show ?case by simp
next
  case (Cons ev evs)
  obtain ctx w where s: "s = (ctx, w)" by (cases s)
  have one: "lc_msg_index (fst (log_step sys lib conf ev s)) = lc_msg_index (fst s) + of_nat (event_count ev) \<and>
      \<not> lc_panic_mode (fst (log_step sys lib conf ev s)) \<and> same_but_env (snd s) (snd (log_step sys lib conf ev s))"
  proof (cases ev)
    case (Log_process msg)
    obtain e ctx' w' where p: "log_msg_process sys lib conf msg (ctx, w) = (e, ctx', w')" by (metis prod_cases3)
    with log_msg_process_index[OF p] log_msg_process_frame[OF p] Cons.prems Log_process s show ?thesis
      by (simp add: log_process_def)
  qed (use Cons.prems s in \<open>simp_all add: log_dropped_def\<close>)
  have "Log_panic \<notin> set evs" using Cons.prems by simp
  from Cons.IH[OF this, of "log_step sys lib conf ev s"] one show ?case
    by (auto simp: add.assoc intro: same_but_env_trans)
qed

text \<open>In panic mode nothing is sent.\<close>

lemma log_process_panic: "lc_panic_mode (fst s) \<Longrightarrow> log_process sys lib conf msg s = s"
  by (simp add: log_process_def)

end
