(* ===== verification/Instance.thy ===== *)
theory Instance
  imports SystemClient SockWrapper LogBackend
begin

text \<open>
  A concrete environment: a small CoAP library (options with short deltas and values), sockets that
  are numbers, a CBOR decoder for definite lengths, an application that does nothing, and worlds
  in which the invariants hold. It shows that the hypotheses of the development can be met.
\<close>

section \<open>The CoAP library and the kernel\<close>

record demo_env =
  de_now :: int
  de_next_fd :: nat
  de_fds :: "int list"
  de_outbox :: "u8 list list"
  de_id :: u16
  de_event :: nat

definition demo_put :: "u8 list \<Rightarrow> pkt_op" where
  "demo_put d pkt b =
     (if pkt_offset pkt + length d \<le> length b
      then (0, pkt\<lparr>pkt_offset := pkt_offset pkt + length d\<rparr>,
            take (pkt_offset pkt) b @ d @ drop (pkt_offset pkt + length d) b)
      else (- ENOMEM, pkt, b))"

definition demo_option :: "nat \<Rightarrow> u8 list \<Rightarrow> pkt_op" where
  "demo_option n v pkt b =
     (let delta = nat (int n - hd (pkt_lib pkt @ [0]))
      in if delta < 13 \<and> length v < 13
         then demo_put (of_nat (16 * delta + length v) # v) (pkt\<lparr>pkt_lib := [int n]\<rparr>) b
         else (- EINVAL, pkt, b))"

definition demo_init ::
  "u8 list \<Rightarrow> nat \<Rightarrow> nat \<Rightarrow> u8 list \<Rightarrow> u8 \<Rightarrow> u16 \<Rightarrow> int \<times> coap_packet \<times> u8 list" where
  "demo_init b n t tok c i =
     demo_put ([0x40 + of_nat (16 * t + length tok), c, ucast (drop_bit 8 i), ucast i] @ tok)
       \<lparr>pkt_offset = 0, pkt_lib = []\<rparr> b"

definition demo_token :: "coap_packet \<Rightarrow> u8 list \<Rightarrow> u8 list" where
  "demo_token pkt b = take (unat (b ! 0 AND 0x0f)) (drop 4 b)"

definition demo_sys :: "demo_env system_lib" where
  "demo_sys = \<lparr>
     coap_packet_init = demo_init,
     coap_packet_parse = (\<lambda>d. if length d < 4 then (- EINVAL, \<lparr>pkt_offset = 0, pkt_lib = []\<rparr>)
                               else (0, \<lparr>pkt_offset = length d, pkt_lib = []\<rparr>)),
     coap_ack_init = (\<lambda>rx d b c. demo_init b (length b) 2 (demo_token rx d) c
                        (push_bit 8 (ucast (d ! 2)) + ucast (d ! 3))),
     coap_packet_append_option = demo_option,
     coap_append_option_int = (\<lambda>n v. demo_option n [of_nat v]),
     coap_append_block2_option = (\<lambda>ctx. demo_option COAP_OPTION_BLOCK2 [of_nat (blk_size ctx)]),
     coap_packet_append_payload_marker = demo_put [0xFF],
     coap_packet_append_payload = demo_put,
     coap_header_get_type = (\<lambda>p b. unat (drop_bit 4 (b ! 0) AND 3)),
     coap_header_get_code = (\<lambda>p b. b ! 1),
     coap_header_get_id = (\<lambda>p b. push_bit 8 (ucast (b ! 2)) + ucast (b ! 3)),
     coap_header_get_token = demo_token,
     coap_packet_get_payload = (\<lambda>p b. drop 1 (dropWhile (\<lambda>x. x \<noteq> 0xFF) (drop (4 + length (demo_token p b)) b))),
     coap_get_option_int = (\<lambda>p b n. - ENOENT),
     coap_update_from_block = (\<lambda>p b ctx. (0, ctx)),
     coap_next_block_for_option = (\<lambda>p b n ctx. (0, ctx)),
     k_uptime_get = (\<lambda>e. (de_now e, e)),
     k_uptime_get_32 = (\<lambda>e. (of_int (de_now e), e)),
     sys_rand32_get = (\<lambda>e. (4, e)),
     coap_next_id = (\<lambda>e. (de_id e, e\<lparr>de_id := de_id e + 1\<rparr>)),
     coap_next_token = (\<lambda>e. ([1, 2, 3, 4, 5, 6, 7, 8], e)),
     sys_malloc = (\<lambda>n e. (True, e)),
     sys_errno = (\<lambda>e. EIO),
     zsock_send = (\<lambda>s d f e. (int (length d), e\<lparr>de_outbox := de_outbox e @ [d]\<rparr>)),
     zsock_recv = (\<lambda>s n f e. (- 1, [], e)),
     zsock_socket = (\<lambda>f p e. (int (de_next_fd e), e\<lparr>de_next_fd := Suc (de_next_fd e),
       de_fds := int (de_next_fd e) # de_fds e\<rparr>)),
     zsock_setsockopt = (\<lambda>s opt v e. (0, e)),
     zsock_connect = (\<lambda>s a e. (0, e)),
     zsock_close = (\<lambda>s e. (0, e\<lparr>de_fds := removeAll s (de_fds e)\<rparr>)),
     zsock_getaddrinfo = (\<lambda>h p e. (0, [(1, [])], e)),
     call_wakeup = (\<lambda>f e. e\<lparr>de_event := de_event e + 1\<rparr>),
     conf_ack_timeout_ms = 2000,
     conf_ack_random_percent = 150,
     conf_randomize_ack = True,
     tls_credential_get = (\<lambda>tag t n e. (0, [], 0)),
     tls_credential_add = (\<lambda>tag t d e. (0, e)),
     eventfd_create = (\<lambda>e. (int (de_next_fd e), e\<lparr>de_next_fd := Suc (de_next_fd e)\<rparr>))\<rparr>"

definition demo_conf :: golioth_conf where
  "demo_conf = \<lparr>conf_hostname_verification = True, conf_hostname_verification_skip = False,
     conf_use_connection_id = True, conf_recv_use_msg_trunc = True, conf_ciphersuites = [0xC0A8],
     conf_int_bytes = (\<lambda>i. [of_int i, 0, 0, 0])\<rparr>"

text \<open>Descriptors below the counter have been handed out.\<close>

definition demo_fds :: "demo_env \<Rightarrow> int set" where
  "demo_fds e = {fd \<in> set (de_fds e). fd < int (de_next_fd e)}"

lemma demo_put_length: "length (snd (snd (demo_put d p b))) = length b"
  by (simp add: demo_put_def)

lemma demo_option_length: "length (snd (snd (demo_option n v p b))) = length b"
  by (simp add: demo_option_def Let_def demo_put_length)

lemma demo_lib_ok: "coap_lib_ok demo_sys"
  by (simp add: coap_lib_ok_def demo_sys_def pkt_op_keeps_length_def demo_init_def demo_put_length demo_option_length)

lemma demo_errno_ok: "errno_ok demo_sys"
  by (simp add: errno_ok_def demo_sys_def)

lemma demo_ack_timeout_ok: "ack_timeout_ok demo_sys"
  by (simp add: ack_timeout_ok_def demo_sys_def)

lemma demo_fd_ledger: "fd_ledger demo_sys demo_fds"
  by (auto simp: fd_ledger_def demo_sys_def demo_fds_def)

text \<open>The same with the options of RFC 7252, section 3.1, whose deltas and lengths may be extended.\<close>

definition rfc_nibble :: "nat \<Rightarrow> nat" where
  "rfc_nibble n = (if n < 13 then n else if n < 269 then 13 else 14)"

definition rfc_ext :: "nat \<Rightarrow> u8 list" where
  "rfc_ext n = (if n < 13 then [] else if n < 269 then [of_nat (n - 13)]
     else [of_nat ((n - 269) div 256), of_nat ((n - 269) mod 256)])"

definition rfc_option :: "nat \<Rightarrow> u8 list \<Rightarrow> pkt_op" where
  "rfc_option n v pkt b =
     (let delta = nat (int n - hd (pkt_lib pkt @ [0]))
      in demo_put (of_nat (16 * rfc_nibble delta + rfc_nibble (length v)) # rfc_ext delta @ rfc_ext (length v) @ v)
           (pkt\<lparr>pkt_lib := [int n]\<rparr>) b)"

definition rfc_sys :: "demo_env system_lib" where
  "rfc_sys = demo_sys\<lparr>coap_packet_append_option := rfc_option\<rparr>"

definition rfc_path :: "coap_packet \<Rightarrow> bool" where
  "rfc_path pkt \<longleftrightarrow> 0 \<le> hd (pkt_lib pkt @ [0]) \<and> hd (pkt_lib pkt @ [0]) \<le> 11"

lemma rfc_ext_length: "length (rfc_ext n) = coap_ext_len n"
  by (simp add: rfc_ext_def coap_ext_len_def)

lemma rfc_sys_paths: "uri_path_lib rfc_path rfc_sys"
proof -
  have "coap_ext_len (nat (11 - hd (pkt_lib pkt @ [0]))) = 0" if "rfc_path pkt" for pkt
  proof -
    have "nat (11 - hd (pkt_lib pkt @ [0])) < 13" using that by (simp add: rfc_path_def nat_less_iff)
    then show ?thesis by (simp add: coap_ext_len_def)
  qed
  then show ?thesis
    by (auto simp: uri_path_lib_def rfc_sys_def rfc_option_def demo_put_def rfc_ext_length coap_option_size_def
        coap_ext_len_def[of 0] rfc_path_def Let_def)
qed

section \<open>The CBOR library\<close>

definition bytes_mem :: "u8 list \<Rightarrow> nat \<Rightarrow> u8" where
  "bytes_mem bs i = (if i < length bs then bs ! i else 0)"

definition demo_head :: "nat set \<Rightarrow> zcbor_state \<Rightarrow> (nat \<times> nat) option" where
  "demo_head majors st =
     (if zs_payload st < zs_payload_end st \<and> zs_elem_count st \<noteq> 0 \<and> MAJOR_TYPE (zs_byte st) \<in> majors
      then (case cbor_head (zs_mem st) (zs_payload st) of
              Some (v, h) \<Rightarrow> if zs_payload st + h \<le> zs_payload_end st then Some (v, h) else None
            | None \<Rightarrow> None)
      else None)"

definition demo_advance :: "nat \<Rightarrow> zcbor_state \<Rightarrow> zcbor_state" where
  "demo_advance h st = st\<lparr>zs_payload := zs_payload st + h, zs_elem_count := zs_elem_count st - 1\<rparr>"

definition demo_open :: "nat \<Rightarrow> nat \<Rightarrow> zcbor_state \<Rightarrow> bool \<times> zcbor_state" where
  "demo_open major factor st =
     (case demo_head {major} st of
        Some (v, h) \<Rightarrow>
          (True, (demo_advance h st)\<lparr>zs_elem_count := of_nat (factor * v),
             zs_lib := uint (zs_elem_count st - 1) # zs_lib st\<rparr>)
      | None \<Rightarrow> (False, st))"

definition demo_close :: "bool \<Rightarrow> zcbor_state \<Rightarrow> bool \<times> zcbor_state" where
  "demo_close force st =
     (case zs_lib st of
        [] \<Rightarrow> (False, st)
      | n # ns \<Rightarrow> if force \<or> zs_elem_count st = 0 then (True, st\<lparr>zs_elem_count := of_int n, zs_lib := ns\<rparr>)
                  else (False, st))"

definition demo_number :: "nat set \<Rightarrow> (nat \<Rightarrow> 'v) \<Rightarrow> zcbor_state \<Rightarrow> bool \<times> 'v \<times> zcbor_state" where
  "demo_number majors f st =
     (case demo_head majors st of
        Some (v, h) \<Rightarrow> (True, f v, demo_advance h st)
      | None \<Rightarrow> (False, f 0, st))"

definition demo_str :: "nat set \<Rightarrow> zcbor_state \<Rightarrow> bool \<times> u8 list \<times> zcbor_state" where
  "demo_str majors st =
     (case demo_head majors st of
        Some (v, h) \<Rightarrow>
          if zs_payload st + h + v \<le> zs_payload_end st
          then (True, map (\<lambda>i. zs_mem st (zs_payload st + h + i)) [0..<v], demo_advance (h + v) st)
          else (False, [], st)
      | None \<Rightarrow> (False, [], st))"

text \<open>Skips an item that is a number or a string.\<close>

definition demo_skip :: "zcbor_state \<Rightarrow> bool \<times> zcbor_state" where
  "demo_skip st =
     (case demo_number {0, 1, 7} (\<lambda>v. ()) st of
        (True, _, st1) \<Rightarrow> (True, st1)
      | (False, _, _) \<Rightarrow> (case demo_str {2, 3} st of (ok, _, st1) \<Rightarrow> (ok, st1)))"

definition demo_nil :: "zcbor_state \<Rightarrow> bool \<times> zcbor_state" where
  "demo_nil st =
     (if zs_byte st = 0xF6 then (case demo_number {7} (\<lambda>v. ()) st of (ok, _, st1) \<Rightarrow> (ok, st1))
      else (False, st))"

definition demo_enc_put :: "u8 list \<Rightarrow> zcbor_enc \<Rightarrow> bool \<times> zcbor_enc" where
  "demo_enc_put d enc =
     (if int (length (ze_payload enc) + length d) \<le> hd (ze_lib enc @ [0])
      then (True, enc\<lparr>ze_payload := ze_payload enc @ d\<rparr>) else (False, enc))"

definition demo_enc_head :: "nat \<Rightarrow> nat \<Rightarrow> u8 list" where
  "demo_enc_head major v =
     (if v < 24 then [of_nat (32 * major + v)] else if v < 256 then [of_nat (32 * major + 24), of_nat v]
      else [of_nat (32 * major + 26), of_nat (v div 2 ^ 24), of_nat (v div 2 ^ 16), of_nat (v div 2 ^ 8), of_nat v])"

definition demo_zstate :: "u8 list \<Rightarrow> nat \<Rightarrow> zcbor_state" where
  "demo_zstate d n = \<lparr>zs_mem = bytes_mem d, zs_payload = 0, zs_payload_bak = 0, zs_payload_end = length d,
     zs_elem_count = of_nat n, zs_indefinite = False, zs_const = [], zs_lib = []\<rparr>"

definition demo_zlib :: log_lib where
  "demo_zlib = \<lparr>
     zcbor_before_0_7 = True,
     zcbor_new_decode_state = (\<lambda>k d n. demo_zstate d n),
     zcbor_str_addr = (\<lambda>st. of_nat (zs_payload st)),
     raw_memory = (\<lambda>a n. replicate n 0),
     stack_len = 0, stack_string = (\<lambda>v. []), stack_state = demo_zstate [] 0, stack_int64 = 0,
     zcbor_check_error = (\<lambda>st. zs_const st = []),
     zcbor_error = (\<lambda>e st. st\<lparr>zs_const := [e]\<rparr>),
     zcbor_map_start_decode = demo_open 5 2,
     zcbor_map_end_decode = demo_close False,
     zcbor_list_start_decode = demo_open 4 1,
     zcbor_list_end_decode = demo_close False,
     zcbor_list_map_end_force_decode = demo_close True,
     zcbor_tstr_decode = demo_str {3},
     zcbor_uint32_decode = demo_number {0} of_nat,
     zcbor_int64_decode = demo_number {0} int,
     zcbor_float_decode = demo_number {} of_nat,
     zcbor_bool_decode = demo_number {7} (\<lambda>v. v = 21),
     zcbor_nil_expect = demo_nil,
     zcbor_tag_decode = demo_number {6} of_nat,
     lib_zcbor_any_skip = demo_skip,
     float_of_double = ucast,
     zcbor_new_encode_state = (\<lambda>k n. \<lparr>ze_payload = [], ze_lib = [int n]\<rparr>),
     zcbor_map_start_encode = (\<lambda>n. demo_enc_put [0xBF]),
     zcbor_map_end_encode = (\<lambda>n. demo_enc_put [0xFF]),
     zcbor_list_start_encode = (\<lambda>n. demo_enc_put [0x9F]),
     zcbor_list_end_encode = (\<lambda>n. demo_enc_put [0xFF]),
     zcbor_tstr_put = (\<lambda>s. demo_enc_put (demo_enc_head 3 (length s) @ s)),
     zcbor_uint32_put = (\<lambda>v. demo_enc_put (demo_enc_head 0 v)),
     zcbor_uint64_put = (\<lambda>v. demo_enc_put (demo_enc_head 0 v)),
     zcbor_int64_put = (\<lambda>v. demo_enc_put (demo_enc_head 0 (nat v))),
     log_room = (\<lambda>enc. nat (hd (ze_lib enc @ [0]) - int (length (ze_payload enc)))),
     zcbor_tstr_encode_ptr = (\<lambda>s n enc. if n \<le> length s then demo_enc_put (demo_enc_head 3 n @ take n s) enc
                                          else (False, enc)),
     zcbor_bstr_encode_ptr = (\<lambda>s n enc. if n \<le> length s then demo_enc_put (demo_enc_head 2 n @ take n s) enc
                                          else (False, enc))\<rparr>"

lemma demo_head_moves:
  "demo_head majors st = Some (v, h) \<Longrightarrow> 0 < h \<and> zs_payload st + h \<le> zs_payload_end st"
  by (auto simp: demo_head_def cbor_head_def Let_def split: if_splits option.splits)

lemma demo_open_moves: "step_moves (demo_open major factor)"
  by (auto simp: step_moves_def demo_open_def demo_advance_def moves_def dest: demo_head_moves
      split: option.splits)

lemma demo_number_moves: "value_moves (demo_number majors f)"
  by (auto simp: value_moves_def demo_number_def demo_advance_def moves_def dest: demo_head_moves
      split: option.splits)

lemma demo_str_moves: "value_moves (demo_str majors)"
  by (auto simp: value_moves_def demo_str_def demo_advance_def moves_def dest: demo_head_moves
      split: option.splits if_splits)

lemma demo_skip_moves: "step_moves demo_skip"
  using demo_number_moves[unfolded value_moves_def] demo_str_moves[unfolded value_moves_def]
  by (fastforce simp: step_moves_def demo_skip_def split: prod.splits bool.splits)

lemma demo_nil_moves: "step_moves demo_nil"
  by (auto simp: step_moves_def demo_nil_def split: prod.splits if_splits
      dest: value_movesD[OF demo_number_moves])

lemma demo_close_leaves: "demo_close force st = (True, st') \<Longrightarrow> leaves st st'"
  by (auto simp: demo_close_def leaves_def split: list.splits if_splits)

lemma demo_zlib_ok: "zcbor_lib_ok demo_zlib"
  by (simp add: zcbor_lib_ok_def demo_zlib_def demo_open_moves demo_number_moves demo_str_moves
      demo_skip_moves demo_nil_moves demo_close_leaves stays_def)

lemma demo_str_item:
  assumes "demo_str {2, 3} st = (True, v, st')"
  shows "cbor_item (zs_mem st) (zs_payload st) (zs_payload st') \<and> same_input st st' \<and>
    zs_elem_count st' = zs_elem_count st - 1"
proof -
  obtain n h where h: "demo_head {2, 3} st = Some (n, h)" and st': "st' = demo_advance (h + n) st"
    using assms by (auto simp: demo_str_def split: option.splits if_splits)
  have "cbor_head (zs_mem st) (zs_payload st) = Some (n, h)" "MAJOR_TYPE (zs_mem st (zs_payload st)) \<in> {2, 3}"
    using h by (auto simp: demo_head_def zs_byte_def split: if_splits option.splits)
  with str[of "zs_mem st" "zs_payload st" n h] st' show ?thesis
    by (simp add: demo_advance_def same_input_def add.assoc)
qed

lemma demo_number_item:
  assumes "demo_number {0, 1, 7} f st = (True, v, st')"
  shows "cbor_item (zs_mem st) (zs_payload st) (zs_payload st') \<and> same_input st st' \<and>
    zs_elem_count st' = zs_elem_count st - 1"
proof -
  obtain n h where h: "demo_head {0, 1, 7} st = Some (n, h)" and st': "st' = demo_advance h st"
    using assms by (auto simp: demo_number_def split: option.splits)
  have "cbor_head (zs_mem st) (zs_payload st) = Some (n, h)" "MAJOR_TYPE (zs_mem st (zs_payload st)) \<in> {0, 1, 7}"
    using h by (auto simp: demo_head_def zs_byte_def split: if_splits option.splits)
  with simple[of "zs_mem st" "zs_payload st" n h] st' show ?thesis
    by (simp add: demo_advance_def same_input_def)
qed

lemma demo_skip_item:
  assumes "demo_skip st = (True, st')"
  shows "cbor_item (zs_mem st) (zs_payload st) (zs_payload st') \<and> same_input st st' \<and>
    zs_elem_count st' = zs_elem_count st - 1"
proof -
  consider v where "demo_number {0, 1, 7} (\<lambda>v. ()) st = (True, v, st')" | v where "demo_str {2, 3} st = (True, v, st')"
    using assms by (auto simp: demo_skip_def split: prod.splits bool.splits)
  then show ?thesis by cases (rule demo_number_item demo_str_item; assumption)+
qed

lemma demo_tag_head:
  assumes "demo_number {6} f st = (True, t, st')"
  shows "same_input st st' \<and> (\<exists>v h. cbor_head (zs_mem st) (zs_payload st) = Some (v, h) \<and>
    zs_payload st' = zs_payload st + h)"
  using assms by (auto simp: demo_number_def demo_head_def demo_advance_def same_input_def
      split: option.splits if_splits)

lemma demo_skips_items: "skips_items demo_zlib"
  unfolding skips_items_def demo_zlib_def
  by (simp add: demo_skip_item demo_tag_head step_movesD(1)[OF demo_skip_moves])

section \<open>The application and the worlds\<close>

definition demo_app :: "demo_env app" where
  "demo_app = \<lparr>app_cb = (\<lambda>i nb rsp w. (0, w)), app_setting = (\<lambda>i key v w. (0, w)),
     app_rpc = (\<lambda>i st enc a w. (0, enc, w)), app_on_connect = (\<lambda>i w. w)\<rparr>"

lemma demo_app_ok: "app_ok demo_app"
  by (simp add: app_ok_def demo_app_def)

lemma demo_env_ok: "env_ok demo_sys demo_app demo_zlib"
  by (simp add: env_ok_def demo_lib_ok demo_app_ok demo_zlib_ok)

definition demo_service :: service_conf where
  "demo_service = \<lparr>conf_rpc_max_num_methods = 8, conf_rpc_max_response_len = 128,
     conf_settings_max_response_len = 128\<rparr>"

definition demo_env0 :: demo_env where
  "demo_env0 = \<lparr>de_now = 0, de_next_fd = 3, de_fds = [], de_outbox = [], de_id = 1, de_event = 0\<rparr>"

text \<open>Memory before the client is initialised, and the client once it is.\<close>

definition blank_world :: "'e \<Rightarrow> 'e world" where
  "blank_world e = \<lparr>w_client = zero_client, w_reqs = Map.empty, w_bufs = Map.empty,
     w_syncs = (\<lambda>_. \<lparr>sync_sem = 0, sync_err = 0, sync_cb = None, sync_user_data = UD_null\<rparr>),
     w_preallocs = (\<lambda>_. \<lparr>pre_data = replicate 8 0, pre_capacity = 8, pre_len = 0, pre_overrun = False\<rparr>),
     w_next = 1, w_fault = False, w_env = e\<rparr>"

definition idle_world :: "'e \<Rightarrow> 'e world" where
  "idle_world e = golioth_init (blank_world e)"

text \<open>A connected client with one request of an application waiting for its response.\<close>

definition demo_req :: golioth_coap_req where
  "demo_req = zero_req\<lparr>req_request := \<lparr>pkt_offset = 5, pkt_lib = []\<rparr>, req_data := 2,
     req_pending := \<lparr>pend_t0 = 0, pend_timeout = 0, pend_retries = 3\<rparr>,
     req_cb := User_cb (App_cb 0), req_user_data := UD_app 0\<rparr>"

definition busy_world :: "'e \<Rightarrow> 'e world" where
  "busy_world e = (upd_client (\<lambda>c. c\<lparr>cl_sock := 3, cl_coap_reqs_connected := True, cl_coap_reqs := [1]\<rparr>)
     (golioth_init (blank_world e)))\<lparr>w_reqs := [1 \<mapsto> demo_req], w_bufs := [2 \<mapsto> [0x41, 1, 0, 7, 9, 0, 0, 0]],
     w_next := 3\<rparr>"

lemma blank_world_fresh:
  "fresh_ok (blank_world e)" "w_reqs (blank_world e) = Map.empty" "w_bufs (blank_world e) = Map.empty"
  "\<not> w_fault (blank_world e)" "sync_ok S (w_syncs (blank_world e) p)"
  by (simp_all add: blank_world_def fresh_ok_def sync_ok_def)

lemma idle_world_ok: "client_ok (idle_world e)" "\<not> is_connected (idle_world e)"
  unfolding idle_world_def by (rule golioth_init_ok; rule blank_world_fresh)+

lemma busy_world_sel [simp]:
  "reqs_list (busy_world e) = [1]" "is_connected (busy_world e)" "cl_sock (w_client (busy_world e)) = 3"
  "w_reqs (busy_world e) = [1 \<mapsto> demo_req]" "w_next (busy_world e) = 3" "\<not> settings_ready (busy_world e)"
  "w_env (busy_world e) = e" "w_bufs (busy_world e) = [2 \<mapsto> [0x41, 1, 0, 7, 9, 0, 0, 0]]"
  "w_preallocs (busy_world e) p = \<lparr>pre_data = replicate 8 0, pre_capacity = 8, pre_len = 0, pre_overrun = False\<rparr>"
  "w_syncs (busy_world e) p = \<lparr>sync_sem = 0, sync_err = 0, sync_cb = None, sync_user_data = UD_null\<rparr>"
  by (simp_all add: busy_world_def upd_client_def settings_ready_def golioth_init_def golioth_coap_reqs_init_def
      zero_client_def blank_world_def)

lemma busy_world_world_ok: "world_ok (busy_world e)"
proof -
  have "\<not> w_fault (busy_world e)" "sync_ok S (w_syncs (busy_world e) p)" for S p
    by (simp_all add: busy_world_def upd_client_def golioth_init_def golioth_coap_reqs_init_def blank_world_def
        sync_ok_def)
  moreover have "heap_ok False [1] True [1 \<mapsto> demo_req] [2 \<mapsto> [0x41, 1, 0, 7, 9, 0, 0, 0]] 3"
    by (rule heap_okI) (auto simp: demo_req_def zero_req_def ran_def split: if_splits)
  ultimately show ?thesis by (simp add: world_ok_def)
qed

lemma busy_world_ok: "client_ok (busy_world e)"
  by (simp add: client_ok_def busy_world_world_ok)

text \<open>The same with a settings callback, and an empty settings response.\<close>

definition ready_world :: "demo_env world" where
  "ready_world = upd_client (\<lambda>c. c\<lparr>cl_settings := \<lparr>settings_initialized = True, settings_callback = Some 0\<rparr>\<rparr>)
     (busy_world demo_env0)"

definition demo_response :: settings_response where
  "demo_response = \<lparr>sr_zse = \<lparr>ze_payload = [], ze_lib = [64]\<rparr>, sr_num_errors = 0\<rparr>"

section \<open>The system client and the socket wrapper\<close>

definition demo_system_conf :: system_conf where
  "demo_system_conf = \<lparr>sconf_auth = AUTH_PSK, sconf_tag = 1, sconf_psk_id_max_len = 64,
     sconf_psk_max_len = 64, sconf_ca_crt = [], sconf_server_host = [0x67, 0], sconf_server_port = 5684,
     sconf_rx_buf_size = 1024, sconf_ping_interval_sec = 9, sconf_rx_timeout_sec = 30,
     sconf_log_backend = False, sconf_rpc = True, sconf_openthread = False\<rparr>"

definition demo_ot :: ot_lib where
  "demo_ot = \<lparr>ot_ip4_address_from_string = 0, ot_nat64_synthesize = 0, ot_dns_resolve = (\<lambda>h. 0),
     ot_dns_responses = (\<lambda>h. [(0, Some [0xfd])])\<rparr>"

definition demo_system :: "'e world \<Rightarrow> thread_pc \<Rightarrow> 'e system" where
  "demo_system w pc = \<lparr>sy_world = w, sy_pc = pc, sy_reconnect = False, sy_stop = False, sy_event = 0,
     sy_started = False, sy_timer = None, sy_recv_expiry = 0, sy_ping_expiry = 0, sy_fd_event = 0,
     sy_fd_socket = cl_sock (w_client w), sy_ot = \<lparr>ot_sem = 0, ot_addr = []\<rparr>, sy_log_client = False\<rparr>"

lemma demo_system_sel [simp]:
  "sy_world (demo_system w pc) = w" "sy_pc (demo_system w pc) = pc" "\<not> sy_started (demo_system w pc)"
  "\<not> sy_stop (demo_system w pc)" "\<not> sy_reconnect (demo_system w pc)" "sy_event (demo_system w pc) = 0"
  "sy_fd_socket (demo_system w pc) = cl_sock (w_client w)"
  by (simp_all add: demo_system_def)

lemma polling_system_ok: "system_ok (demo_system (busy_world demo_env0) Polling)"
  by (simp add: system_ok_def busy_world_ok)

definition demo_layer :: "demo_env sock_layer" where
  "demo_layer = \<lparr>sl_families = [\<lparr>sf_is_wrapper = True, sf_family = 0, sf_is_supported = (\<lambda>f t p. True),
         sf_is_offloaded = True, sf_handler = (\<lambda>f t p e. (- 1, e))\<rparr>,
       \<lparr>sf_is_wrapper = False, sf_family = 1, sf_is_supported = (\<lambda>f t p. True), sf_is_offloaded = True,
         sf_handler = (\<lambda>f t p e. (int (de_next_fd e), e\<lparr>de_next_fd := Suc (de_next_fd e),
           de_fds := int (de_next_fd e) # de_fds e\<rparr>))\<rparr>],
     sl_call = (\<lambda>fd c e. (0, [], e)), sl_poll = (\<lambda>fd e. (1, e)),
     sl_close = (\<lambda>fd e. (0, e\<lparr>de_fds := removeAll fd (de_fds e)\<rparr>)),
     sl_reserve_fd = (\<lambda>e. (int (de_next_fd e), e\<lparr>de_next_fd := Suc (de_next_fd e),
           de_fds := int (de_next_fd e) # de_fds e\<rparr>)),
     sl_has_obj = (\<lambda>fd e. True), sl_ioctl_poll_prepare = (\<lambda>fd e. (0, e)), sl_ioctl = (\<lambda>fd r e. (0, e))\<rparr>"

lemma demo_sock_ledger: "sock_ledger demo_layer demo_fds"
  by (auto simp: sock_ledger_def demo_layer_def demo_fds_def fd_result_def)

definition demo_wrapper :: "demo_env wrapper_state" where
  "demo_wrapper = \<lparr>ws_contexts = replicate 2 zero_context, ws_errno = 0, ws_env = demo_env0\<rparr>"

lemma demo_wrapper_ok: "wrapper_ok demo_fds demo_wrapper"
  by (simp add: wrapper_ok_def table_ok_def demo_wrapper_def zero_context_def less_Suc_eq numeral_2_eq_2)

end
