(* ===== verification/Lifecycle.thy ===== *)
theory Lifecycle
  imports SystemClient
begin

text \<open>
  What the system client promises, without sockets, timers, flags and memory: a life cycle. The
  client is down, or it is up with a list of calls that wait for an answer. The main thread takes it
  up and down and answers calls; other threads only add calls.

  The system of \<^verbatim>\<open>SystemClient\<close> refines this: it is a forward simulation.
\<close>

section \<open>The life cycle\<close>

datatype life = Down | Up "(ptr \<times> golioth_req_cb \<times> user_data) list"

datatype actor = Main_thread | Other_thread

inductive life_step :: "life \<Rightarrow> actor \<Rightarrow> life \<Rightarrow> bool" where
  life_connects: "life_step Down Main_thread (Up ps)"
| life_serves: "calls_evolve ps ps' \<Longrightarrow> life_step (Up ps) Main_thread (Up ps')"
| life_drops: "life_step (Up ps) Main_thread Down"
| life_submits: "life_step (Up ps) Other_thread (Up (ps @ new))"
| life_idles: "life_step Down a Down"

inductive_cases life_otherE: "life_step l Other_thread l'"

text \<open>While only other threads act, the calls are only added to.\<close>

lemma life_others_add:
  assumes "runs life_step (Up ps) ls l" and "set ls \<subseteq> {Other_thread}"
  shows "\<exists>new. l = Up (ps @ new)"
  using assms
proof (induction ls arbitrary: ps)
  case (Cons a ls)
  then obtain l1 where "life_step (Up ps) Other_thread l1" "runs life_step l1 ls l" by (auto simp: runs_Cons_iff)
  moreover from this(1) obtain new where "l1 = Up (ps @ new)" by (auto elim: life_otherE)
  ultimately show ?case using Cons.IH[of "ps @ new"] Cons.prems(2) by auto
qed simp

section \<open>The system refines it\<close>

definition life_of :: "'e system \<Rightarrow> life" where
  "life_of s = (if is_connected (sy_world s) then Up (pending_calls (sy_world s)) else Down)"

text \<open>The steps of the system, with who takes them.\<close>

definition system_step where
  "system_step lib sc gc ot oc run s a s' \<longleftrightarrow>
     (a = Main_thread \<and> main_step lib sc gc ot oc run s s') \<or> (a = Other_thread \<and> other_step lib sc s s')"

text \<open>The same in an environment the system may rely on.\<close>

definition lawful_step where
  "lawful_step sys sc gc ot oc app lib conf s a s' \<longleftrightarrow>
     errno_ok sys \<and> ack_timeout_ok sys \<and> (\<forall>f w. world_ok w \<longrightarrow> cb_step w (oc f w)) \<and>
     system_step sys sc gc ot oc (lawful_run sys app lib conf) s a s'"

lemma lawful_step_sim:
  assumes "lawful_step sys sc gc ot oc app lib conf s a s'" and "system_ok s"
  shows "life_step (life_of s) a (life_of s')"
proof -
  have "ack_timeout_ok sys" and st: "system_step sys sc gc ot oc (lawful_run sys app lib conf) s a s'"
    using assms(1) by (simp_all add: lawful_step_def)
  show ?thesis
  proof (cases a)
    case Main_thread
    with st have "main_step sys sc gc ot oc (lawful_run sys app lib conf) s s'" by (simp add: system_step_def)
    from sdk.main_step_kept[OF this assms(2) \<open>ack_timeout_ok sys\<close>] Main_thread show ?thesis
      by (auto simp: life_of_def life_kept_def intro: life_step.intros)
  next
    case Other_thread
    with st have "other_step sys sc s s'" by (simp add: system_step_def)
    from sdk.other_step_adds[OF this assms(2)] Other_thread show ?thesis
      by (auto simp: life_of_def intro: life_step.intros)
  qed
qed

interpretation life: simulation "lawful_step sys sc gc ot oc app lib conf" system_ok life_step life_of
  for sys sc gc ot oc app lib conf
proof
  show "system_ok s'" if "lawful_step sys sc gc ot oc app lib conf s a s'" "system_ok s" for s a s'
    using that sdk.main_step_ok[of sys sc gc ot oc sys app lib conf s s'] sdk.other_step_ok[of sys sc s s']
    by (auto simp: lawful_step_def system_step_def)
qed (rule lawful_step_sim)

text \<open>
  C3. Every run of the system is a run of the life cycle, with the same threads acting in the same
  order: requests wait only while the client is up, are never altered or moved while they wait,
  leave the list only by the main thread, and other threads only add to its end.
\<close>

lemma life_refined:
  assumes "env_ok sys app lib" and "errno_ok sys" and "ack_timeout_ok sys" and "system_ok s"
    and "runs (system_step sys sc gc ot (app_on_connect app) (run_callback sys app lib conf)) s ls s'"
  shows "runs life_step (life_of s) ls (life_of s') \<and> (life_of s' = Down \<longrightarrow> reqs_list (sy_world s') = [])"
proof -
  have "app_ok app" using assms(1) by (simp add: env_ok_def)
  note oc = app_okD(5)[OF this]
  have r: "runs (lawful_step sys sc gc ot (app_on_connect app) app lib conf) s ls s'"
    using assms(5) unfolding lawful_run_eq[OF assms(1), symmetric]
    by (induction rule: runs.induct) (auto intro: runs_Nil runs_Cons simp: lawful_step_def assms(2,3) oc)
  have "system_ok s'" by (rule life.inv_runs[OF r assms(4)])
  then have "world_ok (sy_world s')" by (simp add: system_ok_def client_ok_def)
  then have "is_connected (sy_world s') \<or> reqs_list (sy_world s') = []" by (simp add: world_ok_mem_ok)
  with life.sim_runs[OF r assms(4)] show ?thesis by (auto simp: life_of_def split: if_splits)
qed

end
