(* ===== verification/ZcborExact.thy ===== *)
theory ZcborExact
  imports ZcborAnySkip
begin

text \<open>
  The other direction for \<^verbatim>\<open>zcbor_any_skip_fixed\<close>: every item of the grammar \<open>cbor_item\<close> that lies in the payload
  is skipped. Together with \<open>any_skip_fixed_sound\<close>, the grammar is exactly what the function accepts; and
  \<open>cbor_end\<close> is a recursive reader of the same grammar.
\<close>

section \<open>Items\<close>

lemma cbor_head_pos: "cbor_head m i = Some (v, h) \<Longrightarrow> 0 < h"
  by (auto simp: cbor_head_def Let_def split: if_splits)

text \<open>Items take space, sequences do not go back, and the break byte is no item.\<close>

lemma cbor_progress:
  "cbor_item m i j \<Longrightarrow> i < j" "cbor_items m n i j \<Longrightarrow> n + i \<le> j" "cbor_seq m i j \<Longrightarrow> i \<le> j"
proof (induction rule: cbor_item_cbor_items_cbor_seq.inducts)
  case (simple i v h)
  then show ?case using cbor_head_pos by fastforce
next
  case (str i v h)
  then show ?case using cbor_head_pos by fastforce
next
  case (list i v h j)
  then show ?case using cbor_head_pos by fastforce
next
  case (cmap i v h j)
  then show ?case using cbor_head_pos by fastforce
next
  case (tag i v h j)
  then show ?case using cbor_head_pos by fastforce
qed simp_all

inductive_cases cbor_itemE [consumes 1, case_names simple str list cmap tag indef]: "cbor_item m i j"
inductive_cases cbor_itemsE: "cbor_items m n i j"
inductive_cases cbor_seqE [consumes 1, case_names nil cons]: "cbor_seq m i j"

lemma cbor_tag_item: "MAJOR_TYPE (m i) = 6 \<Longrightarrow>
    cbor_item m i j \<longleftrightarrow> (\<exists>v h. cbor_head m i = Some (v, h) \<and> cbor_item m (i + h) j)"
  by (auto elim: cbor_itemE intro: tag)

lemma break_byte: "MAJOR_TYPE 0xFF = 7" "ADDITIONAL 0xFF = 31"
  by (simp_all add: MAJOR_TYPE_def ADDITIONAL_def)

lemma break_no_item: "cbor_item m i j \<Longrightarrow> m i \<noteq> 0xFF"
  by (erule cbor_itemE) (auto simp: break_byte cbor_head_def)

section \<open>The library's part\<close>

text \<open>
  The library's functions also succeed on what the grammar describes: \<^verbatim>\<open>zcbor_any_skip\<close> on an item inside the payload
  when an element is left to read, \<^verbatim>\<open>zcbor_tag_decode\<close> on a tag that fits 32 bits, which it does not count
  as an element. The error state is what all copies of a state share.
\<close>

definition skips_exactly :: "('l) zcbor_lib_scheme \<Rightarrow> bool" where
  "skips_exactly lib \<longleftrightarrow> skips_items lib \<and>
     (\<forall>st st'. zs_const st' = zs_const st \<longrightarrow> zcbor_check_error lib st' = zcbor_check_error lib st) \<and>
     (\<forall>st j. zcbor_check_error lib st \<longrightarrow> zs_elem_count st \<noteq> 0 \<longrightarrow> cbor_item (zs_mem st) (zs_payload st) j \<longrightarrow>
        j \<le> zs_payload_end st \<longrightarrow>
        (\<exists>st'. lib_zcbor_any_skip lib st = (True, st') \<and> zs_payload st' = j \<and> zcbor_check_error lib st')) \<and>
     (\<forall>st v h. zcbor_check_error lib st \<longrightarrow> zs_elem_count st \<noteq> 0 \<longrightarrow> MAJOR_TYPE (zs_byte st) = 6 \<longrightarrow>
        cbor_head (zs_mem st) (zs_payload st) = Some (v, h) \<longrightarrow> v < 2 ^ 32 \<longrightarrow> zs_payload st + h \<le> zs_payload_end st \<longrightarrow>
        (\<exists>t st'. zcbor_tag_decode lib st = (True, t, st') \<and> zs_elem_count st' = zs_elem_count st \<and>
           zcbor_check_error lib st'))"

lemma skips_exactlyD:
  assumes "skips_exactly lib"
  shows "skips_items lib"
    and "zs_const st' = zs_const st \<Longrightarrow> zcbor_check_error lib st' = zcbor_check_error lib st"
    and "zcbor_check_error lib st \<Longrightarrow> zs_elem_count st \<noteq> 0 \<Longrightarrow> cbor_item (zs_mem st) (zs_payload st) j \<Longrightarrow>
        j \<le> zs_payload_end st \<Longrightarrow>
        \<exists>st'. lib_zcbor_any_skip lib st = (True, st') \<and> zs_payload st' = j \<and> zcbor_check_error lib st'"
    and "zcbor_check_error lib st \<Longrightarrow> zs_elem_count st \<noteq> 0 \<Longrightarrow> MAJOR_TYPE (zs_byte st) = 6 \<Longrightarrow>
        cbor_head (zs_mem st) (zs_payload st) = Some (v, h) \<Longrightarrow> v < 2 ^ 32 \<Longrightarrow> zs_payload st + h \<le> zs_payload_end st \<Longrightarrow>
        \<exists>t st'. zcbor_tag_decode lib st = (True, t, st') \<and> zs_elem_count st' = zs_elem_count st \<and> zcbor_check_error lib st'"
  using assms unfolding skips_exactly_def by blast+

text \<open>Tags of 64 bits are the library's limit.\<close>

definition tags_fit :: "(nat \<Rightarrow> u8) \<Rightarrow> bool" where
  "tags_fit m \<longleftrightarrow> (\<forall>i v h. MAJOR_TYPE (m i) = 6 \<longrightarrow> cbor_head m i = Some (v, h) \<longrightarrow> v < 2 ^ 32)"

text \<open>What is handed from one function to the next: no error so far, on the same input.\<close>

definition reading :: "('l) zcbor_lib_scheme \<Rightarrow> zcbor_state \<Rightarrow> zcbor_state \<Rightarrow> nat \<Rightarrow> bool" where
  "reading lib st st' j \<longleftrightarrow> same_input st st' \<and> zcbor_check_error lib st' \<and> zs_payload st' = j"

lemma reading_trans: "reading lib a b i \<Longrightarrow> reading lib b c j \<Longrightarrow> reading lib a c j"
  using same_input_trans by (auto simp: reading_def)

section \<open>Every item is skipped\<close>

lemma initial_checks_ok:
  "zcbor_check_error lib st \<Longrightarrow> zs_payload st < zs_payload_end st \<Longrightarrow> initial_checks lib st = (True, st)"
  by (simp add: initial_checks_def)

lemma value_extract_complete:
  assumes "skips_exactly lib" and "zcbor_check_error lib st" and "zs_elem_count st \<noteq> 0"
    and "cbor_head (zs_mem st) (zs_payload st) = Some (v, h)" and "zs_payload st + h \<le> zs_payload_end st"
  shows "\<exists>bytes st'. value_extract lib 8 st = (True, bytes, st') \<and> le_value bytes = v \<and>
    reading lib st st' (zs_payload st + h)"
proof -
  let ?a = "ADDITIONAL (zs_byte st)"
  have lt: "zs_payload st < zs_payload_end st" using cbor_head_pos[OF assms(4)] assms(5) by linarith
  note C = value_extract_cases[OF initial_checks_ok[OF assms(2) lt] assms(3)]
  have "\<exists>bytes st'. value_extract lib 8 st = (True, bytes, st') \<and> zs_const st' = zs_const st"
  proof (cases "?a \<le> 23")
    case True
    from C(1)[OF True] show ?thesis by simp
  next
    case False
    with assms(4) have a: "?a \<le> 27" "h = 1 + 2 ^ (?a - 24)"
      by (auto simp: cbor_head_def zs_byte_def Let_def split: if_splits)
    with False have l: "additional_len ?a = 2 ^ (?a - 24)" by (simp add: additional_len_def)
    have "?a - 24 \<le> 3" using a by simp
    then have "(2::nat) ^ (?a - 24) \<le> 2 ^ 3" by (intro power_increasing) simp_all
    with l a assms(5) have "\<not> (8 < additional_len ?a \<or> additional_len ?a = 0 \<or> zs_payload_end st < Suc (zs_payload st) + additional_len ?a)"
      by simp
    from C(3)[OF False this] show ?thesis by simp
  qed
  then obtain bytes st' where v: "value_extract lib 8 st = (True, bytes, st')" "zs_const st' = zs_const st" by blast
  from value_extract_head[OF v(1)] assms(4) have "le_value bytes = v" "zs_payload st' = zs_payload st + h" "same_input st st'"
    by auto
  with v skips_exactlyD(2)[OF assms(1) v(2)] assms(2) show ?thesis by (auto simp: reading_def)
qed

lemma skip_tags_complete:
  assumes "skips_exactly lib" and "tags_fit (zs_mem st)" and "zcbor_check_error lib st" and "zs_elem_count st \<noteq> 0"
    and "cbor_item (zs_mem st) (zs_payload st) j" and "j \<le> zs_payload_end st"
  shows "\<exists>copy. skip_tags lib st = Some (True, copy) \<and> reading lib st copy (zs_payload copy) \<and> zs_elem_count copy \<noteq> 0 \<and>
    MAJOR_TYPE (zs_byte copy) \<noteq> 6 \<and> cbor_item (zs_mem st) (zs_payload copy) j"
  using assms(2-)
proof (induction "j - zs_payload st" arbitrary: st rule: less_induct)
  case less
  show ?case
  proof (cases "MAJOR_TYPE (zs_byte st) = 6")
    case False
    with less.prems show ?thesis
      by (subst skip_tags.simps) (auto simp: reading_def same_input_def)
  next
    case True
    from less.prems(4) True obtain v h where h: "cbor_head (zs_mem st) (zs_payload st) = Some (v, h)"
      "cbor_item (zs_mem st) (zs_payload st + h) j"
      by (auto simp: zs_byte_def cbor_tag_item)
    have lt: "zs_payload st + h < j" using cbor_progress(1)[OF h(2)] .
    moreover have "v < 2 ^ 32" using less.prems(1) h(1) True by (simp add: tags_fit_def zs_byte_def)
    ultimately obtain t st1 where t: "zcbor_tag_decode lib st = (True, t, st1)" "zs_elem_count st1 = zs_elem_count st"
      "zcbor_check_error lib st1"
      using skips_exactlyD(4)[OF assms(1) less.prems(2,3) True h(1)] less.prems(5) by auto
    then have st1: "same_input st st1" "zs_payload st1 = zs_payload st + h"
      using skips_itemsD(2)[OF skips_exactlyD(1)[OF assms(1)] t(1)] h(1) by auto
    have "j - zs_payload st1 < j - zs_payload st" using st1(2) lt cbor_head_pos[OF h(1)] by linarith
    from less.hyps[OF this] less.prems h t st1 obtain copy where copy: "skip_tags lib st1 = Some (True, copy)"
      "reading lib st1 copy (zs_payload copy)" "zs_elem_count copy \<noteq> 0" "MAJOR_TYPE (zs_byte copy) \<noteq> 6"
      "cbor_item (zs_mem st1) (zs_payload copy) j" by (auto simp: same_input_def)
    have "zs_payload st1 < zs_payload_end st1" using st1 lt less.prems(5) by (simp add: same_input_def)
    with True t(1) copy(1) have "skip_tags lib st = Some (True, copy)" by (subst skip_tags.simps) simp
    with copy st1(1) same_input_trans show ?thesis by (auto simp: reading_def same_input_def)
  qed
qed

lemma skip_elems_complete:
  assumes "skips_exactly lib"
  shows "cbor_items (zs_mem st) (unat (zs_elem_count st)) (zs_payload st) j \<Longrightarrow> \<not> zs_indefinite st \<Longrightarrow>
      zcbor_check_error lib st \<Longrightarrow> j \<le> zs_payload_end st \<Longrightarrow>
      \<exists>copy. skip_elems lib st = Some (True, copy) \<and> reading lib st copy j"
proof (induction "unat (zs_elem_count st)" arbitrary: st)
  case 0
  then have "zs_elem_count st = 0" "j = zs_payload st" by (auto elim: cbor_itemsE simp: unat_eq_0)
  with 0 show ?case by (subst skip_elems.simps) (simp add: zcbor_array_at_end_def reading_def same_input_def)
next
  case (Suc n)
  then have ne: "zs_elem_count st \<noteq> 0" by auto
  from Suc.prems(1) Suc.hyps(2) obtain k where k: "cbor_item (zs_mem st) (zs_payload st) k" "cbor_items (zs_mem st) n k j"
    by (auto elim: cbor_itemsE)
  have "k \<le> zs_payload_end st" using cbor_progress(2)[OF k(2)] Suc.prems(4) by simp
  from skips_exactlyD(3)[OF assms Suc.prems(3) ne k(1) this] obtain st1 where
    s: "lib_zcbor_any_skip lib st = (True, st1)" "zs_payload st1 = k" "zcbor_check_error lib st1" by blast
  then have st1: "same_input st st1" "zs_elem_count st1 = zs_elem_count st - 1"
    using skips_itemsD(1)[OF skips_exactlyD(1)[OF assms], of st st1] by simp_all
  with ne Suc.hyps(2) have n: "n = unat (zs_elem_count st1)" by (simp add: unat_minus_one)
  from Suc.hyps(1)[OF n] k(2) n s st1 Suc.prems obtain copy where "skip_elems lib st1 = Some (True, copy)" "reading lib st1 copy j"
    by (auto simp: same_input_def)
  with s st1(1) ne Suc.prems(2) same_input_trans show ?case
    by (subst skip_elems.simps) (auto simp: zcbor_array_at_end_def reading_def)
qed

lemma skip_seq_complete:
  assumes "skips_exactly lib"
  shows "cbor_seq (zs_mem st) (zs_payload st) j \<Longrightarrow> zs_mem st j = 0xFF \<Longrightarrow> zs_indefinite st \<Longrightarrow>
      zcbor_check_error lib st \<Longrightarrow> j < zs_payload_end st \<Longrightarrow> j - zs_payload st < unat (zs_elem_count st) \<Longrightarrow>
      \<exists>copy. skip_elems lib st = Some (True, copy) \<and> reading lib st copy j"
proof (induction "j - zs_payload st" arbitrary: st rule: less_induct)
  case less
  from less.prems(1) show ?case
  proof (cases rule: cbor_seqE)
    case nil
    with less.prems(2-5) show ?thesis
      by (subst skip_elems.simps) (simp add: zcbor_array_at_end_def reading_def same_input_def zs_byte_def)
  next
    case (cons k)
    have lt: "zs_payload st < k" "k \<le> j" using cbor_progress(1)[OF cons(1)] cbor_progress(3)[OF cons(2)] .
    have ne: "zs_elem_count st \<noteq> 0" using less.prems(6) by auto
    have "k \<le> zs_payload_end st" using lt less.prems(5) by simp
    from skips_exactlyD(3)[OF assms less.prems(4) ne cons(1) this] obtain st1 where
      s: "lib_zcbor_any_skip lib st = (True, st1)" "zs_payload st1 = k" "zcbor_check_error lib st1" by blast
    then have st1: "same_input st st1" "unat (zs_elem_count st1) = unat (zs_elem_count st) - 1"
      using skips_itemsD(1)[OF skips_exactlyD(1)[OF assms], of st st1] ne by (simp_all add: unat_minus_one)
    have m: "j - zs_payload st1 < j - zs_payload st" "j - zs_payload st1 < unat (zs_elem_count st1)"
      using lt s(2) st1(2) less.prems(6) by auto
    from less.hyps[OF m(1)] m(2) cons(2) s st1(1) less.prems obtain copy where
      "skip_elems lib st1 = Some (True, copy)" "reading lib st1 copy j" by (auto simp: same_input_def)
    with s st1(1) less.prems(3) break_no_item[OF cons(1)] same_input_trans show ?thesis
      by (subst skip_elems.simps) (auto simp: zcbor_array_at_end_def reading_def zs_byte_def)
  qed
qed

lemma skip_container_definite:
  assumes "skips_exactly lib" and "zcbor_check_error lib st" and "cbor_items (zs_mem st) n (zs_payload st) j"
    and "j \<le> zs_payload_end st" and "n < 2 ^ 32"
  shows "\<exists>copy. skip_container lib False n st = Some (True, copy) \<and> zs_payload copy = j"
proof -
  let ?c = "st\<lparr>zs_elem_count := of_nat n, zs_indefinite := False\<rparr>"
  have "unat (zs_elem_count ?c) = n" using assms(5) by (simp add: unat_of_nat)
  moreover have "zcbor_check_error lib ?c" using skips_exactlyD(2)[OF assms(1), of ?c st] assms(2) by simp
  ultimately obtain copy where "skip_elems lib ?c = Some (True, copy)" "zs_payload copy = j"
    using skip_elems_complete[OF assms(1), of ?c j] assms(3,4) by (auto simp: reading_def)
  then show ?thesis by (simp add: skip_container_def)
qed

lemma skip_container_indefinite:
  assumes "skips_exactly lib" and "zcbor_check_error lib st" and "cbor_seq (zs_mem st) (Suc (zs_payload st)) j"
    and "zs_mem st j = 0xFF" and "j < zs_payload_end st" and "zs_payload_end st < ZCBOR_LARGE_ELEM_COUNT"
  shows "\<exists>copy. skip_container lib True v st = Some (True, copy) \<and> zs_payload copy = Suc j"
proof -
  let ?c = "st\<lparr>zs_payload := Suc (zs_payload st), zs_elem_count := of_nat ZCBOR_LARGE_ELEM_COUNT, zs_indefinite := True\<rparr>"
  have "unat (zs_elem_count ?c) = ZCBOR_LARGE_ELEM_COUNT" by simp
  moreover have "zcbor_check_error lib ?c" using skips_exactlyD(2)[OF assms(1), of ?c st] assms(2) by simp
  ultimately have "\<exists>copy. skip_elems lib ?c = Some (True, copy) \<and> reading lib ?c copy j"
    using skip_seq_complete[OF assms(1), of ?c j] assms(3-6) by simp
  then obtain copy where c: "skip_elems lib ?c = Some (True, copy)" "reading lib ?c copy j" by blast
  then have "initial_checks lib copy = (True, copy)" "zs_byte copy = 0xFF" "zs_payload copy = j"
    using assms(4,5) by (auto simp: reading_def same_input_def zs_byte_def intro: initial_checks_ok)
  with c(1) show ?thesis by (simp add: skip_container_def array_end_expect_def)
qed

text \<open>The item behind the tags.\<close>

lemma skip_item_complete:
  assumes "skips_exactly lib" and "zcbor_check_error lib copy" and "zs_elem_count copy \<noteq> 0"
    and "cbor_item (zs_mem copy) (zs_payload copy) j" and "MAJOR_TYPE (zs_byte copy) \<noteq> 6"
    and "j \<le> zs_payload_end copy" and "zs_payload_end copy < ZCBOR_LARGE_ELEM_COUNT"
  defines "major \<equiv> MAJOR_TYPE (zs_byte copy)"
  defines "indefinite \<equiv> ADDITIONAL (zs_byte copy) = 31 \<and> (major = 4 \<or> major = 5)"
  shows "\<exists>bytes copy1 copy2. (if indefinite then (True, [], copy) else value_extract lib 8 copy) = (True, bytes, copy1) \<and>
    skip_body lib major indefinite (le_value bytes) copy1 = Some (True, copy2) \<and> zs_payload copy2 = j"
  using assms(4)
proof (cases rule: cbor_itemE)
  case (simple v h)
  then have "\<not> indefinite" "major \<in> {0, 1, 7}" by (auto simp: indefinite_def major_def zs_byte_def)
  with value_extract_complete[OF assms(1-3) simple(3)] simple(1) assms(6) show ?thesis
    by (auto simp: skip_body_def reading_def)
next
  case (str v h)
  then have "\<not> indefinite" "major \<in> {2, 3}" by (auto simp: indefinite_def major_def zs_byte_def)
  with value_extract_complete[OF assms(1-3) str(3)] str(1) assms(6) show ?thesis
    by (fastforce simp: skip_body_def reading_def same_input_def)
next
  case (list v h)
  then have m: "\<not> indefinite" "major = 4" by (auto simp: indefinite_def major_def zs_byte_def cbor_head_def)
  have le: "v + (zs_payload copy + h) \<le> j" using cbor_progress(2)[OF list(3)] .
  obtain bytes c1 where c1: "value_extract lib 8 copy = (True, bytes, c1)" "le_value bytes = v"
    "reading lib copy c1 (zs_payload copy + h)"
    using value_extract_complete[OF assms(1-3) list(2)] le assms(6) by auto
  obtain c2 where "skip_container lib False v c1 = Some (True, c2)" "zs_payload c2 = j"
    using skip_container_definite[OF assms(1), of c1 v j] list(3) c1(3) le assms(6,7) by (auto simp: reading_def same_input_def)
  with m c1 show ?thesis by (auto simp: skip_body_def)
next
  case (cmap v h)
  then have m: "\<not> indefinite" "major = 5" by (auto simp: indefinite_def major_def zs_byte_def cbor_head_def)
  have le: "v * 2 + (zs_payload copy + h) \<le> j" using cbor_progress(2)[OF cmap(3)] .
  obtain bytes c1 where c1: "value_extract lib 8 copy = (True, bytes, c1)" "le_value bytes = v"
    "reading lib copy c1 (zs_payload copy + h)"
    using value_extract_complete[OF assms(1-3) cmap(2)] le assms(6) by auto
  obtain c2 where "skip_container lib False (v * 2) c1 = Some (True, c2)" "zs_payload c2 = j"
    using skip_container_definite[OF assms(1), of c1 "v * 2" j] cmap(3) c1(3) le assms(6,7) by (auto simp: reading_def same_input_def)
  moreover have "v \<le> SIZE_MAX div 2" using le assms(6,7) by simp
  ultimately show ?thesis using m c1 by (auto simp: skip_body_def)
next
  case (tag v h)
  with assms(5) show ?thesis by (simp add: zs_byte_def)
next
  case (indef k)
  then have "indefinite" "major = 4 \<or> major = 5" by (auto simp: indefinite_def major_def zs_byte_def)
  moreover obtain c2 where "\<And>v. skip_container lib True v copy = Some (True, c2)" "zs_payload c2 = Suc k"
    using skip_container_indefinite[OF assms(1,2) indef(4,5) _ assms(7)] indef(1) assms(6) by (auto simp: skip_container_def)
  ultimately show ?thesis using indef(1) by (auto simp: skip_body_def le_value_def)
qed

lemma any_skip_fixed_complete:
  assumes "skips_exactly lib" and "tags_fit (zs_mem st)" and "zcbor_check_error lib st" and "zs_elem_count st \<noteq> 0"
    and "cbor_item (zs_mem st) (zs_payload st) j" and "j \<le> zs_payload_end st" and "zs_payload_end st < ZCBOR_LARGE_ELEM_COUNT"
  shows "\<exists>st'. zcbor_any_skip_fixed lib st = Some (True, st') \<and> zs_payload st' = j"
proof -
  have i: "initial_checks lib st = (True, st)"
    using initial_checks_ok[OF assms(3)] cbor_progress(1)[OF assms(5)] assms(6) by simp
  obtain copy where c: "skip_tags lib st = Some (True, copy)" "same_input st copy" "zcbor_check_error lib copy"
    "zs_elem_count copy \<noteq> 0" "MAJOR_TYPE (zs_byte copy) \<noteq> 6" "cbor_item (zs_mem copy) (zs_payload copy) j"
    using skip_tags_complete[OF assms(1-6)] by (auto simp: reading_def same_input_def)
  define major where "major = MAJOR_TYPE (zs_byte copy)"
  define indefinite where "indefinite \<longleftrightarrow> ADDITIONAL (zs_byte copy) = 31 \<and> (major = 4 \<or> major = 5)"
  obtain bytes copy1 copy2 where b: "(if indefinite then (True, [], copy) else value_extract lib 8 copy) = (True, bytes, copy1)"
    "skip_body lib major indefinite (le_value bytes) copy1 = Some (True, copy2)" "zs_payload copy2 = j"
    using skip_item_complete[OF assms(1) c(3,4,6,5)] c(2) assms(6,7) unfolding major_def indefinite_def same_input_def by auto
  have "zcbor_any_skip_fixed lib st = Some (True, st\<lparr>zs_payload := zs_payload copy2,
      zs_elem_count := zs_elem_count st - 1, zs_const := zs_const copy2\<rparr>)"
    unfolding zcbor_any_skip_fixed_def i using c(1) b
    by (simp add: Let_def major_def[symmetric] indefinite_def[symmetric] cong: if_cong)
  with b(3) show ?thesis by simp
qed

section \<open>A reader of the grammar\<close>

text \<open>
  The end of what begins at \<open>i\<close>: an item, \<open>n\<close> items, or items up to a break byte, inside a payload that ends at \<open>e\<close>.
\<close>

datatype cbor_form = Item | Items nat | Until_break

function cbor_end :: "(nat \<Rightarrow> u8) \<Rightarrow> nat \<Rightarrow> cbor_form \<Rightarrow> nat \<Rightarrow> nat option" where
  "cbor_end m e Item i =
     (if e \<le> i then None
      else let major = MAJOR_TYPE (m i) in
        if major \<in> {4, 5} \<and> ADDITIONAL (m i) = 31
        then Option.bind (cbor_end m e Until_break (Suc i)) (\<lambda>j. Some (Suc j))
        else Option.bind (cbor_head m i) (\<lambda>(v, h).
          if h = 0 then None
          else if major \<in> {2, 3} then (if i + h + v \<le> e then Some (i + h + v) else None)
          else if major = 4 then cbor_end m e (Items v) (i + h)
          else if major = 5 then cbor_end m e (Items (v * 2)) (i + h)
          else if major = 6 then cbor_end m e Item (i + h)
          else if i + h \<le> e then Some (i + h) else None))"
| "cbor_end m e (Items 0) i = (if i \<le> e then Some i else None)"
| "cbor_end m e (Items (Suc n)) i =
     Option.bind (cbor_end m e Item i) (\<lambda>j. if i < j \<and> i < e then cbor_end m e (Items n) j else None)"
| "cbor_end m e Until_break i =
     (if e \<le> i then None else if m i = 0xFF then Some i
      else Option.bind (cbor_end m e Item i) (\<lambda>j. if i < j then cbor_end m e Until_break j else None))"
  by pat_completeness auto

termination
  by (relation "measures [\<lambda>(m, e, f, i). e - i, \<lambda>(m, e, f, i). if f = Item then 0 else 1]") auto

declare cbor_end.simps [simp del]

fun reads_to :: "(nat \<Rightarrow> u8) \<Rightarrow> nat \<Rightarrow> cbor_form \<Rightarrow> nat \<Rightarrow> nat \<Rightarrow> bool" where
  "reads_to m e Item i j = (cbor_item m i j \<and> j \<le> e)"
| "reads_to m e (Items n) i j = (cbor_items m n i j \<and> j \<le> e)"
| "reads_to m e Until_break i j = (cbor_seq m i j \<and> j < e \<and> m j = 0xFF)"

lemma cbor_end_item_sound:
  assumes e: "cbor_end m e Item i = Some j"
    and IH: "\<And>f i' j. i < i' \<Longrightarrow> i < e \<Longrightarrow> cbor_end m e f i' = Some j \<Longrightarrow> reads_to m e f i' j"
  shows "reads_to m e Item i j"
proof -
  let ?major = "MAJOR_TYPE (m i)"
  have lt: "i < e" using e by (simp add: cbor_end.simps(1) split: if_splits)
  show ?thesis
  proof (cases "?major \<in> {4, 5} \<and> ADDITIONAL (m i) = 31")
    case True
    with e lt obtain k where k: "cbor_end m e Until_break (Suc i) = Some k" "j = Suc k"
      by (auto simp: cbor_end.simps(1) bind_eq_Some_conv)
    from IH[OF _ lt k(1)] True k(2) indef[of m i k] show ?thesis by simp
  next
    case False
    with e lt obtain v h where h: "cbor_head m i = Some (v, h)"
      by (auto simp: cbor_end.simps(1) bind_eq_Some_conv Let_def simp del: split_paired_Ex)
    note pos = cbor_head_pos[OF h]
    have finite: "ADDITIONAL (m i) \<noteq> 31" using h by (auto simp: cbor_head_def)
    have eq: "cbor_end m e Item i =
        (if ?major \<in> {2, 3} then (if i + h + v \<le> e then Some (i + h + v) else None)
         else if ?major = 4 then cbor_end m e (Items v) (i + h)
         else if ?major = 5 then cbor_end m e (Items (v * 2)) (i + h)
         else if ?major = 6 then cbor_end m e Item (i + h)
         else if i + h \<le> e then Some (i + h) else None)"
      using finite lt h pos by (simp add: cbor_end.simps(1)[of m e i] Let_def)
    have next': "i < i + h" using pos by simp
    note sub = IH[OF next' lt]
    consider "?major \<in> {0, 1, 7}" | "?major \<in> {2, 3}" | "?major = 4" | "?major = 5" | "?major = 6"
      using MAJOR_TYPE_le[of "m i"] by fastforce
    then show ?thesis
    proof cases
      case 1
      with e eq simple[OF 1 h] show ?thesis by (auto split: if_splits)
    next
      case 2
      with e eq str[OF 2 h] show ?thesis by (auto split: if_splits)
    next
      case 3
      with e eq sub[of "Items v" j] list[OF 3 h] show ?thesis by simp
    next
      case 4
      with e eq sub[of "Items (v * 2)" j] cmap[OF 4 h] show ?thesis by simp
    next
      case 5
      with e eq sub[of Item j] tag[OF 5 h] show ?thesis by simp
    qed
  qed
qed

lemma cbor_end_sound: "cbor_end m e f i = Some j \<Longrightarrow> reads_to m e f i j"
proof (induction "e - i" arbitrary: f i j rule: less_induct)
  case less
  have IH: "reads_to m e f i' j" if "i < i'" "i < e" "cbor_end m e f i' = Some j" for f i' j
    by (rule less.hyps[OF _ that(3)]) (use that(1,2) in linarith)
  have item: "reads_to m e Item i j" if "cbor_end m e Item i = Some j" for j
    using cbor_end_item_sound[OF that] IH by blast
  show ?case
  proof (cases f)
    case Item
    with less.prems item[of j] show ?thesis by simp
  next
    case (Items n)
    show ?thesis
    proof (cases n)
      case 0
      with Items less.prems show ?thesis by (simp add: cbor_end.simps(2) items_nil split: if_splits)
    next
      case (Suc k)
      with Items less.prems obtain i' where i': "cbor_end m e Item i = Some i'" "i < i'" "i < e" "cbor_end m e (Items k) i' = Some j"
        by (auto simp: cbor_end.simps(3) bind_eq_Some_conv split: if_splits)
      have "cbor_item m i i'" "cbor_items m k i' j" "j \<le> e" using item[OF i'(1)] IH[OF i'(2,3,4)] by simp_all
      with items_cons[of m i i' k j] Items Suc show ?thesis by simp
    qed
  next
    case Until_break
    show ?thesis
    proof (cases "m i = 0xFF")
      case True
      with Until_break less.prems show ?thesis by (simp add: cbor_end.simps(4) seq_nil split: if_splits)
    next
      case False
      with Until_break less.prems obtain i' where i': "cbor_end m e Item i = Some i'" "i < i'" "i < e" "cbor_end m e Until_break i' = Some j"
        by (auto simp: cbor_end.simps(4) bind_eq_Some_conv split: if_splits)
      have "cbor_item m i i'" "cbor_seq m i' j" "j < e" "m j = 0xFF" using item[OF i'(1)] IH[OF i'(2,3,4)] by simp_all
      with seq_cons[of m i i' j] Until_break show ?thesis by simp
    qed
  qed
qed

lemma cbor_end_complete:
  "cbor_item m i j \<Longrightarrow> j \<le> e \<Longrightarrow> cbor_end m e Item i = Some j"
  "cbor_items m n i j \<Longrightarrow> j \<le> e \<Longrightarrow> cbor_end m e (Items n) i = Some j"
  "cbor_seq m i j \<Longrightarrow> j < e \<Longrightarrow> m j = 0xFF \<Longrightarrow> cbor_end m e Until_break i = Some j"
proof (induction rule: cbor_item_cbor_items_cbor_seq.inducts)
  case (simple i v h)
  then show ?case using cbor_head_pos[OF simple(2)] by (auto simp: cbor_end.simps(1)[of m e i] Let_def)
next
  case (str i v h)
  then show ?case using cbor_head_pos[OF str(2)] by (auto simp: cbor_end.simps(1)[of m e i] Let_def)
next
  case (list i v h j)
  have "ADDITIONAL (m i) \<noteq> 31" using list(2) by (auto simp: cbor_head_def)
  then show ?case using list cbor_head_pos[OF list(2)] cbor_progress(2)[OF list(3)] by (simp add: cbor_end.simps(1)[of m e i] Let_def)
next
  case (cmap i v h j)
  have "ADDITIONAL (m i) \<noteq> 31" using cmap(2) by (auto simp: cbor_head_def)
  then show ?case using cmap cbor_head_pos[OF cmap(2)] cbor_progress(2)[OF cmap(3)] by (simp add: cbor_end.simps(1)[of m e i] Let_def)
next
  case (tag i v h j)
  then show ?case using cbor_head_pos[OF tag(2)] cbor_progress(1)[OF tag(3)] by (simp add: cbor_end.simps(1)[of m e i] Let_def)
next
  case (indef i j)
  then show ?case using cbor_progress(3)[OF indef(3)] by (auto simp: cbor_end.simps(1))
next
  case (items_cons i j n k)
  then show ?case using cbor_progress(1)[OF items_cons(1)] cbor_progress(2)[OF items_cons(3)] by (simp add: cbor_end.simps(3))
next
  case (seq_cons i j k)
  then show ?case
    using cbor_progress(1)[OF seq_cons(1)] cbor_progress(3)[OF seq_cons(3)] break_no_item[OF seq_cons(1)]
    by (simp add: cbor_end.simps(4))
qed (simp_all add: cbor_end.simps)

lemma cbor_end_item: "cbor_end m e Item i = Some j \<longleftrightarrow> cbor_item m i j \<and> j \<le> e"
  using cbor_end_sound[of m e Item i j] cbor_end_complete(1)[of m i j e] by auto


end
