(* ===== verification/ConcreteInputs.thy ===== *)
theory ConcreteInputs
  imports Instance Lifecycle ZcborExact
begin

text \<open>
  The properties of the components, each applied at a concrete input where its hypotheses hold.
  The environment, the library and the worlds are those of \<^verbatim>\<open>Instance\<close>; the definitions are
  evaluated by the simplifier.
\<close>

section \<open>The component properties at concrete inputs\<close>

text \<open>Timers: with the example's random number, the first timeout is 2004 ms.\<close>

lemma demo_ack_timeout: "init_ack_timeout demo_sys demo_env0 = (of_nat 2004, demo_env0)"
  by (simp add: init_ack_timeout_def demo_sys_def)

theorem poll_loop_fresh_witness:
  "poll_loop demo_sys (7 + of_nat 5000) \<lparr>pend_t0 = 7, pend_timeout = 0, pend_retries = 3\<rparr> False demo_env0 =
     Some (Some 1012, backoff 7 2004 1, True, demo_env0)"
proof -
  have "backoff_slot 2004 5000 = 1" by (simp add: backoff_slot_def)
  then have "(2 ^ Suc (backoff_slot 2004 5000) - 1) * 2004 = (6012 :: nat)" by simp
  then show ?thesis
    by (subst poll_loop_fresh[OF demo_ack_timeout]) (simp_all add: \<open>backoff_slot 2004 5000 = 1\<close> del: of_nat_numeral)
qed

theorem transmissions_fresh_witness:
  "\<exists>n\<le>4. transmissions demo_sys [0, 3000, 9000] \<lparr>pend_t0 = 0, pend_timeout = 0, pend_retries = 3\<rparr> demo_env0 = Some n"
  by (rule transmissions_fresh[OF demo_ack_timeout_ok, where T = 2004]) (simp_all add: demo_ack_timeout)


theorem sequence_newer_circular_witness: "sequence_number_is_newer 16777215 3"
  using sequence_newer_circular[of 16777215 3] by simp

theorem prefix_token_matches_witness:
  "req_matches demo_sys \<lparr>pkt_offset = 8, pkt_lib = []\<rparr> [0x44, 1, 0, 7, 9, 8, 7, 6] \<lparr>pkt_offset = 6, pkt_lib = []\<rparr>
     [0x62, 0x45, 0, 9, 9, 8]"
  by (rule prefix_token_matches[where tok = "[9, 8]" and rest = "[7, 6]"]) (code_simp | simp)+

theorem fds_connect_witness:
  "demo_fds (w_env (snd (raw_golioth_connect demo_sys demo_conf [0x67, 0] 5684 (idle_world demo_env0)))) \<subseteq>
     demo_fds demo_env0 \<union> {cl_sock (w_client (snd (raw_golioth_connect demo_sys demo_conf [0x67, 0] 5684 (idle_world demo_env0))))}"
proof -
  have "cl_sock (w_client (idle_world demo_env0)) = - 1" "w_env (idle_world demo_env0) = demo_env0" by code_simp+
  with fds_connect[OF demo_fd_ledger demo_errno_ok _ prod.collapse[symmetric],
      of "idle_world demo_env0" demo_conf "[0x67, 0]" 5684]
  show ?thesis by auto
qed

theorem deliver_known_total_witness:
  "take 4 (pre_data (w_preallocs (snd (deliver 0 4 0 [[1, 2], [3, 4]] (busy_world demo_env0))) 0)) = [1, 2, 3, 4]"
proof -
  have "pre_ready (w_preallocs (busy_world demo_env0) 0)"
    by (simp_all add: pre_ready_def)
  with deliver_known_total[OF _ _ _ _ prod.collapse[symmetric], of "busy_world demo_env0" 0 4 0 "[[1, 2], [3, 4]]"]
  show ?thesis by (simp add: numeral_eq_Suc del: deliver.simps)
qed

theorem prealloc_cb_overrun_witness:
  "\<exists>w'. golioth_lightdb_get_prealloc_cb (block_rsp 0 4 6 [1, 2, 3, 4]) (busy_world demo_env0) = (0, w') \<and>
     pre_overrun (w_preallocs w' 0)"
  by (rule prealloc_cb_overrun)
    (simp_all add: block_rsp_def)

text \<open>The synchronous call.\<close>

definition sync_world :: "demo_env world" where
  "sync_world = (busy_world demo_env0)\<lparr>w_syncs := \<lambda>p. \<lparr>sync_sem = 0, sync_err = 0, sync_cb = Some (App_cb 0),
     sync_user_data = UD_null\<rparr>\<rparr>"



theorem estimate_suffices_witness:
  "\<exists>pkt buf. coap_packet_append_uri_path_from_pathv rfc_sys
       [[0x2e, 0x64, 0], replicate 13 0x31 @ 0x2f # replicate 27 0x32 @ [0]] \<lparr>pkt_offset = 4, pkt_lib = []\<rparr> (replicate 52 0) =
     Some (0, pkt, buf) \<and> pkt_offset pkt \<le> 52"
proof -
  let ?path = "[[0x2e, 0x64, 0], replicate 13 0x31 @ 0x2f # replicate 27 0x32 @ [0]] :: u8 list list"
  let ?pkt = "\<lparr>pkt_offset = 4, pkt_lib = []\<rparr>"
  have "rfc_path ?pkt" by (simp add: rfc_path_def)
  moreover have "\<forall>s\<in>set ?path. length s < 65536" by simp
  moreover have est: "coap_pathv_estimate_alloc_len ?path = 48" by code_simp
  moreover from est have "pkt_offset ?pkt + coap_pathv_estimate_alloc_len ?path \<le> length (replicate 52 (0 :: u8))"
    by (simp del: coap_pathv_estimate_alloc_len.simps)
  ultimately show ?thesis
    using estimate_suffices[OF rfc_sys_paths, of ?pkt ?path "replicate 52 0"]
    by (auto simp del: coap_pathv_estimate_alloc_len.simps coap_packet_append_uri_path_from_pathv.simps)
qed

theorem coap_packet_set_id_read_witness:
  "\<exists>b'. coap_packet_set_id 0x1234 [0x41, 1, 0, 7, 9] = Some b' \<and> b' ! 0 = 0x41 \<and> b' ! 4 = 9 \<and>
     push_bit 8 (ucast (b' ! 2)) OR ucast (b' ! 3) = (0x1234 :: u16)"
proof -
  obtain b' where b': "coap_packet_set_id 0x1234 [0x41, 1, 0, 7, 9] = Some b'" by (simp add: coap_packet_set_id_def)
  from coap_packet_set_id_read[OF this] have "b' ! 0 = 0x41" "b' ! 4 = 9"
    "push_bit 8 (ucast (b' ! 2)) OR ucast (b' ! 3) = (0x1234 :: u16)" by simp_all
  with b' show ?thesis by blast
qed

theorem estimated_block_size_best_witness:
  "16 * 2 ^ golioth_estimated_coap_block_size (zero_client\<lparr>cl_rx_buffer_len := 300\<rparr>) \<le> (300 :: nat)"
  using estimated_block_size_best[of "zero_client\<lparr>cl_rx_buffer_len := 300\<rparr>"] by simp

text \<open>The CBOR string \<open>"A"\<close> is skipped as one item.\<close>

lemma demo_string_fits: "lists_fit (bytes_mem [0x61, 0x41])"
proof -
  have "MAJOR_TYPE (bytes_mem [0x61, 0x41] i) \<noteq> 4" for i
  proof -
    have b: "MAJOR_TYPE 0x61 = 3" "MAJOR_TYPE 0x41 = 2" "MAJOR_TYPE 0 = 0" by code_simp+
    have "bytes_mem [0x61, 0x41] i \<in> {0x61, 0x41, 0}"
      by (cases i; cases "i - 1") (auto simp: bytes_mem_def)
    with b show ?thesis by auto
  qed
  then show ?thesis by (simp add: lists_fit_def)
qed

theorem any_skip_fixed_sound_witness:
  "\<exists>st'. zcbor_any_skip_fixed demo_zlib (demo_zstate [0x61, 0x41] 1) = Some (True, st') \<and>
     cbor_item (bytes_mem [0x61, 0x41]) 0 (zs_payload st')"
proof -
  define z where "z = demo_zstate [0x61, 0x41] 1"
  have h: "MAJOR_TYPE 0x61 = 3" "ADDITIONAL 0x61 = 1" by code_simp+
  have v: "le_value ((replicate 8 0)[0 := 1]) = 1" using le_value_small[of 1] by simp
  have z: "zs_byte z = 0x61" "zs_payload z = 0" "zs_payload_end z = 2" "zs_elem_count z = 1"
    "zs_mem z = bytes_mem [0x61, 0x41]"
    by (simp_all add: z_def demo_zstate_def bytes_mem_def zs_byte_def)
  have "initial_checks demo_zlib z = (True, z)"
    by (simp add: initial_checks_def demo_zlib_def z_def demo_zstate_def)
  moreover have "skip_tags demo_zlib z = Some (True, z)" by (subst skip_tags.simps) (simp add: h z)
  ultimately have "map_option fst (zcbor_any_skip_fixed demo_zlib z) = Some True"
    by (simp add: zcbor_any_skip_fixed_def value_extract_def skip_body_def h v z Let_def del: One_nat_def)
  then obtain st' where s: "zcbor_any_skip_fixed demo_zlib z = Some (True, st')" by auto
  from any_skip_fixed_sound[OF s demo_skips_items] demo_string_fits s show ?thesis
    unfolding z_def[symmetric] by (auto simp: z)
qed

text \<open>A library whose skip function reads every item of the grammar, and which does not count a tag as an element.\<close>

definition exact_skip :: "zcbor_state \<Rightarrow> bool \<times> zcbor_state" where
  "exact_skip st =
     (if zs_const st = [] \<and> zs_elem_count st \<noteq> 0
      then (case cbor_end (zs_mem st) (zs_payload_end st) Item (zs_payload st) of
              Some j \<Rightarrow> (True, st\<lparr>zs_payload := j, zs_elem_count := zs_elem_count st - 1\<rparr>)
            | None \<Rightarrow> (False, st))
      else (False, st))"

definition exact_tag :: "zcbor_state \<Rightarrow> bool \<times> u32 \<times> zcbor_state" where
  "exact_tag st =
     (case demo_head {6} st of
        Some (v, h) \<Rightarrow> (True, of_nat v, st\<lparr>zs_payload := zs_payload st + h\<rparr>)
      | None \<Rightarrow> (False, 0, st))"

definition exact_zlib :: log_lib where
  "exact_zlib = demo_zlib\<lparr>lib_zcbor_any_skip := exact_skip, zcbor_tag_decode := exact_tag\<rparr>"

lemma exact_skip_item:
  assumes "exact_skip st = (True, st')"
  shows "cbor_item (zs_mem st) (zs_payload st) (zs_payload st') \<and> same_input st st' \<and>
    zs_elem_count st' = zs_elem_count st - 1 \<and> moves st st'"
proof -
  obtain j where j: "cbor_item (zs_mem st) (zs_payload st) j" "j \<le> zs_payload_end st"
    "st' = st\<lparr>zs_payload := j, zs_elem_count := zs_elem_count st - 1\<rparr>"
    using assms by (auto simp: exact_skip_def cbor_end_item split: if_splits option.splits)
  with cbor_progress(1)[OF j(1)] show ?thesis by (simp add: same_input_def moves_def)
qed

lemma exact_zlib_skips_exactly: "skips_exactly exact_zlib"
proof -
  have "skips_items exact_zlib"
    unfolding skips_items_def
    by (auto simp: exact_zlib_def exact_tag_def demo_head_def same_input_def dest: exact_skip_item split: option.splits if_splits)
  moreover have "\<exists>st'. exact_skip st = (True, st') \<and> zs_payload st' = j \<and> zs_const st' = []"
    if "zs_const st = []" "zs_elem_count st \<noteq> 0" "cbor_item (zs_mem st) (zs_payload st) j" "j \<le> zs_payload_end st" for st j
    using that cbor_end_item[of "zs_mem st" "zs_payload_end st" "zs_payload st" j] by (simp add: exact_skip_def)
  ultimately show ?thesis
    unfolding skips_exactly_def
    by (auto simp: exact_zlib_def demo_zlib_def exact_tag_def demo_head_def split: option.splits dest: cbor_head_pos)
qed

text \<open>The date tag on \<open>[1, [_ 2]]\<close>, a list in a list of indefinite length.\<close>

definition nested_list :: "u8 list" where
  "nested_list = [0xC1, 0x82, 0x01, 0x9F, 0x02, 0xFF]"

lemma nested_list_mem: "bytes_mem nested_list i \<in> {0xC1, 0x82, 0x01, 0x9F, 0x02, 0xFF, 0}"
proof -
  have "i < 6 \<Longrightarrow> nested_list ! i \<in> set nested_list" by (rule nth_mem) (simp add: nested_list_def)
  then show ?thesis by (auto simp: bytes_mem_def nested_list_def)
qed

lemma nested_list_byte: "bytes_mem nested_list 0 = 0xC1" "bytes_mem nested_list 1 = 0x82" "bytes_mem nested_list 2 = 1"
  "bytes_mem nested_list 3 = 0x9F" "bytes_mem nested_list 4 = 2" "bytes_mem nested_list 5 = 0xFF"
  by (simp_all add: bytes_mem_def nested_list_def)

lemma nested_list_heads: "MAJOR_TYPE 0xC1 = 6" "ADDITIONAL 0xC1 = 1" "MAJOR_TYPE 0x82 = 4" "ADDITIONAL 0x82 = 2"
  "MAJOR_TYPE 1 = 0" "ADDITIONAL 1 = 1" "MAJOR_TYPE 0x9F = 4" "ADDITIONAL 0x9F = 31" "MAJOR_TYPE 2 = 0" "ADDITIONAL 2 = 2"
  "MAJOR_TYPE 0xFF = 7" "ADDITIONAL 0xFF = 31" "MAJOR_TYPE 0 = 0" "ADDITIONAL 0 = 0"
  by code_simp+

lemma nested_list_fits: "lists_fit (bytes_mem nested_list)" "tags_fit (bytes_mem nested_list)"
proof -
  have "ADDITIONAL (bytes_mem nested_list i) \<in> {1, 2, 31}"
    if "MAJOR_TYPE (bytes_mem nested_list i) = 4 \<or> MAJOR_TYPE (bytes_mem nested_list i) = 6" for i
    using that nested_list_mem[of i] by (auto simp: nested_list_heads)
  then show "lists_fit (bytes_mem nested_list)" "tags_fit (bytes_mem nested_list)"
    unfolding lists_fit_def tags_fit_def by (fastforce simp: cbor_head_def Let_def)+
qed

lemma nested_list_item: "cbor_item (bytes_mem nested_list) 0 6"
proof -
  let ?m = "bytes_mem nested_list"
  note h = nested_list_byte nested_list_heads cbor_head_def
  have one: "cbor_item ?m 2 3" using simple[of ?m 2 1 1] by (simp add: h)
  have two: "cbor_item ?m 4 5" using simple[of ?m 4 2 1] by (simp add: h)
  have "cbor_seq ?m 4 5" by (rule seq_cons[OF two seq_nil])
  then have inner: "cbor_item ?m 3 6" using indef[of ?m 3 5] by (simp add: h)
  have "cbor_items ?m 2 2 6" using items_cons[OF one items_cons[OF inner items_nil]] by (simp add: numeral_2_eq_2)
  then have "cbor_item ?m 1 6" using list[of ?m 1 2 1 6] by (simp add: h del: One_nat_def)
  then show ?thesis using tag[of ?m 0 1 1 6] by (simp add: h)
qed


text \<open>Services.\<close>

theorem golioth_rpc_register_found_witness:
  "find (rpc_matches [0x61]) (rpc_methods (cl_rpc (w_client (snd (golioth_rpc_register demo_service [0x61, 0] 5 0
      (busy_world demo_env0)))))) = Some \<lparr>rpcm_name = [0x61, 0], rpcm_callback = 5, rpcm_callback_arg = 0\<rparr>"
proof -
  have "fst (golioth_rpc_register demo_service [0x61, 0] 5 0 (busy_world demo_env0)) = 0"
    "rpc_methods (cl_rpc (w_client (busy_world demo_env0))) = []" by code_simp+
  moreover then obtain w' where "golioth_rpc_register demo_service [0x61, 0] 5 0 (busy_world demo_env0) = (0, w')"
    by (cases "golioth_rpc_register demo_service [0x61, 0] 5 0 (busy_world demo_env0)") simp
  moreover note golioth_rpc_register_found[OF this, of "[0x61]"]
  ultimately show ?thesis by simp
qed

text \<open>The manifest \<open>{2: 5}\<close>: an item of the manifest that is no component.\<close>

theorem fw_desired_parse_fits_witness:
  "\<exists>e version uri. golioth_fw_desired_parse demo_zlib [0xA1, 2, 5] \<lparr>tv_value = [0, 0], tv_value_len = 1\<rparr>
       \<lparr>tv_value = [0, 0, 0], tv_value_len = 2\<rparr> = Some (e, version, uri) \<and> tv_fits 2 version \<and> tv_fits 3 uri"
  by (rule fw_desired_parse_fits[OF demo_zlib_ok]) (simp_all add: tv_fits_def)


text \<open>A wrapped socket is created and closed.\<close>

theorem sock_wrapper_create_ok_witness:
  "wrapper_ok demo_fds (snd (sock_wrapper_create demo_layer 1 1 6 demo_wrapper))"
  using sock_wrapper_create_ok[OF demo_sock_ledger demo_wrapper_ok prod.collapse[symmetric]] by blast

definition demo_wrapped :: "demo_env wrapper_state" where
  "demo_wrapped = demo_wrapper\<lparr>ws_contexts := [zero_context\<lparr>wc_fd := 3, wc_my_fd := 4, wc_is_used := True\<rparr>, zero_context],
     ws_env := demo_env0\<lparr>de_next_fd := 5, de_fds := [3, 4]\<rparr>\<rparr>"

theorem sock_wrapper_close_ok_witness:
  "\<not> wc_is_used (wctx (snd (sock_wrapper_close_vmeth demo_layer 0 demo_wrapped)) 0)"
proof -
  have "wrapper_ok demo_fds demo_wrapped"
    by (auto simp: wrapper_ok_def table_ok_def demo_wrapped_def demo_wrapper_def zero_context_def demo_fds_def
        less_Suc_eq nth_Cons')
  moreover have "length (ws_contexts demo_wrapped) = 2" "wc_is_used (wctx demo_wrapped 0)" by code_simp+
  ultimately show ?thesis
    using sock_wrapper_close_ok[OF demo_sock_ledger _ _ _ prod.collapse[symmetric], of demo_wrapped 0] by simp
qed

text \<open>The log backend: \<open>a: b\<close> has a function and a message, \<open>a:\<close> only a function.\<close>

definition demo_enc :: zcbor_enc where
  "demo_enc = \<lparr>ze_payload = [], ze_lib = [100]\<rparr>"

lemma demo_log_room: "log_pdu_prepare_ext demo_zlib 2 (5 + 1) demo_enc = (0, 78)"
  by (simp add: log_pdu_prepare_ext_def demo_zlib_def demo_enc_def)


definition demo_log_conf :: log_conf where
  "demo_log_conf = \<lparr>conf_log_max_packet_size = 64, conf_log_function_prefix_mask = {}\<rparr>"

definition demo_log_ctx :: golioth_log_ctx where
  "demo_log_ctx = \<lparr>lc_client = True, lc_enabled = True, lc_msg_index = 0, lc_msg_part = 0, lc_panic_mode = False\<rparr>"

theorem log_index_counts_witness:
  "lc_msg_index (fst (fold (log_step demo_sys demo_zlib demo_log_conf)
     [Log_process \<lparr>lm_level = 1, lm_source = None, lm_timestamp_us = 7, lm_text = None, lm_data = [1]\<rparr>, Log_dropped 3]
     (demo_log_ctx, busy_world demo_env0))) = 4"
proof -
  let ?evs = "[Log_process \<lparr>lm_level = 1, lm_source = None, lm_timestamp_us = 7, lm_text = None, lm_data = [1]\<rparr>,
    Log_dropped 3]"
  have "\<not> lc_panic_mode demo_log_ctx" "lc_msg_index demo_log_ctx = 0" by (simp_all add: demo_log_ctx_def)
  with log_index_counts[of ?evs "(demo_log_ctx, busy_world demo_env0)" demo_sys demo_zlib demo_log_conf]
  show ?thesis by (simp del: log_step.simps fold.simps)
qed

text \<open>The system client.\<close>

theorem psk_start_iff_witness:
  "sy_started (golioth_system_client_start (demo_sys\<lparr>tls_credential_get := \<lambda>tag t n e. (0, [0x61, 0x40], 2)\<rparr>) demo_system_conf
     (demo_system (busy_world demo_env0) Wait_start))"
  by (subst psk_start_iff[where ?e1.0 = 0 and psk_id = "[0x61, 0x40]" and ?n1.0 = 2 and ?e2.0 = 0 and psk = "[0x61, 0x40]" and ?n2.0 = 2])
    (simp_all add: demo_system_conf_def)

lemma demo_stop_then_start:
  fixes s :: "demo_env system"
  assumes "sy_pc s = Wait_start" and "sy_started s"
  shows "\<exists>s2 s3 s4. main_step demo_sys demo_system_conf demo_conf demo_ot (\<lambda>i w. w) (\<lambda>cb rsp w. (0, w)) s s2 \<and>
    main_step demo_sys demo_system_conf demo_conf demo_ot (\<lambda>i w. w) (\<lambda>cb rsp w. (0, w)) s2 s3 \<and>
    main_step demo_sys demo_system_conf demo_conf demo_ot (\<lambda>i w. w) (\<lambda>cb rsp w. (0, w)) s3 s4 \<and> sy_world s4 = sy_world s"
proof (intro exI conjI)
  show "main_step demo_sys demo_system_conf demo_conf demo_ot (\<lambda>i w. w) (\<lambda>cb rsp w. (0, w)) s (s\<lparr>sy_pc := Flush_flag\<rparr>)"
    using assms by (intro main_started) (simp_all add: wait_for_client_start_def)
  show "main_step demo_sys demo_system_conf demo_conf demo_ot (\<lambda>i w. w) (\<lambda>cb rsp w. (0, w)) (s\<lparr>sy_pc := Flush_flag\<rparr>)
      (s\<lparr>sy_pc := Flush_flag, sy_reconnect := False, sy_pc := Flush_event\<rparr>)"
    by (rule main_flush_flag) simp
qed ((rule main_flush_event, simp), simp)

theorem stop_survives_restart_witness:
  "\<exists>s4 :: demo_env system. sy_world s4 = idle_world demo_env0 \<and> sy_pc s4 = Connecting \<and> sy_stop s4 \<and>
     sy_event (golioth_system_client_stop s4) = 0"
proof -
  let ?s1 = "(demo_system (idle_world demo_env0) Wait_start)\<lparr>sy_stop := True, sy_started := True\<rparr>"
  obtain s2 s3 s4 where
    "main_step demo_sys demo_system_conf demo_conf demo_ot (\<lambda>i w. w) (\<lambda>cb rsp w. (0, w)) ?s1 s2"
    "main_step demo_sys demo_system_conf demo_conf demo_ot (\<lambda>i w. w) (\<lambda>cb rsp w. (0, w)) s2 s3"
    "main_step demo_sys demo_system_conf demo_conf demo_ot (\<lambda>i w. w) (\<lambda>cb rsp w. (0, w)) s3 s4"
    "sy_world s4 = sy_world ?s1"
    using demo_stop_then_start[of ?s1] by auto
  with stop_survives_restart[OF this(1-3)] show ?thesis by auto
qed

theorem reconnect_between_flushes_witness:
  "\<exists>s :: demo_env system. sy_world s = idle_world demo_env0 \<and> sy_reconnect s \<and> sy_event s = 0"
proof -
  let ?s = "demo_system (idle_world demo_env0) Flush_event"
  let ?t = "golioth_system_client_request_reconnect ?s"
  have "main_step demo_sys demo_system_conf demo_conf demo_ot (\<lambda>i w. w) (\<lambda>cb rsp w. (0, w)) ?t
      (?t\<lparr>sy_event := 0, sy_pc := Connecting\<rparr>)"
    by (rule main_flush_event) (simp add: golioth_system_client_request_reconnect_def)
  moreover have "\<not> sy_reconnect ?s" "sy_world (?t\<lparr>sy_event := 0, sy_pc := Connecting\<rparr>) = idle_world demo_env0"
    by (simp_all add: demo_system_def golioth_system_client_request_reconnect_def)
  ultimately show ?thesis using reconnect_between_flushes[of ?s] by (metis demo_system_sel(2))
qed

section \<open>The life cycle\<close>

text \<open>A stop request and the step of the main thread that answers it.\<close>

theorem life_refined_witness:
  "\<exists>s' :: demo_env system. runs life_step (Up [(1, User_cb (App_cb 0), UD_app 0)]) [Other_thread, Main_thread] (life_of s') \<and> life_of s' = Down"
proof -
  let ?s = "demo_system (busy_world demo_env0) Polling" and ?run = "run_callback demo_sys demo_app demo_zlib demo_service"
  let ?s1 = "golioth_system_client_stop ?s"
  have s1: "sy_pc ?s1 = Polling" "sy_stop ?s1" "sy_event ?s1 = 1" "system_ok ?s1"
    using polling_system_ok by (simp_all add: golioth_system_client_stop_def Let_def system_ok_def)
  obtain s' where l: "loop_polled demo_sys demo_system_conf demo_conf ?run 1 True False ?s1 = Some s'"
    "\<not> is_connected (sy_world s')"
    using sdk.loop_polled_ok[OF sdk.system_ok_settled[OF s1(4)], of demo_sys demo_system_conf demo_conf demo_sys demo_app
        demo_zlib demo_service 1 True False] s1(2) unfolding lawful_run_eq[OF demo_env_ok] by auto
  have "main_step demo_sys demo_system_conf demo_conf demo_ot (app_on_connect demo_app) ?run ?s1 s'"
    by (rule main_polled[OF s1(1) _ l(1)]) (simp add: poll_returns_def s1(3))
  then have r: "runs (system_step demo_sys demo_system_conf demo_conf demo_ot (app_on_connect demo_app) ?run) ?s
      [Other_thread, Main_thread] s'"
    by (intro runs_Cons[OF _ runs_single]) (simp_all add: system_step_def other_stop)
  have "life_of ?s = Up [(1, User_cb (App_cb 0), UD_app 0)]"
    by (simp add: life_of_def pending_calls_def demo_req_def)
  with life_refined[OF demo_env_ok demo_errno_ok demo_ack_timeout_ok polling_system_ok r]
  have "runs life_step (Up [(1, User_cb (App_cb 0), UD_app 0)]) [Other_thread, Main_thread] (life_of s')" by simp
  moreover from l(2) have "life_of s' = Down" by (simp add: life_of_def)
  ultimately show ?thesis by blast
qed

end
