(* ===== verification/WifiManager.thy ===== *)
theory WifiManager
  imports Prelude
begin

text \<open>
  \<^verbatim>\<open>samples/common/wifi.c\<close>: the WiFi manager, a state machine on a work queue.

  The network stack is a parameter: whether the link is up, and the results of the requests to
  connect and to disconnect. Its events (\<^verbatim>\<open>ipv4_changed\<close>, \<^verbatim>\<open>wifi_mgmt_event_handler\<close>) come from
  other threads, between any two steps of the work queue, also while a handler sleeps. A queue of
  work items holds each item at most once.
\<close>

section \<open>Data\<close>

datatype wifi_state =
    WIFI_STATE_IDLE
  | WIFI_STATE_WAITING_FOR_LOWER_UP
  | WIFI_STATE_CONNECTING
  | WIFI_STATE_DISCONNECTING
  | WIFI_STATE_READY
  | WIFI_STATE_INVALID
  | WIFI_STATE_WAIT

datatype wifi_event =
    WIFI_EVENT_START
  | WIFI_EVENT_LOWER_UP
  | WIFI_EVENT_CONNECTED
  | WIFI_EVENT_DISCONNECTED
  | WIFI_EVENT_IP_ADD
  | WIFI_EVENT_IP_DEL

text \<open>The numbers of the enumerators.\<close>

fun state_num :: "wifi_state \<Rightarrow> int" where
  "state_num WIFI_STATE_IDLE = 0"
| "state_num WIFI_STATE_WAITING_FOR_LOWER_UP = 1"
| "state_num WIFI_STATE_CONNECTING = 2"
| "state_num WIFI_STATE_DISCONNECTING = 3"
| "state_num WIFI_STATE_READY = 4"
| "state_num WIFI_STATE_INVALID = 5"
| "state_num WIFI_STATE_WAIT = 6"

fun event_num :: "wifi_event \<Rightarrow> nat" where
  "event_num WIFI_EVENT_START = 0"
| "event_num WIFI_EVENT_LOWER_UP = 1"
| "event_num WIFI_EVENT_CONNECTED = 2"
| "event_num WIFI_EVENT_DISCONNECTED = 3"
| "event_num WIFI_EVENT_IP_ADD = 4"
| "event_num WIFI_EVENT_IP_DEL = 5"

text \<open>\<^verbatim>\<open>(enum wifi_state) i\<close>, for the numbers of enumerators.\<close>

definition state_of_num :: "int \<Rightarrow> wifi_state" where
  "state_of_num i =
     (if i = 0 then WIFI_STATE_IDLE else if i = 1 then WIFI_STATE_WAITING_FOR_LOWER_UP
      else if i = 2 then WIFI_STATE_CONNECTING else if i = 3 then WIFI_STATE_DISCONNECTING
      else if i = 4 then WIFI_STATE_READY else if i = 5 then WIFI_STATE_INVALID else WIFI_STATE_WAIT)"

abbreviation (input) NET_STATE_WIFI_CONNECTED :: u32 where "NET_STATE_WIFI_CONNECTED \<equiv> 1"
abbreviation (input) NET_STATE_WIFI_CONNECTING :: u32 where "NET_STATE_WIFI_CONNECTING \<equiv> 2"
abbreviation (input) NET_STATE_IPV4_READY :: u32 where "NET_STATE_IPV4_READY \<equiv> 4"

abbreviation (input) MAP_OFFSET :: int where "MAP_OFFSET \<equiv> 1"
abbreviation (input) IDL :: int where "IDL \<equiv> 0 + MAP_OFFSET"
abbreviation (input) LUP :: int where "LUP \<equiv> 1 + MAP_OFFSET"
abbreviation (input) CON :: int where "CON \<equiv> 2 + MAP_OFFSET"
abbreviation (input) DIS :: int where "DIS \<equiv> 3 + MAP_OFFSET"
abbreviation (input) RDY :: int where "RDY \<equiv> 4 + MAP_OFFSET"
abbreviation (input) INV :: int where "INV \<equiv> 5 + MAP_OFFSET"
abbreviation (input) WAIT :: "int \<Rightarrow> int" where "WAIT ms \<equiv> 6 + MAP_OFFSET + ms"

text \<open>The rows are the events, the columns the states.\<close>

definition wifi_state_change_map :: "int list list" where
  "wifi_state_change_map =
     [[LUP, WAIT 100, INV, INV, INV],
      [INV, CON, INV, INV, INV],
      [INV, INV, 0, WAIT 3000, 0],
      [INV, INV, WAIT 1000, IDL, CON],
      [INV, INV, RDY, RDY, 0],
      [INV, INV, 0, 0, CON]]"

record wifi_connect_req_params =
  wp_ssid :: "u8 list"
  wp_psk :: "u8 list"
  wp_security_psk :: bool

record 'e wifi_lib =
  net_if_lower_up :: "'e \<Rightarrow> bool"
  net_mgmt_connect :: "wifi_connect_req_params \<Rightarrow> 'e \<Rightarrow> int \<times> 'e"
  net_mgmt_disconnect :: "'e \<Rightarrow> int \<times> 'e"

datatype wifi_work = Event_work | Net_mgmt_event_work

text \<open>
  \<^verbatim>\<open>struct wifi_manager_data\<close>, with the credentials and the queue. \<open>wm_resume\<close> is the state whose
  action is to be run when the handler has slept.
\<close>

record 'e wifi_manager =
  wm_state :: wifi_state
  wm_net_state :: u32
  wm_net_state_old :: u32
  wm_flag_reconnect :: bool
  wm_event :: wifi_event
  wm_queue :: "wifi_work list"
  wm_resume :: "(wifi_state \<times> int) option"
  wm_ssid :: "u8 list"
  wm_psk :: "u8 list"
  wm_env :: 'e

definition k_work_submit :: "wifi_work \<Rightarrow> 'e wifi_manager \<Rightarrow> 'e wifi_manager" where
  "k_work_submit wk m = (if wk \<in> set (wm_queue m) then m else m\<lparr>wm_queue := wm_queue m @ [wk]\<rparr>)"

section \<open>Operations\<close>

definition wifi_event_notify :: "wifi_event \<Rightarrow> 'e wifi_manager \<Rightarrow> 'e wifi_manager" where
  "wifi_event_notify event m = k_work_submit Event_work (m\<lparr>wm_event := event\<rparr>)"

definition wifi_mgmt_connecting_update :: "bool \<Rightarrow> 'e wifi_manager \<Rightarrow> 'e wifi_manager" where
  "wifi_mgmt_connecting_update connecting m =
     (if connecting
      then m\<lparr>wm_net_state := wm_net_state m OR NET_STATE_WIFI_CONNECTING,
             wm_net_state_old := wm_net_state_old m OR NET_STATE_WIFI_CONNECTING\<rparr>
      else m\<lparr>wm_net_state := wm_net_state m AND NOT NET_STATE_WIFI_CONNECTING,
             wm_net_state_old := wm_net_state_old m AND NOT NET_STATE_WIFI_CONNECTING\<rparr>)"

definition wifi_connect_failed :: "'e wifi_manager \<Rightarrow> 'e wifi_manager" where
  "wifi_connect_failed m = wifi_event_notify WIFI_EVENT_DISCONNECTED (wifi_mgmt_connecting_update False m)"

definition wifi_connect :: "('e, 'x) wifi_lib_scheme \<Rightarrow> 'e wifi_manager \<Rightarrow> 'e wifi_manager" where
  "wifi_connect lib m =
     (let params = \<lparr>wp_ssid = wm_ssid m, wp_psk = wm_psk m, wp_security_psk = (wm_psk m \<noteq> [])\<rparr>;
          m1 = wifi_mgmt_connecting_update True m
      in case net_mgmt_connect lib params (wm_env m1) of
           (err, e) \<Rightarrow>
             let m2 = m1\<lparr>wm_env := e\<rparr>
             in if err = - EALREADY then
                  let m3 = wifi_mgmt_connecting_update False m2
                  in if wm_flag_reconnect m3 then
                       (case net_mgmt_disconnect lib (wm_env m3) of
                          (err, e) \<Rightarrow>
                            let m4 = m3\<lparr>wm_flag_reconnect := False, wm_env := e\<rparr>
                            in if err \<noteq> 0 then wifi_connect_failed m4 else m4)
                     else wifi_event_notify WIFI_EVENT_CONNECTED m3
                else if err \<noteq> 0 then wifi_connect_failed m2
                else m2)"

definition wifi_disconnect :: "('e, 'x) wifi_lib_scheme \<Rightarrow> 'e wifi_manager \<Rightarrow> 'e wifi_manager" where
  "wifi_disconnect lib m =
     (case net_mgmt_disconnect lib (wm_env m) of
        (err, e) \<Rightarrow>
          if err \<noteq> 0 then wifi_event_notify WIFI_EVENT_DISCONNECTED (m\<lparr>wm_env := e\<rparr>) else m\<lparr>wm_env := e\<rparr>)"

definition wifi_check_lower_up :: "('e, 'x) wifi_lib_scheme \<Rightarrow> 'e wifi_manager \<Rightarrow> 'e wifi_manager" where
  "wifi_check_lower_up lib m =
     (if net_if_lower_up lib (wm_env m) then wifi_event_notify WIFI_EVENT_LOWER_UP m
      else wifi_event_notify WIFI_EVENT_START m)"

definition wifi_state_change :: "wifi_state \<Rightarrow> 'e wifi_manager \<Rightarrow> 'e wifi_manager" where
  "wifi_state_change state m = m\<lparr>wm_state := state\<rparr>"

definition net_mgmt_event_handle :: "'e wifi_manager \<Rightarrow> 'e wifi_manager" where
  "net_mgmt_event_handle m =
     (let net_state = wm_net_state m
      in if wm_net_state_old m = net_state then m
         else
           (let m1 = (if net_state AND NET_STATE_IPV4_READY \<noteq> 0 then wifi_event_notify WIFI_EVENT_IP_ADD m
                      else if net_state AND NET_STATE_WIFI_CONNECTED \<noteq> 0 then
                        (if wm_net_state_old m AND NET_STATE_WIFI_CONNECTED \<noteq> 0
                         then wifi_event_notify WIFI_EVENT_IP_DEL m
                         else wifi_event_notify WIFI_EVENT_CONNECTED m)
                      else wifi_event_notify WIFI_EVENT_DISCONNECTED m)
            in m1\<lparr>wm_net_state_old := net_state\<rparr>))"

text \<open>The \<^verbatim>\<open>switch\<close> at the end of \<^verbatim>\<open>wifi_event_handle\<close>.\<close>

definition wifi_action :: "('e, 'x) wifi_lib_scheme \<Rightarrow> wifi_state \<Rightarrow> 'e wifi_manager \<Rightarrow> 'e wifi_manager" where
  "wifi_action lib new_state m =
     (case new_state of
        WIFI_STATE_WAITING_FOR_LOWER_UP \<Rightarrow> wifi_check_lower_up lib m
      | WIFI_STATE_CONNECTING \<Rightarrow> wifi_connect lib m
      | WIFI_STATE_DISCONNECTING \<Rightarrow> wifi_disconnect lib m
      | _ \<Rightarrow> m)"

text \<open>Up to the \<^verbatim>\<open>k_sleep\<close>, where there is one.\<close>

definition wifi_event_handle :: "('e, 'x) wifi_lib_scheme \<Rightarrow> 'e wifi_manager \<Rightarrow> 'e wifi_manager" where
  "wifi_event_handle lib m =
     (let old_state = wm_state m;
          map_value = wifi_state_change_map ! event_num (wm_event m) ! nat (state_num old_state);
          waits = (map_value - MAP_OFFSET \<ge> state_num WIFI_STATE_WAIT);
          new_state = (if waits then old_state else state_of_num (map_value - MAP_OFFSET));
          sleep_msec = (if waits then map_value - MAP_OFFSET - state_num WIFI_STATE_WAIT else 0)
      in if map_value = 0 then m
         else if new_state = WIFI_STATE_INVALID then m
         else
           let m1 = wifi_state_change new_state m
           in if new_state = old_state then m1\<lparr>wm_resume := Some (new_state, sleep_msec)\<rparr>
              else wifi_action lib new_state m1)"

definition wifi_resume :: "('e, 'x) wifi_lib_scheme \<Rightarrow> 'e wifi_manager \<Rightarrow> 'e wifi_manager" where
  "wifi_resume lib m =
     (case wm_resume m of
        None \<Rightarrow> m
      | Some (state, _) \<Rightarrow> wifi_action lib state (m\<lparr>wm_resume := None\<rparr>))"

text \<open>The atomic operations on the flags of the network.\<close>

definition atomic_update :: "u32 \<Rightarrow> u32 \<Rightarrow> u32 \<Rightarrow> u32" where
  "atomic_update target val msk = (target AND NOT msk) OR val"

definition ipv4_changed :: "bool \<Rightarrow> 'e wifi_manager \<Rightarrow> 'e wifi_manager" where
  "ipv4_changed added m =
     k_work_submit Net_mgmt_event_work
       (if added then m\<lparr>wm_net_state := wm_net_state m OR NET_STATE_IPV4_READY\<rparr>
        else m\<lparr>wm_net_state := wm_net_state m AND NOT NET_STATE_IPV4_READY\<rparr>)"

datatype wifi_mgmt_event = Wifi_connect_result int | Wifi_disconnect_result | Wifi_other_event

definition wifi_connect_error :: "int \<Rightarrow> int" where
  "wifi_connect_error status = status"

definition wifi_mgmt_event_handler :: "wifi_mgmt_event \<Rightarrow> 'e wifi_manager \<Rightarrow> 'e wifi_manager" where
  "wifi_mgmt_event_handler mgmt_event m =
     (let lost = m\<lparr>wm_net_state := wm_net_state m AND
            NOT (NET_STATE_WIFI_CONNECTED OR NET_STATE_WIFI_CONNECTING OR NET_STATE_IPV4_READY)\<rparr>
      in case mgmt_event of
           Wifi_connect_result status \<Rightarrow>
             k_work_submit Net_mgmt_event_work
               (if wifi_connect_error status \<noteq> 0 then lost
                else m\<lparr>wm_net_state := atomic_update (wm_net_state m) NET_STATE_WIFI_CONNECTED
                         (NET_STATE_WIFI_CONNECTED OR NET_STATE_WIFI_CONNECTING)\<rparr>)
         | Wifi_disconnect_result \<Rightarrow> k_work_submit Net_mgmt_event_work lost
         | Wifi_other_event \<Rightarrow> m)"

definition wifi_manager_init :: "'e wifi_manager \<Rightarrow> 'e wifi_manager" where
  "wifi_manager_init m = k_work_submit Event_work (wifi_event_notify WIFI_EVENT_START m)"

declare wifi_state_change_def [simp] wifi_connect_error_def [simp]

section \<open>The state machine\<close>

definition zero_manager :: "u8 list \<Rightarrow> u8 list \<Rightarrow> 'e \<Rightarrow> 'e wifi_manager" where
  "zero_manager ssid psk e = \<lparr>wm_state = WIFI_STATE_IDLE, wm_net_state = 0, wm_net_state_old = 0,
     wm_flag_reconnect = False, wm_event = WIFI_EVENT_START, wm_queue = [], wm_resume = None,
     wm_ssid = ssid, wm_psk = psk, wm_env = e\<rparr>"

text \<open>A step of the work queue: it takes the first item, or ends a sleep.\<close>

inductive wifi_step :: "('e, 'x) wifi_lib_scheme \<Rightarrow> 'e wifi_manager \<Rightarrow> 'e wifi_manager \<Rightarrow> bool" for lib where
  step_event: "wm_resume m = None \<Longrightarrow> wm_queue m = Event_work # q \<Longrightarrow>
    wifi_step lib m (wifi_event_handle lib (m\<lparr>wm_queue := q\<rparr>))"
| step_net: "wm_resume m = None \<Longrightarrow> wm_queue m = Net_mgmt_event_work # q \<Longrightarrow>
    wifi_step lib m (net_mgmt_event_handle (m\<lparr>wm_queue := q\<rparr>))"
| step_wake: "wm_resume m \<noteq> None \<Longrightarrow> wifi_step lib m (wifi_resume lib m)"

text \<open>The network tells the manager about a change.\<close>

inductive net_step :: "'e wifi_manager \<Rightarrow> 'e wifi_manager \<Rightarrow> bool" where
  net_ipv4: "net_step m (ipv4_changed added m)"
| net_wifi: "net_step m (wifi_mgmt_event_handler ev m)"

inductive_cases wifi_stepE: "wifi_step lib m m'"
inductive_cases net_stepE: "net_step m m'"

text \<open>The runs in which the network only tells the manager something where \<open>P\<close> holds.\<close>

inductive wifi_reaches ::
  "('e, 'x) wifi_lib_scheme \<Rightarrow> ('e wifi_manager \<Rightarrow> bool) \<Rightarrow> 'e wifi_manager \<Rightarrow> 'e wifi_manager \<Rightarrow> bool" for lib P m where
  wifi_refl: "wifi_reaches lib P m m"
| wifi_work: "wifi_reaches lib P m m1 \<Longrightarrow> wifi_step lib m1 m2 \<Longrightarrow> wifi_reaches lib P m m2"
| wifi_env: "wifi_reaches lib P m m1 \<Longrightarrow> wifi_reaches lib P m (m1\<lparr>wm_env := e\<rparr>)"
| wifi_net: "wifi_reaches lib P m m1 \<Longrightarrow> P m1 \<Longrightarrow> net_step m1 m2 \<Longrightarrow> wifi_reaches lib P m m2"

lemma wifi_reaches_inv:
  assumes "wifi_reaches lib P m0 m" and "I m0"
    and "\<And>m m'. I m \<Longrightarrow> wifi_step lib m m' \<Longrightarrow> I m'"
    and "\<And>m e. I m \<Longrightarrow> I (m\<lparr>wm_env := e\<rparr>)"
    and "\<And>m m'. I m \<Longrightarrow> P m \<Longrightarrow> net_step m m' \<Longrightarrow> I m'"
  shows "I m"
  using assms by (induction rule: wifi_reaches.induct) blast+

section \<open>What the operations leave alone\<close>

definition same_machine :: "'e wifi_manager \<Rightarrow> 'e wifi_manager \<Rightarrow> bool" where
  "same_machine m m' \<longleftrightarrow> wm_state m' = wm_state m \<and> wm_resume m' = wm_resume m \<and>
     (wm_flag_reconnect m' \<longrightarrow> wm_flag_reconnect m) \<and> wm_ssid m' = wm_ssid m \<and> wm_psk m' = wm_psk m"

lemma submit_sel [simp]:
  "wm_state (k_work_submit wk m) = wm_state m" "wm_resume (k_work_submit wk m) = wm_resume m"
  "wm_flag_reconnect (k_work_submit wk m) = wm_flag_reconnect m" "wm_event (k_work_submit wk m) = wm_event m"
  "wm_env (k_work_submit wk m) = wm_env m" "wm_net_state (k_work_submit wk m) = wm_net_state m"
  "wm_net_state_old (k_work_submit wk m) = wm_net_state_old m"
  "wm_ssid (k_work_submit wk m) = wm_ssid m" "wm_psk (k_work_submit wk m) = wm_psk m"
  "wm_queue (k_work_submit wk m) = (if wk \<in> set (wm_queue m) then wm_queue m else wm_queue m @ [wk])"
  by (simp_all add: k_work_submit_def)

lemma notify_sel [simp]:
  "wm_state (wifi_event_notify ev m) = wm_state m" "wm_resume (wifi_event_notify ev m) = wm_resume m"
  "wm_flag_reconnect (wifi_event_notify ev m) = wm_flag_reconnect m" "wm_event (wifi_event_notify ev m) = ev"
  "wm_env (wifi_event_notify ev m) = wm_env m" "wm_net_state (wifi_event_notify ev m) = wm_net_state m"
  "wm_net_state_old (wifi_event_notify ev m) = wm_net_state_old m"
  "wm_ssid (wifi_event_notify ev m) = wm_ssid m" "wm_psk (wifi_event_notify ev m) = wm_psk m"
  "wm_queue (wifi_event_notify ev m) = (if Event_work \<in> set (wm_queue m) then wm_queue m else wm_queue m @ [Event_work])"
  by (simp_all add: wifi_event_notify_def)

lemma update_sel [simp]:
  "wm_state (wifi_mgmt_connecting_update b m) = wm_state m" "wm_resume (wifi_mgmt_connecting_update b m) = wm_resume m"
  "wm_flag_reconnect (wifi_mgmt_connecting_update b m) = wm_flag_reconnect m"
  "wm_event (wifi_mgmt_connecting_update b m) = wm_event m" "wm_env (wifi_mgmt_connecting_update b m) = wm_env m"
  "wm_ssid (wifi_mgmt_connecting_update b m) = wm_ssid m" "wm_psk (wifi_mgmt_connecting_update b m) = wm_psk m"
  "wm_queue (wifi_mgmt_connecting_update b m) = wm_queue m"
  by (simp_all add: wifi_mgmt_connecting_update_def)

lemma failed_same [simp]: "same_machine m (wifi_connect_failed m)"
  by (simp add: same_machine_def wifi_connect_failed_def)

lemma connect_same: "same_machine m (wifi_connect lib m)"
  by (auto simp: wifi_connect_def Let_def same_machine_def wifi_connect_failed_def split: prod.splits)

lemma net_step_form:
  assumes "net_step m m'"
  obtains "m' = m" | ns where "m' = k_work_submit Net_mgmt_event_work (m\<lparr>wm_net_state := ns\<rparr>)"
  using assms
  by (auto elim!: net_stepE simp: ipv4_changed_def wifi_mgmt_event_handler_def Let_def split: wifi_mgmt_event.splits if_splits)

lemma net_same: "net_step m m' \<Longrightarrow> same_machine m m' \<and> wm_env m' = wm_env m"
  by (erule net_step_form) (simp_all add: same_machine_def)

lemma net_handle_same: "same_machine m (net_mgmt_event_handle m)"
  by (simp add: net_mgmt_event_handle_def Let_def same_machine_def)

lemma action_same: "same_machine m (wifi_action lib st m)"
  using connect_same[of m lib]
  by (auto simp: wifi_action_def wifi_check_lower_up_def wifi_disconnect_def same_machine_def split: wifi_state.splits prod.splits)

text \<open>The table, state by state.\<close>

lemma handle_idle:
  "wm_state m = WIFI_STATE_IDLE \<Longrightarrow> wifi_event_handle lib m =
     (if wm_event m = WIFI_EVENT_START
      then wifi_check_lower_up lib (m\<lparr>wm_state := WIFI_STATE_WAITING_FOR_LOWER_UP\<rparr>) else m)"
  by (cases "wm_event m")
    (simp_all add: wifi_event_handle_def wifi_state_change_map_def state_of_num_def wifi_action_def Let_def)

lemma handle_lower_up:
  "wm_state m = WIFI_STATE_WAITING_FOR_LOWER_UP \<Longrightarrow> wifi_event_handle lib m =
     (case wm_event m of
        WIFI_EVENT_START \<Rightarrow> m\<lparr>wm_resume := Some (WIFI_STATE_WAITING_FOR_LOWER_UP, 100)\<rparr>
      | WIFI_EVENT_LOWER_UP \<Rightarrow> wifi_connect lib (m\<lparr>wm_state := WIFI_STATE_CONNECTING\<rparr>)
      | _ \<Rightarrow> m)"
  by (cases "wm_event m")
    (simp_all add: wifi_event_handle_def wifi_state_change_map_def state_of_num_def wifi_action_def Let_def)

lemma handle_connecting:
  "wm_state m = WIFI_STATE_CONNECTING \<Longrightarrow> wifi_event_handle lib m =
     (case wm_event m of
        WIFI_EVENT_DISCONNECTED \<Rightarrow> m\<lparr>wm_resume := Some (WIFI_STATE_CONNECTING, 1000)\<rparr>
      | WIFI_EVENT_IP_ADD \<Rightarrow> m\<lparr>wm_state := WIFI_STATE_READY\<rparr>
      | _ \<Rightarrow> m)"
  by (cases "wm_event m")
    (simp_all add: wifi_event_handle_def wifi_state_change_map_def state_of_num_def wifi_action_def Let_def)

lemma handle_ready:
  "wm_state m = WIFI_STATE_READY \<Longrightarrow> wifi_event_handle lib m =
     (if wm_event m \<in> {WIFI_EVENT_DISCONNECTED, WIFI_EVENT_IP_DEL}
      then wifi_connect lib (m\<lparr>wm_state := WIFI_STATE_CONNECTING\<rparr>) else m)"
  by (cases "wm_event m")
    (simp_all add: wifi_event_handle_def wifi_state_change_map_def state_of_num_def wifi_action_def Let_def)

lemmas handle_in_state = handle_idle handle_lower_up handle_connecting handle_ready

section \<open>What holds in every run\<close>

text \<open>
  \<open>manager_ok\<close>: the manager is in one of four states and sleeps only to wait for the link or to
  try a connection again.
\<close>

definition manager_ok :: "'e wifi_manager \<Rightarrow> bool" where
  "manager_ok m \<longleftrightarrow>
     wm_state m \<in> {WIFI_STATE_IDLE, WIFI_STATE_WAITING_FOR_LOWER_UP, WIFI_STATE_CONNECTING, WIFI_STATE_READY} \<and>
     \<not> wm_flag_reconnect m \<and>
     (\<forall>st ms. wm_resume m = Some (st, ms) \<longrightarrow> st = wm_state m \<and>
        (st, ms) \<in> {(WIFI_STATE_WAITING_FOR_LOWER_UP, 100), (WIFI_STATE_CONNECTING, 1000)})"

lemma manager_ok_same: "manager_ok m \<Longrightarrow> same_machine m m' \<Longrightarrow> manager_ok m'"
  by (auto simp: manager_ok_def same_machine_def)

lemma manager_okE:
  assumes "manager_ok m"
  obtains "wm_state m = WIFI_STATE_IDLE" | "wm_state m = WIFI_STATE_WAITING_FOR_LOWER_UP"
    | "wm_state m = WIFI_STATE_CONNECTING" | "wm_state m = WIFI_STATE_READY"
  using assms by (auto simp: manager_ok_def)

lemma check_same: "same_machine m (wifi_check_lower_up lib m)"
  by (simp add: wifi_check_lower_up_def same_machine_def)

lemma handle_ok:
  assumes "manager_ok m" and "wm_resume m = None"
  shows "manager_ok (wifi_event_handle lib m)"
proof -
  have "manager_ok (m\<lparr>wm_state := st\<rparr>)" if "st \<in> {WIFI_STATE_WAITING_FOR_LOWER_UP, WIFI_STATE_CONNECTING}" for st
    using that assms by (auto simp: manager_ok_def)
  then have check: "manager_ok (wifi_check_lower_up lib (m\<lparr>wm_state := WIFI_STATE_WAITING_FOR_LOWER_UP\<rparr>))"
    and con: "manager_ok (wifi_connect lib (m\<lparr>wm_state := WIFI_STATE_CONNECTING\<rparr>))"
    by (simp_all add: manager_ok_same[OF _ check_same] manager_ok_same[OF _ connect_same])
  show ?thesis
    using assms(1)
  proof (cases rule: manager_okE)
    case 1
    with assms(1) check show ?thesis by (simp add: handle_idle)
  next
    case 2
    with assms con show ?thesis by (auto simp: handle_lower_up manager_ok_def split: wifi_event.splits)
  next
    case 3
    with assms show ?thesis by (auto simp: handle_connecting manager_ok_def split: wifi_event.splits)
  next
    case 4
    with assms(1) con show ?thesis by (simp add: handle_ready)
  qed
qed

lemma step_ok:
  assumes "manager_ok m" and "wifi_step lib m m'"
  shows "manager_ok m'"
proof -
  have q: "manager_ok (m\<lparr>wm_queue := q\<rparr>)" and n: "manager_ok (m\<lparr>wm_resume := None\<rparr>)" for q
    using assms(1) by (simp_all add: manager_ok_def)
  show ?thesis
    using assms(2)
    by (cases rule: wifi_step.cases)
      (auto simp: wifi_resume_def split: option.splits intro: handle_ok[OF q] manager_ok_same[OF q net_handle_same]
        manager_ok_same[OF n action_same])
qed

lemma manager_ok_init: "manager_ok (wifi_manager_init (zero_manager ssid psk e))"
  by (simp add: manager_ok_def wifi_manager_init_def zero_manager_def)

lemma reaches_ok:
  assumes "wifi_reaches lib P (wifi_manager_init (zero_manager ssid psk e)) m"
  shows "manager_ok m"
  using assms manager_ok_init
proof (rule wifi_reaches_inv)
  show "manager_ok (m\<lparr>wm_env := e\<rparr>)" if "manager_ok m" for m :: "'a wifi_manager" and e
    using that by (simp add: manager_ok_def)
  show "manager_ok m'" if "manager_ok m" "net_step m m'" for m m' :: "'a wifi_manager"
    using manager_ok_same[OF that(1)] net_same[OF that(2)] by blast
qed (rule step_ok)

text \<open>With the flag clear, what a request to disconnect does is irrelevant.\<close>

lemma connect_no_disconnect:
  "\<not> wm_flag_reconnect m \<Longrightarrow> wifi_connect (lib\<lparr>net_mgmt_disconnect := f\<rparr>) m = wifi_connect lib m"
  by (simp add: wifi_connect_def Let_def split: prod.split)

lemma action_no_disconnect:
  "\<not> wm_flag_reconnect m \<Longrightarrow> st \<noteq> WIFI_STATE_DISCONNECTING \<Longrightarrow>
     wifi_action (lib\<lparr>net_mgmt_disconnect := f\<rparr>) st m = wifi_action lib st m"
  by (cases st) (simp_all add: wifi_action_def connect_no_disconnect wifi_check_lower_up_def)

lemma handle_no_disconnect:
  assumes "manager_ok m"
  shows "wifi_event_handle (lib\<lparr>net_mgmt_disconnect := f\<rparr>) m = wifi_event_handle lib m"
  using assms
  by (cases rule: manager_okE)
    (use assms in \<open>auto simp: handle_in_state manager_ok_def connect_no_disconnect wifi_check_lower_up_def
       split: wifi_event.splits\<close>)

lemma step_no_disconnect:
  assumes "manager_ok m" and "wifi_step lib m m'"
  shows "wifi_step (lib\<lparr>net_mgmt_disconnect := f\<rparr>) m m'"
  using assms(2)
proof (cases rule: wifi_step.cases)
  case (step_event q)
  have "manager_ok (m\<lparr>wm_queue := q\<rparr>)" using assms(1) by (simp add: manager_ok_def)
  from handle_no_disconnect[OF this, where lib = lib and f = f] wifi_step.step_event[OF step_event(2,3), of "lib\<lparr>net_mgmt_disconnect := f\<rparr>"]
  show ?thesis using step_event(1) by simp
next
  case (step_net q)
  then show ?thesis by (simp add: wifi_step.step_net)
next
  case step_wake
  then have "wifi_resume (lib\<lparr>net_mgmt_disconnect := f\<rparr>) m = wifi_resume lib m"
    using assms(1) by (auto simp: wifi_resume_def manager_ok_def action_no_disconnect)
  with wifi_step.step_wake[OF step_wake(2), of "lib\<lparr>net_mgmt_disconnect := f\<rparr>"] step_wake(1) show ?thesis by simp
qed

text \<open>
  C33. Whatever the network does, the manager is never in the state DISCONNECTING or in an invalid one,
  sleeps only 100 ms for the link or 1000 ms between two attempts, and never asks the network to
  disconnect: every run is also a run with any other function in the place of that request.
\<close>

lemma wifi_runs_ok:
  assumes "wifi_reaches lib P (wifi_manager_init (zero_manager ssid psk e)) m"
  shows "manager_ok m \<and>
    wifi_reaches (lib\<lparr>net_mgmt_disconnect := f\<rparr>) P (wifi_manager_init (zero_manager ssid psk e)) m"
proof
  show "manager_ok m" by (rule reaches_ok[OF assms])
  show "wifi_reaches (lib\<lparr>net_mgmt_disconnect := f\<rparr>) P (wifi_manager_init (zero_manager ssid psk e)) m"
    using assms
  proof induction
    case wifi_refl
    show ?case by (rule wifi_reaches.wifi_refl)
  next
    case (wifi_work m1 m2)
    show ?case
      by (rule wifi_reaches.wifi_work[OF wifi_work.IH step_no_disconnect[OF reaches_ok[OF wifi_work.hyps(1)] wifi_work.hyps(2)]])
  next
    case (wifi_env m1 e)
    show ?case by (rule wifi_reaches.wifi_env[OF wifi_env.IH])
  next
    case (wifi_net m1 m2)
    show ?case by (rule wifi_reaches.wifi_net[OF wifi_net.IH wifi_net.hyps(2,3)])
  qed
qed

section \<open>Getting to a connection\<close>

text \<open>Before the first attempt to connect there is always a next step, as long as the network is silent.\<close>

definition starting :: "'e wifi_manager \<Rightarrow> bool" where
  "starting m \<longleftrightarrow> wm_state m \<in> {WIFI_STATE_IDLE, WIFI_STATE_WAITING_FOR_LOWER_UP}"

definition on_the_way :: "'e wifi_manager \<Rightarrow> bool" where
  "on_the_way m \<longleftrightarrow>
     (wm_state m = WIFI_STATE_IDLE \<longrightarrow> wm_resume m = None \<and> wm_queue m = [Event_work] \<and> wm_event m = WIFI_EVENT_START) \<and>
     (wm_state m = WIFI_STATE_WAITING_FOR_LOWER_UP \<longrightarrow>
        wm_resume m = None \<and> wm_queue m = [Event_work] \<and> wm_event m \<in> {WIFI_EVENT_START, WIFI_EVENT_LOWER_UP} \<or>
        wm_resume m = Some (WIFI_STATE_WAITING_FOR_LOWER_UP, 100) \<and> wm_queue m = [])"

lemma starting_same: "same_machine m m' \<Longrightarrow> starting m' = starting m"
  by (simp add: same_machine_def starting_def)

lemma starting_upd [simp]:
  "starting (m\<lparr>wm_queue := q\<rparr>) = starting m" "starting (m\<lparr>wm_resume := rs\<rparr>) = starting m"
  "starting (m\<lparr>wm_env := e\<rparr>) = starting m"
  "\<not> starting (m\<lparr>wm_state := WIFI_STATE_CONNECTING\<rparr>)" "\<not> starting (m\<lparr>wm_state := WIFI_STATE_READY\<rparr>)"
  by (simp_all add: starting_def)

lemma not_starting_handle:
  assumes "manager_ok m" and "\<not> starting m"
  shows "\<not> starting (wifi_event_handle lib m)"
  using assms(1)
proof (cases rule: manager_okE)
  case 3
  with assms(2) show ?thesis by (simp add: handle_connecting split: wifi_event.split)
next
  case 4
  with assms(2) show ?thesis by (simp add: handle_ready starting_same[OF connect_same])
qed (use assms(2) in \<open>simp_all add: starting_def\<close>)

lemma not_starting_step:
  assumes "manager_ok m" and "\<not> starting m" and "wifi_step lib m m'"
  shows "\<not> starting m'"
proof -
  have q: "manager_ok (m\<lparr>wm_queue := q\<rparr>)" for q using assms(1) by (simp add: manager_ok_def)
  show ?thesis
    using assms(3,2)
    by (cases rule: wifi_step.cases)
      (auto simp: wifi_resume_def starting_same[OF action_same] starting_same[OF net_handle_same]
        not_starting_handle[OF q] split: option.splits)
qed

lemma on_the_way_check:
  assumes "wm_state m = WIFI_STATE_WAITING_FOR_LOWER_UP" and "wm_queue m = []" and "wm_resume m = None"
  shows "on_the_way (wifi_check_lower_up lib m)"
  using assms by (simp add: on_the_way_def wifi_check_lower_up_def)

lemma on_the_way_step:
  assumes "on_the_way m" and "starting m" and "wifi_step lib m m'"
  shows "on_the_way m'"
proof -
  from assms(1,2) consider
      (idle) "wm_state m = WIFI_STATE_IDLE" "wm_resume m = None" "wm_queue m = [Event_work]" "wm_event m = WIFI_EVENT_START"
    | (start) "wm_state m = WIFI_STATE_WAITING_FOR_LOWER_UP" "wm_resume m = None" "wm_queue m = [Event_work]" "wm_event m = WIFI_EVENT_START"
    | (up) "wm_state m = WIFI_STATE_WAITING_FOR_LOWER_UP" "wm_resume m = None" "wm_queue m = [Event_work]" "wm_event m = WIFI_EVENT_LOWER_UP"
    | (sleeping) "wm_state m = WIFI_STATE_WAITING_FOR_LOWER_UP" "wm_resume m = Some (WIFI_STATE_WAITING_FOR_LOWER_UP, 100)" "wm_queue m = []"
    by (auto simp: on_the_way_def starting_def)
  then show ?thesis
  proof cases
    case idle
    with assms(3) have "m' = wifi_check_lower_up lib (m\<lparr>wm_queue := [], wm_state := WIFI_STATE_WAITING_FOR_LOWER_UP\<rparr>)"
      by (auto elim!: wifi_stepE simp: handle_idle)
    with idle show ?thesis by (simp add: on_the_way_check)
  next
    case start
    with assms(3) have "m' = m\<lparr>wm_queue := [], wm_resume := Some (WIFI_STATE_WAITING_FOR_LOWER_UP, 100)\<rparr>"
      by (auto elim!: wifi_stepE simp: handle_lower_up)
    with start show ?thesis by (simp add: on_the_way_def)
  next
    case up
    with assms(3) have "m' = wifi_connect lib (m\<lparr>wm_queue := [], wm_state := WIFI_STATE_CONNECTING\<rparr>)"
      by (auto elim!: wifi_stepE simp: handle_lower_up)
    with connect_same[of "m\<lparr>wm_queue := [], wm_state := WIFI_STATE_CONNECTING\<rparr>" lib] show ?thesis
      by (simp add: on_the_way_def same_machine_def)
  next
    case sleeping
    with assms(3) have "m' = wifi_check_lower_up lib (m\<lparr>wm_resume := None\<rparr>)"
      by (auto elim!: wifi_stepE simp: wifi_resume_def wifi_action_def)
    with sleeping show ?thesis by (simp add: on_the_way_check)
  qed
qed

lemma reaches_on_the_way:
  assumes "wifi_reaches lib (\<lambda>m. \<not> starting m) (wifi_manager_init (zero_manager ssid psk e)) m"
  shows "on_the_way m"
proof -
  have "manager_ok m \<and> on_the_way m"
    using assms
  proof (rule wifi_reaches_inv)
    show "manager_ok (wifi_manager_init (zero_manager ssid psk e)) \<and> on_the_way (wifi_manager_init (zero_manager ssid psk e))"
      using manager_ok_init by (simp add: on_the_way_def wifi_manager_init_def zero_manager_def)
    show "manager_ok m' \<and> on_the_way m'" if "manager_ok m \<and> on_the_way m" "wifi_step lib m m'" for m m'
    proof (cases "starting m")
      case True
      with that step_ok on_the_way_step show ?thesis by blast
    next
      case False
      with that not_starting_step[of m lib m'] step_ok[of m lib m'] show ?thesis
        by (auto simp: on_the_way_def starting_def)
    qed
    show "manager_ok (m\<lparr>wm_env := e\<rparr>) \<and> on_the_way (m\<lparr>wm_env := e\<rparr>)" if "manager_ok m \<and> on_the_way m" for m :: "'a wifi_manager" and e
      using that by (simp add: manager_ok_def on_the_way_def)
    show "manager_ok m' \<and> on_the_way m'" if "manager_ok m \<and> on_the_way m" "\<not> starting m" "net_step m m'" for m m' :: "'a wifi_manager"
      using that manager_ok_same[of m m'] net_same[OF that(3)] starting_same[of m m']
      by (auto simp: on_the_way_def starting_def)
  qed
  then show ?thesis by blast
qed

text \<open>The request the manager makes.\<close>

definition connect_params :: "'e wifi_manager \<Rightarrow> wifi_connect_req_params" where
  "connect_params m = \<lparr>wp_ssid = wm_ssid m, wp_psk = wm_psk m, wp_security_psk = (wm_psk m \<noteq> [])\<rparr>"

lemma connect_env:
  assumes "\<not> wm_flag_reconnect m"
  shows "wm_env (wifi_connect lib m) = snd (net_mgmt_connect lib (connect_params m) (wm_env m))"
  using assms by (simp add: wifi_connect_def connect_params_def Let_def wifi_connect_failed_def split: prod.splits)

lemma steps_next: "wifi_step lib m m1 \<Longrightarrow> (wifi_step lib ^^ n) m1 m2 \<Longrightarrow> (wifi_step lib ^^ Suc n) m m2"
  by (rule relpowp_Suc_I2)

text \<open>The manager knows that the link is up, with the credentials and the environment of \<open>m\<close>.\<close>

definition link_known :: "'e wifi_manager \<Rightarrow> 'e wifi_manager \<Rightarrow> bool" where
  "link_known m m1 \<longleftrightarrow> wm_state m1 = WIFI_STATE_WAITING_FOR_LOWER_UP \<and> wm_resume m1 = None \<and>
     wm_queue m1 = [Event_work] \<and> wm_event m1 = WIFI_EVENT_LOWER_UP \<and> wm_env m1 = wm_env m \<and>
     \<not> wm_flag_reconnect m1 \<and> connect_params m1 = connect_params m"

lemma link_known_connects:
  assumes "link_known m m1"
  shows "\<exists>m'. wifi_step lib m1 m' \<and> wm_state m' = WIFI_STATE_CONNECTING \<and>
    wm_env m' = snd (net_mgmt_connect lib (connect_params m) (wm_env m))"
proof -
  let ?m = "m1\<lparr>wm_queue := [], wm_state := WIFI_STATE_CONNECTING\<rparr>"
  have "wifi_step lib m1 (wifi_connect lib ?m)"
    using assms step_event[of m1 "[]" lib] by (simp add: handle_lower_up link_known_def)
  moreover have "wm_state (wifi_connect lib ?m) = WIFI_STATE_CONNECTING"
    using connect_same[of ?m lib] by (simp add: same_machine_def)
  moreover have "wm_env (wifi_connect lib ?m) = snd (net_mgmt_connect lib (connect_params m) (wm_env m))"
    using assms connect_env[of ?m lib] by (simp add: connect_params_def link_known_def)
  ultimately show ?thesis by blast
qed

lemma check_link_known:
  assumes "wm_state m1 = WIFI_STATE_WAITING_FOR_LOWER_UP" "wm_queue m1 = []" "wm_resume m1 = None"
    and "wm_env m1 = wm_env m" "\<not> wm_flag_reconnect m1" "connect_params m1 = connect_params m"
    and "net_if_lower_up lib (wm_env m)"
  shows "link_known m (wifi_check_lower_up lib m1)"
  using assms by (simp add: link_known_def wifi_check_lower_up_def connect_params_def)

lemma asleep_link_known:
  assumes "wm_state m0 = WIFI_STATE_WAITING_FOR_LOWER_UP" "wm_queue m0 = []"
    and "wm_resume m0 = Some (WIFI_STATE_WAITING_FOR_LOWER_UP, 100)"
    and "wm_env m0 = wm_env m" "\<not> wm_flag_reconnect m0" "connect_params m0 = connect_params m"
    and "net_if_lower_up lib (wm_env m)"
  shows "\<exists>m1. wifi_step lib m0 m1 \<and> link_known m m1"
proof -
  have "wifi_step lib m0 (wifi_check_lower_up lib (m0\<lparr>wm_resume := None\<rparr>))"
    using assms(3) step_wake[of m0 lib] by (simp add: wifi_resume_def wifi_action_def)
  moreover have "link_known m (wifi_check_lower_up lib (m0\<lparr>wm_resume := None\<rparr>))"
    using assms by (intro check_link_known) (simp_all add: connect_params_def)
  ultimately show ?thesis by blast
qed

lemma on_the_way_link_known:
  assumes "on_the_way m" and "starting m" and "\<not> wm_flag_reconnect m" and up: "net_if_lower_up lib (wm_env m)"
  shows "\<exists>n m1. n \<le> 2 \<and> (wifi_step lib ^^ n) m m1 \<and> link_known m m1"
proof -
  consider (now) "link_known m m"
    | (idle) "wm_state m = WIFI_STATE_IDLE" "wm_resume m = None" "wm_queue m = [Event_work]" "wm_event m = WIFI_EVENT_START"
    | (start) "wm_state m = WIFI_STATE_WAITING_FOR_LOWER_UP" "wm_resume m = None" "wm_queue m = [Event_work]" "wm_event m = WIFI_EVENT_START"
    | (asleep) "wm_state m = WIFI_STATE_WAITING_FOR_LOWER_UP" "wm_resume m = Some (WIFI_STATE_WAITING_FOR_LOWER_UP, 100)" "wm_queue m = []"
    using assms(1-3) by (auto simp: on_the_way_def starting_def link_known_def)
  then show ?thesis
  proof cases
    case now
    then show ?thesis by (intro exI[of _ 0] exI[of _ m]) simp
  next
    case idle
    let ?m1 = "wifi_check_lower_up lib (m\<lparr>wm_queue := [], wm_state := WIFI_STATE_WAITING_FOR_LOWER_UP\<rparr>)"
    have "wifi_step lib m ?m1" using idle step_event[of m "[]" lib] by (simp add: handle_idle)
    moreover have "link_known m ?m1" using idle assms(3) up by (intro check_link_known) (simp_all add: connect_params_def)
    ultimately show ?thesis
      using steps_next[OF _ relpowp_0_I] by (intro exI[of _ "Suc 0"] exI[of _ ?m1]) simp
  next
    case start
    let ?s = "m\<lparr>wm_queue := [], wm_resume := Some (WIFI_STATE_WAITING_FOR_LOWER_UP, 100)\<rparr>"
    have s: "wifi_step lib m ?s" using start step_event[of m "[]" lib] by (simp add: handle_lower_up)
    obtain m1 where "wifi_step lib ?s m1" "link_known m m1"
      using asleep_link_known[of ?s m lib] start assms(3) up by (auto simp: connect_params_def)
    with steps_next[OF s steps_next[OF _ relpowp_0_I]] show ?thesis
      by (intro exI[of _ "Suc (Suc 0)"] exI[of _ m1]) simp
  next
    case asleep
    with asleep_link_known[of m m lib] assms(3) up obtain m1 where "wifi_step lib m m1" "link_known m m1" by blast
    with steps_next[OF _ relpowp_0_I] show ?thesis by (intro exI[of _ "Suc 0"] exI[of _ m1]) simp
  qed
qed

text \<open>
  C35. As long as the network has nothing to tell before the first attempt to connect, the manager gets
  there: once the link is up, three steps are enough from any state before it, and the request
  carries the configured credentials.
\<close>

lemma link_up_connects:
  assumes "wifi_reaches lib (\<lambda>m. \<not> starting m) (wifi_manager_init (zero_manager ssid psk e)) m"
    and "starting m" and "net_if_lower_up lib (wm_env m)"
  shows "\<exists>n m'. n \<le> 3 \<and> (wifi_step lib ^^ n) m m' \<and> wm_state m' = WIFI_STATE_CONNECTING \<and>
    wm_env m' = snd (net_mgmt_connect lib (connect_params m) (wm_env m))"
proof -
  have "\<not> wm_flag_reconnect m" using reaches_ok[OF assms(1)] by (simp add: manager_ok_def)
  with on_the_way_link_known[OF reaches_on_the_way[OF assms(1)] assms(2) _ assms(3)]
  obtain n m1 where n: "n \<le> 2" "(wifi_step lib ^^ n) m m1" "link_known m m1" by blast
  from link_known_connects[OF n(3), of lib] obtain m' where "wifi_step lib m1 m'" "wm_state m' = WIFI_STATE_CONNECTING"
    "wm_env m' = snd (net_mgmt_connect lib (connect_params m) (wm_env m))" by blast
  with relpowp_Suc_I[OF n(2)] n(1) show ?thesis by (intro exI[of _ "Suc n"] exI[of _ m']) simp
qed

text \<open>
  A connection that the network reports as failed is tried again, after a pause: the report, the
  work it causes, the event, and the end of the sleep.
\<close>

lemma failed_connection_retried:
  assumes "wm_state m = WIFI_STATE_CONNECTING" and "wm_resume m = None" and "wm_queue m = []"
    and "wm_net_state m = NET_STATE_WIFI_CONNECTING" and "wm_net_state_old m = NET_STATE_WIFI_CONNECTING"
    and "\<not> wm_flag_reconnect m" and "status \<noteq> 0"
  shows "\<exists>m'. (wifi_step lib ^^ 3) (wifi_mgmt_event_handler (Wifi_connect_result status) m) m' \<and>
    wm_env m' = snd (net_mgmt_connect lib (connect_params m) (wm_env m))"
proof -
  let ?m1 = "m\<lparr>wm_net_state := 0, wm_queue := [Net_mgmt_event_work]\<rparr>"
  let ?m2 = "m\<lparr>wm_net_state := 0, wm_event := WIFI_EVENT_DISCONNECTED, wm_queue := [Event_work], wm_net_state_old := 0\<rparr>"
  let ?m3 = "?m2\<lparr>wm_queue := [], wm_resume := Some (WIFI_STATE_CONNECTING, 1000)\<rparr>"
  have "wifi_mgmt_event_handler (Wifi_connect_result status) m = ?m1"
    using assms by (simp add: wifi_mgmt_event_handler_def k_work_submit_def)
  moreover have "wifi_step lib ?m1 ?m2"
    using step_net[of ?m1 "[]" lib] assms
    by (simp add: net_mgmt_event_handle_def wifi_event_notify_def k_work_submit_def)
  moreover have "wifi_step lib ?m2 ?m3"
    using step_event[of ?m2 "[]" lib] assms by (simp add: handle_connecting)
  moreover have "wifi_step lib ?m3 (wifi_connect lib (?m3\<lparr>wm_resume := None\<rparr>))"
    using step_wake[of ?m3 lib] by (simp add: wifi_resume_def wifi_action_def)
  moreover have "wm_env (wifi_connect lib (?m3\<lparr>wm_resume := None\<rparr>)) = snd (net_mgmt_connect lib (connect_params m) (wm_env m))"
    using connect_env[of "?m3\<lparr>wm_resume := None\<rparr>" lib] assms(6) by (simp add: connect_params_def)
  ultimately show ?thesis
    unfolding numeral_3_eq_3 by (metis (no_types, lifting) relpowp_0_I steps_next)
qed

text \<open>
  There is one slot for the event. An address that is there before the link is up (a static one)
  is told while the manager sleeps; its event replaces the START event that would have made the
  manager look at the link again, and is not valid in this state. From then on nothing is ever
  done, whatever happens.
\<close>

definition stalled :: "'e wifi_manager \<Rightarrow> bool" where
  "stalled m \<longleftrightarrow> wm_state m = WIFI_STATE_WAITING_FOR_LOWER_UP \<and> wm_resume m = None \<and>
     (Event_work \<in> set (wm_queue m) \<longrightarrow> wm_event m \<notin> {WIFI_EVENT_START, WIFI_EVENT_LOWER_UP})"

lemma stalled_reaches:
  assumes "wifi_reaches lib P m0 m" and "stalled m0"
  shows "stalled m"
  using assms
proof (rule wifi_reaches_inv)
  show "stalled m'" if "stalled m" "wifi_step lib m m'" for m m'
    using that(2,1)
  proof (cases rule: wifi_step.cases)
    case (step_event q)
    with that(1) show ?thesis by (cases "wm_event m") (auto simp: handle_lower_up stalled_def)
  next
    case (step_net q)
    with that(1) show ?thesis by (auto simp: net_mgmt_event_handle_def Let_def stalled_def)
  qed (simp add: stalled_def)
  show "stalled (m\<lparr>wm_env := e\<rparr>)" if "stalled m" for m :: "'a wifi_manager" and e using that by (simp add: stalled_def)
  show "stalled m'" if "stalled m" "net_step m m'" for m m' :: "'a wifi_manager"
    using that(2) by (rule net_step_form) (use that(1) in \<open>auto simp: stalled_def\<close>)
qed

text \<open>
  There is one slot for the event: an address that is there while the manager sleeps for the link
  replaces the event that would have made it look again, and it waits for ever.
\<close>

lemma early_address_stalls:
  assumes "wm_state m = WIFI_STATE_WAITING_FOR_LOWER_UP" and "wm_queue m = []"
    and "wm_resume m = Some (WIFI_STATE_WAITING_FOR_LOWER_UP, 100)"
    and "wm_net_state m = 0" and "wm_net_state_old m = 0"
  shows "\<exists>m1. (wifi_step lib ^^ 3) (ipv4_changed True m) m1 \<and>
    (\<forall>m'. wifi_reaches lib P m1 m' \<longrightarrow> wm_state m' = WIFI_STATE_WAITING_FOR_LOWER_UP)"
proof -
  let ?m1 = "ipv4_changed True m"
  let ?m2 = "wifi_resume lib ?m1"
  let ?m3 = "net_mgmt_event_handle (?m2\<lparr>wm_queue := [Event_work]\<rparr>)"
  let ?m4 = "wifi_event_handle lib (?m3\<lparr>wm_queue := []\<rparr>)"
  have 1: "wm_state ?m1 = WIFI_STATE_WAITING_FOR_LOWER_UP" "wm_resume ?m1 = Some (WIFI_STATE_WAITING_FOR_LOWER_UP, 100)"
    "wm_queue ?m1 = [Net_mgmt_event_work]" "wm_net_state ?m1 = 4" "wm_net_state_old ?m1 = 0"
    using assms by (simp_all add: ipv4_changed_def)
  then have 2: "wm_state ?m2 = WIFI_STATE_WAITING_FOR_LOWER_UP" "wm_resume ?m2 = None"
    "wm_queue ?m2 = [Net_mgmt_event_work, Event_work]" "wm_net_state ?m2 = 4" "wm_net_state_old ?m2 = 0"
    by (simp_all add: wifi_resume_def wifi_action_def wifi_check_lower_up_def)
  then have 3: "wm_state ?m3 = WIFI_STATE_WAITING_FOR_LOWER_UP" "wm_resume ?m3 = None" "wm_queue ?m3 = [Event_work]"
    "wm_event ?m3 = WIFI_EVENT_IP_ADD" by (simp_all add: net_mgmt_event_handle_def)
  then have 4: "stalled ?m4" by (simp add: handle_lower_up stalled_def)
  have "wifi_step lib ?m1 ?m2" using 1 by (intro step_wake) simp
  moreover have "wifi_step lib ?m2 ?m3" using 2 by (intro step_net) simp_all
  moreover have "wifi_step lib ?m3 ?m4" using 3 by (intro step_event) simp_all
  ultimately have "(wifi_step lib ^^ 3) ?m1 ?m4"
    unfolding numeral_3_eq_3 by (rule steps_next[OF _ steps_next[OF _ steps_next[OF _ relpowp_0_I]]])
  with 4 stalled_reaches[of lib P ?m4] show ?thesis by (auto simp: stalled_def)
qed

end
