(* ===== verification/WifiPhases.thy ===== *)
theory WifiPhases
  imports WifiManager
begin

text \<open>
  The WiFi manager refines a machine with four phases, in a fixed order, with a loop at the end: it
  boots, waits for the link, joins the network, is online, and joins again when it has lost the network.
\<close>

section \<open>The phases\<close>

datatype phase = Booting | Awaiting_link | Joining | Online

datatype wifi_label = Work | Network | Surroundings

inductive phase_step :: "phase \<Rightarrow> wifi_label \<Rightarrow> phase \<Rightarrow> bool" where
  phase_stays: "phase_step ph l ph"
| phase_boots: "phase_step Booting Work Awaiting_link"
| phase_joins: "phase_step Awaiting_link Work Joining"
| phase_online: "phase_step Joining Work Online"
| phase_rejoins: "phase_step Online Work Joining"

inductive_cases phase_stepE: "phase_step ph l ph'"

text \<open>How far a phase is from the start; only joining again goes back, by one.\<close>

fun phase_rank :: "phase \<Rightarrow> nat" where
  "phase_rank Booting = 0"
| "phase_rank Awaiting_link = 1"
| "phase_rank Joining = 2"
| "phase_rank Online = 3"

instantiation phase :: linorder
begin

definition less_eq_phase :: "phase \<Rightarrow> phase \<Rightarrow> bool" where
  "less_eq_phase a b \<longleftrightarrow> phase_rank a \<le> phase_rank b"

definition less_phase :: "phase \<Rightarrow> phase \<Rightarrow> bool" where
  "less_phase a b \<longleftrightarrow> phase_rank a < phase_rank b"

instance
proof
  fix a b :: phase
  show "a \<le> b \<Longrightarrow> b \<le> a \<Longrightarrow> a = b" by (cases a; cases b) (simp_all add: less_eq_phase_def)
qed (auto simp: less_eq_phase_def less_phase_def)

end

lemmas phase_less = less_eq_phase_def less_phase_def

lemma phase_step_floor: "phase_step ph l ph' \<Longrightarrow> min ph Joining \<le> ph'"
  by (auto elim!: phase_stepE simp: min_def phase_less)

lemma phase_runs_floor: "runs phase_step ph ls ph' \<Longrightarrow> min ph Joining \<le> ph'"
  by (induction rule: runs.induct) (auto dest!: phase_step_floor simp: min_def split: if_splits)

lemma phase_step_quiet: "phase_step ph l ph' \<Longrightarrow> l \<noteq> Work \<Longrightarrow> ph' = ph"
  by (auto elim: phase_stepE)

lemma phase_runs_work:
  assumes "runs phase_step ph ls ph'"
  shows "phase_rank ph' \<le> phase_rank ph + length (filter (\<lambda>l. l = Work) ls)"
  using assms
proof (induction rule: runs.induct)
  case (runs_Cons ph l ph1 ls ph')
  have "phase_rank ph1 \<le> phase_rank ph + (if l = Work then 1 else 0)"
    using runs_Cons.hyps(1) by (auto elim!: phase_stepE)
  with runs_Cons.IH show ?case by (cases "l = Work") simp_all
qed simp

section \<open>The manager refines them\<close>

fun phase_of_state :: "wifi_state \<Rightarrow> phase" where
  "phase_of_state WIFI_STATE_WAITING_FOR_LOWER_UP = Awaiting_link"
| "phase_of_state WIFI_STATE_CONNECTING = Joining"
| "phase_of_state WIFI_STATE_READY = Online"
| "phase_of_state _ = Booting"

definition phase_of :: "'e wifi_manager \<Rightarrow> phase" where
  "phase_of m = phase_of_state (wm_state m)"

inductive manager_step ::
  "('e, 'x) wifi_lib_scheme \<Rightarrow> 'e wifi_manager \<Rightarrow> wifi_label \<Rightarrow> 'e wifi_manager \<Rightarrow> bool" for lib where
  manager_work: "wifi_step lib m m' \<Longrightarrow> manager_step lib m Work m'"
| manager_net: "net_step m m' \<Longrightarrow> manager_step lib m Network m'"
| manager_env: "manager_step lib m Surroundings (m\<lparr>wm_env := e\<rparr>)"

lemma phase_same: "same_machine m m' \<Longrightarrow> phase_of m' = phase_of m"
  by (simp add: same_machine_def phase_of_def)

lemma phase_upd [simp]:
  "phase_of (m\<lparr>wm_queue := q\<rparr>) = phase_of m" "phase_of (m\<lparr>wm_resume := rs\<rparr>) = phase_of m"
  "phase_of (m\<lparr>wm_env := e\<rparr>) = phase_of m" "phase_of (m\<lparr>wm_state := st\<rparr>) = phase_of_state st"
  by (simp_all add: phase_of_def)

lemma manager_ok_env: "manager_ok m \<Longrightarrow> manager_ok (m\<lparr>wm_env := e\<rparr>)"
  by (simp add: manager_ok_def)

lemma phase_handle:
  assumes "manager_ok m"
  shows "phase_step (phase_of m) Work (phase_of (wifi_event_handle lib m))"
  using assms
  by (cases rule: manager_okE)
    (auto simp: handle_in_state phase_same[OF check_same] phase_same[OF connect_same] phase_of_def[of m]
      intro: phase_step.intros split: wifi_event.split)

lemma phase_work:
  assumes "manager_ok m" and "wifi_step lib m m'"
  shows "phase_step (phase_of m) Work (phase_of m')"
proof -
  have q: "manager_ok (m\<lparr>wm_queue := q\<rparr>)" for q using assms(1) by (simp add: manager_ok_def)
  show ?thesis
    using assms(2)
    by (cases rule: wifi_step.cases)
      (use phase_handle[OF q] in \<open>auto simp: wifi_resume_def phase_same[OF action_same] phase_same[OF net_handle_same]
        intro: phase_stays split: option.splits\<close>)
qed

interpretation phases: simulation "manager_step lib" manager_ok phase_step phase_of
  for lib :: "('e, 'x) wifi_lib_scheme"
proof
  fix m m' :: "'e wifi_manager" and l
  assume s: "manager_step lib m l m'" and ok: "manager_ok m"
  show "manager_ok m'"
    using s ok by (cases rule: manager_step.cases) (auto intro: step_ok manager_ok_same manager_ok_env dest: net_same)
  show "phase_step (phase_of m) l (phase_of m')"
    using s ok
    by (cases rule: manager_step.cases) (auto dest!: net_same phase_same intro: phase_work phase_stays)
qed

text \<open>
  C34. Every run of the manager, work items, network events and changes of the surroundings in any order, is
  a run of the phases. So what the network says changes the phase only through the work queue, being online
  takes three work items at least, and a manager that has begun to join never goes back to
  waiting for the link.
\<close>

lemma phases_refined:
  assumes "runs (manager_step lib) (wifi_manager_init (zero_manager ssid psk e)) (ls @ ls') m'"
  shows "\<exists>m. runs (manager_step lib) (wifi_manager_init (zero_manager ssid psk e)) ls m \<and>
    runs phase_step Booting ls (phase_of m) \<and> runs phase_step (phase_of m) ls' (phase_of m') \<and>
    (phase_of m = Online \<longrightarrow> 3 \<le> length (filter (\<lambda>l. l = Work) ls)) \<and>
    (Joining \<le> phase_of m \<longrightarrow> Joining \<le> phase_of m')"
proof -
  let ?m0 = "wifi_manager_init (zero_manager ssid psk e)"
  obtain m where m: "runs (manager_step lib) ?m0 ls m" "runs (manager_step lib) m ls' m'"
    using assms by (auto simp: runs_append)
  have "phase_of ?m0 = Booting" by (simp add: phase_of_def wifi_manager_init_def zero_manager_def)
  with phases.sim_runs[OF m(1) manager_ok_init] have r: "runs phase_step Booting ls (phase_of m)" by simp
  have r': "runs phase_step (phase_of m) ls' (phase_of m')"
    by (rule phases.sim_runs[OF m(2) phases.inv_runs[OF m(1) manager_ok_init]])
  show ?thesis
    using m(1) r r' phase_runs_work[OF r] phase_runs_floor[OF r'] by (intro exI[of _ m]) (auto simp: min_def split: if_splits)
qed

end
