(* ===== verification/CredentialSettings.thy ===== *)
theory CredentialSettings
  imports SystemClient
begin

text \<open>
  \<^verbatim>\<open>samples/common/settings_golioth.c\<close>, the settings handler that keeps the pre-shared key and its
  identity, \<^verbatim>\<open>samples/common/hardcoded_credentials.c\<close>, and the handler for the WiFi credentials in
  \<^verbatim>\<open>samples/common/wifi.c\<close>.

  The credentials live in static buffers that the TLS credential store points into. A read function
  of the settings subsystem is a parameter: for the size of the buffer it gives its result and the
  bytes it has put at the start of the buffer. \<open>None\<close> is a read past the end of a buffer.
\<close>

section \<open>Strings in buffers\<close>

text \<open>What a read leaves in a buffer, and the string in a buffer.\<close>

definition read_into :: "u8 list \<Rightarrow> u8 list \<Rightarrow> u8 list" where
  "read_into bytes buf = bytes @ drop (length bytes) buf"

definition buf_string :: "u8 list \<Rightarrow> u8 list option" where
  "buf_string buf = (if 0 \<in> set buf then Some (takeWhile (\<lambda>c. c \<noteq> 0) buf) else None)"

text \<open>\<^verbatim>\<open>val_len > val_len_max\<close>, where the \<^verbatim>\<open>int\<close> is converted to \<^verbatim>\<open>size_t\<close>.\<close>

definition copy_value :: "u8 list \<Rightarrow> int \<Rightarrow> int \<times> u8 list" where
  "copy_value val val_len_max =
     (if length val > size_of_int val_len_max then (- ENOMEM, []) else (int (length val), val))"

section \<open>The key and its identity\<close>

record golioth_creds =
  golioth_dtls_psk :: "u8 list"
  golioth_dtls_psk_len :: nat
  golioth_dtls_psk_id :: "u8 list"
  golioth_dtls_psk_id_len :: nat

record 'e cred_lib = "'e system_lib" +
  tls_credential_delete :: "int \<Rightarrow> cred_type \<Rightarrow> 'e \<Rightarrow> int \<times> 'e"

definition golioth_settings_get :: "u8 list \<Rightarrow> int \<Rightarrow> golioth_creds \<Rightarrow> (int \<times> u8 list) option" where
  "golioth_settings_get name val_len_max c =
     (if name = ascii ''psk'' then map_option (\<lambda>v. copy_value v val_len_max) (buf_string (golioth_dtls_psk c))
      else if name = ascii ''psk-id'' then map_option (\<lambda>v. copy_value v val_len_max) (buf_string (golioth_dtls_psk_id c))
      else Some (- ENOENT, []))"

text \<open>
  What follows the choice of the buffer: \<open>value\<close> is its content, and the result has the content
  and the length after the call (\<open>None\<close> if the length is not assigned).
\<close>

definition store_credential ::
  "('e, 'x) cred_lib_scheme \<Rightarrow> ('s) system_conf_scheme \<Rightarrow> bool \<Rightarrow> cred_type \<Rightarrow> (nat \<Rightarrow> int \<times> u8 list)
     \<Rightarrow> u8 list \<Rightarrow> 'e system \<Rightarrow> int \<times> u8 list \<times> nat option \<times> 'e system" where
  "store_credential lib sc runtime type read_cb val s =
     (case (if runtime then env_read (tls_credential_delete lib (sconf_tag sc) type) (sy_world s) else (0, sy_world s)) of
        (err, w) \<Rightarrow>
          let s1 = s\<lparr>sy_world := w\<rparr>
          in if err \<noteq> 0 \<and> err \<noteq> - ENOENT then (err, val, None, s1)
             else
               (case read_cb (length val) of
                  (ret, bytes) \<Rightarrow>
                    let val1 = read_into bytes val
                    in if ret < 0 then (ret, val1, None, s1)
                       else if ret \<ge> int (length val) then (- ENOMEM, val1, None, s1)
                       else
                         (case env_read (tls_credential_add lib (sconf_tag sc) type (take (nat ret) val1)) (sy_world s1) of
                            (err2, w2) \<Rightarrow>
                              let s2 = s1\<lparr>sy_world := w2\<rparr>
                              in if err2 \<noteq> 0 then (err2, val1, Some (nat ret), s2)
                                 else (0, val1, Some (nat ret), golioth_system_client_request_reconnect s2))))"

definition golioth_settings_set ::
  "('e, 'x) cred_lib_scheme \<Rightarrow> ('s) system_conf_scheme \<Rightarrow> bool \<Rightarrow> u8 list \<Rightarrow> (nat \<Rightarrow> int \<times> u8 list)
     \<Rightarrow> golioth_creds \<times> 'e system \<Rightarrow> int \<times> golioth_creds \<times> 'e system" where
  "golioth_settings_set lib sc runtime name read_cb cs =
     (case cs of (c, s) \<Rightarrow>
        if name = ascii ''psk'' then
          (case store_credential lib sc runtime TLS_CREDENTIAL_PSK read_cb (golioth_dtls_psk c) s of
             (err, v, n, s1) \<Rightarrow>
               (err, c\<lparr>golioth_dtls_psk := v, golioth_dtls_psk_len := (case n of Some k \<Rightarrow> k | None \<Rightarrow> golioth_dtls_psk_len c)\<rparr>, s1))
        else if name = ascii ''psk-id'' then
          (case store_credential lib sc runtime TLS_CREDENTIAL_PSK_ID read_cb (golioth_dtls_psk_id c) s of
             (err, v, n, s1) \<Rightarrow>
               (err, c\<lparr>golioth_dtls_psk_id := v, golioth_dtls_psk_id_len := (case n of Some k \<Rightarrow> k | None \<Rightarrow> golioth_dtls_psk_id_len c)\<rparr>, s1))
        else (- ENOTSUP, c, s))"

section \<open>Credentials of the build\<close>

text \<open>Errors are only logged.\<close>

definition hardcoded_credentials_init ::
  "('e, 'x) system_lib_scheme \<Rightarrow> ('s) system_conf_scheme \<Rightarrow> u8 list \<Rightarrow> u8 list \<Rightarrow> u8 list \<Rightarrow> u8 list
     \<Rightarrow> 'e \<Rightarrow> int \<times> 'e" where
  "hardcoded_credentials_init lib sc tls_client_crt tls_client_key psk psk_id e =
     (let add = (\<lambda>type data e. snd (tls_credential_add lib (sconf_tag sc) type data e))
      in (0, if sconf_auth sc = AUTH_CERT
             then add TLS_CREDENTIAL_PRIVATE_KEY tls_client_key (add TLS_CREDENTIAL_SERVER_CERTIFICATE tls_client_crt e)
             else if sconf_auth sc = AUTH_PSK
             then add TLS_CREDENTIAL_PSK_ID psk_id (add TLS_CREDENTIAL_PSK psk e)
             else e))"

section \<open>WiFi credentials\<close>

record wifi_creds =
  wc_ssid :: "u8 list"
  wc_ssid_len :: nat
  wc_wifi_psk :: "u8 list"
  wc_wifi_psk_len :: nat

definition wifi_settings_get :: "u8 list \<Rightarrow> int \<Rightarrow> wifi_creds \<Rightarrow> int \<times> u8 list" where
  "wifi_settings_get name val_len_max c =
     (if name = ascii ''ssid'' then copy_value (take (wc_ssid_len c) (wc_ssid c)) val_len_max
      else if name = ascii ''psk'' then copy_value (take (wc_wifi_psk_len c) (wc_wifi_psk c)) val_len_max
      else (- ENOENT, []))"

definition wifi_settings_set :: "u8 list \<Rightarrow> (nat \<Rightarrow> int \<times> u8 list) \<Rightarrow> wifi_creds \<Rightarrow> int \<times> wifi_creds" where
  "wifi_settings_set name read_cb c =
     (if name = ascii ''ssid'' then
        (case read_cb (length (wc_ssid c)) of
           (ret, bytes) \<Rightarrow>
             let c1 = c\<lparr>wc_ssid := read_into bytes (wc_ssid c)\<rparr>
             in if ret < 0 then (ret, c1) else (0, c1\<lparr>wc_ssid_len := nat ret\<rparr>))
      else if name = ascii ''psk'' then
        (case read_cb (length (wc_wifi_psk c)) of
           (ret, bytes) \<Rightarrow>
             let c1 = c\<lparr>wc_wifi_psk := read_into bytes (wc_wifi_psk c)\<rparr>
             in if ret < 0 then (ret, c1) else (0, c1\<lparr>wc_wifi_psk_len := nat ret\<rparr>))
      else (- ENOENT, c))"

section \<open>What was set is what one gets\<close>

lemma copy_value_full: "length v < 2 ^ 31 \<Longrightarrow> copy_value v (int (length v)) = (int (length v), v)"
  by (simp add: copy_value_def size_of_int_def)

lemma wifi_set_get:
  assumes "wifi_settings_set name read_cb c = (0, c')"
    and "\<And>n. read_cb n = (int (length v), v)" and "length v < 2 ^ 31"
  shows "wifi_settings_get name (int (length v)) c' = (int (length v), v)"
  using assms copy_value_full[OF assms(3)]
  by (auto simp: wifi_settings_set_def wifi_settings_get_def read_into_def Let_def split: if_splits)

definition cred_buffer :: "u8 list \<Rightarrow> golioth_creds \<Rightarrow> u8 list" where
  "cred_buffer name c = (if name = ascii ''psk'' then golioth_dtls_psk c else golioth_dtls_psk_id c)"

definition cred_type_of :: "u8 list \<Rightarrow> cred_type" where
  "cred_type_of name = (if name = ascii ''psk'' then TLS_CREDENTIAL_PSK else TLS_CREDENTIAL_PSK_ID)"

lemma psk_names: "ascii ''psk'' \<noteq> ascii ''psk-id''"
  by (simp add: ascii_def)

lemma settings_set_cases:
  assumes "name \<in> {ascii ''psk'', ascii ''psk-id''}"
    and "golioth_settings_set lib sc runtime name read_cb (c, s) = (err, c', s')"
  obtains v n where "store_credential lib sc runtime (cred_type_of name) read_cb (cred_buffer name c) s = (err, v, n, s')"
    and "cred_buffer name c' = v"
  using assms psk_names
  by (auto simp: golioth_settings_set_def cred_buffer_def cred_type_of_def split: prod.splits if_splits)

lemma settings_get_buffer:
  "name \<in> {ascii ''psk'', ascii ''psk-id''} \<Longrightarrow>
     golioth_settings_get name n c = map_option (\<lambda>v. copy_value v n) (buf_string (cred_buffer name c))"
  using psk_names by (auto simp: golioth_settings_get_def cred_buffer_def)

lemma store_credential_ok:
  assumes "store_credential lib sc runtime ty read_cb val s = (0, val', n, s')"
    and "read_cb (length val) = (int (length v), v)"
  shows "length v < length val \<and> val' = read_into v val \<and> n = Some (length v) \<and> sy_reconnect s' \<and>
    (\<exists>e. tls_credential_add lib (sconf_tag sc) ty v e = (0, w_env (sy_world s')))"
  using assms
  by (auto simp: store_credential_def Let_def golioth_system_client_request_reconnect_def env_read_def read_into_def
      split: prod.splits if_splits)

text \<open>
  C38. A key that is set without an error fits its buffer, is what the credential store was given, and
  the client is asked to connect again with it. What one gets back, however, is the key followed by
  the rest of the string that was in the buffer before: the key itself only when it is not shorter.
\<close>

lemma credential_set_get:
  assumes "name \<in> {ascii ''psk'', ascii ''psk-id''}"
    and "golioth_settings_set lib sc runtime name read_cb (c, s) = (0, c', s')"
    and "read_cb (length (cred_buffer name c)) = (int (length v), v)" and "0 \<notin> set v"
    and "last (cred_buffer name c) = 0"
  shows "length v < length (cred_buffer name c) \<and> sy_reconnect s' \<and>
    (\<exists>e. tls_credential_add lib (sconf_tag sc) (cred_type_of name) v e = (0, w_env (sy_world s'))) \<and>
    golioth_settings_get name n c' =
      Some (copy_value (v @ takeWhile (\<lambda>c. c \<noteq> 0) (drop (length v) (cred_buffer name c))) n)"
proof -
  obtain val k where st: "store_credential lib sc runtime (cred_type_of name) read_cb (cred_buffer name c) s = (0, val, k, s')"
    and v: "cred_buffer name c' = val" by (rule settings_set_cases[OF assms(1,2)])
  from store_credential_ok[OF st assms(3)] have
    r: "length v < length (cred_buffer name c)" "val = read_into v (cred_buffer name c)" "sy_reconnect s'"
    "\<exists>e. tls_credential_add lib (sconf_tag sc) (cred_type_of name) v e = (0, w_env (sy_world s'))" by blast+
  have "last (drop (length v) (cred_buffer name c)) = 0" using assms(5) r(1) by (simp add: last_drop)
  moreover have "drop (length v) (cred_buffer name c) \<noteq> []" using r(1) by simp
  ultimately have "0 \<in> set (drop (length v) (cred_buffer name c))" using last_in_set by metis
  moreover have "takeWhile (\<lambda>c. c \<noteq> 0) (v @ xs) = v @ takeWhile (\<lambda>c. c \<noteq> 0) xs" for xs
    using assms(4) by (intro takeWhile_append2) auto
  ultimately have "buf_string val = Some (v @ takeWhile (\<lambda>c. c \<noteq> 0) (drop (length v) (cred_buffer name c)))"
    by (simp add: r(2) read_into_def buf_string_def)
  with r v show ?thesis by (simp add: settings_get_buffer[OF assms(1)])
qed

end
