(* ===== verification/Flash.thy ===== *)
theory Flash
  imports Prelude
begin

text \<open>
  \<^verbatim>\<open>samples/dfu/src/flash.c\<close>: the version of the running image, and preparing the flash area that a
  new image is written to.

  MCUboot and the flash drivers are a parameter, on a device state of any type.
\<close>

text \<open>
  \<open>flash_area_read\<close> takes an address and a number of bytes; \<open>boot_read_bank_header\<close> gives the
  major and minor version and the revision.
\<close>

record 'f flash_lib =
  fa_size :: nat
  flash_area_erased_val :: u8
  flash_area_read :: "nat \<Rightarrow> nat \<Rightarrow> 'f \<Rightarrow> int \<times> u8 list \<times> 'f"
  flash_area_erase :: "nat \<Rightarrow> nat \<Rightarrow> 'f \<Rightarrow> int \<times> 'f"
  flash_area_close :: "'f \<Rightarrow> 'f"
  flash_img_init :: "'f \<Rightarrow> int \<times> 'f"
  flash_img_buffered_write :: "u8 list \<Rightarrow> bool \<Rightarrow> 'f \<Rightarrow> int \<times> 'f"
  mcuboot_swap_type :: "'f \<Rightarrow> int \<times> 'f"
  boot_read_bank_header :: "'f \<Rightarrow> int \<times> (u8 \<times> u8 \<times> u16) \<times> 'f"
  boot_is_img_confirmed :: "'f \<Rightarrow> bool"
  boot_write_img_confirmed :: "'f \<Rightarrow> int \<times> 'f"
  boot_request_upgrade :: "'f \<Rightarrow> int \<times> 'f"

abbreviation (input) BOOT_SWAP_TYPE_REVERT :: int where "BOOT_SWAP_TYPE_REVERT \<equiv> 4"

section \<open>The running version\<close>

text \<open>The size of the buffer is \<^verbatim>\<open>sizeof("255.255.65535")\<close>; the string is the result.\<close>

definition current_version_init :: "('f, 'x) flash_lib_scheme \<Rightarrow> u8 list \<Rightarrow> 'f \<Rightarrow> int \<times> u8 list \<times> 'f" where
  "current_version_init fl current_version_str f =
     (case boot_read_bank_header fl f of
        (err, (major, minor, revision), f1) \<Rightarrow>
          if err \<noteq> 0 then (err, current_version_str, f1)
          else
            let str = print_u (unat major) @ [0x2E] @ print_u (unat minor) @ [0x2E] @ print_u (unat revision)
            in if length str \<ge> 14 then (- ENOMEM, [], f1) else (0, str, f1))"

section \<open>Preparing the area\<close>

definition ERASED_VAL_32 :: "u8 \<Rightarrow> u32" where
  "ERASED_VAL_32 x = push_bit 24 (ucast x) OR push_bit 16 (ucast x) OR push_bit 8 (ucast x) OR ucast x"

text \<open>\<^verbatim>\<open>data[i]\<close> of an array of \<^verbatim>\<open>uint32_t\<close>, on a little-endian target.\<close>

definition word_at :: "u8 list \<Rightarrow> nat \<Rightarrow> u32" where
  "word_at data i = ucast (data ! (4 * i)) OR push_bit 8 (ucast (data ! (4 * i + 1))) OR
     push_bit 16 (ucast (data ! (4 * i + 2))) OR push_bit 24 (ucast (data ! (4 * i + 3)))"

text \<open>The loop over the area. \<open>None\<close> for \<^verbatim>\<open>*out_empty\<close> is not assigned.\<close>

function check_empty_loop ::
  "('f, 'x) flash_lib_scheme \<Rightarrow> nat \<Rightarrow> 'f \<Rightarrow> int \<times> bool option \<times> 'f" where
  "check_empty_loop fl addr f =
     (if addr < fa_size fl then
        let bytes_to_read = (if fa_size fl - addr < 64 then fa_size fl - addr else 64)
        in case flash_area_read fl addr bytes_to_read f of
             (rc, data, f1) \<Rightarrow>
               if rc \<noteq> 0 then (rc, None, flash_area_close fl f1)
               else if \<exists>i\<in>set [0..<bytes_to_read div 4]. word_at data i \<noteq> ERASED_VAL_32 (flash_area_erased_val fl)
               then (0, Some False, flash_area_close fl f1)
               else check_empty_loop fl (addr + 64) f1
      else (0, Some True, f))"
  by pat_completeness auto
termination
  by (relation "measure (\<lambda>(fl, addr, f). fa_size fl - addr)") auto

declare check_empty_loop.simps [simp del]

definition flash_area_check_empty :: "('f, 'x) flash_lib_scheme \<Rightarrow> 'f \<Rightarrow> int \<times> bool option \<times> 'f" where
  "flash_area_check_empty fl f = check_empty_loop fl 0 f"

definition flash_img_erase_if_needed :: "('f, 'x) flash_lib_scheme \<Rightarrow> bool \<Rightarrow> 'f \<Rightarrow> int \<times> 'f" where
  "flash_img_erase_if_needed fl progressively f =
     (if progressively then (0, f)
      else
        (case flash_area_check_empty fl f of
           (err, out_empty, f1) \<Rightarrow>
             if err \<noteq> 0 then (err, f1)
             else if out_empty = Some True then (0, f1)
             else flash_area_erase fl 0 (fa_size fl) f1))"

definition flash_img_prepare :: "('f, 'x) flash_lib_scheme \<Rightarrow> bool \<Rightarrow> 'f \<Rightarrow> int \<times> 'f" where
  "flash_img_prepare fl progressively f =
     (case mcuboot_swap_type fl f of
        (swap_type, f1) \<Rightarrow>
          if swap_type = BOOT_SWAP_TYPE_REVERT then (- EBUSY, f1)
          else err_then (flash_img_init fl f1) (flash_img_erase_if_needed fl progressively))"

section \<open>The version fits its buffer\<close>

lemma print_u8_length: "length (print_u (unat (x :: u8))) \<le> 3"
  using print_u_length[of "unat x" 2] unsigned_less[of x, where 'a = nat] by simp

lemma print_u16_length: "length (print_u (unat (x :: u16))) \<le> 5"
  using print_u_length[of "unat x" 4] unsigned_less[of x, where 'a = nat] by simp

text \<open>The branch for a version that is too long is never taken.\<close>

lemma current_version_fits:
  "current_version_init fl str f =
     (case boot_read_bank_header fl f of
        (err, (major, minor, revision), f1) \<Rightarrow>
          if err \<noteq> 0 then (err, str, f1)
          else (0, print_u (unat major) @ [0x2E] @ print_u (unat minor) @ [0x2E] @ print_u (unat revision), f1))"
proof -
  have "\<not> 14 \<le> length (print_u (unat major) @ [0x2E] @ print_u (unat minor) @ [0x2E] @ print_u (unat revision))"
    for major minor :: u8 and revision :: u16
    using print_u8_length[of major] print_u8_length[of minor] print_u16_length[of revision] by simp
  then show ?thesis by (simp add: current_version_init_def Let_def split: prod.split del: length_append not_le)
qed

section \<open>The area is found empty exactly when it is\<close>

definition le32 :: "u8 \<Rightarrow> u8 \<Rightarrow> u8 \<Rightarrow> u8 \<Rightarrow> u32" where
  "le32 a b c d = ucast a OR push_bit 8 (ucast b) OR push_bit 16 (ucast c) OR push_bit 24 (ucast d)"

lemma le32_bytes:
  "ucast (le32 a b c d) = a" "ucast (drop_bit 8 (le32 a b c d)) = b" "ucast (drop_bit 16 (le32 a b c d)) = c"
  "ucast (drop_bit 24 (le32 a b c d)) = d"
  unfolding le32_def by (rule bit_word_eqI; auto simp: bit_simps dest: bit_imp_le_length)+

lemma le32_inject: "le32 a b c d = le32 a' b' c' d' \<longleftrightarrow> a = a' \<and> b = b' \<and> c = c' \<and> d = d'"
proof
  assume h: "le32 a b c d = le32 a' b' c' d'"
  show "a = a' \<and> b = b' \<and> c = c' \<and> d = d'"
    using le32_bytes[of a b c d, unfolded h le32_bytes] by simp
qed simp

lemma word_eq_erased:
  "word_at data i = ERASED_VAL_32 x \<longleftrightarrow>
     data ! (4 * i) = x \<and> data ! (4 * i + 1) = x \<and> data ! (4 * i + 2) = x \<and> data ! (4 * i + 3) = x"
proof -
  have "ERASED_VAL_32 x = le32 x x x x" by (simp add: ERASED_VAL_32_def le32_def or.commute or.left_commute or.assoc)
  moreover have "word_at data i = le32 (data ! (4 * i)) (data ! (4 * i + 1)) (data ! (4 * i + 2)) (data ! (4 * i + 3))"
    by (simp add: word_at_def le32_def or.assoc)
  ultimately show ?thesis by (simp only: le32_inject)
qed

text \<open>The words of a run of bytes are all erased exactly when the bytes are.\<close>

lemma words_erased:
  assumes "4 dvd length data"
  shows "(\<forall>i<length data div 4. word_at data i = ERASED_VAL_32 x) \<longleftrightarrow> (\<forall>b\<in>set data. b = x)"
proof
  assume all: "\<forall>i<length data div 4. word_at data i = ERASED_VAL_32 x"
  show "\<forall>b\<in>set data. b = x"
  proof
    fix b assume "b \<in> set data"
    then obtain j where j: "j < length data" "b = data ! j" by (metis in_set_conv_nth)
    then have "j div 4 < length data div 4" using assms by (auto elim!: dvdE)
    with all have w: "data ! (4 * (j div 4)) = x" "data ! (4 * (j div 4) + 1) = x"
      "data ! (4 * (j div 4) + 2) = x" "data ! (4 * (j div 4) + 3) = x"
      using word_eq_erased by blast+
    have "j = 4 * (j div 4) + j mod 4" by simp
    moreover have "j mod 4 = 0 \<or> j mod 4 = 1 \<or> j mod 4 = 2 \<or> j mod 4 = 3" by auto
    ultimately have "j = 4 * (j div 4) \<or> j = 4 * (j div 4) + 1 \<or> j = 4 * (j div 4) + 2 \<or> j = 4 * (j div 4) + 3" by linarith
    with w show "b = x" unfolding j(2) by metis
  qed
next
  assume all: "\<forall>b\<in>set data. b = x"
  have "data ! (4 * i + k) = x" if "i < length data div 4" "k < 4" for i k
  proof -
    have "4 * i + k < length data" using that by linarith
    with all show ?thesis by simp
  qed
  from this[where k = 0] this[where k = 1] this[where k = 2] this[where k = 3]
  show "\<forall>i<length data div 4. word_at data i = ERASED_VAL_32 x" by (simp add: word_eq_erased)
qed

text \<open>A flash device that can be read: \<open>mem\<close> is the content of the area.\<close>

definition flash_reads :: "('f, 'x) flash_lib_scheme \<Rightarrow> ('f \<Rightarrow> u8 list) \<Rightarrow> bool" where
  "flash_reads fl mem \<longleftrightarrow> (\<forall>f. length (mem f) = fa_size fl) \<and>
     (\<forall>addr n f. addr + n \<le> fa_size fl \<longrightarrow>
        (\<exists>f'. flash_area_read fl addr n f = (0, take n (drop addr (mem f)), f') \<and> mem f' = mem f))"

lemma check_empty_loop_iff:
  assumes "flash_reads fl mem" and "4 dvd fa_size fl" and "4 dvd addr"
  shows "\<exists>f'. check_empty_loop fl addr f =
      (0, Some (\<forall>b\<in>set (drop addr (mem f)). b = flash_area_erased_val fl), f') \<and>
    ((\<forall>b\<in>set (drop addr (mem f)). b = flash_area_erased_val fl) \<longrightarrow> mem f' = mem f)"
  using assms(3)
proof (induction "fa_size fl - addr" arbitrary: addr f rule: less_induct)
  case less
  show ?case
  proof (cases "addr < fa_size fl")
    case False
    have "length (mem f) = fa_size fl" using assms(1) by (simp add: flash_reads_def)
    with False show ?thesis by (subst check_empty_loop.simps) simp
  next
    case True
    define n where "n = (if fa_size fl - addr < 64 then fa_size fl - addr else 64)"
    define data where "data = take n (drop addr (mem f))"
    obtain f1 where r: "flash_area_read fl addr n f = (0, data, f1)" "mem f1 = mem f"
      using assms(1) True that unfolding flash_reads_def data_def
      by (metis (no_types, lifting) n_def le_add_diff_inverse less_imp_le nat_add_left_cancel_le not_less)
    have len: "length (mem f) = fa_size fl" using assms(1) by (simp add: flash_reads_def)
    then have dn: "length data = n" by (auto simp: data_def n_def)
    have "4 dvd n" using assms(2) less.prems by (simp add: n_def)
    then have words: "(\<exists>i\<in>set [0..<n div 4]. word_at data i \<noteq> ERASED_VAL_32 (flash_area_erased_val fl)) \<longleftrightarrow>
        \<not> (\<forall>b\<in>set data. b = flash_area_erased_val fl)"
      using words_erased[of data "flash_area_erased_val fl"] dn by auto
    have split: "set (drop addr (mem f)) = set data \<union> set (drop (addr + n) (mem f))"
      unfolding data_def by (metis append_take_drop_id drop_drop add.commute set_append)
    have rest: "drop (addr + 64) (mem f) = drop (addr + n) (mem f)" using len by (simp add: n_def)
    have IH: "\<exists>f'. check_empty_loop fl (addr + 64) f1 =
        (0, Some (\<forall>b\<in>set (drop (addr + n) (mem f)). b = flash_area_erased_val fl), f') \<and>
        ((\<forall>b\<in>set (drop (addr + n) (mem f)). b = flash_area_erased_val fl) \<longrightarrow> mem f' = mem f)"
      using less.hyps[of "addr + 64" f1] less.prems True r(2) rest by simp
    show ?thesis
      using True r(1) words split IH by (subst check_empty_loop.simps) (auto simp: n_def[symmetric] Let_def)
  qed
qed

text \<open>
  The area is reported as empty exactly when every byte of it has the value of erased flash, for
  areas of any size that is a multiple of four (which the code asserts).
\<close>

lemma check_empty_iff:
  assumes "flash_reads fl mem" and "4 dvd fa_size fl"
  shows "\<exists>f'. flash_area_check_empty fl f = (0, Some (\<forall>b\<in>set (mem f). b = flash_area_erased_val fl), f') \<and>
    ((\<forall>b\<in>set (mem f). b = flash_area_erased_val fl) \<longrightarrow> mem f' = mem f)"
  using check_empty_loop_iff[OF assms, of 0 f] by (simp add: flash_area_check_empty_def)


end
