(* ===== verification/Dfu.thy ===== *)
theory Dfu
  imports Flash SystemClient
begin

text \<open>
  \<^verbatim>\<open>samples/dfu/src/main.c\<close>: the firmware update sample, an application of the SDK. It observes the
  desired firmware, downloads it block by block into flash and reports each stage.

  Its static data (\<^verbatim>\<open>update_ctx\<close>, the semaphores, \<^verbatim>\<open>dfu_initial_result\<close>) is in the environment of
  the world. Its callbacks are the fields of \<open>dfu_app\<close>, the application the SDK's components are
  given; the main thread is cut at its semaphores.
\<close>

section \<open>Data\<close>

text \<open>\<^verbatim>\<open>char version[65]\<close> is a function on its indices; \<open>array_bytes\<close> are its bytes.\<close>

definition array_bytes :: "(nat \<Rightarrow> u8) \<Rightarrow> u8 list" where
  "array_bytes v = map v [0..<65]"

definition bytes_array :: "u8 list \<Rightarrow> nat \<Rightarrow> u8" where
  "bytes_array bs i = (if i < length bs then bs ! i else 0)"

record 'f dfu_env =
  dfu_flash :: 'f
  dfu_version :: "nat \<Rightarrow> u8"
  dfu_downloading_started :: bool
  dfu_initial_result :: nat
  sem_connected :: nat
  sem_downloading :: nat
  sem_downloaded :: nat

abbreviation (input) GOLIOTH_DFU_RESULT_INITIAL :: nat where "GOLIOTH_DFU_RESULT_INITIAL \<equiv> 0"
abbreviation (input) GOLIOTH_DFU_RESULT_FIRMWARE_UPDATED_SUCCESSFULLY :: nat
  where "GOLIOTH_DFU_RESULT_FIRMWARE_UPDATED_SUCCESSFULLY \<equiv> 1"
abbreviation (input) GOLIOTH_FW_STATE_IDLE :: nat where "GOLIOTH_FW_STATE_IDLE \<equiv> 0"
abbreviation (input) GOLIOTH_FW_STATE_DOWNLOADING :: nat where "GOLIOTH_FW_STATE_DOWNLOADING \<equiv> 1"
abbreviation (input) GOLIOTH_FW_STATE_DOWNLOADED :: nat where "GOLIOTH_FW_STATE_DOWNLOADED \<equiv> 2"
abbreviation (input) GOLIOTH_FW_STATE_UPDATING :: nat where "GOLIOTH_FW_STATE_UPDATING \<equiv> 3"

text \<open>\<open>uri0\<close> is what the uninitialised array \<^verbatim>\<open>uri\<close> holds; \<open>cur\<close> the string \<^verbatim>\<open>current_version_str\<close>.\<close>

record dfu_conf =
  dconf_erase_progressively :: bool
  dconf_uri0 :: "u8 list"
  dconf_current_version :: "u8 list"

type_synonym ('f, 'z) dfu_world = "('f, 'z) dfu_env_scheme world"

definition on_flash :: "('f \<Rightarrow> int \<times> 'f) \<Rightarrow> ('f, 'z) dfu_world \<Rightarrow> int \<times> ('f, 'z) dfu_world" where
  "on_flash f_op w =
     (case f_op (dfu_flash (w_env w)) of (err, f) \<Rightarrow> (err, upd_env (\<lambda>s. s\<lparr>dfu_flash := f\<rparr>) w))"

section \<open>Callbacks\<close>

definition data_received ::
  "('f, 'x) flash_lib_scheme \<Rightarrow> ('d) dfu_conf_scheme \<Rightarrow> (ptr \<Rightarrow> int \<Rightarrow> ('f, 'z) dfu_world \<Rightarrow> int \<times> ('f, 'z) dfu_world)
     \<Rightarrow> golioth_req_rsp \<Rightarrow> ('f, 'z) dfu_world \<Rightarrow> int \<times> ('f, 'z) dfu_world" where
  "data_received fl dc get_next rsp w =
     (let last = (rsp_get_next rsp = None)
      in if rsp_err rsp \<noteq> 0 then (0, w)
         else
           err_then (err_then (if rsp_off rsp = 0 then on_flash (flash_img_prepare fl (dconf_erase_progressively dc)) w
                               else (0, w))
                       (on_flash (flash_img_buffered_write fl (rsp_data rsp) last)))
             (\<lambda>w. let w1 = (if last then upd_env (\<lambda>s. s\<lparr>sem_downloaded := 1\<rparr>) w else w)
                  in (0, if rsp_get_next rsp \<noteq> None
                         then (case rsp_get_next_data rsp of Some r \<Rightarrow> snd (get_next r 0 w1) | None \<Rightarrow> fault w1)
                         else w1)))"

definition uri_strip_leading_slash :: "u8 list \<Rightarrow> nat \<Rightarrow> u8 list \<times> nat" where
  "uri_strip_leading_slash uri uri_len =
     (if uri_len > 0 \<and> uri ! 0 = 0x2F then (drop 1 uri, uri_len - 1) else (uri, uri_len))"

text \<open>
  The parser is given the first 64 bytes of \<^verbatim>\<open>version\<close> and the 64 bytes of \<^verbatim>\<open>uri\<close>. A terminator that
  does not fit the array would be a fault.
\<close>

definition golioth_desired_update ::
  "(('f, 'z) dfu_env_scheme, 'x) sys_scheme \<Rightarrow> ('l) zcbor_lib_scheme \<Rightarrow> ('d) dfu_conf_scheme \<Rightarrow> golioth_req_rsp
     \<Rightarrow> ('f, 'z) dfu_world \<Rightarrow> int \<times> ('f, 'z) dfu_world" where
  "golioth_desired_update sys lib dc rsp w =
     (if rsp_err rsp \<noteq> 0 then (0, w)
      else if dfu_downloading_started (w_env w) then (0, w)
      else
        (case golioth_fw_desired_parse lib (rsp_data rsp)
                \<lparr>tv_value = take 64 (array_bytes (dfu_version (w_env w))), tv_value_len = 64\<rparr>
                \<lparr>tv_value = dconf_uri0 dc, tv_value_len = 64\<rparr> of
           None \<Rightarrow> (0, fault w)
         | Some (err, version, uri) \<Rightarrow>
             let buf = tv_value version @ drop 64 (array_bytes (dfu_version (w_env w)));
                 w1 = upd_env (\<lambda>s. s\<lparr>dfu_version := bytes_array buf\<rparr>) w
             in if err = - ENOENT then (0, w1)
                else if err \<noteq> 0 then (err, w1)
                else if length buf \<le> tv_value_len version then (0, fault w1)
                else
                  let w2 = upd_env (\<lambda>s. s\<lparr>dfu_version := bytes_array (buf[tv_value_len version := 0])\<rparr>) w1
                  in if tv_value_len version = length (dconf_current_version dc) \<and>
                        take (tv_value_len version) buf = dconf_current_version dc
                     then (- EALREADY, w2)
                     else
                       (case uri_strip_leading_slash (tv_value uri) (tv_value_len uri) of
                          (uri_p, uri_len) \<Rightarrow>
                            golioth_fw_download sys uri_p uri_len (Some (App_cb 1)) (UD_app 0)
                              (upd_env (\<lambda>s. s\<lparr>sem_downloading := 1, dfu_downloading_started := True\<rparr>) w2))))"

definition golioth_on_connect ::
  "(('f, 'z) dfu_env_scheme, 'x) sys_scheme \<Rightarrow> ('f, 'z) dfu_world \<Rightarrow> ('f, 'z) dfu_world" where
  "golioth_on_connect sys w =
     snd (golioth_fw_observe_desired sys (Some (App_cb 0)) (UD_app 0) (upd_env (\<lambda>s. s\<lparr>sem_connected := 1\<rparr>) w))"

definition dfu_app ::
  "(('f, 'z) dfu_env_scheme, 'x) sys_scheme \<Rightarrow> ('f, 'y) flash_lib_scheme \<Rightarrow> ('l) zcbor_lib_scheme \<Rightarrow> ('d) dfu_conf_scheme
     \<Rightarrow> ('f, 'z) dfu_env_scheme app" where
  "dfu_app sys fl lib dc = \<lparr>
     app_cb = (\<lambda>i get_next rsp w. if i = 0 then golioth_desired_update sys lib dc rsp w
                                  else data_received fl dc get_next rsp w),
     app_setting = (\<lambda>i key v w. (0, w)), app_rpc = (\<lambda>i st enc a w. (0, enc, w)),
     app_on_connect = (\<lambda>i w. golioth_on_connect sys w)\<rparr>"

section \<open>The main thread\<close>

text \<open>Up to \<^verbatim>\<open>net_connect\<close>. Errors are logged.\<close>

definition dfu_main_start :: "('f, 'x) flash_lib_scheme \<Rightarrow> ('f, 'z) dfu_world \<Rightarrow> ('f, 'z) dfu_world" where
  "dfu_main_start fl w =
     (if \<not> boot_is_img_confirmed fl (dfu_flash (w_env w))
      then snd (on_flash (boot_write_img_confirmed fl)
             (upd_env (\<lambda>s. s\<lparr>dfu_initial_result := GOLIOTH_DFU_RESULT_FIRMWARE_UPDATED_SUCCESSFULLY\<rparr>) w))
      else w)"

definition report ::
  "(('f, 'z) dfu_env_scheme, 'x) sys_scheme \<Rightarrow> ('l) zcbor_lib_scheme \<Rightarrow> (('f, 'z) dfu_world \<Rightarrow> ('f, 'z) dfu_world) \<Rightarrow> ptr
     \<Rightarrow> ('d) dfu_conf_scheme \<Rightarrow> bool \<Rightarrow> nat \<Rightarrow> nat \<Rightarrow> ('f, 'z) dfu_world \<Rightarrow> ('f, 'z) dfu_world option" where
  "report sys lib wait p dc with_target state res w =
     map_option snd (golioth_fw_report_state sys lib wait p (ascii ''main'') (Some (dconf_current_version dc))
       (if with_target then Some (takeWhile (\<lambda>c. c \<noteq> 0) (array_bytes (dfu_version (w_env w)))) else None) state res w)"

text \<open>After \<^verbatim>\<open>k_sem_take(&sem_connected)\<close>; \<open>None\<close> is a thread that is blocked.\<close>

definition dfu_main_connected where
  "dfu_main_connected sys lib wait p dc w =
     (if sem_connected (w_env w) = 0 then None
      else report sys lib wait p dc False GOLIOTH_FW_STATE_IDLE (dfu_initial_result (w_env w))
             (upd_env (\<lambda>s. s\<lparr>sem_connected := 0\<rparr>) w))"

definition dfu_main_downloading where
  "dfu_main_downloading sys lib wait p dc w =
     (if sem_downloading (w_env w) = 0 then None
      else report sys lib wait p dc True GOLIOTH_FW_STATE_DOWNLOADING GOLIOTH_DFU_RESULT_INITIAL
             (upd_env (\<lambda>s. s\<lparr>sem_downloading := 0\<rparr>) w))"

text \<open>The result of \<^verbatim>\<open>main\<close>, with whether the device reboots.\<close>

definition dfu_main_downloaded where
  "dfu_main_downloaded sys lib fl wait p dc w =
     (if sem_downloaded (w_env w) = 0 then None
      else
        Option.bind (report sys lib wait p dc True GOLIOTH_FW_STATE_DOWNLOADED GOLIOTH_DFU_RESULT_INITIAL
                       (upd_env (\<lambda>s. s\<lparr>sem_downloaded := 0\<rparr>) w))
          (\<lambda>w1. Option.bind (report sys lib wait p dc True GOLIOTH_FW_STATE_UPDATING GOLIOTH_DFU_RESULT_INITIAL w1)
             (\<lambda>w2. case on_flash (boot_request_upgrade fl) w2 of
                     (err, w3) \<Rightarrow> Some (if err \<noteq> 0 then (err, False, w3) else (0, True, w3)))))"

section \<open>The sample is a lawful application\<close>

text \<open>
  The URIs of manifests are text that is not only slashes. Without this the SDK reads past the
  array (see \<^verbatim>\<open>trim_slashes\<close>). It is needed of what the array holds at the start too, since the
  parser may succeed without a URI (a key that occurs twice).
\<close>

definition uris_ok :: "('l) zcbor_lib_scheme \<Rightarrow> ('d) dfu_conf_scheme \<Rightarrow> bool" where
  "uris_ok lib dc \<longleftrightarrow> (\<forall>st s st'. zcbor_tstr_decode lib st = (True, s, st') \<longrightarrow> (\<exists>c\<in>set s. c \<noteq> SLASH)) \<and>
     length (dconf_uri0 dc) = 64 \<and> (\<exists>c\<in>set (dconf_uri0 dc). c \<noteq> SLASH)"

definition uri_buffer_ok :: "component_tstr_value \<Rightarrow> bool" where
  "uri_buffer_ok v \<longleftrightarrow> tv_fits 64 v \<and> (\<exists>c\<in>set (tv_value v). c \<noteq> SLASH)"

lemma entry_keeps_uri: "uris_ok lib dc \<Longrightarrow> entry_keeps lib uri_buffer_ok"
  using entry_keeps_fits[of lib 64]
  by (fastforce simp: entry_keeps_def uri_buffer_ok_def uris_ok_def component_entry_decode_value_def buf_write_def
      split: prod.splits)

lemma stripped_uri_inside:
  assumes "uri_buffer_ok uri" and "uri_strip_leading_slash (tv_value uri) (tv_value_len uri) = (p, n)"
  shows "n \<le> length p \<and> (\<exists>c\<in>set p. c \<noteq> SLASH)"
proof -
  have f: "length (tv_value uri) = 64" "tv_value_len uri \<le> 64" "\<exists>c\<in>set (tv_value uri). c \<noteq> SLASH"
    using assms(1) by (simp_all add: uri_buffer_ok_def tv_fits_def)
  then obtain c cs where t: "tv_value uri = c # cs" by (cases "tv_value uri") simp_all
  show ?thesis using f assms(2) unfolding t by (auto simp: uri_strip_leading_slash_def split: if_splits)
qed

lemma on_flash_step: "world_ok w \<Longrightarrow> cb_step w (snd (on_flash f_op w))"
  by (simp add: on_flash_def split: prod.split)

lemma err_then_step:
  assumes "cb_step w (snd x)" and "\<And>w1. cb_step w w1 \<Longrightarrow> cb_step w1 (snd (k w1))"
  shows "cb_step w (snd (err_then x k))"
  using assms(1) cb_step_trans[OF assms(1) assms(2)[OF assms(1)]]
  by (cases x) (simp add: err_then_def)

lemma data_received_step:
  assumes nb: "\<And>r status w. world_ok w \<Longrightarrow> r \<in> set (reqs_list w) \<Longrightarrow> cb_step w (snd (nb r status w))"
    and "world_ok w" and "rsp_ok w rsp"
  shows "cb_step w (snd (data_received fl dc nb rsp w))"
proof -
  have last: "cb_step w1 (snd (let w2 = if rsp_get_next rsp = None then upd_env (\<lambda>s. s\<lparr>sem_downloaded := 1\<rparr>) w1 else w1
      in (0 :: int, if rsp_get_next rsp \<noteq> None
          then (case rsp_get_next_data rsp of Some r \<Rightarrow> snd (nb r 0 w2) | None \<Rightarrow> fault w2) else w2)))"
    if "cb_step w w1" for w1
    using assms(3) cb_stepD(1,2)[OF that] nb[of w1] by (auto simp: rsp_ok_def Let_def)
  have "cb_step w (snd (err_then (if rsp_off rsp = 0 then on_flash (flash_img_prepare fl (dconf_erase_progressively dc)) w
                               else (0, w))
                       (on_flash (flash_img_buffered_write fl (rsp_data rsp) (rsp_get_next rsp = None)))))"
    using assms(2) by (intro err_then_step) (auto intro: on_flash_step dest: cb_stepD(1))
  from err_then_step[OF this last] assms(2) show ?thesis by (simp add: data_received_def Let_def)
qed

lemma desired_update_step:
  assumes "zcbor_lib_ok lib" and "coap_lib_ok sys" and "uris_ok lib dc" and "world_ok w"
  shows "cb_step w (snd (golioth_desired_update sys lib dc rsp w))"
proof -
  let ?v = "\<lparr>tv_value = take 64 (array_bytes (dfu_version (w_env w))), tv_value_len = 64\<rparr>"
  let ?u = "\<lparr>tv_value = dconf_uri0 dc, tv_value_len = 64\<rparr>"
  obtain e version uri where p: "golioth_fw_desired_parse lib (rsp_data rsp) ?v ?u = Some (e, version, uri)"
    using fw_desired_parse_returns[OF assms(1)] by (metis not_None_eq prod_cases3)
  have len: "length (array_bytes (dfu_version (w_env w))) = 65" by (simp add: array_bytes_def)
  then have "tv_fits 64 ?v" "uri_buffer_ok ?u" using assms(3) by (simp_all add: tv_fits_def uri_buffer_ok_def uris_ok_def)
  with desired_parse_inv[OF entry_keeps_fits entry_keeps_uri[OF assms(3)] p] have
    v: "tv_fits 64 version" and u: "uri_buffer_ok uri" by blast+
  have fits: "\<not> length (tv_value version @ drop 64 (array_bytes (dfu_version (w_env w)))) \<le> tv_value_len version"
    using v len by (simp add: tv_fits_def)
  obtain uri_p n where s: "uri_strip_leading_slash (tv_value uri) (tv_value_len uri) = (uri_p, n)" by fastforce
  note inside = from_string_inside[OF conjunct1[OF stripped_uri_inside[OF u s]] conjunct2[OF stripped_uri_inside[OF u s]]]
  have "cb_step w (snd (golioth_fw_download sys uri_p n (Some (App_cb 1)) (UD_app 0) (upd_env g w)))" for g
  proof -
    have w1: "cb_step w (upd_env g w)" using assms(4) by simp
    show ?thesis
      using golioth_fw_download_ok[OF cb_stepD(1)[OF w1] assms(2) inside _ prod.collapse[symmetric]]
        cb_step_trans[OF w1] by simp
  qed
  then show ?thesis
    using p fits s assms(4) by (simp add: golioth_desired_update_def Let_def)
qed

lemma data_received_error:
  "rsp_err rsp \<noteq> 0 \<Longrightarrow> coap_same w (snd (data_received fl dc nb rsp w))"
  by (simp add: data_received_def Let_def)

lemma on_connect_step:
  assumes "coap_lib_ok sys" and "world_ok w"
  shows "cb_step w (golioth_on_connect sys w)"
proof -
  let ?w = "upd_env (\<lambda>s. s\<lparr>sem_connected := 1\<rparr>) w"
  have "cb_step ?w (golioth_on_connect sys w)"
    unfolding golioth_on_connect_def golioth_fw_observe_desired_def
    using cb_stepD(1)[OF cb_step_upd_env[OF assms(2)]]
    by (intro golioth_coap_req_cb_step[OF _ assms(1) _ prod.collapse[symmetric]]) simp_all
  with cb_step_trans[OF cb_step_upd_env[OF assms(2)]] show ?thesis by blast
qed

lemma desired_update_error: "rsp_err rsp \<noteq> 0 \<Longrightarrow> golioth_desired_update sys lib dc rsp w = (0, w)"
  by (simp add: golioth_desired_update_def)

lemma dfu_app_ok:
  fixes sys :: "(('f, 'z) dfu_env_scheme, 'x) sys_scheme"
  assumes "zcbor_lib_ok lib" and "coap_lib_ok sys" and "uris_ok lib dc"
  shows "app_ok (dfu_app sys fl lib dc)"
  unfolding app_ok_def
proof (intro conjI allI impI)
  fix i and rsp :: golioth_req_rsp and w :: "('f, 'z) dfu_world" and nb :: "ptr \<Rightarrow> int \<Rightarrow> ('f, 'z) dfu_world \<Rightarrow> int \<times> ('f, 'z) dfu_world"
  assume "\<forall>r status w. world_ok w \<longrightarrow> r \<in> set (reqs_list w) \<longrightarrow> cb_step w (snd (nb r status w))"
    and "world_ok w" and "rsp_ok w rsp"
  with desired_update_step[OF assms] data_received_step[of nb w rsp fl dc]
  show "cb_step w (snd (app_cb (dfu_app sys fl lib dc) i nb rsp w))" by (simp add: dfu_app_def)
next
  fix i and rsp :: golioth_req_rsp and w :: "('f, 'z) dfu_world" and nb :: "ptr \<Rightarrow> int \<Rightarrow> ('f, 'z) dfu_world \<Rightarrow> int \<times> ('f, 'z) dfu_world"
  assume "rsp_err rsp \<noteq> 0"
  then show "coap_same w (snd (app_cb (dfu_app sys fl lib dc) i nb rsp w))"
    by (simp add: dfu_app_def desired_update_error data_received_error)
qed (simp_all add: dfu_app_def on_connect_step[OF assms(2)])

section \<open>The image\<close>

text \<open>
  The flash library: \<open>img\<close> is what has been written since it was initialised. What \<^verbatim>\<open>get_next\<close>
  does is no business of the sample's data.
\<close>

definition flash_writes :: "('f, 'x) flash_lib_scheme \<Rightarrow> bool \<Rightarrow> ('f \<Rightarrow> u8 list) \<Rightarrow> bool" where
  "flash_writes fl progressively img \<longleftrightarrow>
     (\<forall>f f'. flash_img_prepare fl progressively f = (0, f') \<longrightarrow> img f' = []) \<and>
     (\<forall>d flush f f'. flash_img_buffered_write fl d flush f = (0, f') \<longrightarrow> img f' = img f @ d)"

definition next_keeps :: "(ptr \<Rightarrow> int \<Rightarrow> ('f, 'z) dfu_world \<Rightarrow> int \<times> ('f, 'z) dfu_world) \<Rightarrow> bool" where
  "next_keeps nb \<longleftrightarrow> (\<forall>r st w. dfu_flash (w_env (snd (nb r st w))) = dfu_flash (w_env w) \<and>
     sem_downloaded (w_env (snd (nb r st w))) = sem_downloaded (w_env w))"

text \<open>The responses one after the other, as long as the callback accepts them.\<close>

fun receive_all where
  "receive_all fl dc nb [] w = (0, w)"
| "receive_all fl dc nb (rsp # rsps) w = err_then (data_received fl dc nb rsp w) (receive_all fl dc nb rsps)"

lemma on_flash_cases:
  assumes "on_flash f_op w = (e, w')"
  obtains f where "f_op (dfu_flash (w_env w)) = (e, f)" "w' = upd_env (\<lambda>s. s\<lparr>dfu_flash := f\<rparr>) w"
  using assms by (auto simp: on_flash_def split: prod.splits)

lemma data_received_image:
  assumes "flash_writes fl (dconf_erase_progressively dc) img" and "next_keeps nb" and "rsp_err rsp = 0"
    and "data_received fl dc nb rsp w = (0, w')"
  shows "img (dfu_flash (w_env w')) = (if rsp_off rsp = 0 then [] else img (dfu_flash (w_env w))) @ rsp_data rsp \<and>
    sem_downloaded (w_env w') = (if rsp_get_next rsp = None then 1 else sem_downloaded (w_env w))"
proof -
  let ?prep = "if rsp_off rsp = 0 then on_flash (flash_img_prepare fl (dconf_erase_progressively dc)) w else (0, w)"
  let ?last = "rsp_get_next rsp = None"
  let ?done = "\<lambda>w. if ?last then upd_env (\<lambda>s. s\<lparr>sem_downloaded := 1\<rparr>) w else w"
  from assms(3,4) obtain w1 where w1: "err_then ?prep (on_flash (flash_img_buffered_write fl (rsp_data rsp) ?last)) = (0, w1)"
    and w': "w' = (if \<not> ?last then (case rsp_get_next_data rsp of Some r \<Rightarrow> snd (nb r 0 (?done w1)) | None \<Rightarrow> fault (?done w1))
                   else ?done w1)"
    by (auto simp: data_received_def Let_def elim!: err_then_cases)
  from w1 obtain w0 where w0: "?prep = (0, w0)" "on_flash (flash_img_buffered_write fl (rsp_data rsp) ?last) w0 = (0, w1)"
    by (auto elim: err_then_cases)
  have p: "img (dfu_flash (w_env w0)) = (if rsp_off rsp = 0 then [] else img (dfu_flash (w_env w))) \<and>
      sem_downloaded (w_env w0) = sem_downloaded (w_env w)"
    using w0(1) assms(1) by (auto simp: flash_writes_def split: if_splits elim!: on_flash_cases)
  have "img (dfu_flash (w_env w1)) = img (dfu_flash (w_env w0)) @ rsp_data rsp \<and>
      sem_downloaded (w_env w1) = sem_downloaded (w_env w0)"
    using w0(2) assms(1) by (auto simp: flash_writes_def elim!: on_flash_cases)
  with p w' assms(2) show ?thesis by (auto simp: next_keeps_def fault_def split: option.splits)
qed


end
