(* ===== verification/ServiceSamples.thy ===== *)
theory ServiceSamples
  imports Settings Rpc Lightdb
begin

text \<open>
  Three samples, each an application of the SDK: \<^verbatim>\<open>samples/settings\<close>, whose delay the server sets,
  \<^verbatim>\<open>samples/lightdb_led\<close>, whose LEDs follow a map of the database, and \<^verbatim>\<open>samples/rpc\<close>, with a
  method that multiplies.

  Their static data and the GPIO pins are in the environment of the world.
\<close>

section \<open>samples/settings\<close>

record settings_env =
  loop_delay_s :: int

abbreviation (input) GOLIOTH_SETTINGS_KEY_NOT_RECOGNIZED :: int where "GOLIOTH_SETTINGS_KEY_NOT_RECOGNIZED \<equiv> 1"
abbreviation (input) GOLIOTH_SETTINGS_VALUE_OUTSIDE_RANGE :: int where "GOLIOTH_SETTINGS_VALUE_OUTSIDE_RANGE \<equiv> 4"

definition settings_sample_on_setting ::
  "u8 list \<Rightarrow> golioth_settings_value \<Rightarrow> ('z) settings_env_scheme world \<Rightarrow> int \<times> ('z) settings_env_scheme world" where
  "settings_sample_on_setting key val w =
     (if key = ascii ''LOOP_DELAY_S'' then
        (case val of
           SETTINGS_VALUE_INT64 i \<Rightarrow>
             if i < 1 \<or> i > 100 then (GOLIOTH_SETTINGS_VALUE_OUTSIDE_RANGE, w)
             else (GOLIOTH_SETTINGS_SUCCESS, upd_env (\<lambda>s. s\<lparr>loop_delay_s := signed_take_bit 31 i\<rparr>) w)
         | _ \<Rightarrow> (GOLIOTH_SETTINGS_VALUE_FORMAT_NOT_VALID, w))
      else (GOLIOTH_SETTINGS_KEY_NOT_RECOGNIZED, w))"

text \<open>The results of the requests are ignored.\<close>

definition settings_sample_on_connect ::
  "('e, 'x) sys_scheme \<Rightarrow> bool \<Rightarrow> 'e world \<Rightarrow> 'e world" where
  "settings_sample_on_connect sys conf_golioth_settings w =
     (if conf_golioth_settings then snd (golioth_settings_observe sys w) else w)"

definition settings_sample_start :: "bool \<Rightarrow> 'e world \<Rightarrow> 'e world" where
  "settings_sample_start conf_golioth_settings w =
     (if conf_golioth_settings then snd (golioth_settings_register_callback (Some 0) w) else w)"

text \<open>The body of the main loop; the result has the seconds the thread sleeps.\<close>

definition settings_sample_loop ::
  "(('z) settings_env_scheme, 'x) sys_scheme \<Rightarrow> int \<times> ('z) settings_env_scheme world
     \<Rightarrow> int \<times> int \<times> ('z) settings_env_scheme world" where
  "settings_sample_loop sys s =
     (case s of (counter, w) \<Rightarrow>
        case golioth_send_hello sys w of (err, w1) \<Rightarrow> (loop_delay_s (w_env w1), counter + 1, w1))"

definition settings_sample_app ::
  "(('z) settings_env_scheme, 'x) sys_scheme \<Rightarrow> bool \<Rightarrow> ('z) settings_env_scheme app" where
  "settings_sample_app sys conf_golioth_settings = \<lparr>
     app_cb = (\<lambda>i nb rsp w. (0, w)), app_setting = (\<lambda>i. settings_sample_on_setting),
     app_rpc = (\<lambda>i st enc a w. (0, enc, w)),
     app_on_connect = (\<lambda>i. settings_sample_on_connect sys conf_golioth_settings)\<rparr>"

section \<open>samples/lightdb\_led\<close>

text \<open>The number of LEDs of the board, and the pins; the result of \<^verbatim>\<open>gpio_pin_set\<close> is ignored.\<close>

record 'e led_lib =
  led_count :: nat
  gpio_pin_set :: "nat \<Rightarrow> bool \<Rightarrow> 'e \<Rightarrow> 'e"
  gpio_pin_configure :: "nat \<Rightarrow> 'e \<Rightarrow> 'e"

definition golioth_led_initialize :: "('e, 'y) led_lib_scheme \<Rightarrow> 'e world \<Rightarrow> 'e world" where
  "golioth_led_initialize ll w = upd_env (fold (gpio_pin_configure ll) [0..<led_count ll]) w"

definition golioth_led_set :: "('e, 'y) led_lib_scheme \<Rightarrow> nat \<Rightarrow> bool \<Rightarrow> 'e world \<Rightarrow> 'e world" where
  "golioth_led_set ll led val w = (if led \<ge> led_count ll then w else upd_env (gpio_pin_set ll led val) w)"

text \<open>
  \<^verbatim>\<open>strtoul(name, &endptr, 0)\<close> of the C library: white space, a sign, \<^verbatim>\<open>0x\<close> or \<^verbatim>\<open>0\<close> for the base, digits.
  The result is the number and what is left at \<^verbatim>\<open>endptr\<close>; \<open>None\<close> is no number, \<^verbatim>\<open>endptr == name\<close>.
\<close>

definition is_space :: "u8 \<Rightarrow> bool" where
  "is_space c \<longleftrightarrow> c = 0x20 \<or> 9 \<le> c \<and> c \<le> 13"

definition digit_value :: "u8 \<Rightarrow> nat" where
  "digit_value c =
     (if 0x30 \<le> c \<and> c \<le> 0x39 then unat c - 0x30
      else if 0x61 \<le> c \<and> c \<le> 0x7a then unat c - 0x61 + 10
      else if 0x41 \<le> c \<and> c \<le> 0x5a then unat c - 0x41 + 10 else 99)"

fun read_digits :: "nat \<Rightarrow> nat \<Rightarrow> u8 list \<Rightarrow> nat \<times> u8 list" where
  "read_digits base acc [] = (acc, [])"
| "read_digits base acc (c # cs) =
     (if digit_value c < base then read_digits base (acc * base + digit_value c) cs else (acc, c # cs))"

definition strtoul :: "u8 list \<Rightarrow> (int \<times> u8 list) option" where
  "strtoul s =
     (let s1 = dropWhile is_space s;
          neg = (case s1 of c # _ \<Rightarrow> c = 0x2D | [] \<Rightarrow> False);
          s2 = (case s1 of c # cs \<Rightarrow> if c = 0x2D \<or> c = 0x2B then cs else s1 | [] \<Rightarrow> s1);
          hex = (case s2 of c # x # d # _ \<Rightarrow> c = 0x30 \<and> (x = 0x78 \<or> x = 0x58) \<and> digit_value d < 16 | _ \<Rightarrow> False);
          oct = (case s2 of c # _ \<Rightarrow> c = 0x30 | [] \<Rightarrow> False);
          s3 = (if hex then drop 2 s2 else s2);
          base = (if hex then 16 else if oct then 8 else 10)
      in case s3 of
           c # _ \<Rightarrow> if digit_value c < base
                    then (case read_digits base 0 s3 of (n, rest) \<Rightarrow> Some (if neg then - int n else int n, rest))
                    else None
         | [] \<Rightarrow> None)"

text \<open>The number is converted to \<^verbatim>\<open>unsigned int\<close>.\<close>

definition golioth_led_set_by_name :: "('e, 'y) led_lib_scheme \<Rightarrow> u8 list \<Rightarrow> bool \<Rightarrow> 'e world \<Rightarrow> 'e world" where
  "golioth_led_set_by_name ll name val w =
     (case strtoul name of
        Some (n, []) \<Rightarrow> golioth_led_set ll (nat (n mod 2 ^ 32)) val w
      | _ \<Rightarrow> w)"

text \<open>
  One entry of the map: a label that does not fit \<^verbatim>\<open>char name[5]\<close> is skipped. The name is the C
  string in the array.
\<close>

definition led_entry :: "('e, 'y) led_lib_scheme \<Rightarrow> u8 list \<times> bool \<Rightarrow> 'e world \<Rightarrow> 'e world" where
  "led_entry ll entry w =
     (case entry of (label, val) \<Rightarrow>
        if length label > 4 then w
        else golioth_led_set_by_name ll (takeWhile (\<lambda>c. c \<noteq> 0) label) val w)"

partial_function (option) led_loop ::
  "('e, 'y) led_lib_scheme \<Rightarrow> ('l) zcbor_lib_scheme \<Rightarrow> zcbor_state \<Rightarrow> 'e world
     \<Rightarrow> (int \<times> zcbor_state \<times> 'e world) option" where
  "led_loop ll lib zs w =
     (if zcbor_list_or_map_end zs then Some (0, zs, w)
      else
        (case zcbor_tstr_decode lib zs of
           (ok, label, zs1) \<Rightarrow>
             if \<not> ok then Some (- EBADMSG, zs1, w)
             else
               (case zcbor_bool_decode lib zs1 of
                  (ok, val, zs2) \<Rightarrow>
                    if \<not> ok then Some (- EBADMSG, zs2, w) else led_loop ll lib zs2 (led_entry ll (label, val) w))))"

declare led_loop.simps [code]

definition golioth_led_handle ::
  "('e, 'y) led_lib_scheme \<Rightarrow> ('l) zcbor_lib_scheme \<Rightarrow> golioth_req_rsp \<Rightarrow> 'e world \<Rightarrow> (int \<times> 'e world) option" where
  "golioth_led_handle ll lib rsp w =
     (if rsp_err rsp \<noteq> 0 then Some (rsp_err rsp, w)
      else
        (case zcbor_map_start_decode lib (zcbor_new_decode_state lib 1 (rsp_data rsp) 1) of
           (ok, zs1) \<Rightarrow>
             if \<not> ok then Some (- EBADMSG, w)
             else
               (case led_loop ll lib zs1 w of
                  None \<Rightarrow> None
                | Some (err, zs2, w1) \<Rightarrow>
                    if err \<noteq> 0 then Some (err, w1)
                    else if \<not> fst (zcbor_map_end_decode lib zs2) then Some (- EBADMSG, w1) else Some (0, w1))))"

definition led_sample_on_connect :: "('e, 'x) sys_scheme \<Rightarrow> 'e world \<Rightarrow> 'e world" where
  "led_sample_on_connect sys w =
     snd (golioth_lightdb_observe_cb sys (ascii ''led'') GOLIOTH_CONTENT_FORMAT_APP_CBOR (Some (App_cb 0)) UD_null w)"

text \<open>A callback that does not return would be a fault.\<close>

definition led_sample_app ::
  "('e, 'x) sys_scheme \<Rightarrow> ('e, 'y) led_lib_scheme \<Rightarrow> ('l) zcbor_lib_scheme \<Rightarrow> 'e app" where
  "led_sample_app sys ll lib = \<lparr>
     app_cb = (\<lambda>i nb rsp w. case golioth_led_handle ll lib rsp w of Some r \<Rightarrow> r | None \<Rightarrow> (0, fault w)),
     app_setting = (\<lambda>i key v w. (0, w)), app_rpc = (\<lambda>i st enc a w. (0, enc, w)),
     app_on_connect = (\<lambda>i. led_sample_on_connect sys)\<rparr>"

section \<open>samples/rpc\<close>

text \<open>The multiplication of the target's \<^verbatim>\<open>double\<close>, on bit patterns, and one more encoding function.\<close>

record double_lib =
  double_mul :: "64 word \<Rightarrow> 64 word \<Rightarrow> 64 word"
  zcbor_float64_put :: "64 word \<Rightarrow> zcbor_enc \<Rightarrow> bool \<times> zcbor_enc"

abbreviation (input) GOLIOTH_RPC_OK :: nat where "GOLIOTH_RPC_OK \<equiv> 0"
abbreviation (input) GOLIOTH_RPC_INVALID_ARGUMENT :: nat where "GOLIOTH_RPC_INVALID_ARGUMENT \<equiv> 3"
abbreviation (input) GOLIOTH_RPC_RESOURCE_EXHAUSTED :: nat where "GOLIOTH_RPC_RESOURCE_EXHAUSTED \<equiv> 8"

definition on_multiply ::
  "('l) zcbor_lib_scheme \<Rightarrow> ('d) double_lib_scheme \<Rightarrow> zcbor_state \<Rightarrow> zcbor_enc \<Rightarrow> 'e world \<Rightarrow> nat \<times> zcbor_enc \<times> 'e world" where
  "on_multiply lib dl params detail w =
     (case zcbor_float_decode lib params of
        (ok, a, params1) \<Rightarrow>
          if \<not> ok then (GOLIOTH_RPC_INVALID_ARGUMENT, detail, w)
          else
            (case zcbor_float_decode lib params1 of
               (ok, b, _) \<Rightarrow>
                 if \<not> ok then (GOLIOTH_RPC_INVALID_ARGUMENT, detail, w)
                 else
                   (case enc_and (zcbor_tstr_put lib (ascii ''value'')) (zcbor_float64_put dl (double_mul dl a b)) detail of
                      (ok, detail1) \<Rightarrow>
                        (if \<not> ok then GOLIOTH_RPC_RESOURCE_EXHAUSTED else GOLIOTH_RPC_OK, detail1, w))))"

definition rpc_sample_app ::
  "('e, 'x) sys_scheme \<Rightarrow> ('l) zcbor_lib_scheme \<Rightarrow> ('d) double_lib_scheme \<Rightarrow> 'e app" where
  "rpc_sample_app sys lib dl = \<lparr>
     app_cb = (\<lambda>i nb rsp w. (0, w)), app_setting = (\<lambda>i key v w. (0, w)),
     app_rpc = (\<lambda>i st enc a w. on_multiply lib dl st enc w),
     app_on_connect = (\<lambda>i w. snd (golioth_rpc_observe sys w))\<rparr>"

definition rpc_sample_start :: "('c) service_conf_scheme \<Rightarrow> 'e world \<Rightarrow> 'e world" where
  "rpc_sample_start conf w = snd (golioth_rpc_register conf (ascii ''multiply'') 0 0 w)"

section \<open>The LEDs\<close>

text \<open>The reference: the map is a list of labels and values, set one after the other.\<close>

inductive led_read ::
  "('l) zcbor_lib_scheme \<Rightarrow> zcbor_state \<Rightarrow> (u8 list \<times> bool) list \<Rightarrow> zcbor_state \<Rightarrow> bool" for lib where
  led_end: "zcbor_list_or_map_end st \<Longrightarrow> led_read lib st [] st"
| led_next: "\<not> zcbor_list_or_map_end st \<Longrightarrow> zcbor_tstr_decode lib st = (True, label, st1) \<Longrightarrow>
    zcbor_bool_decode lib st1 = (True, val, st2) \<Longrightarrow> led_read lib st2 entries st' \<Longrightarrow>
    led_read lib st ((label, val) # entries) st'"

lemma led_loop_reads:
  assumes "zcbor_lib_ok lib"
  shows "\<exists>e st' entries. led_loop ll lib st w = Some (e, st', fold (led_entry ll) entries w) \<and>
    (e = 0 \<longrightarrow> led_read lib st entries st')"
proof (induction "zs_payload_end st - zs_payload st" arbitrary: st w rule: less_induct)
  case less
  obtain ok1 label st1 where t: "zcbor_tstr_decode lib st = (ok1, label, st1)" by (metis prod_cases3)
  obtain ok2 val st2 where b: "zcbor_bool_decode lib st1 = (ok2, val, st2)" by (metis prod_cases3)
  note loop = led_loop.simps[of ll lib st w]
  consider "zcbor_list_or_map_end st" | "\<not> zcbor_list_or_map_end st" "\<not> ok1 \<or> \<not> ok2"
    | "\<not> zcbor_list_or_map_end st" ok1 ok2 by blast
  then show ?case
  proof cases
    case 1
    with loop show ?thesis by (intro exI[of _ 0] exI[of _ st] exI[of _ "[]"]) (simp add: led_end)
  next
    case 2
    with loop t b show ?thesis
      by (intro exI[of _ "- EBADMSG"] exI[of _ "if ok1 then st2 else st1"] exI[of _ "[]"]) auto
  next
    case 3
    have "moves st st1" "moves st1 st2"
      using 3 t b value_movesD(1)[OF zcbor_lib_ok_moves(5)[OF assms]] value_movesD(1)[OF zcbor_lib_ok_moves(9)[OF assms]]
      by auto
    then have "zs_payload_end st2 - zs_payload st2 < zs_payload_end st - zs_payload st" by (auto simp: moves_def)
    from less[OF this, of "led_entry ll (label, val) w"] obtain e st' entries where
      "led_loop ll lib st2 (led_entry ll (label, val) w) = Some (e, st', fold (led_entry ll) entries (led_entry ll (label, val) w))"
      "e = 0 \<longrightarrow> led_read lib st2 entries st'" by blast
    with 3 loop t b show ?thesis
      by (intro exI[of _ e] exI[of _ st'] exI[of _ "(label, val) # entries"]) (auto intro: led_next)
  qed
qed

lemma led_entry_same [simp]: "same_but_env w (led_entry ll entry w)"
  by (simp add: led_entry_def golioth_led_set_by_name_def golioth_led_set_def same_but_env_refl
      split: prod.split option.split list.split)

lemma led_entries_same: "same_but_env w (fold (led_entry ll) entries w)"
  by (induction entries arbitrary: w) (auto intro: same_but_env_trans[OF led_entry_same] simp: same_but_env_refl)

text \<open>Every pin that is set belongs to an LED of the board.\<close>

fun led_command :: "nat \<Rightarrow> u8 list \<times> bool \<Rightarrow> (nat \<times> bool) option" where
  "led_command num_leds (label, val) =
     (if length label > 4 then None
      else case strtoul (takeWhile (\<lambda>c. c \<noteq> 0) label) of
             Some (n, []) \<Rightarrow> (let i = nat (n mod 2 ^ 32) in if i < num_leds then Some (i, val) else None)
           | _ \<Rightarrow> None)"

lemma led_entry_command:
  "led_entry ll entry w =
     (case led_command (led_count ll) entry of
        Some (i, val) \<Rightarrow> upd_env (gpio_pin_set ll i val) w | None \<Rightarrow> w)"
  by (cases entry) (simp add: led_entry_def golioth_led_set_by_name_def golioth_led_set_def Let_def
      split: option.split list.split)

lemma led_entries_env:
  "w_env (fold (led_entry ll) entries w) =
     fold (\<lambda>(i, val). gpio_pin_set ll i val) (List.map_filter (led_command (led_count ll)) entries) (w_env w)"
  by (induction entries arbitrary: w) (auto simp: led_entry_command map_filter_simps split: option.split)

lemma led_handle_entries:
  assumes "zcbor_lib_ok lib"
  shows "\<exists>e entries. golioth_led_handle ll lib rsp w = Some (e, fold (led_entry ll) entries w) \<and>
    (e = 0 \<longrightarrow> (\<exists>st1 st2 st3. zcbor_map_start_decode lib (zcbor_new_decode_state lib 1 (rsp_data rsp) 1) = (True, st1) \<and>
       led_read lib st1 entries st2 \<and> zcbor_map_end_decode lib st2 = (True, st3)))"
proof -
  obtain ok1 st1 where m: "zcbor_map_start_decode lib (zcbor_new_decode_state lib 1 (rsp_data rsp) 1) = (ok1, st1)"
    by fastforce
  obtain e2 st2 entries where l: "led_loop ll lib st1 w = Some (e2, st2, fold (led_entry ll) entries w)"
    "e2 = 0 \<longrightarrow> led_read lib st1 entries st2"
    using led_loop_reads[OF assms, of ll st1 w] by blast
  obtain ok3 st3 where d: "zcbor_map_end_decode lib st2 = (ok3, st3)" by fastforce
  show ?thesis
  proof (cases "rsp_err rsp \<noteq> 0 \<or> \<not> ok1")
    case True
    with m show ?thesis
      by (intro exI[of _ "if rsp_err rsp \<noteq> 0 then rsp_err rsp else - EBADMSG"] exI[of _ "[]"])
        (auto simp: golioth_led_handle_def)
  next
    case False
    with m l d show ?thesis
      by (intro exI[of _ "if e2 \<noteq> 0 then e2 else if ok3 then 0 else - EBADMSG"] exI[of _ entries])
        (auto simp: golioth_led_handle_def)
  qed
qed

text \<open>
  C25. Whatever the payload is, the handler returns and changes nothing but pins; they are set entry by
  entry, in the order of the map, for the labels that are the number of an LED of the board. When
  the handler reports success, the entries are all there are between the start and the end of
  the map.
\<close>

lemma led_map_applied:
  assumes "zcbor_lib_ok lib"
  shows "\<exists>e w' entries. golioth_led_handle ll lib rsp w = Some (e, w') \<and> same_but_env w w' \<and>
    w_env w' = fold (\<lambda>(i, val). gpio_pin_set ll i val)
      (List.map_filter (led_command (led_count ll)) entries) (w_env w) \<and>
    (e = 0 \<longrightarrow> (\<exists>st1 st2 st3. zcbor_map_start_decode lib (zcbor_new_decode_state lib 1 (rsp_data rsp) 1) = (True, st1) \<and>
       led_read lib st1 entries st2 \<and> zcbor_map_end_decode lib st2 = (True, st3)))"
proof -
  from led_handle_entries[OF assms] obtain e entries where "golioth_led_handle ll lib rsp w = Some (e, fold (led_entry ll) entries w)"
    "e = 0 \<longrightarrow> (\<exists>st1 st2 st3. zcbor_map_start_decode lib (zcbor_new_decode_state lib 1 (rsp_data rsp) 1) = (True, st1) \<and>
       led_read lib st1 entries st2 \<and> zcbor_map_end_decode lib st2 = (True, st3))" by blast
  then show ?thesis by (intro exI[of _ e] exI[of _ "fold (led_entry ll) entries w"] exI[of _ entries])
    (simp add: led_entries_env led_entries_same)
qed

section \<open>The delay\<close>

text \<open>The reference: of the settings in a payload the last valid one counts.\<close>

fun accepted_delay :: "u8 list \<times> golioth_settings_value option \<Rightarrow> int option" where
  "accepted_delay (key, Some (SETTINGS_VALUE_INT64 i)) =
     (if key = ascii ''LOOP_DELAY_S'' \<and> 1 \<le> i \<and> i \<le> 100 then Some i else None)"
| "accepted_delay _ = None"

definition delay_after :: "(u8 list \<times> golioth_settings_value option) list \<Rightarrow> int \<Rightarrow> int" where
  "delay_after items d = last (d # List.map_filter accepted_delay items)"

lemma delay_after_Nil [simp]: "delay_after [] d = d"
  by (simp add: delay_after_def map_filter_simps)

lemma delay_after_Cons [simp]:
  "delay_after (item # items) d = delay_after items (case accepted_delay item of Some i \<Rightarrow> i | None \<Rightarrow> d)"
  by (simp add: delay_after_def map_filter_simps split: option.split)

lemma delay_after_range: "1 \<le> d \<and> d \<le> 100 \<Longrightarrow> 1 \<le> delay_after items d \<and> delay_after items d \<le> 100"
proof (induction items arbitrary: d)
  case (Cons item items)
  have "accepted_delay item = Some i \<Longrightarrow> 1 \<le> i \<and> i \<le> 100" for i
    by (cases item rule: accepted_delay.cases) (auto split: if_splits)
  with Cons show ?case by (simp split: option.split)
qed simp

lemma add_error_counts [simp]: "sr_num_errors (add_error_to_response lib key code r) = Suc (sr_num_errors r)"
  by (simp add: add_error_to_response_def Let_def)

lemma delay_item:
  fixes sys :: "(('z) settings_env_scheme, 'x) sys_scheme"
  assumes "settings_ready w" and "handle_setting (settings_sample_app sys conf) lib item (r, w) = (r', w')"
  shows "settings_ready w' \<and>
    loop_delay_s (w_env w') = (case accepted_delay item of Some i \<Rightarrow> i | None \<Rightarrow> loop_delay_s (w_env w)) \<and>
    sr_num_errors r' = sr_num_errors r + (if accepted_delay item = None then 1 else 0)"
proof -
  have int32: "signed_take_bit 31 i = i" if "1 \<le> i" "i \<le> 100" for i :: int
    using that by (intro signed_take_bit_int_eq_self) simp_all
  obtain i where i: "settings_callback (cl_settings (w_client w)) = Some i"
    using assms(1) by (auto simp: settings_ready_def)
  show ?thesis
    using assms i
    by (cases item rule: accepted_delay.cases)
      (auto simp: apply_setting_def call_setting_def settings_sample_app_def settings_sample_on_setting_def int32
        settings_ready_def upd_env_def simp del: ascii_simps split: if_splits)
qed

lemma delay_items:
  assumes "settings_ready w" and "fold (handle_setting (settings_sample_app sys conf) lib) items (r, w) = (r', w')"
  shows "loop_delay_s (w_env w') = delay_after items (loop_delay_s (w_env w)) \<and>
    sr_num_errors r' = sr_num_errors r + length (filter (\<lambda>item. accepted_delay item = None) items)"
  using assms
proof (induction items arbitrary: r w)
  case (Cons item items)
  obtain r1 w1 where h: "handle_setting (settings_sample_app sys conf) lib item (r, w) = (r1, w1)" by fastforce
  with Cons.IH[of w1 r1] Cons.prems delay_item[OF Cons.prems(1) h] show ?case by auto
qed simp

text \<open>
  C26. The delay of the settings sample always is between 1 and 100 seconds, whatever the server sends:
  it is the last valid value there was. Every setting that is not a valid delay is reported back.
\<close>

lemma delay_last_valid:
  fixes sys :: "(('z) settings_env_scheme, 'x) sys_scheme"
  assumes "zcbor_lib_ok lib" and "settings_ready w" and "1 \<le> loop_delay_s (w_env w)" and "loop_delay_s (w_env w) \<le> 100"
    and "settings_decode (settings_sample_app sys conf) lib st (r, w) = Some (e, st', r', w')"
  shows "1 \<le> loop_delay_s (w_env w') \<and> loop_delay_s (w_env w') \<le> 100 \<and>
    (\<exists>items. loop_delay_s (w_env w') = delay_after items (loop_delay_s (w_env w)) \<and>
       sr_num_errors r' = sr_num_errors r + length (filter (\<lambda>item. accepted_delay item = None) items) \<and>
       (e = 0 \<longrightarrow> (\<exists>st1 st2 st3. zcbor_nil_expect lib st = (False, st1) \<and>
          zcbor_map_start_decode lib st1 = (True, st2) \<and> settings_read lib st2 items st3 \<and>
          zcbor_map_end_decode lib st3 = (True, st'))))"
proof -
  obtain e1 st1 items where
    d: "settings_decode (settings_sample_app sys conf) lib st (r, w) =
        Some (e1, st1, fold (handle_setting (settings_sample_app sys conf) lib) items (r, w))"
    and z1: "e1 = 0 \<longrightarrow> (\<exists>s1 s2 s3. zcbor_nil_expect lib st = (False, s1) \<and>
        zcbor_map_start_decode lib s1 = (True, s2) \<and> settings_read lib s2 items s3 \<and>
        zcbor_map_end_decode lib s3 = (True, st1))"
    using settings_decode_reads[OF assms(1), of "settings_sample_app sys conf" st "(r, w)"] by blast
  with assms(5) have f: "fold (handle_setting (settings_sample_app sys conf) lib) items (r, w) = (r', w')"
    and z: "e = 0 \<longrightarrow> (\<exists>s1 s2 s3. zcbor_nil_expect lib st = (False, s1) \<and>
        zcbor_map_start_decode lib s1 = (True, s2) \<and> settings_read lib s2 items s3 \<and>
        zcbor_map_end_decode lib s3 = (True, st'))" by simp_all
  from delay_items[OF assms(2) f] delay_after_range[of "loop_delay_s (w_env w)" items] assms(3,4) z show ?thesis
    by (intro conjI exI[of _ items]) simp_all
qed

section \<open>The samples as applications\<close>

text \<open>
  The settings may be observed once a callback is registered, which the sample does first.
\<close>

lemma settings_sample_start_ready:
  assumes "\<not> settings_initialized (cl_settings (w_client w))"
  shows "settings_ready (settings_sample_start True w)"
  using golioth_settings_register_ready[OF prod.collapse[symmetric], where cb = 0 and w = w] assms by (simp add: settings_sample_start_def)

lemma settings_sample_connect_step:
  assumes "coap_lib_ok sys" and "world_ok w" and "conf \<longrightarrow> settings_ready w"
  shows "cb_step w (settings_sample_on_connect sys conf w)"
proof (cases conf)
  case True
  with golioth_coap_req_cb_step[OF assms(2,1) _ prod.collapse[symmetric]] assms(3) show ?thesis
    by (simp add: settings_sample_on_connect_def golioth_settings_observe_def)
qed (use assms(2) in \<open>simp add: settings_sample_on_connect_def\<close>)

lemma led_sample_app_ok:
  assumes "coap_lib_ok sys" and "zcbor_lib_ok lib"
  shows "app_ok (led_sample_app sys ll lib)"
proof -
  have h: "\<exists>e w'. golioth_led_handle ll lib rsp w = Some (e, w') \<and> same_but_env w w'" for rsp w
    using led_handle_entries[OF assms(2), of ll rsp w] led_entries_same by blast
  have "cb_step w (led_sample_on_connect sys w)" if "world_ok w" for w
    using golioth_coap_req_cb_step[OF that assms(1) _ prod.collapse[symmetric]]
    by (simp add: led_sample_on_connect_def golioth_lightdb_observe_cb_def golioth_coap_req_lightdb_cb_def)
  moreover have "cb_step w (snd (app_cb (led_sample_app sys ll lib) i nb rsp w))" if "world_ok w" for i nb rsp w
    using h[of rsp w] cb_step_same_but_env[OF that] by (auto simp: led_sample_app_def)
  moreover have "coap_same w (snd (app_cb (led_sample_app sys ll lib) i nb rsp w))" for i nb rsp w
    using h[of rsp w] same_but_env_coap_same by (auto simp: led_sample_app_def)
  ultimately show ?thesis by (simp add: app_ok_def) (simp add: led_sample_app_def)
qed

lemma rpc_sample_app_ok:
  fixes sys :: "('e, 'x) sys_scheme"
  assumes "coap_lib_ok sys"
  shows "app_ok (rpc_sample_app sys lib dl)"
proof -
  have "cb_step w (snd (golioth_rpc_observe sys w))" if "world_ok w" for w
    using golioth_coap_req_cb_step[OF that assms _ prod.collapse[symmetric]] by (simp add: golioth_rpc_observe_def)
  moreover have "snd (snd (on_multiply lib dl st enc w)) = w" for st enc and w :: "'e world"
    by (simp add: on_multiply_def split: prod.split)
  ultimately show ?thesis by (simp add: app_ok_def rpc_sample_app_def)
qed

end
