(* ===== verification/DataSamples.thy ===== *)
theory DataSamples
  imports Lightdb
begin

text \<open>
  Samples that push values: \<^verbatim>\<open>samples/lightdb/set\<close>, a counter, and \<^verbatim>\<open>samples/lightdb_stream\<close>, a
  temperature. The values are printed into buffers on the stack.

  The main loops are cut at their sleeps; between two steps everything else may act.
\<close>

section \<open>samples/lightdb/set\<close>

definition counter_set_handler :: "golioth_req_rsp \<Rightarrow> 'e world \<Rightarrow> int \<times> 'e world" where
  "counter_set_handler rsp w = (if rsp_err rsp \<noteq> 0 then (rsp_err rsp, w) else (0, w))"

text \<open>\<^verbatim>\<open>sizeof("4294967295")\<close> is 11.\<close>

definition counter_text :: "int \<Rightarrow> u8 list" where
  "counter_text counter = snprintk 11 (print_d counter)"

definition counter_set_async :: "('e, 'x) sys_scheme \<Rightarrow> int \<Rightarrow> 'e world \<Rightarrow> 'e world" where
  "counter_set_async sys counter w =
     snd (golioth_lightdb_set_cb sys (ascii ''counter'') GOLIOTH_CONTENT_FORMAT_APP_JSON (counter_text counter)
       (Some (App_cb 0)) UD_null w)"

definition counter_set_sync ::
  "('e, 'x) sys_scheme \<Rightarrow> ('e world \<Rightarrow> 'e world) \<Rightarrow> ptr \<Rightarrow> int \<Rightarrow> 'e world \<Rightarrow> 'e world option" where
  "counter_set_sync sys wait p counter w =
     map_option snd (golioth_lightdb_set sys wait p (ascii ''counter'') GOLIOTH_CONTENT_FORMAT_APP_JSON
       (counter_text counter) w)"

text \<open>The two halves of the loop.\<close>

definition counter_async_step where
  "counter_async_step sys s = (case s of (counter, w) \<Rightarrow> (counter + 1, counter_set_async sys counter w))"

definition counter_sync_step where
  "counter_sync_step sys wait p s =
     (case s of (counter, w) \<Rightarrow> map_option (\<lambda>w1. (counter + 1, w1)) (counter_set_sync sys wait p counter w))"

section \<open>samples/lightdb\_stream\<close>

record sensor_value =
  val1 :: int
  val2 :: int

text \<open>Without a sensor: the static counter is the state.\<close>

definition get_temperature :: "int \<Rightarrow> sensor_value \<times> int" where
  "get_temperature counter =
     (\<lparr>val1 = 20 + counter div 2, val2 = (if counter mod 2 = 1 then 500000 else 0)\<rparr>, (counter + 1) mod 20)"

text \<open>With a sensor. The driver gives an error and, when that is 0, a value.\<close>

record 'e sensor_lib =
  sensor_sample_fetch :: "'e \<Rightarrow> int \<times> 'e"
  sensor_channel_get :: "nat \<Rightarrow> 'e \<Rightarrow> int \<times> sensor_value \<times> 'e"

abbreviation (input) SENSOR_CHAN_DIE_TEMP :: nat where "SENSOR_CHAN_DIE_TEMP \<equiv> 12"
abbreviation (input) SENSOR_CHAN_AMBIENT_TEMP :: nat where "SENSOR_CHAN_AMBIENT_TEMP \<equiv> 13"

fun temp_channels_loop ::
  "('e, 'y) sensor_lib_scheme \<Rightarrow> nat list \<Rightarrow> int \<Rightarrow> sensor_value \<Rightarrow> 'e \<Rightarrow> int \<times> sensor_value \<times> 'e" where
  "temp_channels_loop sl [] err val e = (err, val, e)"
| "temp_channels_loop sl (ch # chs) err val e =
     (case sensor_channel_get sl ch e of
        (err, v, e1) \<Rightarrow>
          if err = - ENOTSUP then temp_channels_loop sl chs err val e1
          else if err \<noteq> 0 then (err, val, e1)
          else temp_channels_loop sl chs err v e1)"

definition get_temperature_sensor ::
  "('e, 'y) sensor_lib_scheme \<Rightarrow> sensor_value \<Rightarrow> 'e \<Rightarrow> int \<times> sensor_value \<times> 'e" where
  "get_temperature_sensor sl val e =
     (case sensor_sample_fetch sl e of
        (err, e1) \<Rightarrow>
          if err \<noteq> 0 then (err, val, e1)
          else temp_channels_loop sl [SENSOR_CHAN_AMBIENT_TEMP, SENSOR_CHAN_DIE_TEMP] err val e1)"

definition temperature_push_handler :: "golioth_req_rsp \<Rightarrow> 'e world \<Rightarrow> int \<times> 'e world" where
  "temperature_push_handler rsp w = (if rsp_err rsp \<noteq> 0 then (rsp_err rsp, w) else (0, w))"

text \<open>\<^verbatim>\<open>sizeof("-4294967295.123456")\<close> is 19.\<close>

definition temperature_text :: "sensor_value \<Rightarrow> u8 list" where
  "temperature_text temp = snprintk 19 (print_d (val1 temp) @ 0x2E # print_06u (nat \<bar>val2 temp\<bar>))"

definition temperature_push_async :: "('e, 'x) sys_scheme \<Rightarrow> sensor_value \<Rightarrow> 'e world \<Rightarrow> 'e world" where
  "temperature_push_async sys temp w =
     snd (golioth_stream_push_cb sys (ascii ''temp'') GOLIOTH_CONTENT_FORMAT_APP_JSON (temperature_text temp)
       (Some (App_cb 0)) UD_null w)"

definition temperature_push_sync ::
  "('e, 'x) sys_scheme \<Rightarrow> ('e world \<Rightarrow> 'e world) \<Rightarrow> ptr \<Rightarrow> sensor_value \<Rightarrow> 'e world \<Rightarrow> 'e world option" where
  "temperature_push_sync sys wait p temp w =
     map_option snd (golioth_stream_push sys wait p (ascii ''temp'') GOLIOTH_CONTENT_FORMAT_APP_JSON
       (temperature_text temp) w)"

text \<open>
  The body of the main loop, with \<open>get\<close> the function that measures; the result has the seconds the
  thread sleeps. After an error the loop starts with the blocking push again.
\<close>

datatype stream_pc = Stream_sync | Stream_async

definition stream_loop ::
  "('e, 'x) sys_scheme \<Rightarrow> ('e world \<Rightarrow> 'e world) \<Rightarrow> ptr \<Rightarrow> ('g \<Rightarrow> int \<times> sensor_value \<times> 'g)
     \<Rightarrow> stream_pc \<times> 'g \<times> 'e world \<Rightarrow> (int \<times> stream_pc \<times> 'g \<times> 'e world) option" where
  "stream_loop sys wait p get s =
     (case s of (pc, g, w) \<Rightarrow>
        case get g of (err, temp, g1) \<Rightarrow>
          if err \<noteq> 0 then Some (1, Stream_sync, g1, w)
          else
            (case pc of
               Stream_sync \<Rightarrow> map_option (\<lambda>w1. (5, Stream_async, g1, w1)) (temperature_push_sync sys wait p temp w)
             | Stream_async \<Rightarrow> Some (5, Stream_sync, g1, temperature_push_async sys temp w)))"

section \<open>Nothing is cut off\<close>

lemma snprintk_fits: "length txt < n \<Longrightarrow> snprintk n txt = txt"
  by (simp add: snprintk_def)

lemma print_d_length:
  assumes "- (2 ^ 31) \<le> i" and "i < 2 ^ 31"
  shows "length (print_d i) \<le> (if i < 0 then 11 else 10)"
  using print_u_length[of "nat i" 9] print_u_length[of "nat (- i)" 9] assms by (simp add: print_d_def)

text \<open>
  The counter's text fits its buffer from -999999999 on, and no two counters that are not negative
  have the same; the smallest \<^verbatim>\<open>int\<close>s lose their last digit.
\<close>

lemma counter_text_fits:
  assumes "- (10 ^ 9) < i" and "i < 2 ^ 31"
  shows "counter_text i = print_d i"
proof -
  have "length (print_d i) \<le> 10"
    using print_u_length[of "nat i" 9] print_u_length[of "nat (- i)" 8] assms by (simp add: print_d_def)
  then show ?thesis by (simp add: counter_text_def snprintk_fits)
qed

lemma counter_text_value: "0 \<le> i \<Longrightarrow> i < 2 ^ 31 \<Longrightarrow> digits_value (counter_text i) = nat i"
  by (simp add: counter_text_fits) (simp add: print_d_def)

lemma counter_text_inject:
  assumes "0 \<le> i" "i < 2 ^ 31" "0 \<le> j" "j < 2 ^ 31" and "counter_text i = counter_text j"
  shows "i = j"
  using counter_text_value[OF assms(1,2)] counter_text_value[OF assms(3,4)] assms by simp

lemma temperature_text_fits:
  assumes "- (2 ^ 31) \<le> val1 t" and "val1 t < 2 ^ 31" and "\<bar>val2 t\<bar> < 10 ^ 6"
  shows "temperature_text t = print_d (val1 t) @ 0x2E # print_06u (nat \<bar>val2 t\<bar>)"
proof -
  have "length (print_06u (nat \<bar>val2 t\<bar>)) = 6" using assms(3) by (intro print_06u_length) (simp add: nat_less_iff)
  moreover have "length (print_d (val1 t)) \<le> 11" using print_d_length[OF assms(1,2)] by (simp split: if_splits)
  ultimately show ?thesis by (simp add: temperature_text_def snprintk_fits)
qed

section \<open>The temperatures\<close>

definition nth_temperature :: "nat \<Rightarrow> sensor_value" where
  "nth_temperature n = fst (get_temperature (((\<lambda>c. snd (get_temperature c)) ^^ n) 0))"

lemma print_d_int: "print_d (int n) = print_u n"
  by (simp add: print_d_def)

lemma temperature_counter: "((\<lambda>c. snd (get_temperature c)) ^^ n) 0 = int (n mod 20)"
proof (induction n)
  case (Suc n)
  have "(int (n mod 20) + 1) mod 20 = int (Suc n mod 20)" by (simp add: zmod_int mod_simps add.commute)
  with Suc show ?case by (simp add: get_temperature_def)
qed simp

text \<open>The number a text with a decimal point stands for, in millionths.\<close>

definition text_micro :: "u8 list \<Rightarrow> nat" where
  "text_micro t = digits_value (takeWhile (\<lambda>c. c \<noteq> 0x2E) t) * 10 ^ 6 +
     digits_value (drop 1 (dropWhile (\<lambda>c. c \<noteq> 0x2E) t))"

lemma print_u_no_dot: "c \<in> set (print_u n) \<Longrightarrow> c \<noteq> 0x2E"
  using print_u_digits by fastforce

text \<open>
  What is pushed reads as 20 degrees and half a degree more every time, up to 29.5, and from the
  start again.
\<close>

lemma temperature_texts:
  "text_micro (temperature_text (nth_temperature n)) = 20000000 + 500000 * (n mod 20)"
proof -
  define k where "k = n mod 20"
  have k: "k < 20" by (simp add: k_def)
  define v where "v = (if k mod 2 = 1 then 500000 else 0 :: nat)"
  have "(int k mod 2 = 1) = (k mod 2 = 1)" by presburger
  then have t: "nth_temperature n = \<lparr>val1 = int (20 + k div 2), val2 = int v\<rparr>"
    unfolding nth_temperature_def temperature_counter k_def[symmetric] by (simp add: get_temperature_def v_def zdiv_int)
  have "v < 10 ^ 6" by (simp add: v_def)
  with k have "temperature_text (nth_temperature n) = print_u (20 + k div 2) @ 0x2E # print_06u v"
    unfolding t by (subst temperature_text_fits) (simp_all only: print_d_int sensor_value.simps nat_int abs_of_nat, simp_all)
  then have "text_micro (temperature_text (nth_temperature n)) = (20 + k div 2) * 10 ^ 6 + v"
    by (simp add: text_micro_def print_u_no_dot)
  also have "\<dots> = 20000000 + 500000 * k" by (cases "k mod 2 = 1") (use mult_div_mod_eq[of 2 k] in \<open>simp_all add: v_def\<close>)
  finally show ?thesis by (simp add: k_def)
qed

text \<open>
  With a sensor that has an ambient temperature and no other, the value is read, and then dropped
  with the error of the second channel: the loop goes on after a success.
\<close>

lemma second_channel_error:
  assumes "sensor_sample_fetch sl e = (0, e1)" and "sensor_channel_get sl SENSOR_CHAN_AMBIENT_TEMP e1 = (0, v, e2)"
    and "sensor_channel_get sl SENSOR_CHAN_DIE_TEMP e2 = (- ENOTSUP, v2, e3)"
  shows "get_temperature_sensor sl val e = (- ENOTSUP, v, e3)"
  using assms by (simp add: get_temperature_sensor_def)

end
