(* ===== verification/Provisioning.thy ===== *)
theory Provisioning
  imports SystemClient
begin

text \<open>
  \<^verbatim>\<open>samples/certificate_provisioning\<close>: credentials read from a file system into memory that the
  TLS credential store keeps pointing to.

  The file system is a parameter. Memory is a map from addresses to sizes; a free of an address that
  is not allocated is a fault.
\<close>

record 'e prov_lib = "'e system_lib" +
  fs_stat :: "u8 list \<Rightarrow> 'e \<Rightarrow> int \<times> bool \<times> nat \<times> 'e"
    \<comment> \<open>error, whether it is a file, its size\<close>
  fs_open :: "u8 list \<Rightarrow> 'e \<Rightarrow> int \<times> 'e"
  fs_read :: "u8 list \<Rightarrow> nat \<Rightarrow> 'e \<Rightarrow> int \<times> u8 list \<times> 'e"
  fs_close :: "u8 list \<Rightarrow> 'e \<Rightarrow> int \<times> 'e"

record 'e prov =
  pv_env :: 'e
  pv_heap :: "ptr \<rightharpoonup> nat"
  pv_next :: ptr
  pv_open :: nat
  pv_fault :: bool

definition prov_malloc :: "('e, 'x) system_lib_scheme \<Rightarrow> nat \<Rightarrow> 'e prov \<Rightarrow> ptr option \<times> 'e prov" where
  "prov_malloc lib n s =
     (case sys_malloc lib n (pv_env s) of
        (ok, e) \<Rightarrow>
          let s1 = s\<lparr>pv_env := e\<rparr>
          in if ok then (Some (pv_next s1), s1\<lparr>pv_heap := (pv_heap s1)(pv_next s1 \<mapsto> n), pv_next := Suc (pv_next s1)\<rparr>)
             else (None, s1))"

definition prov_free :: "ptr \<Rightarrow> 'e prov \<Rightarrow> 'e prov" where
  "prov_free p s = (if pv_heap s p = None then s\<lparr>pv_fault := True\<rparr> else s\<lparr>pv_heap := (pv_heap s)(p := None)\<rparr>)"

text \<open>The label \<^verbatim>\<open>finish_with_file\<close>.\<close>

definition finish_with_file ::
  "('e, 'x) prov_lib_scheme \<Rightarrow> u8 list \<Rightarrow> int \<times> 'e prov \<Rightarrow> int \<times> 'e prov" where
  "finish_with_file lib path r =
     (case r of (err, s) \<Rightarrow> (err, s\<lparr>pv_env := snd (fs_close lib path (pv_env s)), pv_open := pv_open s - 1\<rparr>))"

definition load_credential_from_fs ::
  "('e, 'x) prov_lib_scheme \<Rightarrow> ('s) system_conf_scheme \<Rightarrow> u8 list \<Rightarrow> cred_type \<Rightarrow> 'e prov \<Rightarrow> int \<times> 'e prov" where
  "load_credential_from_fs lib sc path type s =
     (case fs_stat lib path (pv_env s) of
        (err, is_file, fsize, e) \<Rightarrow>
          let s1 = s\<lparr>pv_env := e\<rparr>
          in if err < 0 then (err, s1)
             else if \<not> is_file then (- EISDIR, s1)
             else if fsize = 0 then (- EINVAL, s1)
             else
               (case fs_open lib path (pv_env s1) of
                  (err, e) \<Rightarrow>
                    if err < 0 then (err, s1\<lparr>pv_env := e\<rparr>)
                    else
                      finish_with_file lib path
                        (case prov_malloc lib fsize (s1\<lparr>pv_env := e, pv_open := Suc (pv_open s1)\<rparr>) of
                           (None, s2) \<Rightarrow> (- ENOMEM, s2)
                         | (Some cred_buf, s2) \<Rightarrow>
                             (case fs_read lib path fsize (pv_env s2) of
                                (err, bytes, e) \<Rightarrow>
                                  let s3 = s2\<lparr>pv_env := e\<rparr>
                                  in if err < 0 then (err, prov_free cred_buf s3)
                                     else
                                       (case tls_credential_add lib (sconf_tag sc) type (take (nat err) bytes) (pv_env s3) of
                                          (err, e) \<Rightarrow>
                                            let s4 = s3\<lparr>pv_env := e\<rparr>
                                            in (err, if err < 0 then prov_free cred_buf s4 else s4))))))"

text \<open>Up to \<^verbatim>\<open>net_connect\<close>; errors are logged.\<close>

definition provisioning_start ::
  "('e, 'x) prov_lib_scheme \<Rightarrow> ('s) system_conf_scheme \<Rightarrow> ('e \<Rightarrow> int \<times> 'e) \<Rightarrow> 'e prov \<Rightarrow> 'e prov" where
  "provisioning_start lib sc fs_mount s =
     (let s1 = s\<lparr>pv_env := snd (fs_mount (pv_env s))\<rparr>;
          s2 = snd (load_credential_from_fs lib sc (ascii ''/lfs1/credentials/client_cert.der'')
                 TLS_CREDENTIAL_SERVER_CERTIFICATE s1)
      in snd (load_credential_from_fs lib sc (ascii ''/lfs1/credentials/private_key.der'') TLS_CREDENTIAL_PRIVATE_KEY s2))"

section \<open>Memory and files\<close>

definition prov_ok :: "'e prov \<Rightarrow> bool" where
  "prov_ok s \<longleftrightarrow> \<not> pv_fault s \<and> (\<forall>p\<ge>pv_next s. pv_heap s p = None)"

text \<open>
  C27. On every path the file is closed that was opened, what was allocated before is untouched, and the
  buffer is kept exactly when the credential store has taken it: then it has been given what was
  read. Without an error, the store has taken it.
\<close>

lemma load_credential_no_leak:
  assumes "prov_ok s" and "load_credential_from_fs lib sc path ty s = (err, s')"
  shows "prov_ok s' \<and> pv_open s' = pv_open s \<and>
    (if err < 0 then pv_heap s' = pv_heap s
     else \<exists>fsize n bytes e1 e2 e3. pv_heap s' = (pv_heap s)(pv_next s \<mapsto> fsize) \<and> 0 < fsize \<and>
       fs_read lib path fsize e1 = (int n, bytes, e2) \<and>
       tls_credential_add lib (sconf_tag sc) ty (take n bytes) e2 = (err, e3))"
proof -
  obtain err1 is_file fsize e1 where st: "fs_stat lib path (pv_env s) = (err1, is_file, fsize, e1)" by (metis prod_cases4)
  obtain err2 e2 where op: "fs_open lib path e1 = (err2, e2)" by fastforce
  obtain ok e3 where ma: "sys_malloc lib fsize e2 = (ok, e3)" by fastforce
  obtain err4 bytes e4 where rd: "fs_read lib path fsize e3 = (err4, bytes, e4)" by (metis prod_cases3)
  obtain err5 e5 where ad: "tls_credential_add lib (sconf_tag sc) ty (take (nat err4) bytes) e4 = (err5, e5)" by fastforce
  note [simp] = load_credential_from_fs_def Let_def finish_with_file_def prov_malloc_def prov_free_def prov_ok_def
  consider "err1 < 0 \<or> \<not> is_file \<or> fsize = 0 \<or> err2 < 0"
    | "\<not> err1 < 0" is_file "0 < fsize" "\<not> err2 < 0" "\<not> ok \<or> err4 < 0"
    | "\<not> err1 < 0" is_file "0 < fsize" "\<not> err2 < 0" ok "\<not> err4 < 0" by blast
  then show ?thesis
  proof cases
    case 1
    with assms st op show ?thesis by (auto split: if_splits)
  next
    case 2
    with assms st op ma rd show ?thesis by (auto split: if_splits)
  next
    case 3
    then have n: "err4 = int (nat err4)" by simp
    have r: "fs_read lib path fsize e3 = (int (nat err4), bytes, e4)" using rd n by metis
    have res: "err = err5" "prov_ok s'" "pv_open s' = pv_open s"
      "pv_heap s' = (if err5 < 0 then pv_heap s else (pv_heap s)(pv_next s \<mapsto> fsize))"
      by (cases "err5 < 0"; use 3 assms st op ma rd ad in auto)+
    have "\<exists>k n bs ea eb ec. pv_heap s' = (pv_heap s)(pv_next s \<mapsto> k) \<and> 0 < k \<and> fs_read lib path k ea = (int n, bs, eb) \<and>
        tls_credential_add lib (sconf_tag sc) ty (take n bs) eb = (err, ec)" if "\<not> err < 0"
      using that res 3(3) r ad by (intro exI[of _ fsize] exI[of _ "nat err4"] exI[of _ bytes] exI[of _ e3] exI[of _ e4] exI[of _ e5])
        (simp del: int_nat_eq)
    with res show ?thesis by (simp del: prov_ok_def)
  qed
qed

end
