(* ===== verification/ReadSamples.thy ===== *)
theory ReadSamples
  imports SystemClient
begin

text \<open>
  Small applications: \<^verbatim>\<open>samples/lightdb/get\<close>, \<^verbatim>\<open>delete\<close> and \<^verbatim>\<open>observe\<close>, \<^verbatim>\<open>samples/hello\<close> and
  \<^verbatim>\<open>hello_sporadic\<close>, and the function they all wait in first, \<^verbatim>\<open>samples/common/net_connect.c\<close>.

  Main loops are cut where the thread sleeps or takes a semaphore.
\<close>

section \<open>samples/common/net\_connect.c\<close>

datatype net_event = NET_EVENT_IPV4_ADDR_ADD | Net_event nat

text \<open>\<^verbatim>\<open>struct wait_data\<close>: the semaphore, and the event of the callback while it is registered.\<close>

record 'e wait_data =
  wd_sem :: nat
  wd_cb :: "net_event option"
  wd_env :: 'e

definition event_cb_handler :: "net_event \<Rightarrow> 'e wait_data \<Rightarrow> 'e wait_data" where
  "event_cb_handler mgmt_event wait = (if wd_cb wait = Some mgmt_event then wait\<lparr>wd_sem := 1\<rparr> else wait)"

text \<open>\<^verbatim>\<open>wait_for_net_event\<close>, up to its wait and from there; \<open>None\<close> still waits.\<close>

definition wait_for_net_event_begin :: "net_event \<Rightarrow> 'e wait_data \<Rightarrow> 'e wait_data" where
  "wait_for_net_event_begin event wait = wait\<lparr>wd_sem := 0, wd_cb := Some event\<rparr>"

definition wait_for_net_event_end :: "'e wait_data \<Rightarrow> 'e wait_data option" where
  "wait_for_net_event_end wait = (if wd_sem wait = 0 then None else Some (wait\<lparr>wd_sem := 0, wd_cb := None\<rparr>))"

definition net_connect :: "('e \<Rightarrow> 'e) \<Rightarrow> bool \<Rightarrow> 'e wait_data \<Rightarrow> 'e wait_data" where
  "net_connect net_dhcpv4_start conf_dhcp_bind wait =
     wait_for_net_event_begin NET_EVENT_IPV4_ADDR_ADD
       (if conf_dhcp_bind then wait\<lparr>wd_env := net_dhcpv4_start (wd_env wait)\<rparr> else wait)"

section \<open>samples/lightdb/get, delete, observe\<close>

definition read_counter_handler :: "golioth_req_rsp \<Rightarrow> 'e world \<Rightarrow> int \<times> 'e world" where
  "read_counter_handler rsp w = (if rsp_err rsp \<noteq> 0 then (rsp_err rsp, w) else (0, w))"

definition counter_get_async :: "('e, 'x) sys_scheme \<Rightarrow> 'e world \<Rightarrow> 'e world" where
  "counter_get_async sys w =
     snd (golioth_lightdb_get_cb sys (ascii ''counter'') GOLIOTH_CONTENT_FORMAT_APP_JSON (Some (App_cb 0)) UD_null w)"

text \<open>\<open>stack\<close> is what the array \<^verbatim>\<open>value\<close> holds before; the result has the bytes that are logged.\<close>

definition counter_get_sync ::
  "('e, 'x) sys_scheme \<Rightarrow> ('e world \<Rightarrow> 'e world) \<Rightarrow> ptr \<Rightarrow> ptr \<Rightarrow> u8 list \<Rightarrow> 'e world
     \<Rightarrow> (u8 list \<times> 'e world) option" where
  "counter_get_sync sys wait p d stack w =
     (case golioth_lightdb_get sys wait p d (ascii ''counter'') GOLIOTH_CONTENT_FORMAT_APP_JSON stack w of
        None \<Rightarrow> None
      | Some (err, len, w1) \<Rightarrow> Some (take len (pre_data (w_preallocs w1 d)), w1))"

definition counter_delete_async :: "('e, 'x) sys_scheme \<Rightarrow> 'e world \<Rightarrow> 'e world" where
  "counter_delete_async sys w =
     snd (golioth_lightdb_delete_cb sys (ascii ''counter'') (Some (App_cb 0)) UD_null w)"

definition counter_delete_sync ::
  "('e, 'x) sys_scheme \<Rightarrow> ('e world \<Rightarrow> 'e world) \<Rightarrow> ptr \<Rightarrow> 'e world \<Rightarrow> 'e world option" where
  "counter_delete_sync sys wait p w =
     map_option snd (golioth_lightdb_delete sys wait p (ascii ''counter'') w)"

definition counter_on_connect :: "('e, 'x) sys_scheme \<Rightarrow> 'e world \<Rightarrow> 'e world" where
  "counter_on_connect sys w =
     snd (golioth_lightdb_observe_cb sys (ascii ''counter'') GOLIOTH_CONTENT_FORMAT_APP_JSON (Some (App_cb 0)) UD_null w)"

definition observe_sample_app :: "('e, 'x) sys_scheme \<Rightarrow> 'e app" where
  "observe_sample_app sys = \<lparr>app_cb = (\<lambda>i nb rsp w. read_counter_handler rsp w), app_setting = (\<lambda>i key v w. (0, w)),
     app_rpc = (\<lambda>i st enc a w. (0, enc, w)), app_on_connect = (\<lambda>i. counter_on_connect sys)\<rparr>"

section \<open>samples/hello and hello\_sporadic\<close>

record hello_env =
  hello_connected :: nat

definition hello_on_connect :: "('z) hello_env_scheme world \<Rightarrow> ('z) hello_env_scheme world" where
  "hello_on_connect w = upd_env (\<lambda>e. e\<lparr>hello_connected := 1\<rparr>) w"

definition hello_wait :: "('z) hello_env_scheme system \<Rightarrow> ('z) hello_env_scheme system option" where
  "hello_wait s =
     (let n = hello_connected (w_env (sy_world s))
      in if n = 0 then None else Some (s\<lparr>sy_world := upd_env (\<lambda>e. e\<lparr>hello_connected := n - 1\<rparr>) (sy_world s)\<rparr>))"

text \<open>The body of the loop of \<^verbatim>\<open>samples/hello\<close>; a failure is logged.\<close>

definition hello_loop :: "('e, 'x) system_lib_scheme \<Rightarrow> int \<times> 'e system \<Rightarrow> int \<times> 'e system" where
  "hello_loop lib r =
     (case r of (counter, s) \<Rightarrow> (counter + 1, s\<lparr>sy_world := snd (golioth_send_hello lib (sy_world s))\<rparr>))"

text \<open>The loop of \<^verbatim>\<open>samples/hello_sporadic\<close> starts the client, waits, sends, stops the client, and sleeps.\<close>

datatype sporadic_pc = Sporadic_start | Sporadic_take | Sporadic_send

definition sporadic_step ::
  "(('z) hello_env_scheme, 'x) system_lib_scheme \<Rightarrow> ('s) system_conf_scheme
     \<Rightarrow> sporadic_pc \<times> int \<times> ('z) hello_env_scheme system
     \<Rightarrow> (sporadic_pc \<times> int \<times> ('z) hello_env_scheme system) option" where
  "sporadic_step lib sc r =
     (case r of (pc, counter, s) \<Rightarrow>
        case pc of
          Sporadic_start \<Rightarrow> Some (Sporadic_take, counter, golioth_system_client_start lib sc s)
        | Sporadic_take \<Rightarrow> map_option (\<lambda>s1. (Sporadic_send, counter, s1)) (hello_wait s)
        | Sporadic_send \<Rightarrow>
            (let s1 = s\<lparr>sy_world := snd (golioth_send_hello lib (sy_world s))\<rparr>
             in Some (Sporadic_start, counter + 1, golioth_system_client_stop s1)))"

section \<open>Waiting for the network\<close>

lemma events_unregistered: "wd_cb s = None \<Longrightarrow> fold event_cb_handler evs s = s"
  by (induction evs) (simp_all add: event_cb_handler_def)

lemma events_registered:
  assumes "wd_cb s = Some ev"
  shows "fold event_cb_handler evs s = (if ev \<in> set evs then s\<lparr>wd_sem := 1\<rparr> else s)"
  using assms by (induction evs arbitrary: s) (auto simp: event_cb_handler_def)

text \<open>
  The wait ends exactly when an address comes after the callback has been registered: a device that
  has its address before waits for ever.
\<close>

lemma net_connect_returns:
  assumes "wd_cb s = None"
  shows "wait_for_net_event_end (fold event_cb_handler after (net_connect dhcp conf (fold event_cb_handler before s))) \<noteq> None
    \<longleftrightarrow> NET_EVENT_IPV4_ADDR_ADD \<in> set after"
  by (simp add: events_unregistered[OF assms] net_connect_def wait_for_net_event_begin_def events_registered
      wait_for_net_event_end_def)

section \<open>Lawful applications\<close>

lemma observe_sample_app_ok:
  fixes sys :: "('e, 'x) sys_scheme"
  assumes "coap_lib_ok sys"
  shows "app_ok (observe_sample_app sys)"
proof -
  have "cb_step w (counter_on_connect sys w)" if "world_ok w" for w :: "'e world"
    using golioth_coap_req_cb_step[OF that assms _ prod.collapse[symmetric]]
    by (simp add: counter_on_connect_def golioth_lightdb_observe_cb_def golioth_coap_req_lightdb_cb_def)
  then show ?thesis by (simp add: app_ok_def observe_sample_app_def read_counter_handler_def)
qed

text \<open>
  The sporadic sample is made of steps that other threads may take at any time, so what holds of
  every run of the system holds while it runs.
\<close>

lemma hello_frame: "golioth_send_hello sys w = (e, w') \<Longrightarrow> same_but_env w w'"
  by (auto simp: golioth_send_hello_def split: prod.splits if_splits
      dest!: golioth_send_coap_frame same_but_env_read intro: same_but_env_trans)

lemma hello_cb_step:
  assumes "world_ok w"
  shows "cb_step w (snd (golioth_send_hello lib w))" and "cb_step w (upd_env f w)"
  using assms hello_frame[of lib w, OF prod.collapse[symmetric]] by (simp_all add: cb_step_same_but_env)

lemma sporadic_step_lawful:
  assumes "world_ok (sy_world s)" and "sporadic_step lib sc (pc, n, s) = Some (pc', n', s')"
  shows "s' = s \<or> other_step lib sc s s' \<or> (\<exists>s1. other_step lib sc s s1 \<and> other_step lib sc s1 s')"
proof (cases pc)
  case Sporadic_start
  with assms(2) show ?thesis by (auto simp: sporadic_step_def intro: other_start)
next
  case Sporadic_take
  with assms show ?thesis
    by (auto simp: sporadic_step_def hello_wait_def Let_def intro!: other_request hello_cb_step split: if_splits)
next
  case Sporadic_send
  have "other_step lib sc s (s\<lparr>sy_world := snd (golioth_send_hello lib (sy_world s))\<rparr>)"
    by (rule other_request[OF hello_cb_step(1)[OF assms(1)]])
  with Sporadic_send assms(2) show ?thesis by (auto simp: sporadic_step_def Let_def intro: other_stop)
qed

section \<open>What a failed get logs\<close>

text \<open>While there is no connection, a get fails, and what is logged is what was on the stack.\<close>

lemma failed_get_logs_stack:
  assumes "fresh_ok w" and "coap_lib_ok sys" and "\<not> is_connected w"
  shows "\<exists>w'. counter_get_sync sys wait p d stack w = Some (stack, w')"
proof -
  let ?pre = "\<lparr>pre_data = stack, pre_capacity = length stack, pre_len = 0, pre_overrun = False\<rparr>"
  let ?w = "w\<lparr>w_preallocs := (w_preallocs w)(d := ?pre), w_syncs := (w_syncs w)(p := \<lparr>sync_sem = 0, sync_err = 0,
    sync_cb = Some Golioth_lightdb_get_prealloc_cb, sync_user_data = UD_prealloc d\<rparr>)\<rparr>"
  obtain err w' where c: "golioth_coap_req_cb sys COAP_METHOD_GET [LIGHTDB_PATH, ascii ''counter'']
      GOLIOTH_CONTENT_FORMAT_APP_JSON [] (Some Golioth_req_sync_cb) (UD_sync p) 0 ?w = (err, w')" by fastforce
  have "fresh_ok ?w" using assms(1) by (simp add: fresh_ok_def)
  from golioth_coap_req_cb_spec[OF this assms(2) c] assms(3) have "err \<noteq> 0" "only_env ?w w'" by auto
  then have "err \<noteq> 0" "w_preallocs w' d = ?pre" by (simp_all add: only_envD)
  with c show ?thesis
    by (simp add: counter_get_sync_def golioth_lightdb_get_def golioth_coap_req_lightdb_sync_def golioth_coap_req_sync_def
        golioth_coap_req_sync_begin_def del: ascii_simps)
qed

end
