(* ===== verification/ShellSettings.thy ===== *)
theory ShellSettings
  imports Prelude
begin

text \<open>
  \<^verbatim>\<open>samples/common/settings_shell.c\<close>: the shell commands that set, get and list settings.

  Zephyr's settings subsystem is a parameter, with the storage in the environment. What the commands
  print is a list of lines, each with the kind it is printed as.
\<close>

section \<open>The settings subsystem and the shell\<close>

text \<open>
  A stored setting, as the loader gives it to a callback: the rest of its name behind the subtree that is
  loaded, the length of its value, and the function that reads up to a number of bytes of it (an
  error, or their number, and the bytes). All callbacks here return 0, so the loader goes on.
\<close>

record stored_setting =
  set_key :: "u8 list"
  set_len :: nat
  set_read :: "nat \<Rightarrow> int \<times> u8 list"

record 'e settings_lib =
  settings_runtime_set :: "u8 list \<Rightarrow> u8 list \<Rightarrow> 'e \<Rightarrow> int \<times> 'e"
  settings_save_one :: "u8 list \<Rightarrow> u8 list \<Rightarrow> 'e \<Rightarrow> int \<times> 'e"
  settings_load_subtree_direct :: "u8 list option \<Rightarrow> 'e \<Rightarrow> int \<times> stored_setting list"
  settings_name_next :: "u8 list \<Rightarrow> int"

datatype shell_line =
    Shell_normal "u8 list"
  | Shell_error "u8 list"
  | Shell_warn "u8 list"
  | Shell_help

record 'e shell =
  sh_env :: 'e
  sh_out :: "shell_line list"

definition shell_say :: "shell_line \<Rightarrow> 'e shell \<Rightarrow> 'e shell" where
  "shell_say l s = s\<lparr>sh_out := sh_out s @ [l]\<rparr>"

lemma shell_say_sel [simp]: "sh_env (shell_say l s) = sh_env s" "sh_out (shell_say l s) = sh_out s @ [l]"
  by (simp_all add: shell_say_def)

abbreviation (input) SETTINGS_MAX_VAL_LEN :: nat where "SETTINGS_MAX_VAL_LEN \<equiv> 256"

definition shell_quoted :: "u8 list \<Rightarrow> u8 list" where
  "shell_quoted s = 0x22 # s @ [0x22]"

text \<open>\<^verbatim>\<open>shell_json_fprintf\<close>, without the newline; the text is not escaped.\<close>

definition shell_json_text :: "u8 list \<Rightarrow> bool \<Rightarrow> u8 list \<Rightarrow> u8 list \<Rightarrow> u8 list" where
  "shell_json_text status json_output msg_type txt =
     (if json_output then
        ascii ''{'' @ shell_quoted (ascii ''status'') @ ascii '': '' @ shell_quoted status @ ascii '', '' @
        shell_quoted msg_type @ ascii '': '' @ shell_quoted txt @ ascii ''}''
      else txt)"

definition shell_json_print :: "bool \<Rightarrow> u8 list \<Rightarrow> u8 list \<Rightarrow> 'e shell \<Rightarrow> 'e shell" where
  "shell_json_print json_output msg_type txt =
     shell_say (Shell_normal (shell_json_text (ascii ''success'') json_output msg_type txt))"

definition shell_json_error :: "bool \<Rightarrow> u8 list \<Rightarrow> 'e shell \<Rightarrow> 'e shell" where
  "shell_json_error json_output txt =
     shell_say (Shell_error (shell_json_text (ascii ''failed'') json_output (ascii ''msg'') txt))"

section \<open>The commands\<close>

definition cmd_settings_set ::
  "('e, 'x) settings_lib_scheme \<Rightarrow> bool \<Rightarrow> u8 list list \<Rightarrow> 'e shell \<Rightarrow> int \<times> 'e shell" where
  "cmd_settings_set lib conf_settings_runtime argv s =
     (if length argv < 3
      then (- ENOEXEC, shell_say Shell_help (shell_say (Shell_warn (ascii ''Wrong number of arguments'')) s))
      else
        (let json_output = (length argv \<ge> 4 \<and> argv ! 3 = ascii ''--json'');
             name = argv ! 1; val = argv ! 2;
             s1 = shell_say (Shell_normal (ascii ''Setting '' @ name @ ascii '' to '' @ val)) s
         in case (if conf_settings_runtime then settings_runtime_set lib name val (sh_env s1) else (0, sh_env s1)) of
              (err, e) \<Rightarrow>
                (let s2 = s1\<lparr>sh_env := e\<rparr>
                 in if err \<noteq> 0
                    then (- ENOEXEC, shell_json_error json_output
                            (ascii ''Failed to set runtime setting: '' @ name @ ascii '':'' @ val) s2)
                    else
                      (case settings_save_one lib name val (sh_env s2) of
                         (err, e) \<Rightarrow>
                           (let s3 = s2\<lparr>sh_env := e\<rparr>
                            in if err \<noteq> 0
                               then (- ENOEXEC, shell_json_error json_output
                                       (ascii ''Failed to save setting '' @ name @ ascii '':'' @ val) s3)
                               else (0, shell_json_print json_output (ascii ''msg'')
                                       (ascii ''Setting '' @ name @ ascii '' saved as '' @ val) s3))))))"

text \<open>The state of the callback is \<^verbatim>\<open>value_found\<close> and the shell.\<close>

definition settings_read_callback ::
  "('e, 'x) settings_lib_scheme \<Rightarrow> bool \<Rightarrow> stored_setting \<Rightarrow> bool \<times> 'e shell \<Rightarrow> bool \<times> 'e shell" where
  "settings_read_callback lib json_output st params =
     (if settings_name_next lib (set_key st) \<noteq> 0 then params
      else
        (case set_read st (min (set_len st) SETTINGS_MAX_VAL_LEN) of
           (num_read_bytes, buffer) \<Rightarrow>
             if num_read_bytes < 0
             then (True, shell_json_error json_output (ascii ''Failed to read value: '' @ print_d num_read_bytes) (snd params))
             else
               (let s1 = shell_json_print json_output (ascii ''value'')
                           (takeWhile (\<lambda>c. c \<noteq> 0) (take (nat num_read_bytes) buffer)) (snd params)
                in (True, if set_len st > SETTINGS_MAX_VAL_LEN
                          then shell_say (Shell_normal (ascii ''(The output has been truncated)'')) s1 else s1))))"

definition cmd_settings_get ::
  "('e, 'x) settings_lib_scheme \<Rightarrow> u8 list list \<Rightarrow> 'e shell \<Rightarrow> int \<times> 'e shell" where
  "cmd_settings_get lib argv s =
     (let name = argv ! 1; json_output = (length argv \<ge> 3 \<and> argv ! 2 = ascii ''--json'')
      in case settings_load_subtree_direct lib (Some name) (sh_env s) of
           (err, settings) \<Rightarrow>
             (case fold (settings_read_callback lib json_output) settings (False, s) of
                (value_found, s1) \<Rightarrow>
                  (0, if err \<noteq> 0 then shell_json_error json_output (ascii ''Failed to load settings: '' @ print_d err) s1
                      else if \<not> value_found then shell_json_error json_output (ascii ''Setting not found'') s1
                      else s1)))"

definition settings_list_callback :: "stored_setting \<Rightarrow> 'e shell \<Rightarrow> 'e shell" where
  "settings_list_callback st = shell_say (Shell_normal (set_key st))"

definition cmd_settings_list :: "('e, 'x) settings_lib_scheme \<Rightarrow> u8 list list \<Rightarrow> 'e shell \<Rightarrow> int \<times> 'e shell" where
  "cmd_settings_list lib argv s =
     (case settings_load_subtree_direct lib None (sh_env s) of
        (err, settings) \<Rightarrow>
          (let s1 = fold settings_list_callback settings s
           in (0, if err \<noteq> 0 then shell_say (Shell_error (ascii ''Failed to load settings: '' @ print_d err)) s1 else s1)))"

section \<open>A store\<close>

text \<open>
  What the documentation promises of the subsystem: the environment stands for a map of names to
  values; saving changes one entry or fails; setting at run time leaves the store alone; loading a subtree
  gives the setting of that name, with an empty rest of the name, and otherwise only settings
  with a longer name; a value can be read.
\<close>

definition reads_value :: "stored_setting \<Rightarrow> u8 list \<Rightarrow> bool" where
  "reads_value st v \<longleftrightarrow> set_len st = length v \<and> (\<forall>n. set_read st n = (int (min n (length v)), take n v))"

definition loads_exactly :: "('e, 'x) settings_lib_scheme \<Rightarrow> u8 list option \<Rightarrow> stored_setting list \<Rightarrow> bool" where
  "loads_exactly lib v found \<longleftrightarrow>
     (\<exists>before exact after. found = before @ exact @ after \<and>
        (\<forall>st \<in> set before. settings_name_next lib (set_key st) \<noteq> 0) \<and>
        (\<forall>st \<in> set after. settings_name_next lib (set_key st) \<noteq> 0) \<and>
        (case v of
           None \<Rightarrow> exact = []
         | Some v \<Rightarrow> \<exists>st. exact = [st] \<and> settings_name_next lib (set_key st) = 0 \<and> reads_value st v))"

definition store_ok :: "('e, 'x) settings_lib_scheme \<Rightarrow> ('e \<Rightarrow> u8 list \<Rightarrow> u8 list option) \<Rightarrow> bool" where
  "store_ok lib store \<longleftrightarrow>
     (\<forall>name v e e'. settings_save_one lib name v e = (0, e') \<longrightarrow> store e' = (store e)(name := Some v)) \<and>
     (\<forall>name v e. store (snd (settings_runtime_set lib name v e)) = store e) \<and>
     (\<forall>name e. fst (settings_load_subtree_direct lib (Some name) e) = 0 \<and>
        loads_exactly lib (store e name) (snd (settings_load_subtree_direct lib (Some name) e)))"

text \<open>The value as it is printed: the C string in the first 256 bytes.\<close>

definition printed_value :: "u8 list \<Rightarrow> u8 list" where
  "printed_value v = takeWhile (\<lambda>c. c \<noteq> 0) (take SETTINGS_MAX_VAL_LEN v)"

definition get_lines :: "bool \<Rightarrow> u8 list option \<Rightarrow> shell_line list" where
  "get_lines json_output v =
     (case v of
        None \<Rightarrow> [Shell_error (shell_json_text (ascii ''failed'') json_output (ascii ''msg'') (ascii ''Setting not found''))]
      | Some v \<Rightarrow> Shell_normal (shell_json_text (ascii ''success'') json_output (ascii ''value'') (printed_value v)) #
          (if length v > SETTINGS_MAX_VAL_LEN then [Shell_normal (ascii ''(The output has been truncated)'')] else []))"

lemma read_callback_others:
  assumes "\<forall>st \<in> set sts. settings_name_next lib (set_key st) \<noteq> 0"
  shows "fold (settings_read_callback lib json) sts p = p"
  using assms by (induction sts arbitrary: p) (auto simp: settings_read_callback_def)

lemma read_callback_exact:
  assumes "settings_name_next lib (set_key st) = 0" and "reads_value st v"
  shows "settings_read_callback lib json st (found, s) = (True, s\<lparr>sh_out := sh_out s @ get_lines json (Some v)\<rparr>)"
  using assms
  by (simp add: settings_read_callback_def reads_value_def get_lines_def printed_value_def shell_json_print_def
      shell_say_def Let_def del: ascii_simps)

lemma settings_get_prints:
  assumes "store_ok lib store"
  shows "cmd_settings_get lib argv s =
    (0, s\<lparr>sh_out := sh_out s @ get_lines (length argv \<ge> 3 \<and> argv ! 2 = ascii ''--json'') (store (sh_env s) (argv ! 1))\<rparr>)"
proof -
  let ?json = "length argv \<ge> 3 \<and> argv ! 2 = ascii ''--json''" and ?v = "store (sh_env s) (argv ! 1)"
  obtain err found where l: "settings_load_subtree_direct lib (Some (argv ! 1)) (sh_env s) = (err, found)" by fastforce
  with assms have "err = 0" "loads_exactly lib ?v found" unfolding store_ok_def by (metis fst_conv, metis snd_conv)
  then obtain before exact after where f: "err = 0" "found = before @ exact @ after"
    "\<forall>st \<in> set before. settings_name_next lib (set_key st) \<noteq> 0" "\<forall>st \<in> set after. settings_name_next lib (set_key st) \<noteq> 0"
    and x: "case ?v of None \<Rightarrow> exact = []
      | Some v \<Rightarrow> \<exists>st. exact = [st] \<and> settings_name_next lib (set_key st) = 0 \<and> reads_value st v"
    unfolding loads_exactly_def by auto
  have run: "fold (settings_read_callback lib json) found p = fold (settings_read_callback lib json) exact p" for json p
    by (simp add: f(2) read_callback_others[OF f(3)] read_callback_others[OF f(4)])
  show ?thesis
  proof (cases ?v)
    case None
    with x l f(1) show ?thesis
      by (simp add: cmd_settings_get_def Let_def run shell_json_error_def shell_say_def get_lines_def del: ascii_simps)
  next
    case (Some v)
    with x obtain st where "exact = [st]" "settings_name_next lib (set_key st) = 0" "reads_value st v" by auto
    with Some l f(1) show ?thesis
      by (simp add: cmd_settings_get_def Let_def run read_callback_exact del: ascii_simps)
  qed
qed


end
