(* ===== verification/SampleInputs.thy ===== *)
theory SampleInputs
  imports Instance WifiPhases CredentialSettings Dfu ServiceSamples DataSamples Provisioning ReadSamples ShellSettings
begin

text \<open>
  The properties of the samples at concrete inputs: a network whose link is up, credentials, a flash
  area of eight bytes, and the update sample on a device whose sockets work.
\<close>

section \<open>The WiFi manager\<close>

text \<open>The environment collects the requests to connect.\<close>

definition demo_wifi :: "wifi_connect_req_params list wifi_lib" where
  "demo_wifi = \<lparr>net_if_lower_up = (\<lambda>e. True), net_mgmt_connect = (\<lambda>p e. (0, e @ [p])),
     net_mgmt_disconnect = (\<lambda>e. (0, e))\<rparr>"

definition demo_manager :: "wifi_connect_req_params list wifi_manager" where
  "demo_manager = zero_manager [0x6e] [0x70] []"

theorem wifi_runs_ok_witness:
  "manager_ok (wifi_event_handle demo_wifi ((wifi_manager_init demo_manager)\<lparr>wm_queue := []\<rparr>))"
proof -
  have "wm_queue (wifi_manager_init demo_manager) = [Event_work]" "wm_resume (wifi_manager_init demo_manager) = None"
    by (simp_all add: wifi_manager_init_def demo_manager_def zero_manager_def)
  then have "wifi_reaches demo_wifi (\<lambda>_. True) (wifi_manager_init demo_manager)
      (wifi_event_handle demo_wifi ((wifi_manager_init demo_manager)\<lparr>wm_queue := []\<rparr>))"
    by (intro wifi_work[OF wifi_refl] step_event) simp_all
  from wifi_runs_ok[OF this[unfolded demo_manager_def]] show ?thesis by (simp add: demo_manager_def)
qed

theorem link_up_connects_witness:
  "\<exists>n m'. n \<le> 3 \<and> (wifi_step demo_wifi ^^ n) (wifi_manager_init demo_manager) m' \<and>
     wm_env m' = [\<lparr>wp_ssid = [0x6e], wp_psk = [0x70], wp_security_psk = True\<rparr>]"
proof -
  have "starting (wifi_manager_init demo_manager)" "net_if_lower_up demo_wifi (wm_env (wifi_manager_init demo_manager))"
    "snd (net_mgmt_connect demo_wifi (connect_params (wifi_manager_init demo_manager)) (wm_env (wifi_manager_init demo_manager))) =
       [\<lparr>wp_ssid = [0x6e], wp_psk = [0x70], wp_security_psk = True\<rparr>]"
    by (simp_all add: starting_def wifi_manager_init_def demo_manager_def zero_manager_def demo_wifi_def connect_params_def)
  with link_up_connects[OF wifi_refl, of "[0x6e]" "[0x70]" "[]" demo_wifi] show ?thesis
    unfolding demo_manager_def by metis
qed

definition demo_connecting :: "wifi_connect_req_params list wifi_manager" where
  "demo_connecting = demo_manager\<lparr>wm_state := WIFI_STATE_CONNECTING, wm_net_state := 2, wm_net_state_old := 2\<rparr>"

theorem failed_connection_retried_witness:
  "\<exists>m'. (wifi_step demo_wifi ^^ 3) (wifi_mgmt_event_handler (Wifi_connect_result 1) demo_connecting) m' \<and>
    wm_env m' = [\<lparr>wp_ssid = [0x6e], wp_psk = [0x70], wp_security_psk = True\<rparr>]"
proof -
  have "snd (net_mgmt_connect demo_wifi (connect_params demo_connecting) (wm_env demo_connecting)) =
      [\<lparr>wp_ssid = [0x6e], wp_psk = [0x70], wp_security_psk = True\<rparr>]"
    by (simp add: demo_connecting_def demo_manager_def zero_manager_def demo_wifi_def connect_params_def)
  with failed_connection_retried[of demo_connecting 1 demo_wifi] show ?thesis
    by (simp add: demo_connecting_def demo_manager_def zero_manager_def)
qed

theorem early_address_stalls_witness:
  "\<exists>m1. (wifi_step demo_wifi ^^ 3) (ipv4_changed True (demo_manager\<lparr>wm_state := WIFI_STATE_WAITING_FOR_LOWER_UP,
       wm_resume := Some (WIFI_STATE_WAITING_FOR_LOWER_UP, 100)\<rparr>)) m1 \<and>
     wm_state m1 = WIFI_STATE_WAITING_FOR_LOWER_UP"
  using early_address_stalls[of "demo_manager\<lparr>wm_state := WIFI_STATE_WAITING_FOR_LOWER_UP,
       wm_resume := Some (WIFI_STATE_WAITING_FOR_LOWER_UP, 100)\<rparr>" demo_wifi "\<lambda>_. True"] wifi_refl[of demo_wifi "\<lambda>_. True"]
  by (fastforce simp: demo_manager_def zero_manager_def)

text \<open>The first work item, and a change around it.\<close>

theorem phases_refined_witness:
  "\<exists>m :: wifi_connect_req_params list wifi_manager. runs phase_step Booting [Work] (phase_of m) \<and>
     runs phase_step (phase_of m) [Surroundings] Awaiting_link"
proof -
  let ?m0 = "wifi_manager_init demo_manager"
  let ?m1 = "wifi_event_handle demo_wifi (?m0\<lparr>wm_queue := []\<rparr>)"
  have q: "wm_queue ?m0 = [Event_work]" "wm_resume ?m0 = None"
    by (simp_all add: wifi_manager_init_def demo_manager_def zero_manager_def)
  have "wm_state (?m0\<lparr>wm_queue := []\<rparr>) = WIFI_STATE_IDLE" "wm_event (?m0\<lparr>wm_queue := []\<rparr>) = WIFI_EVENT_START"
    by (simp_all add: wifi_manager_init_def demo_manager_def zero_manager_def)
  then have ph: "phase_of (?m1\<lparr>wm_env := []\<rparr>) = Awaiting_link" by (simp add: handle_idle phase_same[OF check_same])
  have "manager_step demo_wifi ?m0 Work ?m1" by (rule manager_work[OF step_event[OF q(2,1)]])
  moreover have "manager_step demo_wifi ?m1 Surroundings (?m1\<lparr>wm_env := []\<rparr>)" by (rule manager_env)
  ultimately have "runs (manager_step demo_wifi) ?m0 ([Work] @ [Surroundings]) (?m1\<lparr>wm_env := []\<rparr>)"
    by (simp only: append_Cons append_Nil) (rule runs_Cons[OF _ runs_single])
  from phases_refined[OF this[unfolded demo_manager_def]] show ?thesis
    unfolding demo_manager_def[symmetric] ph by blast
qed

section \<open>Credentials\<close>

definition demo_cred_lib :: "demo_env cred_lib" where
  "demo_cred_lib = system_lib.extend demo_sys \<lparr>tls_credential_delete = (\<lambda>tag t e. (0, e))\<rparr>"

text \<open>The key \<open>ab\<close> in the place of \<open>wxyz\<close>: what one gets is \<open>abyz\<close>.\<close>

definition demo_creds :: golioth_creds where
  "demo_creds = \<lparr>golioth_dtls_psk = [0x77, 0x78, 0x79, 0x7a, 0, 0], golioth_dtls_psk_len = 4,
     golioth_dtls_psk_id = [0, 0], golioth_dtls_psk_id_len = 0\<rparr>"

theorem credential_set_get_witness:
  "\<exists>c' s'. golioth_settings_set demo_cred_lib demo_system_conf True (ascii ''psk'') (\<lambda>n. (2, [0x61, 0x62]))
       (demo_creds, demo_system (busy_world demo_env0) Polling) = (0, c', s') \<and> sy_reconnect s' \<and>
     golioth_settings_get (ascii ''psk'') 64 c' = Some (4, [0x61, 0x62, 0x79, 0x7a])"
proof -
  let ?s = "demo_system (busy_world demo_env0) Polling"
  have "fst (golioth_settings_set demo_cred_lib demo_system_conf True (ascii ''psk'') (\<lambda>n. (2, [0x61, 0x62])) (demo_creds, ?s)) = 0"
    by (simp add: golioth_settings_set_def store_credential_def env_read_def demo_cred_lib_def system_lib.defs
        demo_sys_def demo_creds_def Let_def)
  then obtain c' s' where s: "golioth_settings_set demo_cred_lib demo_system_conf True (ascii ''psk'') (\<lambda>n. (2, [0x61, 0x62]))
      (demo_creds, ?s) = (0, c', s')" by (metis prod.collapse)
  have b: "cred_buffer (ascii ''psk'') demo_creds = [0x77, 0x78, 0x79, 0x7a, 0, 0]"
    by (simp add: cred_buffer_def demo_creds_def)
  from credential_set_get[OF _ s, of "[0x61, 0x62]" 64, unfolded b] s show ?thesis
    by (simp add: copy_value_def size_of_int_def del: ascii_simps)
qed

section \<open>Flash\<close>

text \<open>An area of eight bytes; writes go to the image that is collected.\<close>

definition demo_area :: "u8 list \<Rightarrow> u8 list" where
  "demo_area f = take 8 (f @ replicate 8 0)"

definition demo_flash :: "u8 list flash_lib" where
  "demo_flash = \<lparr>fa_size = 8, flash_area_erased_val = 0xFF,
     flash_area_read = (\<lambda>addr n f. (0, take n (drop addr (demo_area f)), f)),
     flash_area_erase = (\<lambda>addr n f. (0, replicate 8 0xFF)), flash_area_close = (\<lambda>f. f),
     flash_img_init = (\<lambda>f. (0, [])), flash_img_buffered_write = (\<lambda>d flush f. (0, f @ d)),
     mcuboot_swap_type = (\<lambda>f. (1, f)), boot_read_bank_header = (\<lambda>f. (0, (1, 2, 3), f)),
     boot_is_img_confirmed = (\<lambda>f. False), boot_write_img_confirmed = (\<lambda>f. (0, f)),
     boot_request_upgrade = (\<lambda>f. (0, f))\<rparr>"

lemma demo_flash_reads: "flash_reads demo_flash demo_area"
  by (auto simp: flash_reads_def demo_flash_def demo_area_def)


section \<open>The update sample\<close>

definition demo_dfu_env :: "u8 list dfu_env" where
  "demo_dfu_env = \<lparr>dfu_flash = [], dfu_version = (\<lambda>i. 0), dfu_downloading_started = False, dfu_initial_result = 0,
     sem_connected = 0, sem_downloading = 0, sem_downloaded = 0\<rparr>"

definition demo_dfu_conf :: dfu_conf where
  "demo_dfu_conf = \<lparr>dconf_erase_progressively = True, dconf_uri0 = replicate 64 0x78, dconf_current_version = [0x31]\<rparr>"

lemma demo_flash_writes: "flash_writes demo_flash True id"
  by (simp add: flash_writes_def flash_img_prepare_def flash_img_erase_if_needed_def demo_flash_def err_then_def)

text \<open>Two blocks, the second of them the last.\<close>

definition demo_block :: "nat \<Rightarrow> u8 list \<Rightarrow> bool \<Rightarrow> golioth_req_rsp" where
  "demo_block off d has_more = (block_rsp 0 3 off d)
     \<lparr>rsp_get_next := (if has_more then Some Golioth_coap_req_next_block else None), rsp_get_next_data := (if has_more then Some 1 else None)\<rparr>"


text \<open>A device on which every call of the kernel and the sockets succeeds.\<close>

definition quiet_sys :: "'e system_lib" where
  "quiet_sys = \<lparr>
     coap_packet_init = demo_init, coap_packet_parse = coap_packet_parse demo_sys, coap_ack_init = coap_ack_init demo_sys,
     coap_packet_append_option = demo_option, coap_append_option_int = coap_append_option_int demo_sys,
     coap_append_block2_option = coap_append_block2_option demo_sys,
     coap_packet_append_payload_marker = demo_put [0xFF], coap_packet_append_payload = demo_put,
     coap_header_get_type = coap_header_get_type demo_sys, coap_header_get_code = coap_header_get_code demo_sys,
     coap_header_get_id = coap_header_get_id demo_sys, coap_header_get_token = demo_token,
     coap_packet_get_payload = coap_packet_get_payload demo_sys, coap_get_option_int = coap_get_option_int demo_sys,
     coap_update_from_block = (\<lambda>p b ctx. (0, ctx)), coap_next_block_for_option = (\<lambda>p b n ctx. (0, ctx)),
     k_uptime_get = (\<lambda>e. (0, e)), k_uptime_get_32 = (\<lambda>e. (0, e)), sys_rand32_get = (\<lambda>e. (4, e)),
     coap_next_id = (\<lambda>e. (1, e)), coap_next_token = (\<lambda>e. ([1, 2, 3, 4, 5, 6, 7, 8], e)),
     sys_malloc = (\<lambda>n e. (True, e)), sys_errno = (\<lambda>e. EIO),
     zsock_send = (\<lambda>s d f e. (int (length d), e)), zsock_recv = (\<lambda>s n f e. (- 1, [], e)),
     zsock_socket = (\<lambda>f p e. (3, e)), zsock_setsockopt = (\<lambda>s opt v e. (0, e)), zsock_connect = (\<lambda>s a e. (0, e)),
     zsock_close = (\<lambda>s e. (0, e)), zsock_getaddrinfo = (\<lambda>h p e. (0, [(1, [])], e)), call_wakeup = (\<lambda>f e. e),
     conf_ack_timeout_ms = 2000, conf_ack_random_percent = 150, conf_randomize_ack = True,
     tls_credential_get = (\<lambda>tag t n e. (0, [], 0)), tls_credential_add = (\<lambda>tag t d e. (0, e)),
     eventfd_create = (\<lambda>e. (4, e))\<rparr>"

lemma quiet_sys_ok: "coap_lib_ok quiet_sys" "errno_ok quiet_sys" "ack_timeout_ok quiet_sys"
  using demo_lib_ok by (simp_all add: coap_lib_ok_def quiet_sys_def demo_sys_def errno_ok_def ack_timeout_ok_def)

text \<open>The decoder of the examples, for texts that are not only slashes.\<close>

definition uri_str :: "zcbor_state \<Rightarrow> bool \<times> u8 list \<times> zcbor_state" where
  "uri_str st = (case demo_str {3} st of
     (ok, s, st1) \<Rightarrow> if ok \<and> list_ex (\<lambda>c. c \<noteq> SLASH) s then (True, s, st1) else (False, [], st))"

definition uri_zlib :: log_lib where
  "uri_zlib = demo_zlib\<lparr>zcbor_tstr_decode := uri_str\<rparr>"

lemma uri_str_moves: "value_moves uri_str"
  using demo_str_moves[of "{3}"] by (auto simp: value_moves_def uri_str_def split: prod.splits if_splits)

lemma uri_zlib_ok: "zcbor_lib_ok uri_zlib"
  using demo_zlib_ok uri_str_moves by (simp add: zcbor_lib_ok_def uri_zlib_def)

lemma demo_uris_ok: "uris_ok uri_zlib demo_dfu_conf"
  by (auto simp: uris_ok_def uri_zlib_def uri_str_def demo_dfu_conf_def list_ex_iff split: prod.splits if_splits)

section \<open>LEDs, delay and provisioning\<close>

text \<open>A board with four LEDs; the environment lists the changes.\<close>

definition demo_leds :: "(nat \<times> bool) list led_lib" where
  "demo_leds = \<lparr>led_count = 4, gpio_pin_set = (\<lambda>i v e. e @ [(i, v)]), gpio_pin_configure = (\<lambda>i e. e)\<rparr>"

text \<open>The map \<open>{"1": true}\<close>.\<close>

theorem led_map_applied_witness:
  "\<exists>w'. golioth_led_handle demo_leds demo_zlib (block_rsp 0 0 0 [0xA1, 0x61, 0x31, 0xF5]) (idle_world []) = Some (0, w') \<and>
    w_env w' = [(1, True)]"
proof -
  let ?rsp = "block_rsp 0 0 0 [0xA1, 0x61, 0x31, 0xF5]"
  have "map_option (\<lambda>(e, w). (e, w_env w)) (golioth_led_handle demo_leds demo_zlib ?rsp (idle_world [])) = Some (0, [(1, True)])"
    by code_simp
  moreover obtain e w' where "golioth_led_handle demo_leds demo_zlib ?rsp (idle_world []) = Some (e, w')"
    using led_map_applied[OF demo_zlib_ok, of demo_leds ?rsp "idle_world []"] by blast
  ultimately show ?thesis by simp
qed

text \<open>A delay of five seconds.\<close>

definition demo_delay_world :: "settings_env world" where
  "demo_delay_world = upd_client (\<lambda>c. c\<lparr>cl_settings := \<lparr>settings_initialized = True, settings_callback = Some 0\<rparr>\<rparr>)
     (busy_world \<lparr>loop_delay_s = 10\<rparr>)"

definition demo_delay_payload :: "u8 list" where
  "demo_delay_payload = [0xA1, 0x6C] @ ascii ''LOOP_DELAY_S'' @ [5]"

theorem delay_last_valid_witness:
  "\<exists>st' r' w'. settings_decode (settings_sample_app quiet_sys True) demo_zlib (demo_zstate demo_delay_payload 1)
       (demo_response, demo_delay_world) = Some (0, st', r', w') \<and>
     loop_delay_s (w_env w') = 5 \<and> loop_delay_s (w_env w') \<le> 100"
proof -
  let ?d = "settings_decode (settings_sample_app quiet_sys True) demo_zlib (demo_zstate demo_delay_payload 1)
      (demo_response, demo_delay_world)"
  have "map_option (\<lambda>(e, st', r', w'). (e, loop_delay_s (w_env w'))) ?d = Some (0, 5)" by code_simp
  then obtain st' r' w' where d: "?d = Some (0, st', r', w')" "loop_delay_s (w_env w') = 5" by auto
  moreover have "settings_ready demo_delay_world" "loop_delay_s (w_env demo_delay_world) = 10"
    by (simp_all add: demo_delay_world_def settings_ready_def upd_client_def)
  ultimately show ?thesis using delay_last_valid[OF demo_zlib_ok _ _ _ d(1)] by auto
qed

text \<open>A file system that has a certificate of two bytes, and one without files.\<close>

definition demo_prov_lib :: "nat \<Rightarrow> nat prov_lib" where
  "demo_prov_lib n = system_lib.extend quiet_sys \<lparr>fs_stat = (\<lambda>path e. if n = 0 then (- ENOENT, False, 0, e) else (0, True, n, e)),
     fs_open = (\<lambda>path e. (0, e + 1)), fs_read = (\<lambda>path k e. (int k, replicate k 0x30, e)),
     fs_close = (\<lambda>path e. (0, e - 1))\<rparr>"

definition demo_prov :: "nat prov" where
  "demo_prov = \<lparr>pv_env = 0, pv_heap = Map.empty, pv_next = 1, pv_open = 0, pv_fault = False\<rparr>"

theorem load_credential_no_leak_witness:
  "\<exists>s'. load_credential_from_fs (demo_prov_lib 2) demo_system_conf (ascii ''c'') TLS_CREDENTIAL_SERVER_CERTIFICATE demo_prov = (0, s') \<and>
    prov_ok s' \<and> pv_open s' = 0 \<and> pv_heap s' = [1 \<mapsto> 2]"
proof -
  let ?l = "load_credential_from_fs (demo_prov_lib 2) demo_system_conf (ascii ''c'') TLS_CREDENTIAL_SERVER_CERTIFICATE demo_prov"
  have "fst ?l = 0 \<and> pv_heap (snd ?l) = [1 \<mapsto> 2]"
    by (simp add: load_credential_from_fs_def demo_prov_lib_def quiet_sys_def system_lib.defs prov_malloc_def
        demo_prov_def finish_with_file_def Let_def)
  then obtain s' where s: "?l = (0, s')" "pv_heap s' = [1 \<mapsto> 2]" by (metis prod.collapse)
  have "prov_ok demo_prov" by (simp add: prov_ok_def demo_prov_def)
  from load_credential_no_leak[OF this s(1)] s show ?thesis by (simp add: demo_prov_def)
qed

section \<open>The shell\<close>

text \<open>A store that is the environment.\<close>

definition demo_settings :: "(u8 list \<Rightarrow> u8 list option) settings_lib" where
  "demo_settings = \<lparr>settings_runtime_set = (\<lambda>n v e. (0, e)), settings_save_one = (\<lambda>n v e. (0, e(n := Some v))),
     settings_load_subtree_direct = (\<lambda>n e. (0, case n of None \<Rightarrow> [] | Some n \<Rightarrow> (case e n of None \<Rightarrow> []
       | Some v \<Rightarrow> [\<lparr>set_key = [], set_len = length v, set_read = (\<lambda>k. (int (min k (length v)), take k v))\<rparr>,
                    \<lparr>set_key = [0x78], set_len = 0, set_read = (\<lambda>k. (0, []))\<rparr>]))),
     settings_name_next = (\<lambda>k. int (length k))\<rparr>"

lemma demo_settings_ok: "store_ok demo_settings (\<lambda>e. e)"
proof -
  have "loads_exactly demo_settings (e n) (snd (settings_load_subtree_direct demo_settings (Some n) e))" for e n
  proof (cases "e n")
    case None
    then show ?thesis by (simp add: loads_exactly_def demo_settings_def)
  next
    case (Some v)
    then show ?thesis unfolding loads_exactly_def
      by (intro exI[of _ "[]"] exI[of _ "[\<lparr>set_key = [], set_len = length v, set_read = (\<lambda>k. (int (min k (length v)), take k v))\<rparr>]"]
          exI[of _ "[\<lparr>set_key = [0x78], set_len = 0, set_read = (\<lambda>k. (0, []))\<rparr>]"])
        (simp add: demo_settings_def reads_value_def)
  qed
  then show ?thesis by (simp add: store_ok_def) (simp add: demo_settings_def)
qed


section \<open>A call\<close>

text \<open>Two methods of the same name: the first one is called, and answers with its status.\<close>

definition demo_methods :: "(u8 list \<times> nat \<times> nat) list" where
  "demo_methods = [([0x61, 0], 1, 5), ([0x61, 0], 2, 6)]"

definition status_app :: "demo_env app" where
  "status_app = demo_app\<lparr>app_rpc := (\<lambda>i st enc a w. (i + a, enc, w))\<rparr>"


end
