(* ===== verification/Blockwise.thy ===== *)
theory Blockwise
  imports Callbacks Lightdb
begin

text \<open>
  A blocking get from LightDB, whole: the request that is queued, the responses the server sends
  for it block by block, the requests for the next block in between, the callbacks that put the blocks into the
  caller's buffer, and the semaphore that wakes the caller.
\<close>

section \<open>A server that answers in order\<close>

text \<open>
  A response with the block \<open>b\<close> at offset \<open>off\<close> of a value of \<open>tot\<close> bytes: what the library's
  functions read in it. The block functions of the library move the context to the block, and to the
  next one if there is one.
\<close>

definition block_moves ::
  "('e, 'x) sys_scheme \<Rightarrow> nat \<Rightarrow> nat \<Rightarrow> nat \<Rightarrow> bool \<Rightarrow> coap_packet \<Rightarrow> u8 list \<Rightarrow> coap_block_context \<Rightarrow> bool" where
  "block_moves sys tot off n has_more response bytes ctx \<longleftrightarrow>
     (case coap_update_from_block sys response bytes ctx of
        (err, ctx1) \<Rightarrow>
          case coap_next_block_for_option sys response bytes COAP_OPTION_BLOCK2 ctx1 of
            (ret, ctx2) \<Rightarrow>
              err = 0 \<and> blk_current ctx1 = off \<and> ret = (if has_more then int (off + n) else 0) \<and>
              blk_total_size ctx2 = tot \<and> (has_more \<longrightarrow> blk_current ctx2 = off + n))"

definition block_response ::
  "('e, 'x) sys_scheme \<Rightarrow> nat \<Rightarrow> nat \<Rightarrow> bool \<Rightarrow> coap_packet \<times> u8 list \<times> u8 list \<Rightarrow> bool" where
  "block_response sys tot off has_more rx \<longleftrightarrow>
     (case rx of (response, bytes, b) \<Rightarrow>
        golioth_coap_code_to_posix (coap_header_get_code sys response bytes) = 0 \<and>
        coap_packet_get_payload sys response bytes = b \<and>
        coap_get_option_int sys response bytes COAP_OPTION_BLOCK2 \<noteq> - ENOENT \<and>
        (\<forall>ctx. blk_current ctx = off \<longrightarrow> block_moves sys tot off (length b) has_more response bytes ctx))"

fun block_responses ::
  "('e, 'x) sys_scheme \<Rightarrow> nat \<Rightarrow> nat \<Rightarrow> (coap_packet \<times> u8 list \<times> u8 list) list \<Rightarrow> bool" where
  "block_responses sys tot off [] = False"
| "block_responses sys tot off [rx] = (block_response sys tot off False rx \<and> off + length (snd (snd rx)) = tot)"
| "block_responses sys tot off (rx # rxs) =
     (block_response sys tot off True rx \<and> snd (snd rx) \<noteq> [] \<and> block_responses sys tot (off + length (snd (snd rx))) rxs)"

definition value_of :: "(coap_packet \<times> u8 list \<times> u8 list) list \<Rightarrow> u8 list" where
  "value_of rxs = concat (map (\<lambda>rx. snd (snd rx)) rxs)"

lemma value_of_simps [simp]: "value_of [] = []" "value_of (rx # rxs) = snd (snd rx) @ value_of rxs"
  by (simp_all add: value_of_def)

lemma block_responses_length: "block_responses sys tot off rxs \<Longrightarrow> off + length (value_of rxs) = tot"
  by (induction sys tot off rxs rule: block_responses.induct) auto

text \<open>The receiving thread handles the responses to request \<open>r\<close>, one after the other.\<close>

definition handle_responses where
  "handle_responses sys run r rxs w =
     fold (\<lambda>(response, bytes, b). golioth_coap_req_reply_handler sys run r response bytes) rxs w"

section \<open>One block\<close>

text \<open>What the request and the caller's data look like while the transfer goes on.\<close>

definition getting :: "'e world \<Rightarrow> ptr \<Rightarrow> ptr \<Rightarrow> ptr \<Rightarrow> nat \<Rightarrow> bool" where
  "getting w r p d off \<longleftrightarrow> world_ok w \<and>
     (\<exists>q. w_reqs w r = Some q \<and> \<not> req_is_observe q \<and> req_cb q = Golioth_req_sync_cb \<and> req_user_data q = UD_sync p \<and>
        blk_current (req_block_ctx q) = off) \<and>
     w_syncs w p = \<lparr>sync_sem = 0, sync_err = 0, sync_cb = Some Golioth_lightdb_get_prealloc_cb,
       sync_user_data = UD_prealloc d\<rparr> \<and>
     pre_ready (w_preallocs w d)"

text \<open>
  Asking for the next block changes the request and its packet, and nothing else: a new message id, and the
  option behind the packet as it was without one.
\<close>

lemma next_block_eq:
  assumes "world_ok w" and "w_reqs w r = Some q" and "\<not> req_is_observe q"
    and "\<And>pkt b. fst (coap_append_block2_option sys (req_block_ctx q) pkt b) = 0"
    and "golioth_coap_req_next_block sys run r 0 w = (e, w')"
  obtains i b b1 b2 pkt q' e2 where "e = 0" and "w_bufs w (req_data q) = Some b" and "coap_packet_set_id i b = Some b1"
    and "coap_append_block2_option sys (req_block_ctx q)
      (if pkt_offset (req_request_wo_block2 q) \<noteq> 0 then req_request_wo_block2 q else req_request q) b1 = (0, pkt, b2)"
    and "req_request q' = pkt"
    and "req_request_wo_block2 q' = (if pkt_offset (req_request_wo_block2 q) \<noteq> 0 then req_request_wo_block2 q else req_request q)"
    and "same_static q q'" and "\<not> req_is_observe q'" and "req_block_ctx q' = req_block_ctx q"
    and "w' = w\<lparr>w_bufs := (w_bufs w)(req_data q \<mapsto> b2), w_env := e2, w_reqs := (w_reqs w)(r \<mapsto> q')\<rparr>"
proof -
  note H = world_ok_heap[OF assms(1)]
  obtain b where b: "w_bufs w (req_data q) = Some b" "4 \<le> length b"
    using heap_okD(3)[OF H] heap_okD(8)[OF H] assms(2) by (metis domD image_eqI ranI)
  obtain i e1 where i: "coap_next_id sys (w_env w) = (i, e1)" by fastforce
  obtain t e2 where t: "k_uptime_get_32 sys e1 = (t, e2)" by fastforce
  obtain b1 where b1: "coap_packet_set_id i b = Some b1" using b(2) by (simp add: coap_packet_set_id_def)
  obtain err pkt b2 where a: "coap_append_block2_option sys (req_block_ctx q)
      (if pkt_offset (req_request_wo_block2 q) \<noteq> 0 then req_request_wo_block2 q else req_request q) b1 = (err, pkt, b2)"
    by (metis prod_cases3)
  with assms(4) have "err = 0" by (metis fst_conv)
  note a = a[unfolded this]
  define q' where "q' = (if pkt_offset (req_request_wo_block2 q) \<noteq> 0 then q else q\<lparr>req_request_wo_block2 := req_request q\<rparr>)\<lparr>
    req_request := pkt, req_pending := \<lparr>pend_t0 = t, pend_timeout = 0, pend_retries = 3\<rparr>\<rparr>"
  show thesis
  proof (rule that[of b i b1 pkt b2 q' e2])
    show "e = 0" "w' = w\<lparr>w_bufs := (w_bufs w)(req_data q \<mapsto> b2), w_env := e2, w_reqs := (w_reqs w)(r \<mapsto> q')\<rparr>"
      using a assms(2,3,5) b i t b1
      by (auto simp: golioth_coap_req_next_block_def env_read_def set_request_id_def
          golioth_coap_req_append_block2_option_def upd_req_def on_request_def golioth_coap_pending_init_def Let_def q'_def
          split: if_splits)
  qed (use a b b1 assms(3) in \<open>simp_all add: q'_def same_static_def\<close>)
qed

text \<open>The callback that fills the buffer, called with a block that fits.\<close>

lemma prealloc_block:
  assumes "pre_ready (w_preallocs w d)" and "0 < tot" and "tot \<le> pre_capacity (w_preallocs w d)"
    and "off + length b \<le> tot" and "rsp_user_data rsp = UD_prealloc d" and "rsp_total rsp = tot" and "rsp_off rsp = off"
    and "rsp_data rsp = b"
  shows "golioth_lightdb_get_prealloc_cb rsp w = (0, w\<lparr>w_preallocs := (w_preallocs w)(d := (w_preallocs w d)\<lparr>pre_len := tot,
      pre_data := buf_write off b (pre_data (w_preallocs w d))\<rparr>)\<rparr>)"
  using assms by (simp add: golioth_lightdb_get_prealloc_cb_def Let_def)

definition filled :: "nat \<Rightarrow> nat \<Rightarrow> u8 list \<Rightarrow> golioth_lightdb_get_prealloc_data \<Rightarrow> golioth_lightdb_get_prealloc_data" where
  "filled tot off b pre = pre\<lparr>pre_len := tot, pre_data := buf_write off b (pre_data pre)\<rparr>"

lemma filled_ready:
  assumes "pre_ready pre" and "tot \<le> pre_capacity pre" and "off + length b \<le> tot"
  shows "pre_ready (filled tot off b pre)" and "pre_capacity (filled tot off b pre) = pre_capacity pre"
    and "pre_len (filled tot off b pre) = tot"
    and "take (off + length b) (pre_data (filled tot off b pre)) = take off (pre_data pre) @ b"
  using assms buf_write_append(1,2)[of "take off (pre_data pre)" off b "pre_data pre"]
  by (simp_all add: pre_ready_def filled_def)

text \<open>The reply handler on such a response, up to the callback.\<close>

lemma block_reply:
  assumes "w_reqs w r = Some q" and "blk_current (req_block_ctx q) = off" and "off + length b < 2 ^ 32"
    and "block_response sys tot off has_more (response, bytes, b)" and "has_more \<longrightarrow> b \<noteq> []"
  obtains ctx where "has_more \<longrightarrow> blk_current ctx = off + length b"
    "golioth_coap_req_reply_handler sys run r response bytes w =
       (if has_more then reply_more run r q b off tot (w\<lparr>w_reqs := (w_reqs w)(r \<mapsto> q\<lparr>req_block_ctx := ctx\<rparr>)\<rparr>)
        else reply_done run r q b off tot (w\<lparr>w_reqs := (w_reqs w)(r \<mapsto> q\<lparr>req_block_ctx := ctx\<rparr>)\<rparr>))"
proof -
  obtain err ctx1 where u: "coap_update_from_block sys response bytes (req_block_ctx q) = (err, ctx1)" by fastforce
  obtain ret ctx2 where n: "coap_next_block_for_option sys response bytes COAP_OPTION_BLOCK2 ctx1 = (ret, ctx2)" by fastforce
  note rx = assms(4)[unfolded block_response_def prod.case]
  from rx have code: "golioth_coap_code_to_posix (coap_header_get_code sys response bytes) = 0"
    and pay: "coap_packet_get_payload sys response bytes = b"
    and opt: "coap_get_option_int sys response bytes COAP_OPTION_BLOCK2 \<noteq> - ENOENT" by simp_all
  from rx assms(2) have "block_moves sys tot off (length b) has_more response bytes (req_block_ctx q)" by simp
  then have c: "err = 0" "blk_current ctx1 = off" "ret = (if has_more then int (off + length b) else 0)"
    "blk_total_size ctx2 = tot" "has_more \<longrightarrow> blk_current ctx2 = off + length b"
    by (simp_all add: block_moves_def u n)
  have "size_of_int ret = (if has_more then off + length b else 0)"
    using c(3) assms(3) by (auto simp: size_of_int_def nat_mod_distrib nat_int_add nat_add_distrib)
  then have z: "size_of_int ret = 0 \<longleftrightarrow> \<not> has_more" using assms(5) by auto
  show thesis
  proof (rule that[of ctx2])
    show "has_more \<longrightarrow> blk_current ctx2 = off + length b" by (rule c(5))
    show "golioth_coap_req_reply_handler sys run r response bytes w =
       (if has_more then reply_more run r q b off tot (w\<lparr>w_reqs := (w_reqs w)(r \<mapsto> q\<lparr>req_block_ctx := ctx2\<rparr>)\<rparr>)
        else reply_done run r q b off tot (w\<lparr>w_reqs := (w_reqs w)(r \<mapsto> q\<lparr>req_block_ctx := ctx2\<rparr>)\<rparr>))"
      using assms(1,2) u n c z
      by (simp add: golioth_coap_req_reply_handler_def code pay opt reply_block2_def upd_req_def Let_def)
  qed
qed

text \<open>What the callback of the request does with a block.\<close>

lemma run_get_block:
  assumes "w_syncs w p = \<lparr>sync_sem = 0, sync_err = 0, sync_cb = Some Golioth_lightdb_get_prealloc_cb,
      sync_user_data = UD_prealloc d\<rparr>"
    and "pre_ready (w_preallocs w d)" and "0 < tot" and "tot \<le> pre_capacity (w_preallocs w d)" and "off + length b \<le> tot"
    and "rsp = \<lparr>rsp_data = b, rsp_off = off, rsp_total = tot, rsp_get_next = gn, rsp_get_next_data = gd,
      rsp_user_data = UD_sync p, rsp_err = 0\<rparr>"
    and w1_def: "w1 = w\<lparr>w_preallocs := (w_preallocs w)(d := filled tot off b (w_preallocs w d))\<rparr>"
  shows "gn = None \<Longrightarrow> run_callback sys app lib conf Golioth_req_sync_cb rsp w = (0, sem_give p w1)"
    and "gn \<noteq> None \<Longrightarrow> gd = Some r \<Longrightarrow> run_callback sys app lib conf Golioth_req_sync_cb rsp w =
      (0, snd (golioth_coap_req_next_block sys (run_error_cb sys app lib conf) r 0 w1))"
proof -
  have "run_user_cb sys app lib conf nb Golioth_lightdb_get_prealloc_cb (rsp\<lparr>rsp_user_data := UD_prealloc d\<rparr>) w = (0, w1)" for nb
    using prealloc_block[OF assms(2-5), of "rsp\<lparr>rsp_user_data := UD_prealloc d\<rparr>"] assms(6)
    by (simp add: run_user_cb_def w1_def filled_def)
  then show "gn = None \<Longrightarrow> run_callback sys app lib conf Golioth_req_sync_cb rsp w = (0, sem_give p w1)"
    and "gn \<noteq> None \<Longrightarrow> gd = Some r \<Longrightarrow> run_callback sys app lib conf Golioth_req_sync_cb rsp w =
      (0, snd (golioth_coap_req_next_block sys (run_error_cb sys app lib conf) r 0 w1))"
    using assms(1,6) by (simp_all add: run_callback_def run_cb_def golioth_req_sync_cb_def)
qed

text \<open>A block with more behind it, and the last one.\<close>

lemma handle_more_next:
  assumes "env_ok sys app lib" and "getting w r p d off" and "0 < tot" and "tot \<le> pre_capacity (w_preallocs w d)"
    and "off + length b \<le> tot" and "tot < 2 ^ 32" and "b \<noteq> []"
    and "\<And>ctx pkt b. fst (coap_append_block2_option sys ctx pkt b) = 0"
    and "block_response sys tot off True (response, bytes, b)"
    and w'_def: "w' = golioth_coap_req_reply_handler sys (run_callback sys app lib conf) r response bytes w"
  obtains q ctx w3 where "w_reqs w r = Some q" and "blk_current ctx = off + length b"
    and "w3 = w\<lparr>w_reqs := (w_reqs w)(r \<mapsto> q\<lparr>req_block_ctx := ctx\<rparr>),
      w_preallocs := (w_preallocs w)(d := filled tot off b (w_preallocs w d))\<rparr>"
    and "world_ok w3" and "golioth_coap_req_next_block sys (run_error_cb sys app lib conf) r 0 w3 = (0, w')"
proof -
  let ?run = "run_callback sys app lib conf"
  from assms(2) obtain q where q: "w_reqs w r = Some q" "\<not> req_is_observe q" "req_cb q = Golioth_req_sync_cb"
    "req_user_data q = UD_sync p" "blk_current (req_block_ctx q) = off"
    and w: "world_ok w" and sy: "w_syncs w p = \<lparr>sync_sem = 0, sync_err = 0, sync_cb = Some Golioth_lightdb_get_prealloc_cb,
      sync_user_data = UD_prealloc d\<rparr>" and pre: "pre_ready (w_preallocs w d)"
    by (auto simp: getting_def)
  have lt: "off + length b < 2 ^ 32" using assms(5,6) by simp
  obtain ctx where ctx: "blk_current ctx = off + length b" and h: "w' = reply_more ?run r q b off tot
      (w\<lparr>w_reqs := (w_reqs w)(r \<mapsto> q\<lparr>req_block_ctx := ctx\<rparr>)\<rparr>)"
    unfolding w'_def by (rule block_reply[OF q(1,5) lt assms(9)]) (use assms(7) in auto)
  define q2 where "q2 = q\<lparr>req_block_ctx := ctx\<rparr>"
  define w2 where "w2 = w\<lparr>w_reqs := (w_reqs w)(r \<mapsto> q2)\<rparr>"
  define w3 where "w3 = w2\<lparr>w_preallocs := (w_preallocs w2)(d := filled tot off b (w_preallocs w2 d))\<rparr>"
  have "w2 = upd_req r (\<lambda>q. q\<lparr>req_block_ctx := ctx\<rparr>) w" by (simp add: w2_def q2_def upd_req_def q(1))
  with upd_req_ok(1)[OF w q(1), of "\<lambda>q. q\<lparr>req_block_ctx := ctx\<rparr>"] have "world_ok w2" by (simp add: rx_step_def)
  then have w3: "world_ok w3" using cb_stepD(1)[OF coap_same_cb_step, of w2 w3] by (simp add: w3_def coap_same_def)
  obtain e w4 where nb: "golioth_coap_req_next_block sys (run_error_cb sys app lib conf) r 0 w3 = (e, w4)" by fastforce
  have q3: "w_reqs w3 r = Some q2" "\<not> req_is_observe q2" by (simp_all add: w3_def w2_def q2_def q(2))
  obtain q4 where f: "e = 0" "w_reqs w4 r = Some q4" "\<not> req_is_observe q4"
    by (rule next_block_eq[OF w3 q3 assms(8) nb]) simp
  have sel: "w_syncs w2 p = \<lparr>sync_sem = 0, sync_err = 0, sync_cb = Some Golioth_lightdb_get_prealloc_cb,
      sync_user_data = UD_prealloc d\<rparr>" "w_preallocs w2 = w_preallocs w" by (simp_all add: w2_def sy)
  have "w' = w4"
    using run_get_block(2)[OF sel(1), where tot = tot and off = off and b = b and gn = "Some Golioth_coap_req_next_block" and
        gd = "Some r" and r = r and sys = sys and app = app and lib = lib and conf = conf, OF _ _ _ _ refl refl]
      pre sel(2) assms(3-5) h q(2-4) f(2,3) nb
    unfolding w3_def[symmetric] by (simp add: reply_more_def w2_def[symmetric] q2_def[symmetric])
  with nb f(1) that[OF q(1) ctx _ w3] show thesis by (simp add: w3_def w2_def q2_def)
qed

lemma handle_more:
  assumes "env_ok sys app lib" and "getting w r p d off" and "0 < tot" and "tot \<le> pre_capacity (w_preallocs w d)"
    and "off + length b \<le> tot" and "tot < 2 ^ 32" and "b \<noteq> []"
    and "\<And>ctx pkt b. fst (coap_append_block2_option sys ctx pkt b) = 0"
    and "block_response sys tot off True (response, bytes, b)"
    and w'_def: "w' = golioth_coap_req_reply_handler sys (run_callback sys app lib conf) r response bytes w"
  shows "getting w' r p d (off + length b)" and "w_preallocs w' d = filled tot off b (w_preallocs w d)"
proof -
  obtain q ctx w3 where q: "w_reqs w r = Some q" "blk_current ctx = off + length b"
    and w3: "w3 = w\<lparr>w_reqs := (w_reqs w)(r \<mapsto> q\<lparr>req_block_ctx := ctx\<rparr>),
      w_preallocs := (w_preallocs w)(d := filled tot off b (w_preallocs w d))\<rparr>"
    and ok: "world_ok w3" and nb: "golioth_coap_req_next_block sys (run_error_cb sys app lib conf) r 0 w3 = (0, w')"
    by (rule handle_more_next[OF assms])
  have g: "world_ok w" "\<not> req_is_observe q" "req_cb q = Golioth_req_sync_cb" "req_user_data q = UD_sync p"
    "w_syncs w p = \<lparr>sync_sem = 0, sync_err = 0, sync_cb = Some Golioth_lightdb_get_prealloc_cb,
      sync_user_data = UD_prealloc d\<rparr>" "pre_ready (w_preallocs w d)"
    using assms(2) q(1) by (auto simp: getting_def)
  have q3: "w_reqs w3 r = Some (q\<lparr>req_block_ctx := ctx\<rparr>)" "\<not> req_is_observe (q\<lparr>req_block_ctx := ctx\<rparr>)"
    by (simp_all add: w3 g(2))
  have "world_ok w'"
    using sdk.reply_handler_ok[OF g(1) world_ok_allocated[OF g(1) q(1)], of sys sys app lib conf response bytes]
    unfolding lawful_run_eq[OF assms(1)] w'_def by (simp add: rx_step_def)
  obtain q4 b2 e2 where n: "same_static (q\<lparr>req_block_ctx := ctx\<rparr>) q4" "req_block_ctx q4 = req_block_ctx (q\<lparr>req_block_ctx := ctx\<rparr>)"
    "w' = w3\<lparr>w_bufs := (w_bufs w3)(req_data (q\<lparr>req_block_ctx := ctx\<rparr>) \<mapsto> b2), w_env := e2, w_reqs := (w_reqs w3)(r \<mapsto> q4)\<rparr>"
    by (rule next_block_eq[OF ok q3 assms(8) nb])
  then show "w_preallocs w' d = filled tot off b (w_preallocs w d)" by (simp add: w3)
  from n(3) \<open>world_ok w'\<close> n(1,2) q(2) g filled_ready(1)[OF g(6) assms(4,5)]
  show "getting w' r p d (off + length b)"
    by (simp add: getting_def same_static_def w3)
qed

lemma handle_last_free:
  assumes "getting w r p d off" and "0 < tot" and "tot \<le> pre_capacity (w_preallocs w d)"
    and "off + length b \<le> tot" and "tot < 2 ^ 32"
    and "block_response sys tot off False (response, bytes, b)"
    and w'_def: "w' = golioth_coap_req_reply_handler sys (run_callback sys app lib conf) r response bytes w"
  obtains q where "w_reqs w r = Some q"
    and "w_preallocs w' = (w_preallocs w)(d := filled tot off b (w_preallocs w d))"
    and "w_syncs w' = (w_syncs w)(p := (w_syncs w p)\<lparr>sync_sem := 1\<rparr>)"
    and "reqs_list w' = remove1 r (reqs_list w)" and "w_reqs w' = (w_reqs w)(r := None)"
    and "w_bufs w' = (w_bufs w)(req_data q := None)"
proof -
  let ?run = "run_callback sys app lib conf"
  from assms(1) obtain q where q: "w_reqs w r = Some q" "\<not> req_is_observe q" "req_cb q = Golioth_req_sync_cb"
    "req_user_data q = UD_sync p" "blk_current (req_block_ctx q) = off"
    and w: "world_ok w" and sy: "w_syncs w p = \<lparr>sync_sem = 0, sync_err = 0, sync_cb = Some Golioth_lightdb_get_prealloc_cb,
      sync_user_data = UD_prealloc d\<rparr>" and pre: "pre_ready (w_preallocs w d)"
    by (auto simp: getting_def)
  have lt: "off + length b < 2 ^ 32" using assms(4,5) by simp
  obtain ctx where h: "w' = reply_done ?run r q b off tot (w\<lparr>w_reqs := (w_reqs w)(r \<mapsto> q\<lparr>req_block_ctx := ctx\<rparr>)\<rparr>)"
    unfolding w'_def by (rule block_reply[OF q(1,5) lt assms(6)]) auto
  define q2 where "q2 = q\<lparr>req_block_ctx := ctx\<rparr>"
  define w2 where "w2 = w\<lparr>w_reqs := (w_reqs w)(r \<mapsto> q2)\<rparr>"
  define w3 where "w3 = sem_give p (w2\<lparr>w_preallocs := (w_preallocs w2)(d := filled tot off b (w_preallocs w2 d))\<rparr>)"
  have "w2 = upd_req r (\<lambda>q. q\<lparr>req_block_ctx := ctx\<rparr>) w" by (simp add: w2_def q2_def upd_req_def q(1))
  with upd_req_ok(1)[OF w q(1), of "\<lambda>q. q\<lparr>req_block_ctx := ctx\<rparr>"] have "world_ok w2" by (simp add: rx_step_def)
  then have w3: "world_ok w3" using cb_stepD(1)[OF coap_same_cb_step, of w2 w3] by (simp add: w3_def coap_same_def)
  have q3: "w_reqs w3 r = Some q2" "\<not> req_is_observe q2" by (simp_all add: w3_def w2_def q2_def q(2))
  have sel: "w_syncs w2 p = \<lparr>sync_sem = 0, sync_err = 0, sync_cb = Some Golioth_lightdb_get_prealloc_cb,
      sync_user_data = UD_prealloc d\<rparr>" "w_preallocs w2 = w_preallocs w" by (simp_all add: w2_def sy)
  have w': "w' = golioth_coap_req_cancel_and_free r w3"
    using run_get_block(1)[OF sel(1), where tot = tot and off = off and b = b and gn = None and gd = None and sys = sys and
        app = app and lib = lib and conf = conf, OF _ _ _ _ refl refl] pre sel(2) assms(2-4) h q(3,4) q3
    unfolding w3_def[symmetric]
    by (simp add: reply_done_def reply_cancel_and_free_def w2_def[symmetric] q2_def[symmetric])
  obtain q5 where q5: "w_reqs w3 r = Some q5" "w' = w3\<lparr>w_client := (w_client w3)\<lparr>cl_coap_reqs := remove1 r (reqs_list w3)\<rparr>,
      w_reqs := (w_reqs w3)(r := None), w_bufs := (w_bufs w3)(req_data q5 := None)\<rparr>"
    unfolding w' by (rule cancel_and_free_eq[OF w3 world_ok_allocated[OF w3 q3(1)]])
  with q3(1) have "q5 = q2" by simp
  with q5(2) show thesis by (intro that[OF q(1)]) (simp_all add: w3_def w2_def q2_def)
qed

lemma handle_last:
  assumes "getting w r p d off" and "0 < tot" and "tot \<le> pre_capacity (w_preallocs w d)"
    and "off + length b \<le> tot" and "tot < 2 ^ 32"
    and "block_response sys tot off False (response, bytes, b)"
    and "w' = golioth_coap_req_reply_handler sys (run_callback sys app lib conf) r response bytes w"
  shows "w_preallocs w' d = filled tot off b (w_preallocs w d)" and "sync_sem (w_syncs w' p) = 1"
    and "sync_err (w_syncs w' p) = 0" and "w_reqs w' r = None" and "reqs_list w' = remove1 r (reqs_list w)"
proof -
  have s: "sync_err (w_syncs w p) = 0" using assms(1) by (auto simp: getting_def)
  obtain q where "w_reqs w r = Some q" "w_preallocs w' = (w_preallocs w)(d := filled tot off b (w_preallocs w d))"
    "w_syncs w' = (w_syncs w)(p := (w_syncs w p)\<lparr>sync_sem := 1\<rparr>)" "reqs_list w' = remove1 r (reqs_list w)"
    "w_reqs w' = (w_reqs w)(r := None)" "w_bufs w' = (w_bufs w)(req_data q := None)"
    by (rule handle_last_free[OF assms])
  with s show "w_preallocs w' d = filled tot off b (w_preallocs w d)" and "sync_sem (w_syncs w' p) = 1"
    and "sync_err (w_syncs w' p) = 0" and "w_reqs w' r = None" and "reqs_list w' = remove1 r (reqs_list w)" by simp_all
qed

section \<open>The whole value\<close>

lemma handle_responses_Cons:
  "handle_responses sys run r ((response, bytes, b) # rxs) w =
     handle_responses sys run r rxs (golioth_coap_req_reply_handler sys run r response bytes w)"
  by (simp add: handle_responses_def)

lemma handle_responses_complete:
  assumes "env_ok sys app lib" and "getting w r p d off" and "0 < tot" and "tot \<le> pre_capacity (w_preallocs w d)"
    and "tot < 2 ^ 32" and "\<And>ctx pkt b. fst (coap_append_block2_option sys ctx pkt b) = 0"
    and "block_responses sys tot off rxs" and w': "w' = handle_responses sys (run_callback sys app lib conf) r rxs w"
  shows "sync_sem (w_syncs w' p) = 1 \<and> sync_err (w_syncs w' p) = 0 \<and> w_reqs w' r = None \<and>
    pre_len (w_preallocs w' d) = tot \<and> \<not> pre_overrun (w_preallocs w' d) \<and>
    take tot (pre_data (w_preallocs w' d)) = take off (pre_data (w_preallocs w d)) @ value_of rxs"
  using assms(2,4,7) w'
proof (induction rxs arbitrary: w off)
  case (Cons rx rxs)
  obtain response bytes b where rx: "rx = (response, bytes, b)" by (metis prod_cases3)
  let ?w1 = "golioth_coap_req_reply_handler sys (run_callback sys app lib conf) r response bytes w"
  have le: "off + length b \<le> tot" using block_responses_length[OF Cons.prems(3)] rx by simp
  have pre: "pre_ready (w_preallocs w d)" using Cons.prems(1) by (simp add: getting_def)
  note f = filled_ready[OF pre Cons.prems(2) le]
  show ?case
  proof (cases rxs)
    case Nil
    with Cons.prems(3) rx have b: "block_response sys tot off False (response, bytes, b)" "off + length b = tot" by simp_all
    note l = handle_last[OF Cons.prems(1) assms(3) Cons.prems(2) le assms(5) b(1) refl, of app lib conf]
    have w1: "w' = ?w1" using Cons.prems(4) Nil rx by (simp add: handle_responses_def)
    show ?thesis
      using l(1-4) f(1,3,4) b(2) unfolding w1 by (simp add: rx Nil pre_ready_def)
  next
    case more: (Cons rx2 rxs2)
    with Cons.prems(3) rx have b: "block_response sys tot off True (response, bytes, b)" "b \<noteq> []"
      "block_responses sys tot (off + length b) rxs" by simp_all
    note m = handle_more[OF assms(1) Cons.prems(1) assms(3) Cons.prems(2) le assms(5) b(2) assms(6) b(1) refl, of conf]
    have cap: "tot \<le> pre_capacity (w_preallocs ?w1 d)" using m(2) f(2) Cons.prems(2) by simp
    have "w' = handle_responses sys (run_callback sys app lib conf) r rxs ?w1"
      using Cons.prems(4) rx by (simp add: handle_responses_Cons)
    from Cons.IH[OF m(1) cap b(3) this] show ?thesis using m(2) f(4) rx by simp
  qed
qed simp

text \<open>The result of the request that a get begins with.\<close>

definition get_requested ::
  "('e, 'x) sys_scheme \<Rightarrow> ptr \<Rightarrow> ptr \<Rightarrow> u8 list \<Rightarrow> nat \<Rightarrow> u8 list \<Rightarrow> 'e world \<Rightarrow> int" where
  "get_requested sys p d path format data w =
     fst (golioth_coap_req_sync_begin sys COAP_METHOD_GET [LIGHTDB_PATH, path] format []
       (Some Golioth_lightdb_get_prealloc_cb) (UD_prealloc d) 0 p
       (w\<lparr>w_preallocs := (w_preallocs w)(d := \<lparr>pre_data = data, pre_capacity = length data, pre_len = 0, pre_overrun = False\<rparr>)\<rparr>))"

text \<open>
  A blocking get always comes back. Either it could not be requested, and the caller gets that
  error; or the caller has the whole value, however the server cuts it into blocks: the blocks one behind the
  other in its buffer, their total length, and no error; the request is gone.
\<close>

lemma get_returns_value:
  assumes "env_ok sys app lib" and "world_ok w" and "0 < tot" and "tot \<le> length data" and "length data < 2 ^ 32"
    and "\<And>ctx pkt b. fst (coap_append_block2_option sys ctx pkt b) = 0" and "block_responses sys tot 0 rxs"
  shows "\<exists>n w'. golioth_lightdb_get sys (handle_responses sys (run_callback sys app lib conf) (w_next w) rxs) p d path
      format data w = Some (get_requested sys p d path format data w, n, w') \<and>
    (if get_requested sys p d path format data w \<noteq> 0 then w_client w' = w_client w \<and> w_reqs w' = w_reqs w
     else n = tot \<and> take tot (pre_data (w_preallocs w' d)) = value_of rxs \<and>
       \<not> pre_overrun (w_preallocs w' d) \<and> w_reqs w' (w_next w) = None)"
proof -
  let ?pre = "\<lparr>pre_data = data, pre_capacity = length data, pre_len = 0, pre_overrun = False\<rparr>"
  let ?sync = "\<lparr>sync_sem = 0, sync_err = 0, sync_cb = Some Golioth_lightdb_get_prealloc_cb, sync_user_data = UD_prealloc d\<rparr>"
  let ?w = "w\<lparr>w_preallocs := (w_preallocs w)(d := ?pre), w_syncs := (w_syncs w)(p := ?sync)\<rparr>"
  let ?wait = "handle_responses sys (run_callback sys app lib conf) (w_next w) rxs"
  have ok: "coap_lib_ok sys" using assms(1) by (simp add: env_ok_def)
  obtain err w1 where c: "golioth_coap_req_cb sys COAP_METHOD_GET [LIGHTDB_PATH, path] format [] (Some Golioth_req_sync_cb)
      (UD_sync p) 0 ?w = (err, w1)" by fastforce
  then have rq: "get_requested sys p d path format data w = err"
    by (simp add: get_requested_def golioth_coap_req_sync_begin_def)
  have w: "world_ok ?w" using assms(2) by (simp add: world_ok_def sync_ok_def settings_ready_def)
  have get: "golioth_lightdb_get sys ?wait p d path format data w =
      (case (if err \<noteq> 0 then Some (err, w1) else golioth_coap_req_sync_end p (?wait w1)) of
         None \<Rightarrow> None | Some (err, w2) \<Rightarrow> if err \<noteq> 0 then Some (err, length data, w2) else Some (0, pre_len (w_preallocs w2 d), w2))"
    using c by (simp add: golioth_lightdb_get_def golioth_coap_req_lightdb_sync_def golioth_coap_req_sync_def
        golioth_coap_req_sync_begin_def)
  from golioth_coap_req_cb_spec[OF world_okD(4)[OF w] ok c] show ?thesis
  proof (elim disjE conjE exE)
    assume "err \<noteq> 0" "only_env ?w w1"
    then show ?thesis using get by (simp add: rq only_envD)
  next
    fix q b e
    assume q: "err = 0" "w1 = scheduled ?w q b e" "req_cb q = (case Some Golioth_req_sync_cb of Some f \<Rightarrow> f
        | None \<Rightarrow> User_cb Golioth_req_rsp_default_handler)" "req_user_data q = UD_sync p"
      "req_is_observe q = (COAP_METHOD_GET = COAP_METHOD_GET \<and> flag_observe 0)" "blk_current (req_block_ctx q) = 0"
    have "cb_step ?w w1" using golioth_coap_req_cb_step[OF w ok _ c] by simp
    then have "world_ok w1" by (rule cb_stepD(1))
    with q have g: "getting w1 (w_next w) p d 0"
      by (simp add: getting_def pre_ready_def flag_observe_def)
    have cap: "tot \<le> pre_capacity (w_preallocs w1 d)" using q(2) assms(4) by simp
    have "tot < 2 ^ 32" using assms(4,5) by simp
    from handle_responses_complete[OF assms(1) g assms(3) cap this assms(6,7) refl, of conf]
    show ?thesis using get q(1) by (simp add: rq golioth_coap_req_sync_end_def Let_def)
  qed
qed

end
