(* ===== verification/Delivery.thy ===== *)
theory Delivery
  imports Blockwise
begin

text \<open>
  A blocking get over a network. The datagrams that arrive are matched to the queued requests by their tokens
  (\<^verbatim>\<open>golioth_coap_req_process_rx\<close>); among the blocks of the value, in order, are blocks that come again
  and datagrams for somebody else. Other requests may be queued, and are left alone.
\<close>

section \<open>The token of a request\<close>

text \<open>
  A packet whose header is written: the library reads the token \<open>tok\<close> from it, and writes behind it.
\<close>

definition headed :: "('e, 'x) sys_scheme \<Rightarrow> u8 list \<Rightarrow> coap_packet \<Rightarrow> u8 list \<Rightarrow> bool" where
  "headed sys tok p b \<longleftrightarrow> coap_header_get_token sys p b = tok \<and> 4 + length tok \<le> pkt_offset p"

definition op_headed :: "('e, 'x) sys_scheme \<Rightarrow> pkt_op \<Rightarrow> bool" where
  "op_headed sys f \<longleftrightarrow> (\<forall>tok p b. headed sys tok p b \<longrightarrow> headed sys tok (fst (snd (f p b))) (snd (snd (f p b))))"

text \<open>
  What the library does with tokens: they are made of at least one and at most eight bytes, written by
  \<^verbatim>\<open>coap_packet_init\<close>, not touched by what is appended nor by a new message id, and read from the bytes alone.
\<close>

definition tokens_kept :: "('e, 'x) sys_scheme \<Rightarrow> bool" where
  "tokens_kept sys \<longleftrightarrow>
     (\<forall>p p' b. coap_header_get_token sys p b = coap_header_get_token sys p' b) \<and>
     (\<forall>n t tok c i p b. length tok \<le> COAP_TOKEN_MAX_LEN \<longrightarrow>
        coap_packet_init sys (replicate n 0) n t tok c i = (0, p, b) \<longrightarrow> headed sys tok p b) \<and>
     (\<forall>n v. op_headed sys (coap_packet_append_option sys n v)) \<and> (\<forall>n v. op_headed sys (coap_append_option_int sys n v)) \<and>
     (\<forall>c. op_headed sys (coap_append_block2_option sys c)) \<and> op_headed sys (coap_packet_append_payload_marker sys) \<and>
     (\<forall>d. op_headed sys (coap_packet_append_payload sys d)) \<and>
     (\<forall>i b b' p. coap_packet_set_id i b = Some b' \<longrightarrow> coap_header_get_token sys p b' = coap_header_get_token sys p b) \<and>
     (\<forall>e. fst (coap_next_token sys e) \<noteq> [] \<and> length (fst (coap_next_token sys e)) \<le> COAP_TOKEN_MAX_LEN)"

lemma tokens_keptD:
  assumes "tokens_kept sys"
  shows "coap_header_get_token sys p b = coap_header_get_token sys p' b"
    and "length tok \<le> COAP_TOKEN_MAX_LEN \<Longrightarrow> coap_packet_init sys (replicate n 0) n t tok c i = (0, p, b) \<Longrightarrow> headed sys tok p b"
    and "op_headed sys (coap_packet_append_option sys n v)" and "op_headed sys (coap_append_option_int sys n k)"
    and "op_headed sys (coap_append_block2_option sys ctx)" and "op_headed sys (coap_packet_append_payload_marker sys)"
    and "op_headed sys (coap_packet_append_payload sys v)"
    and "coap_packet_set_id i b = Some b' \<Longrightarrow> coap_header_get_token sys p b' = coap_header_get_token sys p b"
    and "coap_next_token sys e = (tok, e') \<Longrightarrow> tok \<noteq> [] \<and> length tok \<le> COAP_TOKEN_MAX_LEN"
  using assms unfolding tokens_kept_def by (blast | metis fst_conv)+

lemma op_headedD: "op_headed sys f \<Longrightarrow> headed sys tok p b \<Longrightarrow> f p b = (e, p', b') \<Longrightarrow> headed sys tok p' b'"
  unfolding op_headed_def by (metis fst_conv snd_conv)

text \<open>The request \<open>r\<close> is allocated, and its packet has the token.\<close>

definition carries :: "('e, 'x) sys_scheme \<Rightarrow> u8 list \<Rightarrow> ptr \<Rightarrow> 'e world \<Rightarrow> bool" where
  "carries sys tok r w \<longleftrightarrow>
     (\<exists>q b. w_reqs w r = Some q \<and> w_bufs w (req_data q) = Some b \<and> headed sys tok (req_request q) b \<and>
        (pkt_offset (req_request_wo_block2 q) \<noteq> 0 \<longrightarrow> 4 + length tok \<le> pkt_offset (req_request_wo_block2 q)))"

lemma carries_on_request: "carries sys tok r w \<Longrightarrow> op_headed sys f \<Longrightarrow> carries sys tok r (snd (on_request f r w))"
  by (auto simp: carries_def on_request_def upd_req_def dest: op_headedD split: prod.split)

lemma carries_upd_req:
  assumes "carries sys tok r w"
    and "\<And>q. req_request (g q) = req_request q \<and> req_data (g q) = req_data q \<and> req_request_wo_block2 (g q) = req_request_wo_block2 q"
  shows "carries sys tok r (upd_req r g w)"
  using assms by (auto simp: carries_def upd_req_def)

lemma carries_cong: "w_reqs w' = w_reqs w \<Longrightarrow> w_bufs w' = w_bufs w \<Longrightarrow> carries sys tok r w' = carries sys tok r w"
  by (simp add: carries_def)

text \<open>The path is a sequence of options.\<close>

lemma uri_path_loop_headed:
  "uri_path_loop sys mem fin bgn p pkt buf = Some (err, pkt', buf') \<Longrightarrow>
     \<forall>n v. op_headed sys (coap_packet_append_option sys n v) \<Longrightarrow> headed sys tok pkt buf \<Longrightarrow> headed sys tok pkt' buf'"
proof (induction sys mem fin bgn p pkt buf rule: uri_path_loop.induct)
  case (1 sys mem fin bgn p pkt buf)
  then show ?case
    by (subst (asm) (3) uri_path_loop.simps) (fastforce dest: op_headedD split: if_splits prod.splits)
qed

lemma from_pathv_headed:
  assumes "\<forall>n v. op_headed sys (coap_packet_append_option sys n v)"
  shows "coap_packet_append_uri_path_from_pathv sys pathv pkt buf = Some (err, pkt', buf') \<Longrightarrow>
     headed sys tok pkt buf \<Longrightarrow> headed sys tok pkt' buf'"
proof (induction pathv arbitrary: pkt buf)
  case (Cons s pathv)
  obtain err1 pkt1 buf1 where s: "coap_packet_append_uri_path_from_stringz sys s pkt buf = Some (err1, pkt1, buf1)"
    using Cons.prems(1) by (auto split: option.splits)
  then have "headed sys tok pkt1 buf1"
    using Cons.prems(2) assms
    by (auto simp: coap_packet_append_uri_path_from_stringz_def coap_packet_append_uri_path_from_string_range_def
        split: option.splits intro: uri_path_loop_headed)
  with Cons s show ?case by (auto split: if_splits)
qed simp

lemma carries_path:
  assumes "carries sys tok r w" and "tokens_kept sys"
  shows "carries sys tok r (snd (append_uri_path_from_pathv sys pathv r w))"
proof -
  obtain q b where q: "w_reqs w r = Some q" "w_bufs w (req_data q) = Some b" "headed sys tok (req_request q) b"
    "pkt_offset (req_request_wo_block2 q) \<noteq> 0 \<longrightarrow> 4 + length tok \<le> pkt_offset (req_request_wo_block2 q)"
    using assms(1) by (auto simp: carries_def)
  obtain e p' b' where p: "coap_packet_append_uri_path_from_pathv sys pathv (req_request q) b = Some (e, p', b')"
    using from_pathv_no_fault[of sys pathv "req_request q" b] by (metis not_None_eq prod_cases3)
  have "headed sys tok p' b'" using from_pathv_headed[OF _ p q(3)] tokens_keptD(3)[OF assms(2)] by blast
  with q p show ?thesis by (simp add: carries_def append_uri_path_from_pathv_def on_request_def upd_req_def)
qed

text \<open>The token of the next request, of a buffer of \<open>n\<close> bytes.\<close>

definition next_request_token :: "('e, 'x) sys_scheme \<Rightarrow> nat \<Rightarrow> 'e world \<Rightarrow> u8 list" where
  "next_request_token sys n w =
     fst (coap_next_token sys (snd (sys_malloc sys n (snd (sys_malloc sys 1 (w_env w))))))"

lemma req_new_carries:
  assumes "fresh_ok w" and "tokens_kept sys" and "golioth_coap_req_new sys meth ty n cb ud w = (0, r, w1)"
  shows "r = w_next w \<and> carries sys (next_request_token sys n w) r w1"
proof -
  obtain ok1 e1 where m1: "sys_malloc sys 1 (w_env w) = (ok1, e1)" by fastforce
  obtain ok2 e2 where m2: "sys_malloc sys n e1 = (ok2, e2)" by fastforce
  obtain tok e3 where t: "coap_next_token sys e2 = (tok, e3)" by fastforce
  obtain i e4 where i: "coap_next_id sys e3 = (i, e4)" by fastforce
  obtain err pkt b where p: "coap_packet_init sys (replicate n 0) n ty tok meth i = (err, pkt, b)" by (metis prod_cases3)
  have ok: "ok1" "ok2"
    using assms(3) m1 m2 by (auto simp: golioth_coap_req_new_def env_read_def Let_def split: if_splits)
  have new: "(0, r, w1) = (if err \<noteq> 0 then (err, w_next w, w\<lparr>w_next := Suc (Suc (w_next w)), w_env := e4\<rparr>)
     else (0, w_next w, with_req w (fresh_req (w_client w) cb ud (Suc (w_next w)) pkt) b e4))"
    using golioth_coap_req_new_eq[OF assms(1) _ _ t i p, of e1] m1 m2 ok assms(3) by simp
  have "headed sys tok pkt b" using tokens_keptD(2,9)[OF assms(2)] p t new by (auto split: if_splits)
  with new m1 m2 t show ?thesis
    by (auto simp: next_request_token_def carries_def fresh_req_def zero_req_def split: if_splits)
qed

lemma build_carries:
  assumes "tokens_kept sys" and "carries sys tok r w"
  shows "carries sys tok r (snd (golioth_coap_req_cb_build sys meth pathv format data flags r w))"
proof -
  let ?P = "carries sys tok r"
  note keep = tokens_keptD[OF assms(1)]
  have step: "?P (snd (on_request f r v))" if "?P v" "op_headed sys f" for f v
    using that by (rule carries_on_request)
  have path: "?P (snd (append_uri_path_from_pathv sys pathv r v))" if "?P v" for v
    using that assms(1) by (rule carries_path)
  have "?P (upd_req r (\<lambda>q. q\<lparr>req_is_observe := True, req_is_pending := True\<rparr>) w)"
    by (rule carries_upd_req[OF assms(2)]) simp
  then have "?P (snd (if meth = COAP_METHOD_GET \<and> flag_observe flags
      then on_request (coap_append_option_int sys COAP_OPTION_OBSERVE 0) r
        (upd_req r (\<lambda>q. q\<lparr>req_is_observe := True, req_is_pending := True\<rparr>) w) else (0, w)))"
    using assms(2) step keep(4) by simp
  then show ?thesis
    unfolding golioth_coap_req_cb_build_def
    by (intro err_then_inv[where P = ?P]) (auto intro!: path step keep err_then_inv[where P = ?P])
qed

lemma schedule_carries: "carries sys tok r w \<Longrightarrow> carries sys tok r (snd (golioth_coap_req_schedule sys r w))"
  by (auto simp: golioth_coap_req_schedule_def golioth_coap_req_submit_def raw_golioth_coap_req_submit_def
      golioth_coap_pending_init_def env_read_def upd_client_def carries_def upd_req_def split: prod.split option.split)

lemma request_carries:
  assumes "fresh_ok w" and "tokens_kept sys" and "golioth_coap_req_cb sys meth pathv format data cb ud flags w = (0, w')"
  shows "carries sys (next_request_token sys (GOLIOTH_COAP_MAX_NON_PAYLOAD_LEN + coap_pathv_estimate_alloc_len pathv + length data) w)
    (w_next w) w'"
proof -
  let ?n = "GOLIOTH_COAP_MAX_NON_PAYLOAD_LEN + coap_pathv_estimate_alloc_len pathv + length data"
  obtain err r w1 where n: "golioth_coap_req_new sys meth COAP_TYPE_CON ?n cb ud w = (err, r, w1)" by (metis prod_cases3)
  with assms(3) have n0: "golioth_coap_req_new sys meth COAP_TYPE_CON ?n cb ud w = (0, r, w1)"
    by (auto simp: golioth_coap_req_cb_def split: if_splits)
  note new = req_new_carries[OF assms(1,2) n0]
  let ?P = "carries sys (next_request_token sys ?n w) (w_next w)"
  have "?P (snd (err_then (golioth_coap_req_cb_build sys meth pathv format data flags r w1) (golioth_coap_req_schedule sys r)))"
    using new build_carries[OF assms(2)] schedule_carries by (intro err_then_inv[where P = ?P]) auto
  with assms(3) n0 show ?thesis
    by (auto simp: golioth_coap_req_cb_def split: prod.splits if_splits)
qed

section \<open>Which request gets a datagram\<close>

text \<open>A datagram for the request with the token, one for another token; neither is a notification.\<close>

definition answer_to :: "('e, 'x) sys_scheme \<Rightarrow> u8 list \<Rightarrow> coap_packet \<Rightarrow> u8 list \<Rightarrow> bool" where
  "answer_to sys tok response bytes \<longleftrightarrow> coap_header_get_token sys response bytes = tok \<and>
     coap_get_option_int sys response bytes COAP_OPTION_OBSERVE = - ENOENT"

definition foreign :: "('e, 'x) sys_scheme \<Rightarrow> u8 list \<Rightarrow> coap_packet \<Rightarrow> u8 list \<Rightarrow> bool" where
  "foreign sys tok response bytes \<longleftrightarrow>
     (let rx_token = coap_header_get_token sys response bytes
      in rx_token \<noteq> [] \<and> take (length rx_token) (token_array tok) \<noteq> take (length rx_token) (token_array rx_token))"

lemma carries_matches:
  assumes "carries sys tok r w"
  shows "answer_to sys tok response bytes \<Longrightarrow> tok \<noteq> [] \<Longrightarrow> request_matches sys response bytes w r"
    and "foreign sys tok response bytes \<Longrightarrow> \<not> request_matches sys response bytes w r"
  using assms by (auto simp: carries_def request_matches_def headed_def answer_to_def foreign_def req_matches_def Let_def split: if_splits)

lemma find_only: "x \<in> set xs \<Longrightarrow> P x \<Longrightarrow> (\<And>y. y \<in> set xs \<Longrightarrow> y \<noteq> x \<Longrightarrow> \<not> P y) \<Longrightarrow> find P xs = Some x"
  by (induction xs) auto

lemma process_rx_only:
  assumes "world_ok w" and "r \<in> set (reqs_list w)" and "request_matches sys response bytes w r"
    and "\<And>r'. r' \<in> set (reqs_list w) \<Longrightarrow> r' \<noteq> r \<Longrightarrow> \<not> request_matches sys response bytes w r'"
    and "coap_get_option_int sys response bytes COAP_OPTION_OBSERVE = - ENOENT"
  shows "golioth_coap_req_process_rx sys run response bytes w = golioth_coap_req_reply_handler sys run r response bytes w"
  using process_rx_loop_find[OF assms(1) subset_refl, of sys run response bytes] find_only[of r "reqs_list w" "request_matches sys response bytes w"]
    assms(2-)
  by (simp add: golioth_coap_req_process_rx_def process_matched_def)

lemma process_rx_none:
  assumes "world_ok w" and "\<And>r'. r' \<in> set (reqs_list w) \<Longrightarrow> \<not> request_matches sys response bytes w r'"
  shows "golioth_coap_req_process_rx sys run response bytes w = w"
proof -
  have "find (request_matches sys response bytes w) (reqs_list w) = None" using assms(2) by (simp add: find_None_iff)
  with process_rx_loop_find[OF assms(1) subset_refl, of sys run response bytes] show ?thesis by (simp add: golioth_coap_req_process_rx_def)
qed

section \<open>What arrives\<close>

text \<open>A block before the offset that is wanted: the block context would move back.\<close>

definition old_block :: "('e, 'x) sys_scheme \<Rightarrow> nat \<Rightarrow> coap_packet \<Rightarrow> u8 list \<Rightarrow> bool" where
  "old_block sys off response bytes \<longleftrightarrow>
     golioth_coap_code_to_posix (coap_header_get_code sys response bytes) = 0 \<and>
     coap_get_option_int sys response bytes COAP_OPTION_BLOCK2 \<noteq> - ENOENT \<and>
     (\<forall>ctx. blk_current ctx = off \<longrightarrow>
        (case coap_update_from_block sys response bytes ctx of (err, ctx1) \<Rightarrow> err = 0 \<and> blk_current ctx1 < off))"

text \<open>
  \<open>arriving sys tok tot off rxs v\<close>: the datagrams \<open>rxs\<close> bring the rest \<open>v\<close> of a value of \<open>tot\<close> bytes from \<open>off\<close> on.
\<close>

inductive arriving ::
  "('e, 'x) sys_scheme \<Rightarrow> u8 list \<Rightarrow> nat \<Rightarrow> nat \<Rightarrow> (coap_packet \<times> u8 list \<times> u8 list) list \<Rightarrow> u8 list \<Rightarrow> bool"
  for sys tok tot where
  last_block: "answer_to sys tok response bytes \<Longrightarrow> block_response sys tot off False (response, bytes, b) \<Longrightarrow>
    off + length b = tot \<Longrightarrow> arriving sys tok tot off [(response, bytes, b)] b"
| next_block: "answer_to sys tok response bytes \<Longrightarrow> block_response sys tot off True (response, bytes, b) \<Longrightarrow> b \<noteq> [] \<Longrightarrow>
    arriving sys tok tot (off + length b) rxs v \<Longrightarrow> arriving sys tok tot off ((response, bytes, b) # rxs) (b @ v)"
| again: "answer_to sys tok response bytes \<Longrightarrow> old_block sys off response bytes \<Longrightarrow>
    arriving sys tok tot off rxs v \<Longrightarrow> arriving sys tok tot off ((response, bytes, b) # rxs) v"
| elsewhere: "foreign sys tok response bytes \<Longrightarrow>
    arriving sys tok tot off rxs v \<Longrightarrow> arriving sys tok tot off ((response, bytes, b) # rxs) v"

lemma arriving_length: "arriving sys tok tot off rxs v \<Longrightarrow> off + length v = tot"
  by (induction rule: arriving.induct) simp_all

definition receive_datagrams where
  "receive_datagrams sys run rxs w =
     fold (\<lambda>(response, bytes, b). golioth_coap_req_process_rx sys run response bytes) rxs w"

section \<open>The other requests\<close>

definition others_kept :: "ptr \<Rightarrow> 'e world \<Rightarrow> 'e world \<Rightarrow> bool" where
  "others_kept r w w' \<longleftrightarrow> remove1 r (reqs_list w') = remove1 r (reqs_list w) \<and>
     (\<forall>r' q. r' \<noteq> r \<longrightarrow> w_reqs w r' = Some q \<longrightarrow>
        w_reqs w' r' = Some q \<and> w_bufs w' (req_data q) = w_bufs w (req_data q))"

lemma others_kept_refl [simp]: "others_kept r w w"
  by (simp add: others_kept_def)

lemma others_kept_trans: "others_kept r a b \<Longrightarrow> others_kept r b c \<Longrightarrow> others_kept r a c"
  unfolding others_kept_def by metis

text \<open>They do not match the datagrams.\<close>

definition others_quiet ::
  "('e, 'x) sys_scheme \<Rightarrow> ptr \<Rightarrow> (coap_packet \<times> u8 list \<times> u8 list) list \<Rightarrow> 'e world \<Rightarrow> bool" where
  "others_quiet sys r rxs w \<longleftrightarrow> (\<forall>(response, bytes, b) \<in> set rxs. \<forall>r' \<in> set (reqs_list w) - {r}.
     \<not> request_matches sys response bytes w r')"

lemma others_kept_quiet:
  assumes "others_kept r w w'" and "world_ok w" and "world_ok w'" and "others_quiet sys r rxs w"
  shows "others_quiet sys r rxs w'"
proof -
  have "set (reqs_list w') - {r} = set (reqs_list w) - {r}"
    using assms(1) heap_okD(1)[OF world_ok_heap[OF assms(2)]] heap_okD(1)[OF world_ok_heap[OF assms(3)]]
    unfolding others_kept_def by (metis set_remove1_eq)
  moreover have "request_matches sys rx bytes w' r' = request_matches sys rx bytes w r'"
    if "r' \<in> set (reqs_list w) - {r}" for r' rx bytes
  proof -
    have "r' \<in> set (reqs_list w)" using that by simp
    from world_ok_listed[OF assms(2) this] obtain q b where "w_reqs w r' = Some q" "w_bufs w (req_data q) = Some b" .
    moreover from this have "w_reqs w' r' = Some q" "w_bufs w' (req_data q) = Some b"
      using assms(1) that unfolding others_kept_def by fastforce+
    ultimately show ?thesis by (simp add: request_matches_def)
  qed
  ultimately show ?thesis using assms(4) by (auto simp: others_quiet_def)
qed

lemma world_ok_other_data:
  assumes "world_ok w" and "w_reqs w r = Some q" and "w_reqs w r' = Some q'" and "r' \<noteq> r"
  shows "req_data q' \<noteq> req_data q"
  using heap_okD(5)[OF world_ok_heap[OF assms(1)]] assms(2-) by blast

text \<open>A change of the request itself and of its own packet.\<close>

lemma others_keptI:
  assumes "world_ok w" and "w_reqs w r = Some q" and "remove1 r (reqs_list w') = remove1 r (reqs_list w)"
    and "w_reqs w' = (w_reqs w)(r := q')" and "w_bufs w' = (w_bufs w)(req_data q := b')"
  shows "others_kept r w w'"
  using assms world_ok_other_data[OF assms(1,2)] by (auto simp: others_kept_def)

section \<open>One datagram\<close>

lemma handle_old:
  assumes "getting w r p d off" and "old_block sys off response bytes"
    and w'_def: "w' = golioth_coap_req_reply_handler sys run r response bytes w"
  shows "getting w' r p d off" and "w_preallocs w' = w_preallocs w" and "others_kept r w w'"
    and "carries sys tok r w \<Longrightarrow> carries sys tok r w'"
proof -
  from assms(1) obtain q where q: "w_reqs w r = Some q" "blk_current (req_block_ctx q) = off"
    and w: "world_ok w" by (auto simp: getting_def)
  obtain err ctx1 where u: "coap_update_from_block sys response bytes (req_block_ctx q) = (err, ctx1)" by fastforce
  with assms(2) q(2) have c: "err = 0" "blk_current ctx1 < off"
    "golioth_coap_code_to_posix (coap_header_get_code sys response bytes) = 0"
    "coap_get_option_int sys response bytes COAP_OPTION_BLOCK2 \<noteq> - ENOENT"
    unfolding old_block_def by force+
  have w': "w' = upd_req r (\<lambda>q. q\<lparr>req_block_ctx := ctx1\<lparr>blk_current := off\<rparr>\<rparr>) w"
    using q u c by (simp add: w'_def golioth_coap_req_reply_handler_def reply_block2_def upd_req_def Let_def)
  then have "world_ok w'"
    using upd_req_ok(1)[OF w q(1), of "\<lambda>q. q\<lparr>req_block_ctx := ctx1\<lparr>blk_current := off\<rparr>\<rparr>"] by (simp add: rx_step_def)
  with assms(1) q(1) show "getting w' r p d off" by (auto simp: w' getting_def upd_req_def)
  show "w_preallocs w' = w_preallocs w" "others_kept r w w'" by (simp_all add: w' upd_req_def q(1) others_kept_def)
  show "carries sys tok r w \<Longrightarrow> carries sys tok r w'" by (auto simp: w' intro: carries_upd_req)
qed

lemma handle_more_kept:
  assumes "env_ok sys app lib" and "getting w r p d off" and "0 < tot" and "tot \<le> pre_capacity (w_preallocs w d)"
    and "off + length b \<le> tot" and "tot < 2 ^ 32" and "b \<noteq> []"
    and "\<And>ctx pkt b. fst (coap_append_block2_option sys ctx pkt b) = 0"
    and "block_response sys tot off True (response, bytes, b)"
    and "w' = golioth_coap_req_reply_handler sys (run_callback sys app lib conf) r response bytes w"
    and "tokens_kept sys" and "carries sys tok r w"
  shows "others_kept r w w'" and "carries sys tok r w'"
proof -
  obtain q ctx w3 where q: "w_reqs w r = Some q"
    and w3: "w3 = w\<lparr>w_reqs := (w_reqs w)(r \<mapsto> q\<lparr>req_block_ctx := ctx\<rparr>),
      w_preallocs := (w_preallocs w)(d := filled tot off b (w_preallocs w d))\<rparr>"
    and ok: "world_ok w3" and nb: "golioth_coap_req_next_block sys (run_error_cb sys app lib conf) r 0 w3 = (0, w')"
    by (rule handle_more_next[OF assms(1-10)])
  have g: "world_ok w" "\<not> req_is_observe q" using assms(2) q by (auto simp: getting_def)
  let ?q = "q\<lparr>req_block_ctx := ctx\<rparr>"
  have q3: "w_reqs w3 r = Some ?q" "\<not> req_is_observe ?q" by (simp_all add: w3 g(2))
  obtain i bf b1 b2 pkt q4 e2 where n: "w_bufs w3 (req_data ?q) = Some bf" "coap_packet_set_id i bf = Some b1"
    "coap_append_block2_option sys (req_block_ctx ?q)
       (if pkt_offset (req_request_wo_block2 ?q) \<noteq> 0 then req_request_wo_block2 ?q else req_request ?q) b1 = (0, pkt, b2)"
    "req_request q4 = pkt"
    "req_request_wo_block2 q4 = (if pkt_offset (req_request_wo_block2 ?q) \<noteq> 0 then req_request_wo_block2 ?q else req_request ?q)"
    "same_static ?q q4"
    "w' = w3\<lparr>w_bufs := (w_bufs w3)(req_data ?q \<mapsto> b2), w_env := e2, w_reqs := (w_reqs w3)(r \<mapsto> q4)\<rparr>"
    by (rule next_block_eq[OF ok q3 assms(8) nb])
  from others_keptI[OF g(1) q, of w' "Some q4" "Some b2"] n(7) show "others_kept r w w'" by (simp add: w3)
  have h: "headed sys tok (req_request q) bf"
    "pkt_offset (req_request_wo_block2 q) \<noteq> 0 \<longrightarrow> 4 + length tok \<le> pkt_offset (req_request_wo_block2 q)"
    using assms(12) q n(1) by (auto simp: carries_def w3)
  note keep = tokens_keptD[OF assms(11)]
  let ?p = "if pkt_offset (req_request_wo_block2 q) \<noteq> 0 then req_request_wo_block2 q else req_request q"
  have p: "headed sys tok ?p b1"
    using h keep(8)[OF n(2)] keep(1)[of "req_request_wo_block2 q" b1 "req_request q"] by (simp add: headed_def)
  have "(if pkt_offset (req_request_wo_block2 ?q) \<noteq> 0 then req_request_wo_block2 ?q else req_request ?q) = ?p" by simp
  from op_headedD[OF keep(5) p n(3)[unfolded this]] have "headed sys tok pkt b2" .
  moreover have "4 + length tok \<le> pkt_offset ?p" using p by (simp add: headed_def)
  ultimately show "carries sys tok r w'" using n(4-7) by (simp add: carries_def same_static_def split: if_splits)
qed

lemma handle_last_kept:
  assumes "getting w r p d off" and "0 < tot" and "tot \<le> pre_capacity (w_preallocs w d)"
    and "off + length b \<le> tot" and "tot < 2 ^ 32"
    and "block_response sys tot off False (response, bytes, b)"
    and "w' = golioth_coap_req_reply_handler sys (run_callback sys app lib conf) r response bytes w"
  shows "others_kept r w w'"
proof -
  have w: "world_ok w" using assms(1) by (simp add: getting_def)
  show ?thesis
    by (rule handle_last_free[OF assms], rule others_keptI[OF w])
      (simp_all add: remove1_idem heap_okD(1)[OF world_ok_heap[OF w]])
qed

section \<open>The whole value\<close>

lemma receive_datagrams_Cons:
  "receive_datagrams sys run ((response, bytes, b) # rxs) w =
     receive_datagrams sys run rxs (golioth_coap_req_process_rx sys run response bytes w)"
  by (simp add: receive_datagrams_def)

text \<open>The state between two datagrams.\<close>

definition receiving ::
  "('e, 'x) sys_scheme \<Rightarrow> u8 list \<Rightarrow> ptr \<Rightarrow> ptr \<Rightarrow> ptr \<Rightarrow> nat \<Rightarrow> nat \<Rightarrow> (coap_packet \<times> u8 list \<times> u8 list) list
     \<Rightarrow> 'e world \<Rightarrow> bool" where
  "receiving sys tok r p d tot off rxs w \<longleftrightarrow> getting w r p d off \<and> carries sys tok r w \<and>
     tot \<le> pre_capacity (w_preallocs w d) \<and> others_quiet sys r rxs w"

lemma receiving_answer:
  assumes "receiving sys tok r p d tot off ((response, bytes, b) # rxs) w" and "tok \<noteq> []" and "answer_to sys tok response bytes"
  shows "golioth_coap_req_process_rx sys run response bytes w = golioth_coap_req_reply_handler sys run r response bytes w"
proof -
  from assms(1) have w: "world_ok w" and c: "carries sys tok r w" and q: "others_quiet sys r ((response, bytes, b) # rxs) w"
    by (simp_all add: receiving_def getting_def)
  from c have "r \<in> set (reqs_list w)" using world_ok_allocated[OF w] by (auto simp: carries_def)
  then show ?thesis
    using carries_matches(1)[OF c assms(3,2)] q assms(3)
    by (intro process_rx_only[OF w]) (auto simp: others_quiet_def answer_to_def)
qed

lemma receiving_next:
  assumes "receiving sys tok r p d tot off (rx # rxs) w" and "others_kept r w w'" and "getting w' r p d off'"
    and "carries sys tok r w'" and "pre_capacity (w_preallocs w' d) = pre_capacity (w_preallocs w d)"
  shows "receiving sys tok r p d tot off' rxs w'"
proof -
  have "others_quiet sys r (rx # rxs) w'"
    using others_kept_quiet[OF assms(2), of sys "rx # rxs"] assms(1,3) by (simp add: receiving_def getting_def)
  with assms show ?thesis by (simp add: receiving_def others_quiet_def)
qed

lemma receive_datagrams_complete:
  assumes "arriving sys tok tot off rxs v" and "receiving sys tok r p d tot off rxs w"
    and "env_ok sys app lib" and "tokens_kept sys" and "tok \<noteq> []" and "0 < tot" and "tot < 2 ^ 32"
    and "\<And>ctx pkt b. fst (coap_append_block2_option sys ctx pkt b) = 0"
    and w': "w' = receive_datagrams sys (run_callback sys app lib conf) rxs w"
  shows "sync_sem (w_syncs w' p) = 1 \<and> sync_err (w_syncs w' p) = 0 \<and> w_reqs w' r = None \<and>
    reqs_list w' = remove1 r (reqs_list w) \<and> others_kept r w w' \<and>
    pre_len (w_preallocs w' d) = tot \<and> \<not> pre_overrun (w_preallocs w' d) \<and>
    take tot (pre_data (w_preallocs w' d)) = take off (pre_data (w_preallocs w d)) @ v"
  using assms(1,2) w'
proof (induction arbitrary: w rule: arriving.induct)
  case (last_block response bytes off b)
  from last_block.prems(1) have g: "getting w r p d off" and cap: "tot \<le> pre_capacity (w_preallocs w d)"
    and pre: "pre_ready (w_preallocs w d)" by (simp_all add: receiving_def getting_def)
  have le: "off + length b \<le> tot" using last_block.hyps(3) by simp
  have h: "w' = golioth_coap_req_reply_handler sys (run_callback sys app lib conf) r response bytes w"
    using last_block.prems(2) receiving_answer[OF last_block.prems(1) assms(5) last_block.hyps(1)] by (simp add: receive_datagrams_def)
  note l = handle_last[OF g assms(6) cap le assms(7) last_block.hyps(2) h]
    handle_last_kept[OF g assms(6) cap le assms(7) last_block.hyps(2) h]
  show ?case using l filled_ready[OF pre cap le] last_block.hyps(3) by (simp add: pre_ready_def)
next
  case (next_block response bytes off b rxs v)
  let ?w1 = "golioth_coap_req_reply_handler sys (run_callback sys app lib conf) r response bytes w"
  from next_block.prems(1) have g: "getting w r p d off" and cap: "tot \<le> pre_capacity (w_preallocs w d)"
    and pre: "pre_ready (w_preallocs w d)" and c: "carries sys tok r w" by (simp_all add: receiving_def getting_def)
  have le: "off + length b \<le> tot" using arriving_length[OF next_block.hyps(4)] by simp
  note m = handle_more[OF assms(3) g assms(6) cap le assms(7) next_block.hyps(3) assms(8) next_block.hyps(2) refl, of conf]
    handle_more_kept[OF assms(3) g assms(6) cap le assms(7) next_block.hyps(3) assms(8) next_block.hyps(2) refl assms(4) c, of conf]
  note f = filled_ready[OF pre cap le]
  have "receiving sys tok r p d tot (off + length b) rxs ?w1"
    using receiving_next[OF next_block.prems(1) m(3,1,4)] m(2) f(2) by simp
  moreover have "w' = receive_datagrams sys (run_callback sys app lib conf) rxs ?w1"
    using next_block.prems(2) receiving_answer[OF next_block.prems(1) assms(5) next_block.hyps(1)] by (simp add: receive_datagrams_Cons)
  moreover have "remove1 r (reqs_list ?w1) = remove1 r (reqs_list w)" using m(3) by (simp add: others_kept_def)
  ultimately show ?case
    using next_block.IH[of ?w1] m(2) f(4) others_kept_trans[OF m(3)] by auto
next
  case (again response bytes off rxs v b)
  let ?w1 = "golioth_coap_req_reply_handler sys (run_callback sys app lib conf) r response bytes w"
  from again.prems(1) have g: "getting w r p d off" and c: "carries sys tok r w" by (simp_all add: receiving_def)
  note o = handle_old[OF g again.hyps(2) refl, where run = "run_callback sys app lib conf"]
  have "receiving sys tok r p d tot off rxs ?w1"
    using receiving_next[OF again.prems(1) o(3,1) o(4)[OF c]] o(2) by simp
  moreover have "w' = receive_datagrams sys (run_callback sys app lib conf) rxs ?w1"
    using again.prems(2) receiving_answer[OF again.prems(1) assms(5) again.hyps(1)] by (simp add: receive_datagrams_Cons)
  moreover have "remove1 r (reqs_list ?w1) = remove1 r (reqs_list w)" using o(3) by (simp add: others_kept_def)
  ultimately show ?case
    using again.IH[of ?w1] o(2) others_kept_trans[OF o(3)] by auto
next
  case (elsewhere response bytes off rxs v b)
  from elsewhere.prems(1) have w: "world_ok w" "carries sys tok r w" "getting w r p d off"
    "others_quiet sys r ((response, bytes, b) # rxs) w" by (simp_all add: receiving_def getting_def)
  have "golioth_coap_req_process_rx sys (run_callback sys app lib conf) response bytes w = w"
    using w(4) carries_matches(2)[OF w(2) elsewhere.hyps(1)] by (intro process_rx_none[OF w(1)]) (auto simp: others_quiet_def)
  moreover have "receiving sys tok r p d tot off rxs w"
    using receiving_next[OF elsewhere.prems(1) _ w(3,2)] by simp
  ultimately show ?case using elsewhere by (simp add: receive_datagrams_Cons)
qed


end
