(* ===== verification/CallTrace.thy ===== *)
theory CallTrace
  imports CoapReqTimer
begin

text \<open>
  Which callbacks a disconnection runs, and in which order: a callback that only records its call
  is one that meets the contract of \<open>error_callback\<close>, so the record is the list of calls the
  code makes.
\<close>

type_synonym call = "golioth_req_cb \<times> golioth_req_rsp"

definition record_call :: "golioth_req_cb \<Rightarrow> golioth_req_rsp \<Rightarrow> call list world \<Rightarrow> int \<times> call list world" where
  "record_call cb rsp w = (0, w\<lparr>w_env := w_env w @ [(cb, rsp)]\<rparr>)"

interpretation recorder: error_callback record_call
  by unfold_locales (simp add: record_call_def coap_same_def)

text \<open>The call that ends request \<open>r\<close> with \<open>err\<close>.\<close>

definition ending_call :: "'e world \<Rightarrow> int \<Rightarrow> ptr \<Rightarrow> call" where
  "ending_call w err r =
     (let q = the (w_reqs w r) in (req_cb q, error_rsp (req_user_data q) err))"

lemma heap_empty:
  assumes "world_ok w" and "reqs_list w = []"
  shows "w_reqs w = Map.empty" and "w_bufs w = Map.empty"
proof -
  note H = world_ok_heap[OF assms(1)]
  show r: "w_reqs w = Map.empty" using heap_okD(2)[OF H] assms(2) by simp
  show "w_bufs w = Map.empty" using heap_okD(3)[OF H] r by simp
qed

lemma on_disconnect_calls:
  assumes "world_ok w"
  shows "\<exists>w'. golioth_coap_reqs_on_disconnect record_call w = Some w' \<and>
    w_env w' = w_env w @ map (ending_call w (- ESHUTDOWN)) (reqs_list w) \<and>
    reqs_list w' = [] \<and> w_reqs w' = Map.empty \<and> w_bufs w' = Map.empty"
proof -
  let ?w = "upd_client (\<lambda>c. c\<lparr>cl_coap_reqs_connected := False\<rparr>) w"
  have m: "mem_ok ?w" using assms by (simp add: world_ok_mem_ok mem_ok_def upd_client_def settings_ready_def)
  obtain w' where w': "golioth_coap_reqs_on_disconnect record_call w = Some w'" "world_ok w'" "reqs_list w' = []"
    by (rule recorder.on_disconnect_ok[OF assms])
  have "walk (cancel_body record_call (- ESHUTDOWN)) (reqs_list ?w) ?w = Some w'"
    using w'(1) recorder.cancel_all_walk[OF m, of "- ESHUTDOWN"] by (simp add: golioth_coap_reqs_on_disconnect_def)
  from recorder.walk_cancel_log[OF m refl _ _ this, of id]
  have "w_env w' = w_env w @ map (ending_call w (- ESHUTDOWN)) (reqs_list w)"
    by (simp add: record_call_def ending_call_def Let_def upd_client_def)
  with w' heap_empty[OF w'(2,3)] show ?thesis by blast
qed

end
