(* ===== verification/Completion.thy ===== *)
theory Completion
  imports CallTrace
begin

text \<open>
  The life of a request: how often its callback is called, and when it is gone.

  A callback that writes each call into the environment makes the calls visible (\<open>tr_calls\<close>).
  \<open>tell\<close> is one that besides asks for the next block of a response, as the callbacks of the SDK do,
  and returns any value. The proofs are done once for every callback that writes the calls down, in
  the locale \<open>traced_callback\<close>.
\<close>

section \<open>Traces\<close>

type_synonym traced_call = "golioth_req_cb \<times> golioth_req_rsp \<times> int"

record traced =
  tr_calls :: "traced_call list"

abbreviation calls :: "'z traced_scheme world \<Rightarrow> traced_call list" where
  "calls w \<equiv> tr_calls (w_env w)"

text \<open>Nothing but a callback writes to the trace.\<close>

definition keeps_calls :: "('z traced_scheme, 'x) sys_scheme \<Rightarrow> bool" where
  "keeps_calls sys \<longleftrightarrow> (\<forall>e.
     tr_calls (snd (coap_next_id sys e)) = tr_calls e \<and> tr_calls (snd (coap_next_token sys e)) = tr_calls e \<and>
     tr_calls (snd (k_uptime_get sys e)) = tr_calls e \<and> tr_calls (snd (k_uptime_get_32 sys e)) = tr_calls e \<and>
     tr_calls (snd (sys_rand32_get sys e)) = tr_calls e \<and> (\<forall>n. tr_calls (snd (sys_malloc sys n e)) = tr_calls e) \<and>
     (\<forall>s d f. tr_calls (snd (zsock_send sys s d f e)) = tr_calls e) \<and>
     (\<forall>f. tr_calls (call_wakeup sys f e) = tr_calls e))"

lemma keeps_callsD:
  assumes "keeps_calls sys"
  shows "coap_next_id sys e = (i, e') \<Longrightarrow> tr_calls e' = tr_calls e"
    and "coap_next_token sys e = (tok, e') \<Longrightarrow> tr_calls e' = tr_calls e"
    and "k_uptime_get sys e = (t, e') \<Longrightarrow> tr_calls e' = tr_calls e"
    and "k_uptime_get_32 sys e = (t32, e') \<Longrightarrow> tr_calls e' = tr_calls e"
    and "sys_rand32_get sys e = (x, e') \<Longrightarrow> tr_calls e' = tr_calls e"
    and "sys_malloc sys n e = (ok, e') \<Longrightarrow> tr_calls e' = tr_calls e"
    and "zsock_send sys s d f e = (k, e') \<Longrightarrow> tr_calls e' = tr_calls e"
  using assms unfolding keeps_calls_def by (metis snd_conv)+

lemma keeps_calls_wakeup: "keeps_calls sys \<Longrightarrow> tr_calls (call_wakeup sys g e) = tr_calls e"
  by (simp add: keeps_calls_def)

text \<open>Memory operations do not touch it.\<close>

lemma calls_memory [simp]:
  "w_env (fault w) = w_env w" "w_env (upd_req r g w) = w_env w" "w_env (upd_client h w) = w_env w"
  "w_env (free_req_obj r w) = w_env w" "w_env (free_buf p w) = w_env w"
  "w_env (golioth_coap_req_cancel r w) = w_env w" "w_env (golioth_coap_req_free r w) = w_env w"
  "w_env (golioth_coap_req_cancel_and_free r w) = w_env w"
  by (simp_all add: fault_def upd_req_def upd_client_def free_req_obj_def free_buf_def golioth_coap_req_cancel_def
      golioth_coap_req_free_def golioth_coap_req_cancel_and_free_def split: option.split)

section \<open>A life\<close>

text \<open>
  The last call of a request: one that reports an error; and, unless it is an observation, one with
  no more to come, or whose callback returns an error.
\<close>

fun final_call :: "golioth_coap_req \<Rightarrow> traced_call \<Rightarrow> bool" where
  "final_call q (cb, rsp, e) \<longleftrightarrow>
     rsp_err rsp \<noteq> 0 \<or> (\<not> req_is_observe q \<and> (rsp_get_next rsp = None \<or> e \<noteq> 0))"

fun own_call :: "golioth_coap_req \<Rightarrow> traced_call \<Rightarrow> bool" where
  "own_call q (cb, rsp, e) \<longleftrightarrow> cb = req_cb q \<and> rsp_user_data rsp = req_user_data q"

definition same_call :: "golioth_coap_req \<Rightarrow> golioth_coap_req \<Rightarrow> bool" where
  "same_call q q' \<longleftrightarrow> req_cb q' = req_cb q \<and> req_user_data q' = req_user_data q \<and> req_is_observe q' = req_is_observe q"

text \<open>
  What became of a request \<open>q\<close> that had the calls \<open>cs\<close>: it is there, and none of them was its last, or it
  is gone, and exactly one was, the one at the end.
\<close>

definition request_life :: "golioth_coap_req \<Rightarrow> traced_call list \<Rightarrow> golioth_coap_req option \<Rightarrow> bool" where
  "request_life q cs now \<longleftrightarrow> list_all (own_call q) cs \<and>
     (case now of
        Some q' \<Rightarrow> same_call q q' \<and> list_all (\<lambda>c. \<not> final_call q c) cs
      | None \<Rightarrow> cs \<noteq> [] \<and> final_call q (last cs) \<and> list_all (\<lambda>c. \<not> final_call q c) (butlast cs))"

definition calls_of :: "ptr \<Rightarrow> (ptr \<times> traced_call) list \<Rightarrow> traced_call list" where
  "calls_of r cs = map snd (filter (\<lambda>x. fst x = r) cs)"

lemma calls_of_simps [simp]:
  "calls_of r [] = []" "calls_of r ((r', c) # cs) = (if r' = r then c # calls_of r cs else calls_of r cs)"
  "calls_of r (cs @ ds) = calls_of r cs @ calls_of r ds"
  by (simp_all add: calls_of_def)

text \<open>An address is given out once.\<close>

definition allocates :: "'e world \<Rightarrow> 'e world \<Rightarrow> bool" where
  "allocates w w' \<longleftrightarrow> w_next w \<le> w_next w' \<and> (\<forall>r<w_next w. w_reqs w r = None \<longrightarrow> w_reqs w' r = None)"

lemma allocatesI:
  assumes "w_next w \<le> w_next w'" and "\<And>r. r < w_next w \<Longrightarrow> w_reqs w r = None \<Longrightarrow> w_reqs w' r = None"
  shows "allocates w w'"
  using assms by (simp add: allocates_def)

lemma allocates_refl [simp]: "allocates w w"
  by (simp add: allocates_def)

lemma allocates_trans: "allocates a b \<Longrightarrow> allocates b c \<Longrightarrow> allocates a c"
  by (auto simp: allocates_def)

text \<open>All the requests there are in \<open>w\<close>, up to \<open>w'\<close>.\<close>

definition lives :: "'z traced_scheme world \<Rightarrow> 'z traced_scheme world \<Rightarrow> (ptr \<times> traced_call) list \<Rightarrow> bool" where
  "lives w w' cs \<longleftrightarrow> calls w' = calls w @ map snd cs \<and> allocates w w' \<and>
     (\<forall>r q. w_reqs w r = Some q \<longrightarrow> request_life q (calls_of r cs) (w_reqs w' r)) \<and>
     (\<forall>r<w_next w. w_reqs w r = None \<longrightarrow> calls_of r cs = [])"

lemma livesD:
  assumes "lives w w' cs"
  shows "calls w' = calls w @ map snd cs" and "allocates w w'"
    and "w_reqs w r = Some q \<Longrightarrow> request_life q (calls_of r cs) (w_reqs w' r)"
    and "r < w_next w \<Longrightarrow> w_reqs w r = None \<Longrightarrow> calls_of r cs = []"
  using assms by (simp_all add: lives_def)

lemma same_call_refl [simp]: "same_call q q"
  by (simp add: same_call_def)

lemma same_call_trans: "same_call a b \<Longrightarrow> same_call b c \<Longrightarrow> same_call a c"
  by (simp add: same_call_def)

lemma same_static_same_call: "same_static q q' \<Longrightarrow> same_call q q'"
  by (simp add: same_static_def same_call_def)

lemma same_call_calls: "same_call q q' \<Longrightarrow> final_call q' c = final_call q c \<and> own_call q' c = own_call q c"
  by (cases c) (simp add: same_call_def)

lemma request_life_trans:
  assumes "request_life q cs (Some q1)" and "request_life q1 ds now"
  shows "request_life q (cs @ ds) now"
  using assms same_call_calls[of q q1] same_call_trans[of q q1]
  by (auto simp: request_life_def list_all_iff butlast_append split: option.splits)

lemma lives_trans:
  assumes "lives a b cs" and "lives b c ds" and "fresh_ok a"
  shows "lives a c (cs @ ds)"
proof -
  have fresh: "r < w_next a" if "w_reqs a r \<noteq> None" for r
    using assms(3) that by (auto simp: fresh_ok_def not_less[symmetric])
  note A = livesD[OF assms(1)] and B = livesD[OF assms(2)]
  have gone: "calls_of r ds = [] \<and> w_reqs c r = None" if "w_reqs b r = None" "r < w_next a" for r
    using A(2) B(2) B(4)[of r] that by (auto simp: allocates_def)
  have "request_life q (calls_of r (cs @ ds)) (w_reqs c r)" if q: "w_reqs a r = Some q" for r q
  proof (cases "w_reqs b r")
    case None
    with gone[OF None fresh] A(3)[OF q] q show ?thesis by simp
  next
    case (Some q1)
    with A(3)[OF q] B(3)[OF Some] request_life_trans show ?thesis by auto
  qed
  moreover have "calls_of r (cs @ ds) = []" if "r < w_next a" "w_reqs a r = None" for r
    using A(4)[OF that] gone[OF _ that(1)] A(2) that by (simp add: allocates_def)
  ultimately show ?thesis using A(1) B(1) allocates_trans[OF A(2) B(2)] by (simp add: lives_def)
qed

definition lived :: "'z traced_scheme world \<Rightarrow> 'z traced_scheme world \<Rightarrow> bool" where
  "lived w w' \<longleftrightarrow> (\<exists>cs. lives w w' cs)"

lemma livedI: "lives w w' cs \<Longrightarrow> lived w w'"
  unfolding lived_def by blast

lemma lived_trans: "lived a b \<Longrightarrow> lived b c \<Longrightarrow> fresh_ok a \<Longrightarrow> lived a c"
  unfolding lived_def using lives_trans by blast

text \<open>A step without a call, and what it may change.\<close>

lemma lives_quiet:
  assumes "calls w' = calls w" and "allocates w w'"
    and "\<And>r q. w_reqs w r = Some q \<Longrightarrow> \<exists>q'. w_reqs w' r = Some q' \<and> same_call q q'"
  shows "lives w w' []"
  using assms by (fastforce simp: lives_def request_life_def)

lemma lives_upd_req:
  assumes "\<And>q. same_call q (f q)"
  shows "lives w (upd_req r f w) []"
  by (rule lives_quiet) (use assms in \<open>auto simp: upd_req_def allocates_def fault_def split: option.splits\<close>)

lemma lives_same_but_env: "same_but_env w w' \<Longrightarrow> calls w' = calls w \<Longrightarrow> lives w w' []"
  by (rule lives_quiet) (auto simp: allocates_def same_but_envD)

section \<open>The trace outside of callbacks\<close>

lemma send_calls:
  assumes "keeps_calls sys"
  shows "calls (snd (golioth_coap_req_send sys r w)) = calls w"
  by (auto simp: golioth_coap_req_send_def golioth_send_coap_def golioth_send_def raw_golioth_send_def env_read_def Let_def
      split: option.splits prod.splits dest: keeps_callsD[OF assms])

lemma pending_init_calls:
  assumes "keeps_calls sys"
  shows "calls (golioth_coap_pending_init sys r n w) = calls w"
  by (auto simp: golioth_coap_pending_init_def env_read_def split: prod.splits dest: keeps_callsD[OF assms])

lemma on_request_calls [simp]: "calls (snd (on_request f r w)) = calls w"
  by (simp add: on_request_def split: option.splits prod.splits)

lemma append_uri_path_calls [simp]: "calls (snd (append_uri_path_from_pathv sys pathv r w)) = calls w"
  by (simp add: append_uri_path_from_pathv_def split: option.splits prod.splits)

lemma schedule_calls:
  assumes "keeps_calls sys"
  shows "calls (snd (golioth_coap_req_schedule sys r w)) = calls w"
  using keeps_calls_wakeup[OF assms] pending_init_calls[OF assms, of r 3 w]
  by (auto simp: golioth_coap_req_schedule_def golioth_coap_req_submit_def raw_golioth_coap_req_submit_def
      split: option.splits)

lemma build_calls: "calls (snd (golioth_coap_req_cb_build sys meth pathv format data flags r w)) = calls w"
  unfolding golioth_coap_req_cb_build_def
  by (intro err_then_inv[where P = "\<lambda>v. calls v = calls w"]) (auto intro!: err_then_inv[where P = "\<lambda>v. calls v = calls w"])

lemma new_calls:
  assumes "keeps_calls sys" and "golioth_coap_req_new sys meth ty n cb ud w = (err, r, w')"
  shows "calls w' = calls w"
  using assms(2)
  by (auto simp: golioth_coap_req_new_def golioth_coap_req_init_def env_read_def Let_def
      split: prod.splits if_splits option.splits dest!: keeps_callsD[OF assms(1)])

lemma req_cb_calls:
  assumes "keeps_calls sys"
  shows "calls (snd (golioth_coap_req_cb sys meth pathv format data cb ud flags w)) = calls w"
proof -
  obtain err r w1 where n: "golioth_coap_req_new sys meth COAP_TYPE_CON
      (GOLIOTH_COAP_MAX_NON_PAYLOAD_LEN + coap_pathv_estimate_alloc_len pathv + length data) cb ud w = (err, r, w1)"
    by (metis prod_cases3)
  have "calls (snd (err_then (golioth_coap_req_cb_build sys meth pathv format data flags r w1)
      (golioth_coap_req_schedule sys r))) = calls w1"
    by (rule err_then_inv[where P = "\<lambda>v. calls v = calls w1"]) (simp_all add: build_calls schedule_calls[OF assms])
  then show ?thesis using n new_calls[OF assms n] by (simp add: golioth_coap_req_cb_def Let_def split_beta)
qed

lemma pending_cycle_calls:
  assumes "keeps_calls sys" and "golioth_coap_pending_cycle sys p e = (send, p', e')"
  shows "tr_calls e' = tr_calls e"
  using assms(2)
  by (auto simp: golioth_coap_pending_cycle_def init_ack_timeout_def Let_def split: if_splits prod.splits
      dest: keeps_callsD[OF assms(1)])

lemma poll_loop_calls:
  assumes "keeps_calls sys" and "poll_loop sys now p send e = Some (res, p', send', e')"
  shows "tr_calls e' = tr_calls e"
proof -
  define P where "P sys e x \<longleftrightarrow> (keeps_calls sys \<longrightarrow> (case x of (_, _, _, e') \<Rightarrow> tr_calls e' = tr_calls e))"
    for sys :: "('a traced_scheme, 'b) sys_scheme" and e :: "'a traced_scheme" and x :: "int option \<times> golioth_coap_pending \<times> bool \<times> 'a traced_scheme"
  have "P sys e (res, p', send', e')"
  proof (rule poll_loop.raw_induct[where P = "\<lambda>sys _ _ _ e x. P sys e x", OF _ assms(2)])
    fix self :: "('a traced_scheme, 'b) sys_scheme \<Rightarrow> u32 \<Rightarrow> golioth_coap_pending \<Rightarrow> bool \<Rightarrow> 'a traced_scheme
      \<Rightarrow> (int option \<times> golioth_coap_pending \<times> bool \<times> 'a traced_scheme) option" and sys now p send e x
    assume IH: "\<And>sys now p send e x. self sys now p send e = Some x \<Longrightarrow> P sys e x"
      and body: "(let timeout = s32_sub (pend_t0 p + pend_timeout p) now in
        if timeout > 0 then Some (Some timeout, p, send, e)
        else (case golioth_coap_pending_cycle sys p e of
           (send', p', e') \<Rightarrow> if \<not> send' then Some (None, p', send', e') else self sys now p' send' e')) = Some x"
    obtain s1 p1 e1 where c: "golioth_coap_pending_cycle sys p e = (s1, p1, e1)" by (metis prod_cases3)
    show "P sys e x" unfolding P_def
    proof
      assume k: "keeps_calls sys"
      note e1 = pending_cycle_calls[OF k c]
      show "case x of (_, _, _, e') \<Rightarrow> tr_calls e' = tr_calls e"
        using body c e1 k IH[of sys now p1 s1 e1 x] by (auto simp: Let_def P_def split: if_splits)
    qed
  qed
  with assms(1) show ?thesis by (simp add: P_def)
qed

lemma append_block2_calls [simp]: "calls (snd (golioth_coap_req_append_block2_option sys r w)) = calls w"
  by (simp add: golioth_coap_req_append_block2_option_def Let_def split: option.split)

lemma set_request_id_calls [simp]: "calls (set_request_id r i w) = calls w"
  by (simp add: set_request_id_def split: option.split)

lemma next_block_calls:
  assumes "keeps_calls sys" and "\<And>cb rsp w. calls (snd (run cb rsp w)) = calls w"
  shows "calls (snd (golioth_coap_req_next_block sys run r status w)) = calls w"
proof -
  obtain i e where i: "coap_next_id sys (w_env w) = (i, e)" by fastforce
  obtain err w2 where a: "golioth_coap_req_append_block2_option sys r (set_request_id r i (w\<lparr>w_env := e\<rparr>)) = (err, w2)"
    by fastforce
  have "calls w2 = calls w"
    using append_block2_calls[of sys r "set_request_id r i (w\<lparr>w_env := e\<rparr>)"] a keeps_callsD(1)[OF assms(1) i] by simp
  then show ?thesis
    using keeps_callsD(1)[OF assms(1) i] i a
    by (simp add: golioth_coap_req_next_block_def env_read_def pending_init_calls[OF assms(1)] assms(2) split: option.split)
qed

section \<open>Calls\<close>

text \<open>A call by the request layer, for the request \<open>r\<close> that was \<open>q\<close> at the start.\<close>

definition call_for :: "golioth_coap_req \<Rightarrow> golioth_req_rsp \<Rightarrow> int \<Rightarrow> traced_call" where
  "call_for q rsp e = (req_cb q, rsp, e)"

lemma lives_one_call:
  assumes "calls w' = calls w @ [c]" and "allocates w w'" and "w_reqs w r = Some q" and "own_call q c"
    and "\<And>r' q'. r' \<noteq> r \<Longrightarrow> w_reqs w r' = Some q' \<Longrightarrow> \<exists>q''. w_reqs w' r' = Some q'' \<and> same_call q' q''"
    and "if final_call q c then w_reqs w' r = None else \<exists>q'. w_reqs w' r = Some q' \<and> same_call q q'"
  shows "lives w w' [(r, c)]"
  unfolding lives_def
proof (intro conjI allI impI)
  fix r' q' assume q': "w_reqs w r' = Some q'"
  show "request_life q' (calls_of r' [(r, c)]) (w_reqs w' r')"
  proof (cases "r' = r")
    case True
    with assms(3,4,6) q' show ?thesis by (auto simp: request_life_def split: if_splits)
  next
    case False
    with assms(5)[OF False q'] show ?thesis by (auto simp: request_life_def)
  qed
qed (use assms in auto)

text \<open>A callback that writes its calls down, and allocates as the SDK does.\<close>

locale traced_callback = req_callback run
  for run :: "golioth_req_cb \<Rightarrow> golioth_req_rsp \<Rightarrow> 'z traced_scheme world \<Rightarrow> int \<times> 'z traced_scheme world" +
  assumes run_calls: "calls (snd (run cb rsp w)) = calls w @ [(cb, rsp, fst (run cb rsp w))]"
    and run_allocates: "world_ok w \<Longrightarrow> rsp_ok w rsp \<Longrightarrow> ud_ok (settings_ready w) cb (rsp_user_data rsp) \<Longrightarrow>
      allocates w (snd (run cb rsp w))"
begin

text \<open>A call that is not the last, a last one, and a last one while the list is being emptied.\<close>

lemma call_keeps:
  assumes "serving w r q" and "w_reqs w r = Some q0" and "same_call q0 q"
    and "rsp_ok w rsp" and "rsp_user_data rsp = req_user_data q" and "run (req_cb q) rsp w = (e, w')"
  shows "calls w' = calls w @ [call_for q rsp e]" and "allocates w w'" and "own_call q0 (call_for q rsp e)"
    and "\<And>r' q'. w_reqs w r' = Some q' \<Longrightarrow> \<exists>q''. w_reqs w' r' = Some q'' \<and> same_call q' q''"
    and "world_ok w'" and "r \<in> set (reqs_list w')"
proof -
  have ud: "ud_ok (settings_ready w) (req_cb q) (rsp_user_data rsp)" and w: "world_ok w"
    using assms(1,5) by (simp_all add: serving_def)
  show "calls w' = calls w @ [call_for q rsp e]" using run_calls[of "req_cb q" rsp w] assms(6) by (simp add: call_for_def)
  show "allocates w w'" using run_allocates[OF w assms(4) ud] assms(6) by simp
  show "own_call q0 (call_for q rsp e)" using assms(3,5) by (simp add: call_for_def same_call_def)
  have step: "cb_step w w'" using run_step[OF w assms(4) ud] assms(6) by simp
  show "\<exists>q''. w_reqs w' r' = Some q'' \<and> same_call q' q''" if "w_reqs w r' = Some q'" for r' q'
    using cb_step_req[OF step that] same_static_same_call by metis
  show "world_ok w'" "r \<in> set (reqs_list w')"
    using run_listed[OF assms(1,4,5)] assms(6) by simp_all
qed

lemma lives_reply:
  assumes "serving w r q" and "w_reqs w r = Some q0" and "same_call q0 q"
    and "rsp_ok w rsp" and "rsp_user_data rsp = req_user_data q" and "run (req_cb q) rsp w = (e, w')"
    and "final_call q0 (call_for q rsp e) \<longleftrightarrow> \<not> (req_is_observe q0 \<and> err = 0)"
  shows "lives w (reply_cancel_and_free r err w') [(r, call_for q rsp e)]"
proof -
  note K = call_keeps[OF assms(1-6)]
  from K(4)[OF assms(2)] obtain q' where q': "w_reqs w' r = Some q'" "same_call q0 q'" by blast
  show ?thesis
  proof (cases "req_is_observe q0 \<and> err = 0")
    case True
    then have "reply_cancel_and_free r err w' = upd_req r (\<lambda>q. q\<lparr>req_is_pending := False\<rparr>) w'"
      using q' by (simp add: reply_cancel_and_free_def same_call_def)
    moreover have "lives w w' [(r, call_for q rsp e)]"
      by (rule lives_one_call[OF K(1,2) assms(2) K(3,4)]) (use assms(7) True q' in auto)
    moreover have "lives w' (upd_req r (\<lambda>q. q\<lparr>req_is_pending := False\<rparr>) w') []"
      by (rule lives_upd_req) (simp add: same_call_def)
    moreover have "fresh_ok w" using assms(1) by (simp add: serving_def world_okD)
    ultimately show ?thesis using lives_trans by fastforce
  next
    case False
    then have f: "reply_cancel_and_free r err w' = golioth_coap_req_cancel_and_free r w'"
      using q' by (auto simp: reply_cancel_and_free_def same_call_def)
    obtain q5 :: golioth_coap_req where c: "golioth_coap_req_cancel_and_free r w' =
      w'\<lparr>w_client := (w_client w')\<lparr>cl_coap_reqs := remove1 r (reqs_list w')\<rparr>,
        w_reqs := (w_reqs w')(r := None), w_bufs := (w_bufs w')(req_data q5 := None)\<rparr>"
      by (rule cancel_and_free_eq[OF K(5,6)]) blast
    show ?thesis unfolding f
      by (rule lives_one_call[OF _ _ assms(2) K(3)])
        (use K(1,2) K(4) assms(7) False in \<open>auto simp: c allocates_def\<close>)
  qed
qed

lemma lives_error:
  assumes "mem_ok w" and "r \<in> set (reqs_list w)" and "w_reqs w r = Some q" and "err \<noteq> 0"
  shows "\<exists>e. lives w (golioth_coap_req_cancel_and_free r (snd (run (req_cb q) (error_rsp (req_user_data q) err) w)))
    [(r, call_for q (error_rsp (req_user_data q) err) e)]"
proof -
  let ?rsp = "error_rsp (req_user_data q) err"
  obtain e w' where r: "run (req_cb q) ?rsp w = (e, w')" by fastforce
  have "ud_ok (settings_ready w) (req_cb q) (req_user_data q)" using mem_ok_listed[OF assms(1,2)] assms(3) by auto
  from run_error_rsp[OF assms(4) this] r have s: "coap_same w w'" by simp
  then have m: "mem_ok w'" "r \<in> set (reqs_list w')" using assms(1,2) coap_same_mem_ok[OF s] by (simp_all add: coap_same_def)
  have "lives w (golioth_coap_req_cancel_and_free r w') [(r, call_for q ?rsp e)]"
    by (rule lives_one_call[OF _ _ assms(3)])
      (use run_calls[of "req_cb q" ?rsp w] r s assms(4) mem_ok_cancel_and_free(6)[OF m]
        in \<open>auto simp: call_for_def coap_same_def allocates_def golioth_coap_req_cancel_and_free_def free_req_obj_def free_buf_def
          golioth_coap_req_cancel_def upd_client_def fault_def split: option.split\<close>)
  with r show ?thesis by auto
qed

text \<open>The ways a response is reported, and the responses themselves.\<close>

lemma reply_fail_lives:
  assumes "serving w r q" and "w_reqs w r = Some q0" and "same_call q0 q" and "err \<noteq> 0"
  shows "lived w (reply_fail run r q err w)"
proof -
  obtain e w' where r: "run (req_cb q) (error_rsp (req_user_data q) err) w = (e, w')" by fastforce
  have "lives w (reply_cancel_and_free r err w') [(r, call_for q (error_rsp (req_user_data q) err) e)]"
    by (rule lives_reply[OF assms(1-3) _ _ r]) (use assms(4) in \<open>simp_all add: call_for_def\<close>)
  with r show ?thesis by (simp add: reply_fail_def livedI)
qed

lemma reply_done_lives:
  assumes "serving w r q" and "w_reqs w r = Some q0" and "same_call q0 q"
  shows "lived w (reply_done run r q payload off tot w)"
proof -
  define rsp where "rsp = \<lparr>rsp_data = payload, rsp_off = off, rsp_total = tot, rsp_get_next = None,
    rsp_get_next_data = None, rsp_user_data = req_user_data q, rsp_err = 0\<rparr>"
  obtain e w' where r: "run (req_cb q) rsp w = (e, w')" by fastforce
  have "lives w (reply_cancel_and_free r 0 w') [(r, call_for q rsp e)]"
    by (rule lives_reply[OF assms _ _ r]) (simp_all add: call_for_def rsp_def rsp_ok_def)
  with r show ?thesis by (simp add: reply_done_def rsp_def[symmetric] livedI)
qed

lemma reply_more_lives:
  assumes "serving w r q" and "w_reqs w r = Some q0" and "same_call q0 q"
  shows "lived w (reply_more run r q payload off tot w)"
proof -
  define rsp where "rsp = \<lparr>rsp_data = payload, rsp_off = off, rsp_total = tot,
    rsp_get_next = Some Golioth_coap_req_next_block, rsp_get_next_data = Some r,
    rsp_user_data = req_user_data q, rsp_err = (if req_is_observe q then - EMSGSIZE else 0)\<rparr>"
  have o: "req_is_observe q = req_is_observe q0" using assms(3) by (simp add: same_call_def)
  obtain e w' where r: "run (req_cb q) rsp w = (e, w')" by fastforce
  have rsp: "rsp_ok w rsp" "rsp_user_data rsp = req_user_data q"
    using assms(1) by (simp_all add: rsp_def rsp_ok_def serving_def)
  note K = call_keeps[OF assms rsp r]
  from K(4)[OF assms(2)] obtain q1 where q1: "w_reqs w' r = Some q1" "same_call q0 q1" by blast
  note reply = lives_reply[OF assms rsp r]
  have eq: "reply_more run r q payload off tot w =
      (if e \<noteq> 0 then reply_cancel_and_free r e w' else if req_is_observe q0 then reply_cancel_and_free r (- ENOTSUP) w' else w')"
    using r q1 by (simp add: reply_more_def rsp_def[symmetric] same_call_def)
  consider "e \<noteq> 0" | "e = 0" "req_is_observe q0" | "e = 0" "\<not> req_is_observe q0" by blast
  then show ?thesis
  proof cases
    case 1
    have "lives w (reply_cancel_and_free r e w') [(r, call_for q rsp e)]"
      by (rule reply) (use 1 o in \<open>simp add: call_for_def rsp_def\<close>)
    with 1 eq show ?thesis by (simp add: livedI)
  next
    case 2
    have "lives w (reply_cancel_and_free r (- ENOTSUP) w') [(r, call_for q rsp e)]"
      by (rule reply) (use 2 o in \<open>simp add: call_for_def rsp_def\<close>)
    with 2 eq show ?thesis by (simp add: livedI)
  next
    case 3
    have "\<not> final_call q0 (call_for q rsp e)" using 3 o by (simp add: call_for_def rsp_def)
    then have "lives w w' [(r, call_for q rsp e)]"
      by (intro lives_one_call[OF K(1,2) assms(2) K(3,4)]) (use q1 in auto)
    with 3 eq show ?thesis by (simp add: livedI)
  qed
qed

lemma reply_block2_lives:
  assumes "world_ok w" and "w_reqs w r = Some q"
  shows "lived w (reply_block2 sys run r q response bytes payload w)"
proof -
  obtain e ctx where u: "coap_update_from_block sys response bytes (req_block_ctx q) = (e, ctx)" by fastforce
  obtain ret ctx2 where n: "coap_next_block_for_option sys response bytes COAP_OPTION_BLOCK2 ctx = (ret, ctx2)" by fastforce
  define upd where "upd c w = upd_req r (\<lambda>q. q\<lparr>req_block_ctx := c\<rparr>) w" for c and w :: "'z traced_scheme world"
  have up: "world_ok (upd c v) \<and> serving (upd c v) r q \<and> lives w (upd c v) [] \<and>
      (\<exists>q'. w_reqs (upd c v) r = Some q' \<and> same_call q q')"
    if v: "world_ok v" "serving v r q" "lives w v []" "\<exists>q'. w_reqs v r = Some q' \<and> same_call q q'" for c v
  proof -
    from v(4) obtain q' where q': "w_reqs v r = Some q'" "same_call q q'" by blast
    have id: "\<And>q. same_id q (q\<lparr>req_block_ctx := c\<rparr>)" by simp
    note U = upd_req_ok[OF v(1) q'(1) id, folded upd_def]
    have "lives v (upd c v) []" unfolding upd_def by (rule lives_upd_req) (simp add: same_call_def)
    with lives_trans[OF v(3)] assms(1) have "lives w (upd c v) []" by (fastforce dest: world_okD)
    with U q' v(2) settings_ready_client[OF U(3)] show ?thesis by (simp add: rx_step_def serving_def same_call_def)
  qed
  have z: "lives w w []" by (rule lives_quiet) auto
  have w1: "world_ok (upd ctx w) \<and> serving (upd ctx w) r q \<and> lives w (upd ctx w) [] \<and>
      (\<exists>q'. w_reqs (upd ctx w) r = Some q' \<and> same_call q q')"
    by (rule up[OF assms(1) servingI[OF assms] z]) (use assms(2) in auto)
  then have w2: "world_ok (upd ctx2 (upd ctx w)) \<and> serving (upd ctx2 (upd ctx w)) r q \<and> lives w (upd ctx2 (upd ctx w)) [] \<and>
      (\<exists>q'. w_reqs (upd ctx2 (upd ctx w)) r = Some q' \<and> same_call q q')"
    using up by blast
  have fr: "fresh_ok w" using assms(1) by (rule world_okD)
  have after: "lived w x" if "lives w v []" "lived v x" for v x
    using lived_trans[OF livedI[OF that(1)] that(2) fr] .
  have same: "same_call q' q" if "same_call q q'" for q' using that by (simp add: same_call_def)
  have fail: "lived w (reply_fail run r q (- EBADMSG) (upd ctx w))"
    using w1 after reply_fail_lives[of "upd ctx w" r q _ "- EBADMSG"] same by fastforce
  have ended: "lived w (reply_done run r q payload o' t' (upd ctx2 (upd ctx w)))" for o' t'
    using w2 after reply_done_lives[of "upd ctx2 (upd ctx w)" r q] same by fastforce
  have more: "lived w (reply_more run r q payload o' t' (upd ctx2 (upd ctx w)))" for o' t'
    using w2 after reply_more_lives[of "upd ctx2 (upd ctx w)" r q] same by fastforce
  have old: "lived w (upd_req r (\<lambda>q. q\<lparr>req_block_ctx := (req_block_ctx q)\<lparr>blk_current := c\<rparr>\<rparr>) (upd ctx w))" for c
  proof -
    have "lives (upd ctx w) (upd_req r (\<lambda>q. q\<lparr>req_block_ctx := (req_block_ctx q)\<lparr>blk_current := c\<rparr>\<rparr>) (upd ctx w)) []"
      by (rule lives_upd_req) (simp add: same_call_def)
    with w1 after livedI show ?thesis by blast
  qed
  show ?thesis
    using fail ended more old by (simp add: reply_block2_def u n Let_def upd_def[symmetric])
qed

lemma reply_handler_lives:
  assumes "world_ok w" and "w_reqs w r = Some q"
  shows "lived w (golioth_coap_req_reply_handler sys run r response bytes w)"
  using assms(2) reply_fail_lives[OF servingI[OF assms] assms(2)] reply_done_lives[OF servingI[OF assms] assms(2)]
    reply_block2_lives[OF assms, of sys response bytes]
  by (simp add: golioth_coap_req_reply_handler_def Let_def)

lemma process_matched_lives:
  assumes "world_ok w" and "w_reqs w r = Some q" and "keeps_calls sys"
  shows "lived w (process_matched sys run r q rx bytes w)"
proof -
  obtain t e where t: "k_uptime_get sys (w_env w) = (t, e)" by fastforce
  define w1 where "w1 = w\<lparr>w_env := e\<rparr>"
  let ?f = "\<lambda>q. q\<lparr>req_reply := \<lparr>reply_seq = coap_get_option_int sys rx bytes COAP_OPTION_OBSERVE, reply_ts = t\<rparr>\<rparr>"
  have w1: "lives w w1 []" "world_ok w1" "w_reqs w1 r = Some q"
    using assms keeps_callsD(3)[OF assms(3) t] by (auto simp: w1_def allocates_def intro: lives_quiet)
  have id: "\<And>q. same_id q (?f q)" by simp
  have up: "lives w1 (upd_req r ?f w1) []" by (rule lives_upd_req) (simp add: same_call_def)
  note U = upd_req_ok[OF w1(2,3) id]
  have "world_ok (upd_req r ?f w1)" using U(1) by (simp add: rx_step_def)
  from reply_handler_lives[OF this U(2)] livedI[OF w1(1)] livedI[OF up] world_okD(4)[OF assms(1)] world_okD(4)[OF w1(2)]
  have "lived w (golioth_coap_req_reply_handler sys run r rx bytes (upd_req r ?f w1))"
    using lived_trans by blast
  with reply_handler_lives[OF assms(1,2), of sys rx bytes] livedI[OF w1(1)] t show ?thesis
    by (simp add: process_matched_def env_read_def Let_def w1_def[symmetric])
qed

lemma process_rx_lives:
  assumes "world_ok w" and "keeps_calls sys"
  shows "lived w (golioth_coap_req_process_rx sys run rx bytes w)"
proof (cases "find (request_matches sys rx bytes w) (reqs_list w)")
  case None
  with process_rx_loop_find[OF assms(1) order_refl, of sys run rx bytes] show ?thesis
    by (auto simp: golioth_coap_req_process_rx_def intro!: livedI lives_quiet)
next
  case (Some r)
  then have "r \<in> set (reqs_list w)" by (auto simp: find_Some_iff)
  with assms(1) obtain q where "w_reqs w r = Some q" using world_ok_listed by metis
  with Some process_rx_loop_find[OF assms(1) order_refl, of sys run rx bytes] process_matched_lives[OF assms(1) _ assms(2)]
  show ?thesis by (simp add: golioth_coap_req_process_rx_def)
qed

text \<open>Polling: a request is left waiting, sent again, or reported as timed out.\<close>

lemma req_poll_prepare_lives:
  assumes "world_ok w" and "r \<in> set (reqs_list w)" and "keeps_calls sys"
    and "golioth_coap_req_poll_prepare sys run r now w = Some (t, w')"
  shows "lived w w'"
proof -
  from world_ok_listed[OF assms(1,2)] obtain q b where q: "w_reqs w r = Some q" "w_bufs w (req_data q) = Some b" .
  obtain res p send e where l: "poll_loop sys now (req_pending q) False (w_env w) = Some (res, p, send, e)"
    using assms(4) q by (auto simp: golioth_coap_req_poll_prepare_def split: option.splits)
  define w1 where "w1 = upd_req r (\<lambda>q. q\<lparr>req_pending := p\<rparr>) (w\<lparr>w_env := e\<rparr>)"
  have "rx_step (w\<lparr>w_env := e\<rparr>) w1" "w_client w1 = w_client w"
    using upd_req_ok[of "w\<lparr>w_env := e\<rparr>" r q "\<lambda>q. q\<lparr>req_pending := p\<rparr>"] assms(1) q(1) by (simp_all add: w1_def)
  then have ok: "mem_ok w1" "r \<in> set (reqs_list w1)" "world_ok w1" using assms(2) by (simp_all add: rx_step_def world_ok_mem_ok)
  have r1: "w_reqs w1 r = Some (q\<lparr>req_pending := p\<rparr>)" "w_bufs w1 = w_bufs w" using q(1) by (simp_all add: w1_def upd_req_def)
  have live1: "lived w w1"
    by (rule livedI[OF lives_quiet])
      (use poll_loop_calls[OF assms(3) l] q(1) in \<open>auto simp: w1_def upd_req_def allocates_def same_call_def\<close>)
  note fr = world_okD(4)[OF assms(1)]
  show ?thesis
  proof (cases res)
    case None
    obtain f where "lives w1 (golioth_coap_req_cancel_and_free r (snd (run (req_cb q) (error_rsp (req_user_data q) (- ETIMEDOUT)) w1))) f"
      using lives_error[OF ok(1,2) r1(1), of "- ETIMEDOUT"] by auto
    with assms(4) l q None live1 fr show ?thesis
      by (auto simp: golioth_coap_req_poll_prepare_def Let_def w1_def[symmetric] intro: lived_trans livedI)
  next
    case (Some timeout)
    have "same_but_env w1 (snd (golioth_coap_req_send sys r w1))"
      using r1 q by (simp add: golioth_coap_req_send_def) (metis golioth_send_coap_frame prod.collapse)
    from livedI[OF lives_same_but_env[OF this send_calls[OF assms(3)]]] assms(4) l q Some live1 fr show ?thesis
      by (auto simp: golioth_coap_req_poll_prepare_def Let_def w1_def[symmetric] intro: lived_trans split: if_splits)
  qed
qed

lemma reqs_poll_prepare_lives:
  assumes "world_ok w" and "ack_timeout_ok sys" and "keeps_calls sys"
  shows "\<exists>t w'. golioth_coap_reqs_poll_prepare sys run now w = Some (t, w') \<and> world_ok w' \<and> lived w w'"
proof -
  let ?I = "\<lambda>s. poll_ok w s \<and> lived w (snd s)"
  have fr: "fresh_ok w" using assms(1) by (rule world_okD)
  have body: "\<exists>s'. poll_prepare_body sys run (of_int now) r s = Some s' \<and> ?I s' \<and>
      (reqs_list (snd s') = reqs_list (snd s) \<or> reqs_list (snd s') = remove1 r (reqs_list (snd s)))"
    if "?I s" "r \<in> set (reqs_list (snd s))" for r s
  proof -
    from poll_body_ok[OF _ that(2) assms(2)] that(1) obtain s' where s': "poll_prepare_body sys run (of_int now) r s = Some s'"
      "poll_ok w s'" "reqs_list (snd s') = reqs_list (snd s) \<or> reqs_list (snd s') = remove1 r (reqs_list (snd s))" by blast
    have ok: "world_ok (snd s)" using that(1) by (simp add: poll_ok_def rx_step_def)
    from s'(1) have "snd s' = snd s \<or> (\<exists>t. golioth_coap_req_poll_prepare sys run r (of_int now) (snd s) = Some (t, snd s'))"
      using world_ok_listed[OF ok that(2)] by (fastforce simp: poll_prepare_body_def split: prod.splits option.splits if_splits)
    with req_poll_prepare_lives[OF ok that(2) assms(3)] that(1) fr have "lived w (snd s')" by (auto intro: lived_trans)
    with s' show ?thesis by blast
  qed
  have init: "?I (INT64_MAX, w)" using assms(1) by (auto simp: poll_ok_def intro!: livedI lives_quiet)
  have d: "distinct (reqs_list (snd (INT64_MAX, w)))" using world_okD(2)[OF assms(1)] by simp
  obtain s' where "dlist_foreach_safe (\<lambda>s. reqs_list (snd s)) (poll_prepare_body sys run (of_int now))
      (dlist_peek_head (reqs_list (snd (INT64_MAX, w)))) (INT64_MAX, w) = Some s'" "?I s'"
    by (rule foreach_safe_walk[of ?I "\<lambda>s. reqs_list (snd s)", OF body init d])
  then show ?thesis
    by (cases s') (auto simp: golioth_coap_reqs_poll_prepare_def raw_golioth_coap_reqs_poll_prepare_def poll_ok_def rx_step_def)
qed

text \<open>Disconnecting: everything ends.\<close>

lemma cancel_all_lives:
  assumes "mem_ok w" and "fresh_ok w" and "err \<noteq> 0"
  shows "\<exists>w'. golioth_coap_reqs_cancel_all_with_reason run err w = Some w' \<and> lived w w'"
proof -
  let ?I = "\<lambda>v. mem_ok v \<and> lived w v"
  have body: "\<exists>v'. cancel_body run err r v = Some v' \<and> ?I v' \<and>
      (reqs_list v' = reqs_list v \<or> reqs_list v' = remove1 r (reqs_list v))"
    if v: "?I v" "r \<in> set (reqs_list v)" for r v
  proof -
    obtain q w1 v' where b: "w_reqs v r = Some q" "cancel_body run err r v = Some v'" "walk_keeps v v'"
      "reqs_list v' = remove1 r (reqs_list v)"
      using v(1) by (elim conjE) (rule cancel_body_ok[OF _ v(2) assms(3)], assumption)
    from lives_error[OF _ v(2) b(1) assms(3)] v(1) b(1,2) have "lived v v'"
      by (auto simp: cancel_body_def intro: livedI)
    with b v(1) assms(2) show ?thesis by (auto simp: walk_keeps_def intro: lived_trans)
  qed
  have init: "?I w" using assms(1) by (auto intro!: livedI lives_quiet)
  obtain w' where "dlist_foreach_safe reqs_list (cancel_body run err) (dlist_peek_head (reqs_list w)) w = Some w'" "?I w'"
    by (rule foreach_safe_walk[of ?I reqs_list, OF body init mem_ok_distinct[OF assms(1)]])
  then show ?thesis by (simp add: golioth_coap_reqs_cancel_all_with_reason_def)
qed

lemma on_disconnect_lives:
  assumes "world_ok w"
  shows "\<exists>w'. golioth_coap_reqs_on_disconnect run w = Some w' \<and> world_ok w' \<and> reqs_list w' = [] \<and> lived w w'"
proof -
  let ?w = "upd_client (\<lambda>c. c\<lparr>cl_coap_reqs_connected := False\<rparr>) w"
  have m: "mem_ok ?w" "fresh_ok ?w"
    using assms world_okD(4)[OF assms] by (simp_all add: world_ok_mem_ok mem_ok_def upd_client_def settings_ready_def fresh_ok_def)
  from cancel_all_lives[OF m, of "- ESHUTDOWN"] obtain w' where
    w': "golioth_coap_reqs_on_disconnect run w = Some w'" "lived ?w w'"
    by (auto simp: golioth_coap_reqs_on_disconnect_def)
  have "lived w ?w" by (rule livedI[OF lives_quiet]) (auto simp: upd_client_def allocates_def)
  with w' on_disconnect_ok[OF assms] lived_trans world_okD(4)[OF assms] show ?thesis by (metis option.inject)
qed

end

section \<open>Everything that happens to requests\<close>

text \<open>A request by a thread, a packet, a turn of the event loop, a connection and its end.\<close>

datatype req_op =
    Op_request u8 "u8 list list" nat "u8 list" "golioth_req_cb option" user_data nat
  | Op_receive coap_packet "u8 list"
  | Op_poll int
  | Op_connect
  | Op_disconnect

fun req_op_step ::
  "('e, 'x) sys_scheme \<Rightarrow> (golioth_req_cb \<Rightarrow> golioth_req_rsp \<Rightarrow> 'e world \<Rightarrow> int \<times> 'e world) \<Rightarrow> req_op \<Rightarrow> 'e world
     \<Rightarrow> 'e world option" where
  "req_op_step sys run (Op_request meth pathv format data cb ud flags) w =
     Some (snd (golioth_coap_req_cb sys meth pathv format data cb ud flags w))"
| "req_op_step sys run (Op_receive rx bytes) w = Some (golioth_coap_req_process_rx sys run rx bytes w)"
| "req_op_step sys run (Op_poll now) w = map_option snd (golioth_coap_reqs_poll_prepare sys run now w)"
| "req_op_step sys run Op_connect w = Some (golioth_coap_reqs_on_connect w)"
| "req_op_step sys run Op_disconnect w = golioth_coap_reqs_on_disconnect run w"

fun req_ops ::
  "('e, 'x) sys_scheme \<Rightarrow> (golioth_req_cb \<Rightarrow> golioth_req_rsp \<Rightarrow> 'e world \<Rightarrow> int \<times> 'e world) \<Rightarrow> req_op list \<Rightarrow> 'e world
     \<Rightarrow> 'e world option" where
  "req_ops sys run [] w = Some w"
| "req_ops sys run (op # ops) w = Option.bind (req_op_step sys run op w) (req_ops sys run ops)"

text \<open>User data a callback understands; settings are not observed here.\<close>

fun op_ok :: "req_op \<Rightarrow> bool" where
  "op_ok (Op_request meth pathv format data cb ud flags) = (case cb of None \<Rightarrow> True | Some f \<Rightarrow> ud_ok False f ud)"
| "op_ok _ = True"

lemma ud_ok_ready_mono: "ud_ok False f ud \<Longrightarrow> ud_ok S f ud"
proof (cases f)
  case (User_cb c)
  then show "ud_ok False f ud \<Longrightarrow> ud_ok S f ud" by (cases c) auto
qed simp

lemma request_lives:
  assumes "world_ok w" and "coap_lib_ok sys" and "keeps_calls sys" and "cb = None \<or> ud_ok (settings_ready w) (the cb) ud"
    and "golioth_coap_req_cb sys meth pathv format data cb ud flags w = (err, w')"
  shows "world_ok w' \<and> lived w w'"
proof -
  note step = golioth_coap_req_cb_step[OF assms(1,2,4,5)]
  have st: "\<exists>q'. w_reqs w' r = Some q' \<and> same_call q q'" if "w_reqs w r = Some q" for r q
    by (rule cb_step_req[OF step that]) (use same_static_same_call in blast)
  have "allocates w w'"
    using golioth_coap_req_cb_spec[OF world_okD(4)[OF assms(1)] assms(2,5)]
    by (elim disjE conjE exE) (auto simp: allocates_def only_envD)
  moreover have "calls w' = calls w" using req_cb_calls[OF assms(3), of meth pathv format data cb ud flags w] assms(5) by simp
  ultimately have "lives w w' []"
    using st by (intro lives_quiet) simp_all
  with cb_stepD(1)[OF step] show ?thesis by (simp add: livedI)
qed

lemma on_connect_lives:
  assumes "world_ok w"
  shows "world_ok (golioth_coap_reqs_on_connect w) \<and> lived w (golioth_coap_reqs_on_connect w)"
  using assms
  by (auto simp: golioth_coap_reqs_on_connect_def upd_client_def world_ok_def heap_ok_def settings_ready_def allocates_def
      intro!: livedI lives_quiet)

context traced_callback
begin

lemma req_op_step_lives:
  assumes "world_ok w" and "coap_lib_ok sys" and "ack_timeout_ok sys" and "keeps_calls sys" and "op_ok op"
  shows "\<exists>w'. req_op_step sys run op w = Some w' \<and> world_ok w' \<and> lived w w'"
proof (cases op)
  case (Op_request meth pathv format data cb ud flags)
  with assms(5) have "cb = None \<or> ud_ok (settings_ready w) (the cb) ud" by (auto intro: ud_ok_ready_mono split: option.splits)
  from request_lives[OF assms(1,2,4) this prod.collapse[symmetric]] Op_request show ?thesis by simp
next
  case (Op_receive rx bytes)
  with process_rx_lives[OF assms(1,4)] process_rx_ok[OF assms(1), of sys rx bytes] show ?thesis by (simp add: rx_step_def)
next
  case (Op_poll now)
  from reqs_poll_prepare_lives[OF assms(1,3,4)] Op_poll show ?thesis by fastforce
next
  case Op_connect
  with on_connect_lives[OF assms(1)] show ?thesis by simp
next
  case Op_disconnect
  with on_disconnect_lives[OF assms(1)] show ?thesis by auto
qed

lemma req_ops_live:
  assumes "world_ok w" and "coap_lib_ok sys" and "ack_timeout_ok sys" and "keeps_calls sys" and "list_all op_ok ops"
  shows "\<exists>w'. req_ops sys run ops w = Some w' \<and> world_ok w' \<and> lived w w' \<and>
    (ops \<noteq> [] \<and> last ops = Op_disconnect \<longrightarrow> reqs_list w' = [])"
  using assms(1,5)
proof (induction ops arbitrary: w)
  case Nil
  then show ?case by (auto intro!: livedI lives_quiet)
next
  case (Cons op ops)
  then have "op_ok op" by simp
  from req_op_step_lives[OF Cons.prems(1) assms(2-4) this] obtain w1 where
    w1: "req_op_step sys run op w = Some w1" "world_ok w1" "lived w w1" by blast
  from Cons.IH[OF w1(2)] Cons.prems(2) obtain w' where
    w': "req_ops sys run ops w1 = Some w'" "world_ok w'" "lived w1 w'" "ops \<noteq> [] \<and> last ops = Op_disconnect \<longrightarrow> reqs_list w' = []" by auto
  have "reqs_list w' = []" if "ops = []" "op = Op_disconnect"
    using that w1(1) w'(1) on_disconnect_lives[OF Cons.prems(1)] by auto
  with w1 w' lived_trans[OF w1(3) w'(3)] world_okD(4)[OF Cons.prems(1)] show ?case by (cases "ops = []") auto
qed

end

section \<open>A callback that writes down what it is called with\<close>

definition no_call :: "golioth_req_cb \<Rightarrow> golioth_req_rsp \<Rightarrow> 'e world \<Rightarrow> int \<times> 'e world" where
  "no_call cb rsp w = (0, w)"

interpretation silent: error_callback no_call
  by unfold_locales (simp add: no_call_def)

text \<open>
  It returns \<open>f\<close> of the trace and the call, any value. When that is 0 and the response has more to come, it
  asks for the next block.
\<close>

definition tell ::
  "('z traced_scheme, 'x) sys_scheme \<Rightarrow> (traced_call list \<Rightarrow> golioth_req_cb \<Rightarrow> golioth_req_rsp \<Rightarrow> int)
     \<Rightarrow> golioth_req_cb \<Rightarrow> golioth_req_rsp \<Rightarrow> 'z traced_scheme world \<Rightarrow> int \<times> 'z traced_scheme world" where
  "tell sys f cb rsp w =
     (let e = f (calls w) cb rsp;
          w1 = (case (rsp_get_next rsp, rsp_get_next_data rsp) of
                  (Some Golioth_coap_req_next_block, Some r) \<Rightarrow>
                    if e = 0 \<and> rsp_err rsp = 0 then snd (golioth_coap_req_next_block sys no_call r 0 w) else w
                | _ \<Rightarrow> w)
      in (e, w1\<lparr>w_env := (w_env w1)\<lparr>tr_calls := tr_calls (w_env w1) @ [(cb, rsp, e)]\<rparr>\<rparr>))"

definition lawful_tell ::
  "('z traced_scheme, 'x) sys_scheme \<Rightarrow> (traced_call list \<Rightarrow> golioth_req_cb \<Rightarrow> golioth_req_rsp \<Rightarrow> int)
     \<Rightarrow> golioth_req_cb \<Rightarrow> golioth_req_rsp \<Rightarrow> 'z traced_scheme world \<Rightarrow> int \<times> 'z traced_scheme world" where
  "lawful_tell sys f cb rsp w =
     (if coap_lib_ok sys \<and> keeps_calls sys then tell sys f cb rsp w
      else (0, w\<lparr>w_env := (w_env w)\<lparr>tr_calls := calls w @ [(cb, rsp, 0)]\<rparr>\<rparr>))"

lemma lawful_tell_eq: "coap_lib_ok sys \<Longrightarrow> keeps_calls sys \<Longrightarrow> lawful_tell sys f = tell sys f"
  by (intro ext) (simp add: lawful_tell_def)

text \<open>Asking for the next block neither allocates nor frees.\<close>

definition same_domain :: "'e world \<Rightarrow> 'e world \<Rightarrow> bool" where
  "same_domain w w' \<longleftrightarrow> w_next w' = w_next w \<and> dom (w_reqs w') = dom (w_reqs w)"

lemma same_domain_allocates: "same_domain w w' \<Longrightarrow> allocates w w'"
  unfolding same_domain_def allocates_def by (metis domIff order_refl)

lemma same_domain_trans: "same_domain a b \<Longrightarrow> same_domain b c \<Longrightarrow> same_domain a c"
  by (simp add: same_domain_def)

lemma same_domain_steps [simp, intro]:
  "same_domain w w" "same_domain w (fault w)" "same_domain w (w\<lparr>w_env := e\<rparr>)" "same_domain w (upd_req r f w)"
  "same_domain w (set_request_id r i w)" "same_domain w (snd (on_request g r w))"
  by (auto simp: same_domain_def fault_def upd_req_def set_request_id_def on_request_def split: option.splits prod.splits)

lemma same_domain_next_block: "same_domain w (snd (golioth_coap_req_next_block sys no_call r status w))"
proof -
  have append: "same_domain w (snd (golioth_coap_req_append_block2_option sys r w))" for w :: "'a world"
    by (auto simp: golioth_coap_req_append_block2_option_def Let_def intro: same_domain_trans split: option.split)
  have init: "same_domain w (golioth_coap_pending_init sys r n w)" for n and w :: "'a world"
    by (auto simp: golioth_coap_pending_init_def env_read_def intro: same_domain_trans split: prod.split)
  obtain i e where i: "coap_next_id sys (w_env w) = (i, e)" by fastforce
  let ?w = "set_request_id r i (w\<lparr>w_env := e\<rparr>)"
  obtain err w2 where a: "golioth_coap_req_append_block2_option sys r ?w = (err, w2)" by fastforce
  have w: "same_domain w (w\<lparr>w_env := e\<rparr>)" "same_domain (w\<lparr>w_env := e\<rparr>) ?w" "same_domain ?w w2"
    using append[of ?w] a by simp_all
  then have "same_domain w w2" by (blast intro: same_domain_trans)
  then show ?thesis
    using i a same_domain_trans[OF _ init] same_domain_trans[OF w(1) same_domain_steps(2)]
    by (simp add: golioth_coap_req_next_block_def env_read_def no_call_def split: option.split)
qed

interpretation told: traced_callback "lawful_tell sys f"
  for sys :: "('z traced_scheme, 'x) sys_scheme" and f
proof
  fix rsp :: golioth_req_rsp and w :: "'z traced_scheme world" and cb
  assume "rsp_err rsp \<noteq> 0" "rsp_get_next rsp = None"
  then show "coap_same w (snd (lawful_tell sys f cb rsp w))"
    by (auto simp: lawful_tell_def tell_def coap_same_def Let_def)
next
  fix rsp :: golioth_req_rsp and w :: "'z traced_scheme world" and cb
  assume a: "world_ok w" "rsp_ok w rsp" "ud_ok (settings_ready w) cb (rsp_user_data rsp)"
  have env: "cb_step v (v\<lparr>w_env := e\<rparr>)" if "world_ok v" for v :: "'z traced_scheme world" and e
    by (rule cb_step_same_but_env[OF that]) (simp add: same_but_env_def)
  have "cb_step w (snd (tell sys f cb rsp w))" if "coap_lib_ok sys"
  proof -
    have nb: "cb_step w (snd (golioth_coap_req_next_block sys no_call r 0 w))" if "r \<in> set (reqs_list w)" for r
      by (rule silent.next_block_step) (use a(1) that \<open>coap_lib_ok sys\<close> in auto)
    from a(2) show ?thesis
      using env[OF a(1)] cb_step_trans[OF nb env] cb_stepD(1)[OF nb]
      by (auto simp: tell_def Let_def rsp_ok_def split: option.split get_next_fn.split)
  qed
  with env[OF a(1)] show "cb_step w (snd (lawful_tell sys f cb rsp w))" by (simp add: lawful_tell_def)
next
  fix rsp :: golioth_req_rsp and w :: "'z traced_scheme world" and cb
  have "calls (snd (golioth_coap_req_next_block sys no_call r 0 w)) = calls w" if "keeps_calls sys" for r
    by (rule next_block_calls[OF that]) (simp add: no_call_def)
  then show "calls (snd (lawful_tell sys f cb rsp w)) = calls w @ [(cb, rsp, fst (lawful_tell sys f cb rsp w))]"
    by (auto simp: lawful_tell_def tell_def Let_def split: option.split get_next_fn.split)
next
  fix rsp :: golioth_req_rsp and w :: "'z traced_scheme world" and cb
  have "allocates w (snd (golioth_coap_req_next_block sys no_call r 0 w)\<lparr>w_env := e\<rparr>)" for r e
    by (rule same_domain_allocates[OF same_domain_trans[OF same_domain_next_block same_domain_steps(3)]])
  moreover have "allocates w (w\<lparr>w_env := e\<rparr>)" for e by (simp add: allocates_def)
  ultimately show "allocates w (snd (lawful_tell sys f cb rsp w))"
    by (auto simp: lawful_tell_def tell_def Let_def split: option.split get_next_fn.split)
qed

section \<open>Every request ends once\<close>

text \<open>
  C8. Whatever threads request, the network delivers, the clock says and the callbacks return, in any order: each
  request either still waits, and has had no last call, or is gone, and has had exactly one, behind which no call
  came; all its calls were to its own callback with its own user data; and no request that was gone before is
  called. After a disconnection none waits any more. (A request made on the way is covered from that point on.)
\<close>

lemma completes_once:
  assumes "world_ok w" and "coap_lib_ok sys" and "ack_timeout_ok sys" and "keeps_calls sys" and "list_all op_ok ops"
  shows "\<exists>w' cs. req_ops sys (tell sys f) ops w = Some w' \<and> calls w' = calls w @ map snd cs \<and>
    (\<forall>r q. w_reqs w r = Some q \<longrightarrow> request_life q (calls_of r cs) (w_reqs w' r)) \<and>
    (\<forall>r<w_next w. w_reqs w r = None \<longrightarrow> calls_of r cs = [] \<and> w_reqs w' r = None) \<and>
    (ops \<noteq> [] \<and> last ops = Op_disconnect \<longrightarrow> w_reqs w' = Map.empty)"
proof -
  from told.req_ops_live[OF assms, of sys f] obtain w' cs where
    w': "req_ops sys (tell sys f) ops w = Some w'" "world_ok w'" "lives w w' cs"
      "ops \<noteq> [] \<and> last ops = Op_disconnect \<longrightarrow> reqs_list w' = []"
    unfolding lawful_tell_eq[OF assms(2,4)] lived_def by blast
  with heap_empty(1)[OF w'(2)] show ?thesis
    by (intro exI[of _ w'] exI[of _ cs]) (simp add: lives_def allocates_def)
qed

end
