(* ===== verification/NetworkInputs.thy ===== *)
theory NetworkInputs
  imports SampleInputs Delivery Completion
begin

text \<open>
  The properties of whole requests at concrete inputs: a value that arrives in two blocks, alone and among other
  datagrams, and a request that a disconnection ends.
\<close>

section \<open>A value in two blocks\<close>

text \<open>
  A library for which the value has three bytes; the message id tells which block it is and whether more is to come.
  Packets are made of a header, a token and a payload.
\<close>

definition block_sys :: "demo_env system_lib" where
  "block_sys = quiet_sys\<lparr>coap_packet_append_option := (\<lambda>n v p b. (0, p, b)), coap_append_option_int := (\<lambda>n v p b. (0, p, b)),
     coap_append_block2_option := (\<lambda>ctx pkt b. (0, pkt, b)), coap_packet_append_payload_marker := (\<lambda>p b. (0, p, b)),
     coap_packet_append_payload := (\<lambda>d p b. (0, p, b)),
     coap_get_option_int := (\<lambda>p b n. if n = COAP_OPTION_OBSERVE then - ENOENT else 0),
     coap_update_from_block := (\<lambda>p b ctx. (0, ctx\<lparr>blk_total_size := 3, blk_current := (if b ! 3 = 1 then 0 else 2)\<rparr>)),
     coap_next_block_for_option := (\<lambda>p b n ctx. if b ! 3 = 1 then (2, ctx\<lparr>blk_current := 2\<rparr>) else (0, ctx))\<rparr>"

text \<open>A datagram with the token of the request.\<close>

definition demo_datagram :: "u8 \<Rightarrow> u8 list \<Rightarrow> coap_packet \<times> u8 list \<times> u8 list" where
  "demo_datagram i b = (\<lparr>pkt_offset = 4, pkt_lib = []\<rparr>, [0x68, 0x45, 0, i, 1, 2, 3, 4, 5, 6, 7, 8, 0xFF] @ b, b)"

definition demo_blocks :: "(coap_packet \<times> u8 list \<times> u8 list) list" where
  "demo_blocks = [demo_datagram 1 [7, 8], demo_datagram 2 [9]]"

text \<open>Something else first, and the first block twice.\<close>

definition demo_traffic :: "(coap_packet \<times> u8 list \<times> u8 list) list" where
  "demo_traffic = [(\<lparr>pkt_offset = 4, pkt_lib = []\<rparr>, [0x61, 0x45, 0, 3, 5], []), demo_datagram 1 [7, 8], demo_datagram 1 [7, 8],
     demo_datagram 2 [9]]"

lemma block_sys_ok: "env_ok block_sys demo_app demo_zlib"
  using demo_lib_ok demo_app_ok demo_zlib_ok
  by (simp add: env_ok_def coap_lib_ok_def block_sys_def quiet_sys_def demo_sys_def pkt_op_keeps_length_def)

lemma demo_datagram_reads:
  assumes "bytes = fst (snd (demo_datagram i b))"
  shows "coap_header_get_token block_sys p bytes = [1, 2, 3, 4, 5, 6, 7, 8]" and "bytes ! 3 = i"
    and "golioth_coap_code_to_posix (coap_header_get_code block_sys p bytes) = 0"
    and "coap_packet_get_payload block_sys p bytes = b"
    and "coap_get_option_int block_sys p bytes COAP_OPTION_BLOCK2 \<noteq> - ENOENT"
    and "coap_get_option_int block_sys p bytes COAP_OPTION_OBSERVE = - ENOENT"
proof -
  have m: "(0x68 AND 0x0f :: u8) = 8" "drop_bit 5 (0x45 :: u8) = 2" by simp_all
  show "coap_header_get_token block_sys p bytes = [1, 2, 3, 4, 5, 6, 7, 8]" "bytes ! 3 = i"
    "golioth_coap_code_to_posix (coap_header_get_code block_sys p bytes) = 0"
    "coap_packet_get_payload block_sys p bytes = b"
    "coap_get_option_int block_sys p bytes COAP_OPTION_BLOCK2 \<noteq> - ENOENT"
    "coap_get_option_int block_sys p bytes COAP_OPTION_OBSERVE = - ENOENT"
    using m by (simp_all add: assms demo_datagram_def demo_token_def block_sys_def quiet_sys_def demo_sys_def
        golioth_coap_code_to_posix_def Let_def)
qed

lemma demo_block_response:
  "block_response block_sys 3 0 True (demo_datagram 1 [7, 8])" "block_response block_sys 3 2 False (demo_datagram 2 [9])"
  unfolding block_response_def using demo_datagram_reads[OF refl]
  by (simp_all add: demo_datagram_def block_moves_def) (simp_all add: block_sys_def)

lemma demo_blocks_ok: "block_responses block_sys 3 0 demo_blocks"
  using demo_block_response by (simp add: demo_blocks_def demo_datagram_def numeral_2_eq_2)

lemma block_sys_segments: "append_segments block_sys ss p b = (0, p, b)"
  by (induction ss) (simp_all add: block_sys_def)

text \<open>With this library a get can be requested while connected.\<close>

lemma block_sys_begins:
  fixes w :: "demo_env world"
  assumes "fresh_ok w" and "is_connected w"
  shows "fst (golioth_coap_req_cb block_sys COAP_METHOD_GET [LIGHTDB_PATH, [0x61]] 50 [] cb ud 0 w) = 0"
proof -
  have path: "coap_packet_append_uri_path_from_pathv block_sys [LIGHTDB_PATH, [0x61]] p b = Some (0, p, b)" for p b
    by (simp add: from_stringz_segments block_sys_segments LIGHTDB_PATH_def)
  obtain i e4 where i: "coap_next_id block_sys (w_env w) = (i, e4)" by fastforce
  have t: "coap_next_token block_sys e = ([1, 2, 3, 4, 5, 6, 7, 8], e)" and mem: "sys_malloc block_sys k e = (True, e)" for k e
    by (simp_all add: block_sys_def quiet_sys_def)
  define m where "m = GOLIOTH_COAP_MAX_NON_PAYLOAD_LEN + coap_pathv_estimate_alloc_len [LIGHTDB_PATH, [0x61]] + length ([] :: u8 list)"
  obtain pkt b0 where ini: "coap_packet_init block_sys (replicate m 0) m COAP_TYPE_CON [1, 2, 3, 4, 5, 6, 7, 8] COAP_METHOD_GET i = (0, pkt, b0)"
    by (simp add: block_sys_def quiet_sys_def demo_init_def demo_put_def m_def)
  have new: "golioth_coap_req_new block_sys COAP_METHOD_GET COAP_TYPE_CON m cb ud w =
      (0, w_next w, with_req w (fresh_req (w_client w) cb ud (Suc (w_next w)) pkt) b0 e4)"
    using golioth_coap_req_new_eq[OF assms(1) mem mem t i ini, where cb = cb and ud = ud] by simp
  have int: "coap_append_option_int block_sys n v p b = (0, p, b)" for n v p b by (simp add: block_sys_def)
  have flags: "\<not> flag_observe 0" "\<not> flag_no_resp_body 0" by (simp_all add: flag_observe_def flag_no_resp_body_def)
  have "req_data (fresh_req c cb ud p pkt) = p" for c p pkt by (simp add: fresh_req_def)
  then have build: "\<exists>q. golioth_coap_req_cb_build block_sys COAP_METHOD_GET [LIGHTDB_PATH, [0x61]] 50 [] 0 (w_next w)
      (with_req w (fresh_req (w_client w) cb ud (Suc (w_next w)) pkt) b e) = (0, with_req w q b e)" for b e
    by (simp add: golioth_coap_req_cb_build_def append_uri_path_from_pathv_def on_request_def path int flags with_req_upd
        del: coap_packet_append_uri_path_from_pathv.simps) blast
  have sched: "fst (golioth_coap_req_schedule block_sys (w_next w) (with_req w q b e)) = 0" for q b e
    using assms(2) by (simp add: golioth_coap_req_schedule_def golioth_coap_pending_init_def golioth_coap_req_submit_def
        raw_golioth_coap_req_submit_def env_read_def with_req_upd split: prod.split option.split)
  obtain q where q: "golioth_coap_req_cb_build block_sys COAP_METHOD_GET [LIGHTDB_PATH, [0x61]] 50 [] 0 (w_next w)
      (with_req w (fresh_req (w_client w) cb ud (Suc (w_next w)) pkt) b0 e4) = (0, with_req w q b0 e4)" using build by blast
  obtain w' where s: "golioth_coap_req_schedule block_sys (w_next w) (with_req w q b0 e4) = (0, w')"
    using sched[of q b0 e4] by (metis prod.collapse)
  show ?thesis unfolding golioth_coap_req_cb_def Let_def m_def[symmetric] new by (simp add: q s)
qed

theorem get_returns_value_witness:
  "\<exists>w'. golioth_lightdb_get block_sys (handle_responses block_sys (run_callback block_sys demo_app demo_zlib demo_service) 3 demo_blocks)
      1 2 [0x61] 50 [0, 0, 0, 0] (busy_world demo_env0) = Some (0, 3, w') \<and>
    take 3 (pre_data (w_preallocs w' 2)) = [7, 8, 9]"
proof -
  let ?w = "busy_world demo_env0"
  let ?g = "golioth_lightdb_get block_sys (handle_responses block_sys (run_callback block_sys demo_app demo_zlib demo_service) 3 demo_blocks)
      1 2 [0x61] 50 [0, 0, 0, 0] ?w"
  have app: "fst (coap_append_block2_option block_sys ctx pkt b) = 0" for ctx pkt b by (simp add: block_sys_def)
  have v: "value_of demo_blocks = [7, 8, 9]" by (simp add: demo_blocks_def demo_datagram_def)
  have "get_requested block_sys 1 2 [0x61] 50 [0, 0, 0, 0] ?w = 0"
    unfolding get_requested_def golioth_coap_req_sync_begin_def
    by (rule block_sys_begins) (use world_okD(4)[OF busy_world_world_ok[of demo_env0]] in \<open>simp_all add: fresh_ok_def\<close>)
  with get_returns_value[OF block_sys_ok busy_world_world_ok[of demo_env0] _ _ _ app demo_blocks_ok, where data = "[0, 0, 0, 0]" and
      conf = demo_service and p = 1 and d = 2 and path = "[0x61]" and format = 50] v show ?thesis by auto
qed

section \<open>The value among other datagrams\<close>

lemma low_nibble:
  assumes "l \<le> 8"
  shows "unat ((0x40 + of_nat (16 * t + l) :: u8) AND 0x0f) = l"
proof -
  have e: "(0x40 + of_nat (16 * t + l) :: u8) = of_nat (64 + (16 * t + l))" by simp
  have "(0x0f :: u8) = mask 4" by (simp add: mask_eq_exp_minus_1)
  then have "unat ((0x40 + of_nat (16 * t + l) :: u8) AND 0x0f) = unat (take_bit 4 (of_nat (64 + (16 * t + l)) :: u8))"
    by (simp only: take_bit_eq_mask e)
  also have "\<dots> = take_bit 4 (unat (of_nat (64 + (16 * t + l)) :: u8))" by (rule unsigned_take_bit_eq)
  also have "unat (of_nat k :: u8) = k mod 2 ^ 8" for k by (simp add: unat_of_nat)
  also have "take_bit 4 ((64 + (16 * t + l)) mod 2 ^ 8) = (64 + (16 * t + l)) mod 2 ^ 8 mod 2 ^ 4" by (rule take_bit_eq_mod)
  also have "\<dots> = (64 + (16 * t + l)) mod 2 ^ 4" by (simp add: mod_mod_cancel)
  also have "\<dots> = (l + 16 * (4 + t)) mod 16" by (simp add: algebra_simps)
  also have "\<dots> = l" using assms by (simp only: mod_mult_self2) simp
  finally show ?thesis .
qed

lemma demo_init_headed:
  assumes "length tok \<le> 8" and "demo_init (replicate n 0) n t tok c i = (0, p, b)"
  shows "demo_token p' b = tok \<and> 4 + length tok \<le> pkt_offset p"
  using assms(2) low_nibble[OF assms(1), of t]
  by (auto simp: demo_init_def demo_put_def demo_token_def split: if_splits)

lemma demo_token_set_id: "coap_packet_set_id i b = Some b' \<Longrightarrow> demo_token p b' = demo_token p b"
  by (cases b) (auto simp: coap_packet_set_id_def demo_token_def drop_update_cancel numeral_eq_Suc split: if_splits)

lemma block_sys_tokens: "tokens_kept block_sys"
  unfolding tokens_kept_def op_headed_def headed_def
  using demo_init_headed demo_token_set_id
  by (auto simp: block_sys_def quiet_sys_def demo_token_def[abs_def])

lemma demo_datagram_answers: "answer_to block_sys [1, 2, 3, 4, 5, 6, 7, 8] p (fst (snd (demo_datagram i b)))"
  using demo_datagram_reads[OF refl] by (simp add: answer_to_def)

lemma demo_traffic_arrives: "arriving block_sys [1, 2, 3, 4, 5, 6, 7, 8] 3 0 demo_traffic [7, 8, 9]"
proof -
  let ?p = "\<lparr>pkt_offset = 4, pkt_lib = []\<rparr> :: coap_packet" and ?tok = "[1, 2, 3, 4, 5, 6, 7, 8] :: u8 list"
  obtain b1 b2 where d: "demo_datagram 1 [7, 8] = (?p, b1, [7, 8])" "demo_datagram 2 [9] = (?p, b2, [9])"
    by (simp add: demo_datagram_def)
  note ans = demo_datagram_answers[where p = ?p and i = 1 and b = "[7, 8]", unfolded d, simplified]
    demo_datagram_answers[where p = ?p and i = 2 and b = "[9]", unfolded d, simplified]
  have a2: "arriving block_sys ?tok 3 2 [(?p, b2, [9])] [9]"
    using ans(2) demo_block_response(2) by (intro last_block) (simp_all add: d)
  have old: "old_block block_sys 2 ?p b1"
    using demo_datagram_reads[where bytes = b1 and i = 1 and b = "[7, 8]"] d(1) by (simp add: old_block_def) (simp add: block_sys_def)
  have off: "0 + length ([7, 8] :: u8 list) = 2" by simp
  have "arriving block_sys ?tok 3 0 [(?p, b1, [7, 8]), (?p, b1, [7, 8]), (?p, b2, [9])] ([7, 8] @ [9])"
    by (rule next_block[OF ans(1) demo_block_response(1)[unfolded d] _ again[OF ans(1) old a2, folded off]]) simp
  then have a: "arriving block_sys ?tok 3 0 [(?p, b1, [7, 8]), (?p, b1, [7, 8]), (?p, b2, [9])] [7, 8, 9]" by simp
  have "(0x61 AND 0x0f :: u8) = 1" by simp
  then have "foreign block_sys ?tok ?p [0x61, 0x45, 0, 3, 5]"
    by (simp add: foreign_def block_sys_def quiet_sys_def demo_token_def token_array_def)
  from elsewhere[OF this a] show ?thesis by (simp add: demo_traffic_def d)
qed

lemma demo_traffic_not_others:
  assumes "(response, bytes, b) \<in> set demo_traffic"
  shows "\<not> request_matches block_sys response bytes (busy_world demo_env0) 1"
proof -
  have "(0x41 AND 0x0f :: u8) = 1" "(0x61 AND 0x0f :: u8) = 1" "(0x68 AND 0x0f :: u8) = 8" by simp_all
  with assms show ?thesis
    by (auto simp: demo_traffic_def demo_datagram_def request_matches_def req_matches_def block_sys_def quiet_sys_def
        demo_req_def zero_req_def demo_token_def token_array_def Let_def)
qed


section \<open>The life of a request\<close>

text \<open>A poll, then a disconnection: the example's request is told once, and nothing is left.\<close>

lemma quiet_sys_keeps_calls: "keeps_calls quiet_sys"
  by (simp add: keeps_calls_def quiet_sys_def)

theorem completes_once_witness:
  "\<exists>w'. req_ops quiet_sys (tell quiet_sys (\<lambda>_ _ _. 0)) [Op_poll 0, Op_disconnect] (busy_world \<lparr>tr_calls = []\<rparr>) = Some w' \<and>
     w_reqs w' = Map.empty \<and> calls w' \<noteq> []"
proof -
  let ?w = "busy_world \<lparr>tr_calls = []\<rparr>"
  from completes_once[OF busy_world_world_ok quiet_sys_ok(1,3) quiet_sys_keeps_calls,
      of "[Op_poll 0, Op_disconnect]" "\<lambda>_ _ _. 0" "\<lparr>tr_calls = []\<rparr>"]
  obtain w' cs where w': "req_ops quiet_sys (tell quiet_sys (\<lambda>_ _ _. 0)) [Op_poll 0, Op_disconnect] ?w = Some w'"
    "calls w' = calls ?w @ map snd cs" "request_life demo_req (calls_of 1 cs) (w_reqs w' 1)" "w_reqs w' = Map.empty"
    by auto
  then show ?thesis by (auto simp: request_life_def)
qed

end
