(* ===== verification/LogSample.thy ===== *)
theory LogSample
  imports LogBackend
begin

text \<open>
  \<^verbatim>\<open>samples/logging\<close>, a loop of log calls, with what the backend makes of its messages; and two helpers of the
  samples that only log or load: \<^verbatim>\<open>nrf91_lte_monitor.c\<close> and \<^verbatim>\<open>settings_autoload.c\<close>.

  The main loop is cut at its sleep. Its counter is an \<^verbatim>\<open>int\<close> that is incremented every five seconds, which
  takes centuries to overflow. The macros of the logging core are a parameter: they make a message of the name of the
  function, the level, the formatted text and the data.
\<close>

section \<open>samples/logging\<close>

abbreviation (input) LOG_LEVEL_ERR :: nat where "LOG_LEVEL_ERR \<equiv> 1"
abbreviation (input) LOG_LEVEL_WRN :: nat where "LOG_LEVEL_WRN \<equiv> 2"
abbreviation (input) LOG_LEVEL_INF :: nat where "LOG_LEVEL_INF \<equiv> 3"
abbreviation (input) LOG_LEVEL_DBG :: nat where "LOG_LEVEL_DBG \<equiv> 4"

record log_core =
  core_log :: "string \<Rightarrow> nat \<Rightarrow> u8 list \<Rightarrow> log_msg"
  core_hexdump :: "string \<Rightarrow> nat \<Rightarrow> u8 list \<Rightarrow> u8 list \<Rightarrow> log_msg"

definition func_1 :: "log_core \<Rightarrow> int \<Rightarrow> log_msg" where
  "func_1 core counter = core_log core ''func_1'' LOG_LEVEL_DBG (ascii ''Log 1: '' @ print_d counter)"

definition func_2 :: "log_core \<Rightarrow> int \<Rightarrow> log_msg" where
  "func_2 core counter = core_log core ''func_2'' LOG_LEVEL_DBG (ascii ''Log 2: '' @ print_d counter)"

text \<open>The bytes of \<^verbatim>\<open>sys_cpu_to_le32(x)\<close> in memory.\<close>

definition le32_bytes :: "u32 \<Rightarrow> u8 list" where
  "le32_bytes x = map (\<lambda>k. ucast (drop_bit (8 * k) x)) [0, 1, 2, 3]"

text \<open>One round: the messages, and the counter.\<close>

definition logging_round :: "log_core \<Rightarrow> int \<Rightarrow> log_msg list \<times> int" where
  "logging_round core counter =
     ([core_log core ''main'' LOG_LEVEL_DBG (ascii ''Debug info! '' @ print_d counter),
       func_1 core counter,
       func_2 core counter,
       core_log core ''main'' LOG_LEVEL_WRN (ascii ''Warn: '' @ print_d counter),
       core_log core ''main'' LOG_LEVEL_ERR (ascii ''Err: '' @ print_d counter),
       core_hexdump core ''main'' LOG_LEVEL_INF (ascii ''Counter hexdump'') (le32_bytes (of_int counter))],
      counter + 1)"

section \<open>nrf91_lte_monitor.c\<close>

datatype nw_reg_status =
    LTE_LC_NW_REG_NOT_REGISTERED
  | LTE_LC_NW_REG_REGISTERED_HOME
  | LTE_LC_NW_REG_SEARCHING
  | LTE_LC_NW_REG_REGISTRATION_DENIED
  | LTE_LC_NW_REG_UNKNOWN
  | LTE_LC_NW_REG_REGISTERED_ROAMING
  | LTE_LC_NW_REG_UICC_FAIL
  | Nw_reg_other

datatype rrc_mode = LTE_LC_RRC_MODE_CONNECTED | LTE_LC_RRC_MODE_IDLE

datatype lte_lc_evt = LTE_LC_EVT_NW_REG_STATUS nw_reg_status | LTE_LC_EVT_RRC_UPDATE rrc_mode | Lte_lc_evt_other

text \<open>The line that is logged.\<close>

definition lte_handler :: "lte_lc_evt \<Rightarrow> string option" where
  "lte_handler evt =
     (case evt of
        LTE_LC_EVT_NW_REG_STATUS status \<Rightarrow>
          (case status of
             LTE_LC_NW_REG_NOT_REGISTERED \<Rightarrow> Some ''Network: Not registered''
           | LTE_LC_NW_REG_REGISTERED_HOME \<Rightarrow> Some ''Network: Registered (home)''
           | LTE_LC_NW_REG_SEARCHING \<Rightarrow> Some ''Network: Searching''
           | LTE_LC_NW_REG_REGISTRATION_DENIED \<Rightarrow> Some ''Network: Registration denied''
           | LTE_LC_NW_REG_UNKNOWN \<Rightarrow> Some ''Network: Unknown''
           | LTE_LC_NW_REG_REGISTERED_ROAMING \<Rightarrow> Some ''Network: Registered (roaming)''
           | LTE_LC_NW_REG_UICC_FAIL \<Rightarrow> Some ''Network: UICC fail''
           | Nw_reg_other \<Rightarrow> None)
      | LTE_LC_EVT_RRC_UPDATE mode \<Rightarrow>
          (case mode of
             LTE_LC_RRC_MODE_CONNECTED \<Rightarrow> Some ''RRC: Connected''
           | LTE_LC_RRC_MODE_IDLE \<Rightarrow> Some ''RRC: Idle'')
      | Lte_lc_evt_other \<Rightarrow> None)"

text \<open>The handler is registered; \<open>register\<close> is \<^verbatim>\<open>lte_lc_register_handler\<close>.\<close>

definition nrf91_lte_monitor_init :: "((lte_lc_evt \<Rightarrow> string option) \<Rightarrow> 'e \<Rightarrow> 'e) \<Rightarrow> 'e \<Rightarrow> int \<times> 'e" where
  "nrf91_lte_monitor_init register e = (0, register lte_handler e)"

definition settings_autoload :: "('e \<Rightarrow> int \<times> 'e) \<Rightarrow> 'e \<Rightarrow> int \<times> 'e" where
  "settings_autoload settings_load e = settings_load e"

section \<open>The messages of the sample\<close>

text \<open>A name without a colon in front of the text is where the backend cuts it.\<close>

lemma find_colon_prefix: "0x3A \<notin> set s \<Longrightarrow> find_colon (s @ 0x3A # t) = Some (length s)"
  by (induction s) auto

text \<open>The core writes it there when the level has a function prefix.\<close>

definition core_prefixes :: "log_conf \<Rightarrow> log_core \<Rightarrow> bool" where
  "core_prefixes conf core \<longleftrightarrow> (\<forall>func level text. lm_text (core_log core func level text) =
     Some (if level \<in> conf_log_function_prefix_mask conf then ascii func @ [0x3A, 0x20] @ text else text))"

lemma core_message_split:
  assumes "core_prefixes conf core" and "lm_text (core_log core func level text) = Some s"
    and "level \<in> conf_log_function_prefix_mask conf" and "0x3A \<notin> set (ascii func)"
    and "log_pdu_prepare_ext lib 2 (5 + 1) enc = (0, room)" and "length s \<le> room" and "length s < 2 ^ 32"
  shows "log_encode_text lib True s enc =
    enc_step (- ENOMEM) (enc_and (zcbor_tstr_put lib (ascii ''msg'')) (zcbor_tstr_encode_ptr lib text (length text)))
      (enc_step (- ENOMEM)
        (enc_and (zcbor_tstr_put lib (ascii ''func'')) (zcbor_tstr_encode_ptr lib s (length (ascii func)))) (0, enc))"
proof -
  have s: "s = ascii func @ 0x3A # 0x20 # text" using assms(1-3) by (simp add: core_prefixes_def)
  have "find_colon s = Some (length (ascii func))" using find_colon_prefix[OF assms(4)] by (simp add: s)
  moreover have "msg_len (length s) (length (ascii func) + 2) = length text"
    using msg_len_le[of "length (ascii func) + 2" "length s"] assms(7) by (simp add: s)
  ultimately show ?thesis
    using text_in_room[OF assms(6)] assms(5) by (simp add: log_encode_text_def s Let_def del: ascii_simps)
qed

text \<open>The hexdump is the counter.\<close>

lemma le32_bytes_value: "foldr (\<lambda>b v. unat b + 256 * v) (le32_bytes x) 0 = unat x"
proof -
  define n where "n = unat x"
  have "n < 2 ^ 32" using unsigned_less[of x] by (simp add: n_def)
  then have "take_bit 32 n = n" by (simp only: take_bit_nat_eq_self)
  then have "unat (drop_bit k x) = drop_bit k n" for k by (simp only: n_def unsigned_drop_bit_eq) simp
  moreover have "unat (ucast y :: u8) = take_bit 8 (unat y)" for y :: u32 by (simp only: unsigned_ucast_eq) simp
  ultimately have byte: "unat (ucast (drop_bit k x) :: u8) = n div 2 ^ k mod 256" for k
    by (simp only: take_bit_eq_mod drop_bit_eq_div) simp
  have split: "m mod 256 + 256 * (m div 256) = m" for m :: nat by (rule mod_mult_div_eq)
  have e: "n div 256 div 256 = n div 65536" "n div 65536 div 256 = n div 16777216" by (simp_all add: div_mult2_eq[symmetric])
  have "n div 256 div 256 div 256 < 256" using \<open>n < 2 ^ 32\<close> by (simp add: div_mult2_eq[symmetric] less_mult_imp_div_less)
  then have "n mod 256 + 256 * (n div 256 mod 256 + 256 * (n div 256 div 256 mod 256 + 256 * (n div 256 div 256 div 256 mod 256))) = n"
    by (simp only: mod_less split)
  then have "n mod 256 + 256 * (n div 256 mod 256 + 256 * (n div 65536 mod 256 + 256 * (n div 16777216 mod 256))) = n"
    by (simp only: e)
  moreover have "n div 16777216 mod 256 = n div 16777216" using \<open>n < 2 ^ 32\<close> by (simp add: less_mult_imp_div_less)
  ultimately show ?thesis by (simp add: le32_bytes_def byte byte[of 0, simplified] n_def[symmetric])
qed

text \<open>\<open>n\<close> rounds through the backend: six more messages each, and six more on its index.\<close>

fun logging_main ::
  "('e, 'x) sys_scheme \<Rightarrow> ('l) log_lib_scheme \<Rightarrow> log_conf \<Rightarrow> log_core list \<Rightarrow> int \<Rightarrow> golioth_log_ctx \<times> 'e world
     \<Rightarrow> int \<times> golioth_log_ctx \<times> 'e world" where
  "logging_main sys lib conf [] counter s = (counter, s)"
| "logging_main sys lib conf (core # cores) counter s =
     (case logging_round core counter of
        (msgs, counter1) \<Rightarrow> logging_main sys lib conf cores counter1 (fold (log_process sys lib conf) msgs s))"

lemma log_process_index:
  assumes "\<not> lc_panic_mode (fst s)"
  shows "lc_msg_index (fst (fold (log_process sys lib conf) msgs s)) = lc_msg_index (fst s) + of_nat (length msgs) \<and>
    \<not> lc_panic_mode (fst (fold (log_process sys lib conf) msgs s))"
  using assms
proof (induction msgs arbitrary: s)
  case (Cons msg msgs)
  obtain ctx w where s: "s = (ctx, w)" by (cases s)
  obtain e ctx' w' where p: "log_msg_process sys lib conf msg (ctx, w) = (e, ctx', w')" by (metis prod_cases3)
  from Cons.IH[of "(ctx', w')"] log_msg_process_index[OF p] Cons.prems s p show ?case by (simp add: log_process_def)
qed simp

lemma logging_main_counts:
  assumes "\<not> lc_panic_mode (fst s)" and "logging_main sys lib conf cores counter s = (counter', ctx', w')"
  shows "counter' = counter + int (length cores) \<and> lc_msg_index ctx' = lc_msg_index (fst s) + of_nat (6 * length cores)"
  using assms
proof (induction cores arbitrary: counter s)
  case (Cons core cores)
  obtain msgs where m: "logging_round core counter = (msgs, counter + 1)" "length msgs = 6" by (simp add: logging_round_def)
  note p = log_process_index[OF Cons.prems(1), of sys lib conf msgs]
  from Cons.prems(2) m(1) have "logging_main sys lib conf cores (counter + 1) (fold (log_process sys lib conf) msgs s) = (counter', ctx', w')"
    by simp
  from Cons.IH[OF conjunct2[OF p] this] p m(2) show ?case by (simp add: algebra_simps)
qed simp

end
