(* ===== verification/RepoTests.thy ===== *)
theory RepoTests
  imports SystemClient CallTrace SampleInputs
begin

text \<open>
  The repository's own tests, \<^verbatim>\<open>tests/coap_utils\<close>, \<^verbatim>\<open>tests/lightdb\<close> and
  \<^verbatim>\<open>tests/connected_disconnected\<close>: what they assert is proved of the model, and what their callback
  can tell apart is stated.

  A failed assertion of a helper is \<open>None\<close>. Waits on semaphores cut a test in two.
\<close>

section \<open>tests/coap\_utils\<close>

text \<open>The packet is built in the static \<open>buffer\<close>; the result has the number of bytes appended.\<close>

definition coap_packet_appended_pathv_length ::
  "('e, 'x) sys_scheme \<Rightarrow> u8 list list \<Rightarrow> u8 list \<times> 'e \<Rightarrow> (nat \<times> u8 list \<times> 'e) option" where
  "coap_packet_appended_pathv_length sys pathv s =
     (case s of (buffer, e) \<Rightarrow>
        case coap_next_id sys e of
          (i, e1) \<Rightarrow>
            (case coap_packet_init sys buffer (length buffer) COAP_TYPE_CON [] COAP_METHOD_GET i of
               (err, packet, buffer1) \<Rightarrow>
                 if err \<noteq> 0 then None
                 else
                   (case coap_packet_append_uri_path_from_pathv sys pathv packet buffer1 of
                      None \<Rightarrow> None
                    | Some (err, packet1, buffer2) \<Rightarrow>
                        if err \<noteq> 0 then None
                        else Some (pkt_offset packet1 - pkt_offset packet, buffer2, e1))))"

text \<open>The same assertion for one path after the other.\<close>

fun assert_estimates :: "('e, 'x) sys_scheme \<Rightarrow> u8 list list list \<Rightarrow> u8 list \<times> 'e \<Rightarrow> bool" where
  "assert_estimates sys [] s = True"
| "assert_estimates sys (path # paths) s =
     (case coap_packet_appended_pathv_length sys path s of
        None \<Rightarrow> False
      | Some (appended_len, s') \<Rightarrow>
          appended_len \<le> coap_pathv_estimate_alloc_len path \<and> assert_estimates sys paths s')"

definition test_paths :: "u8 list list list" where
  "test_paths =
     [[ascii ''1234567890123/1234567890123''],
      [ascii ''1234567890123/1234567890123'', ascii ''1234567890123''],
      [ascii ''1234567890123/1234567890123'', ascii ''1234567890123/1234567890123''],
      [ascii ''1234567890123/1234567890123'',
       ascii ''1234567890123/1234567890123/1234567890123/1234567890123/1234567890123/1234567890123/1234567890123''],
      [ascii ''1234567890123-1234567890123'',
       ascii ''1234567890123-1234567890123-1234567890123/1234567890123-1234567890123-1234567890123-1234567890123''],
      [ascii ''.d'', ascii ''counter''],
      [ascii ''1'', ascii ''2'', ascii ''3'', ascii ''4'', ascii ''5'']]"

definition test_pathv_estimate_alloc_len :: "('e, 'x) sys_scheme \<Rightarrow> u8 list \<times> 'e \<Rightarrow> bool" where
  "test_pathv_estimate_alloc_len sys s = assert_estimates sys test_paths s"

section \<open>tests/lightdb and tests/connected\_disconnected\<close>

text \<open>The data of a test: \<^verbatim>\<open>struct async_data\<close>, the static \<^verbatim>\<open>buffer\<close>.\<close>

record async_test =
  async_sem :: nat
  async_err :: int
  async_expected :: "u8 list"
  test_buffer :: "u8 list"
  test_overrun :: bool

text \<open>
  A response that reaches behind the expected data is logged, and then read and marked all the same:
  \<open>test_overrun\<close> records it, what follows is not modelled.
\<close>

definition lightdb_get_handler ::
  "(ptr \<Rightarrow> int \<Rightarrow> ('z) async_test_scheme world \<Rightarrow> int \<times> ('z) async_test_scheme world) \<Rightarrow> golioth_req_rsp
     \<Rightarrow> ('z) async_test_scheme world \<Rightarrow> int \<times> ('z) async_test_scheme world" where
  "lightdb_get_handler get_next rsp w =
     (let off = rsp_off rsp; n = length (rsp_data rsp); async = w_env w in
      if rsp_err rsp \<noteq> 0 then (rsp_err rsp, upd_env (\<lambda>e. e\<lparr>async_err := rsp_err rsp, async_sem := 1\<rparr>) w)
      else if length (async_expected async) < off + n \<or> length (test_buffer async) < off + n
      then (0, upd_env (\<lambda>e. e\<lparr>test_overrun := True\<rparr>) w)
      else if take n (drop off (async_expected async)) \<noteq> rsp_data rsp
      then (- EBADMSG, upd_env (\<lambda>e. e\<lparr>async_err := - EBADMSG\<rparr>) w)
      else
        (let w1 = upd_env (\<lambda>e. e\<lparr>test_buffer := buf_write off (replicate n 0xFF) (test_buffer e)\<rparr>) w
         in if rsp_get_next rsp \<noteq> None
            then (case rsp_get_next_data rsp of Some r \<Rightarrow> (0, snd (get_next r 0 w1)) | None \<Rightarrow> (0, fault w1))
            else (0, upd_env (\<lambda>e. e\<lparr>async_sem := 1\<rparr>) w1)))"

text \<open>\<^verbatim>\<open>lightdb_get_cb\<close> of \<^verbatim>\<open>tests/connected_disconnected\<close>, up to its wait and from there.\<close>

definition lightdb_get_cb_begin ::
  "(('z) async_test_scheme, 'x) sys_scheme \<Rightarrow> u8 list \<Rightarrow> nat \<Rightarrow> u8 list \<Rightarrow> ('z) async_test_scheme world
     \<Rightarrow> int \<times> ('z) async_test_scheme world" where
  "lightdb_get_cb_begin sys path format expected_data w =
     golioth_lightdb_get_cb sys path format (Some (App_cb 0)) (UD_app 0)
       (upd_env (\<lambda>e. e\<lparr>async_sem := 0, async_err := 0, async_expected := expected_data,
          test_buffer := replicate (length (test_buffer e)) 0,
          test_overrun := False\<rparr>) w)"

text \<open>\<open>None\<close> still waits; otherwise whether the assertions hold.\<close>

definition lightdb_get_cb_end :: "int \<Rightarrow> ('z) async_test_scheme \<Rightarrow> bool option" where
  "lightdb_get_cb_end expected_async_err e =
     (if async_sem e = 0 then None
      else Some (async_err e = expected_async_err \<and>
        (async_err e \<noteq> 0 \<or> (\<forall>i \<in> set [0..<length (async_expected e)]. test_buffer e ! i = 0xFF))))"

definition async_test_app :: "('z) async_test_scheme app" where
  "async_test_app = \<lparr>app_cb = (\<lambda>i nb rsp w. lightdb_get_handler nb rsp w), app_setting = (\<lambda>i key v w. (0, w)),
     app_rpc = (\<lambda>i st enc a w. (0, enc, w)), app_on_connect = (\<lambda>i w. w)\<rparr>"

section \<open>The estimate holds\<close>

text \<open>Every packet of the test has room for a path, if it starts with a header of four bytes.\<close>

definition path_init_ok :: "(coap_packet \<Rightarrow> bool) \<Rightarrow> ('e, 'x) sys_scheme \<Rightarrow> bool" where
  "path_init_ok path_packet sys \<longleftrightarrow>
     (\<forall>b i. 4 \<le> length b \<longrightarrow> (\<exists>pkt b'. coap_packet_init sys b (length b) COAP_TYPE_CON [] COAP_METHOD_GET i = (0, pkt, b') \<and>
        path_packet pkt \<and> pkt_offset pkt = 4 \<and> length b' = length b))"

lemma assert_estimates_hold:
  assumes "uri_path_lib path_packet sys" and "path_init_ok path_packet sys"
    and "\<forall>path\<in>set paths. 4 + coap_pathv_estimate_alloc_len path \<le> length (fst s) \<and> (\<forall>p\<in>set path. length p < 65536)"
  shows "assert_estimates sys paths s"
  using assms(3)
proof (induction paths arbitrary: s)
  case (Cons path paths)
  obtain buf e where s: "s = (buf, e)" by fastforce
  obtain i e1 where i: "coap_next_id sys e = (i, e1)" by fastforce
  let ?n = "segments_size (concat (map (path_segments \<circ> takeWhile (\<lambda>c. c \<noteq> 0)) path))"
  have room: "4 + ?n \<le> length buf" using estimate_bounds_path[of path] Cons.prems s by simp
  then have "4 \<le> length buf" by simp
  with assms(2) obtain pkt b where p: "coap_packet_init sys buf (length buf) COAP_TYPE_CON [] COAP_METHOD_GET i = (0, pkt, b)"
    "path_packet pkt" "pkt_offset pkt = 4" "length b = length buf"
    unfolding path_init_ok_def by metis
  from from_pathv_fits[OF assms(1), of path pkt b] p room Cons.prems obtain pkt' b' where
    "coap_packet_append_uri_path_from_pathv sys path pkt b = Some (0, pkt', b')"
    "pkt_offset pkt' = pkt_offset pkt + ?n" "length b' = length b" by auto
  then have "coap_packet_appended_pathv_length sys path s = Some (?n, b', e1)" "length b' = length buf"
    using p i s by (simp_all add: coap_packet_appended_pathv_length_def)
  moreover from this have "assert_estimates sys paths (b', e1)" using Cons s by simp
  ultimately show ?case using estimate_bounds_path[of path] by simp
qed simp

text \<open>The test passes, with its buffer of 512 bytes.\<close>

lemma coap_utils_test_passes:
  assumes "uri_path_lib path_packet sys" and "path_init_ok path_packet sys" and "length buffer = 512"
  shows "test_pathv_estimate_alloc_len sys (buffer, e)"
proof -
  have "\<forall>path\<in>set test_paths. coap_pathv_estimate_alloc_len path \<le> 200 \<and> (\<forall>p\<in>set path. length p \<le> 200)"
    by code_simp
  then show ?thesis
    unfolding test_pathv_estimate_alloc_len_def
    by (intro assert_estimates_hold[OF assms(1,2)]) (use assms(3) in force)
qed

text \<open>It does with a library that has the option format of the RFC.\<close>

lemma rfc_sys_passes: "test_pathv_estimate_alloc_len rfc_sys (replicate 512 0, e)"
proof (rule coap_utils_test_passes[OF rfc_sys_paths])
  show "path_init_ok rfc_path rfc_sys"
    by (auto simp: path_init_ok_def rfc_sys_def demo_sys_def demo_init_def demo_put_def rfc_path_def)
qed simp

section \<open>What the callback can tell apart\<close>

text \<open>
  The responses that deliver the blocks \<open>bs\<close> from offset \<open>off\<close> on; a callback that fails ends the
  request, so nothing follows.
\<close>

fun async_blocks :: "nat \<Rightarrow> ptr \<Rightarrow> nat \<Rightarrow> u8 list list \<Rightarrow> golioth_req_rsp list" where
  "async_blocks tot r off [] = []"
| "async_blocks tot r off (b # bs) =
     \<lparr>rsp_data = b, rsp_off = off, rsp_total = tot,
       rsp_get_next = (if bs = [] then None else Some Golioth_coap_req_next_block),
       rsp_get_next_data = (if bs = [] then None else Some r), rsp_user_data = UD_app 0, rsp_err = 0\<rparr> #
     async_blocks tot r (off + length b) bs"

fun deliver ::
  "(ptr \<Rightarrow> int \<Rightarrow> ('z) async_test_scheme world \<Rightarrow> int \<times> ('z) async_test_scheme world) \<Rightarrow> golioth_req_rsp list
     \<Rightarrow> ('z) async_test_scheme world \<Rightarrow> ('z) async_test_scheme world" where
  "deliver nb [] w = w"
| "deliver nb (rsp # rsps) w =
     (case lightdb_get_handler nb rsp w of (err, w1) \<Rightarrow> if err \<noteq> 0 then w1 else deliver nb rsps w1)"

definition test_data :: "('z) async_test_scheme world \<Rightarrow> nat \<times> int \<times> u8 list \<times> u8 list" where
  "test_data w = (let e = w_env w in (async_sem e, async_err e, async_expected e, test_buffer e))"

lemma test_dataD:
  assumes "test_data w = (s, err, x, b)"
  shows "async_sem (w_env w) = s" and "async_err (w_env w) = err" and "async_expected (w_env w) = x"
    and "test_buffer (w_env w) = b"
  using assms by (simp_all add: test_data_def Let_def)

text \<open>\<open>done\<close> bytes have been received and compared.\<close>

definition marked :: "nat \<Rightarrow> nat \<Rightarrow> u8 list" where
  "marked n cap = replicate n 0xFF @ replicate (cap - n) 0"

lemma marked_write:
  "off + n \<le> cap \<Longrightarrow> buf_write off (replicate n 0xFF) (marked off cap) = marked (off + n) cap"
  by (simp add: buf_write_def marked_def replicate_add)

lemma handle_block:
  fixes w :: "('z) async_test_scheme world"
  assumes nb: "\<And>w. test_data (snd (nb r 0 w)) = test_data w"
    and d: "test_data w = (0, 0, x, marked off cap)" and "off + length b \<le> length x" and "length x \<le> cap"
    and rsp: "rsp = hd (async_blocks tot r off (b # bs))"
  shows "take (length b) (drop off x) \<noteq> b \<Longrightarrow> fst (lightdb_get_handler nb rsp w) = - EBADMSG \<and>
      test_data (snd (lightdb_get_handler nb rsp w)) = (0, - EBADMSG, x, marked off cap)"
    and "take (length b) (drop off x) = b \<Longrightarrow> fst (lightdb_get_handler nb rsp w) = 0 \<and>
      test_data (snd (lightdb_get_handler nb rsp w)) = (if bs = [] then 1 else 0, 0, x, marked (off + length b) cap)"
  using test_dataD[OF d] assms(3,4) marked_write[of off "length b" cap]
  by (simp_all add: rsp lightdb_get_handler_def Let_def nb, simp_all add: test_data_def Let_def)
    (simp_all add: marked_def)

lemma deliver_blocks:
  fixes w :: "('z) async_test_scheme world"
  assumes nb: "\<And>w. test_data (snd (nb r 0 w)) = test_data w"
    and "test_data w = (0, 0, x, marked off cap)" and "bs \<noteq> []" and "off + length (concat bs) \<le> length x"
    and cap: "length x \<le> cap"
  shows "if take (length (concat bs)) (drop off x) = concat bs
    then test_data (deliver nb (async_blocks tot r off bs) w) = (1, 0, x, marked (off + length (concat bs)) cap)
    else \<exists>b. test_data (deliver nb (async_blocks tot r off bs) w) = (0, - EBADMSG, x, b)"
  using assms(2-4)
proof (induction bs arbitrary: off w)
  case (Cons b bs)
  let ?rsp = "hd (async_blocks tot r off (b # bs))"
  have "off + length b \<le> length x" using Cons.prems(3) by simp
  note h = handle_block[where nb = nb and r = r and tot = tot and bs = bs, OF nb Cons.prems(1) this cap refl]
  obtain err w1 where r: "lightdb_get_handler nb ?rsp w = (err, w1)" by fastforce
  have d: "deliver nb (async_blocks tot r off (b # bs)) w =
      (if err \<noteq> 0 then w1 else deliver nb (async_blocks tot r (off + length b) bs) w1)"
    using r by simp
  have split: "take (length (concat (b # bs))) (drop off x) = concat (b # bs) \<longleftrightarrow>
      take (length b) (drop off x) = b \<and> take (length (concat bs)) (drop (off + length b) x) = concat bs"
    using Cons.prems(3) by (simp add: take_add add.commute append_eq_append_conv)
  show ?case
  proof (cases "take (length b) (drop off x) = b")
    case False
    with h(1) r have "err = - EBADMSG" "test_data w1 = (0, - EBADMSG, x, marked off cap)" by simp_all
    with False d split show ?thesis by simp
  next
    case True
    with h(2) r have w1: "err = 0" "test_data w1 = (if bs = [] then 1 else 0, 0, x, marked (off + length b) cap)"
      by simp_all
    show ?thesis
    proof (cases "bs = []")
      case True
      with w1 d \<open>take (length b) (drop off x) = b\<close> show ?thesis by simp
    next
      case False
      with Cons.IH[of w1 "off + length b"] Cons.prems(3) w1 d split True show ?thesis by (simp add: add.assoc)
    qed
  qed
qed simp

text \<open>
  The test of a value that is delivered in any blocks ends with success exactly if the value is the
  expected one. It fails if it is only the beginning of it. If any byte is wrong it never ends, since
  the callback does not give the semaphore then.
\<close>

lemma lightdb_get_cb_verdict:
  assumes "\<And>w. test_data (snd (nb r 0 w)) = test_data w"
    and "test_data w = (0, 0, expected, replicate cap 0)" and "bs \<noteq> []"
    and "length (concat bs) \<le> length expected" and "length expected \<le> cap"
  shows "lightdb_get_cb_end 0 (w_env (deliver nb (async_blocks tot r 0 bs) w)) =
    (if concat bs = expected then Some True else if take (length (concat bs)) expected = concat bs then Some False else None)"
proof -
  let ?w = "deliver nb (async_blocks tot r 0 bs) w" and ?v = "concat bs"
  have d: "test_data w = (0, 0, expected, marked 0 cap)" using assms(2) by (simp add: marked_def)
  have le: "0 + length ?v \<le> length expected" using assms(4) by simp
  note D = deliver_blocks[of nb r w expected 0 cap bs tot, OF assms(1) d assms(3) le assms(5)]
  show ?thesis
  proof (cases "take (length ?v) expected = ?v")
    case False
    with D obtain b where "test_data ?w = (0, - EBADMSG, expected, b)" by auto
    from test_dataD(1)[OF this] False show ?thesis by (auto simp: lightdb_get_cb_end_def)
  next
    case True
    with D have "test_data ?w = (1, 0, expected, marked (length ?v) cap)" by simp
    note w = test_dataD[OF this]
    have "(\<forall>i\<in>set [0..<length expected]. marked (length ?v) cap ! i = 0xFF) \<longleftrightarrow> length ?v = length expected"
      using le assms(5) by (auto simp: marked_def nth_append)
    moreover have "?v = expected \<longleftrightarrow> length ?v = length expected" using True by auto
    ultimately show ?thesis using w True by (simp add: lightdb_get_cb_end_def)
  qed
qed

section \<open>tests/connected\_disconnected, disconnected\<close>

text \<open>A library and a kernel that do not fail.\<close>

definition never_fails :: "('e, 'x) sys_scheme \<Rightarrow> bool" where
  "never_fails sys \<longleftrightarrow> (\<forall>n e. fst (sys_malloc sys n e)) \<and>
     (\<forall>b n t tok c i. fst (coap_packet_init sys b n t tok c i) = 0) \<and>
     (\<forall>n v pkt b. fst (coap_packet_append_option sys n v pkt b) = 0) \<and>
     (\<forall>n v pkt b. fst (coap_append_option_int sys n v pkt b) = 0)"

lemma on_request_succeeds: "(\<And>p b. fst (f p b) = 0) \<Longrightarrow> fst (on_request f r w) = 0"
  by (auto simp: on_request_def split: option.split prod.split) (metis fst_conv)

lemma err_then_succeeds: "fst x = 0 \<Longrightarrow> (\<And>w. fst (k w) = 0) \<Longrightarrow> fst (err_then x k) = 0"
  by (cases x) simp

lemma append_segments_succeeds:
  assumes "\<And>n v pkt b. fst (coap_packet_append_option lib n v pkt b) = 0"
  shows "fst (append_segments lib ss pkt b) = 0"
proof (induction ss arbitrary: pkt b)
  case (Cons s ss)
  obtain p1 b1 where "coap_packet_append_option lib COAP_OPTION_URI_PATH s pkt b = (0, p1, b1)"
    using assms by (metis prod.collapse)
  with Cons show ?case by simp
qed simp

lemma from_pathv_succeeds:
  assumes "\<And>n v pkt b. fst (coap_packet_append_option lib n v pkt b) = 0" and "\<forall>s\<in>set pathv. length s < UINTPTR_MAX"
  shows "\<exists>res. coap_packet_append_uri_path_from_pathv lib pathv pkt b = Some (0, res)"
  using assms(2)
proof (induction pathv arbitrary: pkt b)
  case (Cons s pathv)
  obtain p1 b1 where "append_segments lib (path_segments (takeWhile (\<lambda>c. c \<noteq> 0) s)) pkt b = (0, p1, b1)"
    using append_segments_succeeds[of lib] assms(1) by (metis prod.collapse)
  with Cons show ?case by (simp add: from_stringz_segments)
qed simp

lemma append_uri_path_succeeds:
  assumes "\<And>n v pkt b. fst (coap_packet_append_option sys n v pkt b) = 0" and "\<forall>s\<in>set pathv. length s < UINTPTR_MAX"
  shows "fst (append_uri_path_from_pathv sys pathv r w) = 0"
proof -
  have "\<exists>res. coap_packet_append_uri_path_from_pathv sys pathv pkt b = Some res \<and> fst res = 0" for pkt b
    using from_pathv_succeeds[of sys pathv pkt b] assms by auto
  then show ?thesis
    unfolding append_uri_path_from_pathv_def
    by (auto split: option.split intro!: on_request_succeeds) (metis option.inject option.distinct(1) fst_conv)+
qed

lemma get_while_down:
  assumes "fresh_ok w" and "coap_lib_ok sys" and "never_fails sys" and "\<not> is_connected w"
    and "\<forall>s\<in>set pathv. length s < UINTPTR_MAX"
  shows "fst (golioth_coap_req_cb sys COAP_METHOD_GET pathv format [] cb ud 0 w) = - ENETDOWN"
proof -
  let ?n = "GOLIOTH_COAP_MAX_NON_PAYLOAD_LEN + coap_pathv_estimate_alloc_len pathv"
  note nf = assms(3)[unfolded never_fails_def]
  obtain e1 where m1: "sys_malloc sys 1 (w_env w) = (True, e1)" using nf by (metis prod.collapse)
  obtain e2 where m2: "sys_malloc sys ?n e1 = (True, e2)" using nf by (metis prod.collapse)
  obtain tok e3 where t: "coap_next_token sys e2 = (tok, e3)" by fastforce
  obtain i e4 where i: "coap_next_id sys e3 = (i, e4)" by fastforce
  obtain pkt b where p: "coap_packet_init sys (replicate ?n 0) ?n COAP_TYPE_CON tok COAP_METHOD_GET i = (0, pkt, b)"
    using nf by (metis prod.collapse)
  define q where "q = fresh_req (w_client w) cb ud (Suc (w_next w)) pkt"
  have n: "golioth_coap_req_new sys COAP_METHOD_GET COAP_TYPE_CON ?n cb ud w = (0, w_next w, with_req w q b e4)"
    using golioth_coap_req_new_eq[OF assms(1) m1 m2 t i p] by (simp add: q_def)
  have "length b = ?n" using coap_lib_okD(1)[OF assms(2), of "replicate ?n 0" ?n COAP_TYPE_CON tok COAP_METHOD_GET i] p by simp
  then have d: "detached w q b (with_req w q b e4)" by (intro detachedI) (simp_all add: q_def fresh_req_def)
  obtain e w2 where bu: "golioth_coap_req_cb_build sys COAP_METHOD_GET pathv format [] 0 (w_next w) (with_req w q b e4) = (e, w2)"
    by fastforce
  have "fst (golioth_coap_req_cb_build sys COAP_METHOD_GET pathv format [] 0 r w') = 0" for r w'
    unfolding golioth_coap_req_cb_build_def
    by (intro err_then_succeeds append_uri_path_succeeds assms(5))
      (use nf in \<open>simp_all add: flag_observe_def flag_no_resp_body_def on_request_succeeds\<close>)
  with bu have "e = 0" by (metis fst_conv)
  obtain pkt' b' q' where d2: "detached w q' b' w2"
    using golioth_coap_req_cb_build_detached[OF d assms(2) bu] by blast
  obtain e3 w3 where sc: "golioth_coap_req_schedule sys (w_next w) w2 = (e3, w3)" by fastforce
  from golioth_coap_req_schedule_detached[OF d2 sc] assms(4) have "e3 = - ENETDOWN" by auto
  with n bu sc \<open>e = 0\<close> show ?thesis by (simp add: golioth_coap_req_cb_def Let_def)
qed

text \<open>Both tests of the first suite.\<close>

lemma suite_disconnected:
  fixes w :: "('z) async_test_scheme world"
  assumes "fresh_ok w" and "coap_lib_ok sys" and "never_fails sys" and "\<not> is_connected w" and "length path < UINTPTR_MAX"
  shows "fst (lightdb_get_cb_begin sys path format x w) = - ENETDOWN"
    and "map_option fst (golioth_lightdb_get sys wait p d path format data w) = Some (- ENETDOWN)"
proof -
  have path: "\<forall>s\<in>set [LIGHTDB_PATH, path]. length s < UINTPTR_MAX" using assms(5) by (simp add: LIGHTDB_PATH_def)
  have "fresh_ok (upd_env f w)" for f using assms(1) by (simp add: fresh_ok_def upd_env_def)
  moreover have "\<not> is_connected (upd_env f w)" for f using assms(4) by (simp add: upd_env_def)
  ultimately show "fst (lightdb_get_cb_begin sys path format x w) = - ENETDOWN"
    by (simp add: lightdb_get_cb_begin_def golioth_lightdb_get_cb_def golioth_coap_req_lightdb_cb_def
        get_while_down[OF _ assms(2,3) _ path])
  have "fresh_ok (w\<lparr>w_preallocs := P, w_syncs := S\<rparr>)" "\<not> is_connected (w\<lparr>w_preallocs := P, w_syncs := S\<rparr>)" for P S
    using assms(1,4) by (simp_all add: fresh_ok_def)
  note down = get_while_down[OF this(1) assms(2,3) this(2) path]
  show "map_option fst (golioth_lightdb_get sys wait p d path format data w) = Some (- ENETDOWN)"
    by (auto simp: golioth_lightdb_get_def golioth_coap_req_lightdb_sync_def golioth_coap_req_sync_def
        golioth_coap_req_sync_begin_def down split: prod.split dest!: arg_cong[of _ _ fst])
qed

section \<open>tests/connected\_disconnected, disconnected after the request\<close>

text \<open>The kernel does not touch the data of the test.\<close>

definition keeps_test_data :: "(('z) async_test_scheme, 'x) sys_scheme \<Rightarrow> bool" where
  "keeps_test_data sys \<longleftrightarrow>
     (\<forall>w x w'. env_read (k_uptime_get sys) w = (x, w') \<longrightarrow> test_data w' = test_data w) \<and>
     (\<forall>fd w x w'. raw_golioth_close sys fd w = (x, w') \<longrightarrow> test_data w' = test_data w)"

lemma test_data_client [simp]: "test_data (upd_client f w) = test_data w"
  by (simp add: test_data_def upd_client_def)

text \<open>The test is an application as the SDK expects it.\<close>

lemma async_test_app_ok: "app_ok (async_test_app :: ('z) async_test_scheme app)"
proof -
  have "cb_step w (snd (lightdb_get_handler nb rsp w))"
    if nb: "\<forall>r status w. world_ok w \<longrightarrow> r \<in> set (reqs_list w) \<longrightarrow> cb_step w (snd (nb r status w))"
      and w: "world_ok w" "rsp_ok w rsp"
    for nb rsp and w :: "('z) async_test_scheme world"
  proof -
    have nxt: "cb_step w (snd (nb r 0 (upd_env f w)))" if "rsp_get_next rsp \<noteq> None" "rsp_get_next_data rsp = Some r" for r f
    proof -
      have u: "cb_step w (upd_env f w)" by (rule cb_step_upd_env[OF w(1)])
      moreover have "r \<in> set (reqs_list (upd_env f w))" using w(2) that by (simp add: rsp_ok_def upd_env_def)
      ultimately show ?thesis using nb cb_stepD(1)[OF u] cb_step_trans by blast
    qed
    have "rsp_get_next rsp \<noteq> None \<Longrightarrow> rsp_get_next_data rsp \<noteq> None" using w(2) by (auto simp: rsp_ok_def)
    with nxt w(1) show ?thesis by (auto simp: lightdb_get_handler_def Let_def)
  qed
  moreover have "coap_same w (snd (lightdb_get_handler nb rsp w))" if "rsp_err rsp \<noteq> 0"
    for nb rsp and w :: "('z) async_test_scheme world"
    using that by (simp add: lightdb_get_handler_def)
  ultimately show ?thesis by (simp add: app_ok_def async_test_app_def)
qed

text \<open>A disconnection ends the only request with the callback's error branch.\<close>

lemma disconnect_only_request:
  assumes "env_ok sys async_test_app lib" and "world_ok w" and "reqs_list w = [r]" and "w_reqs w r = Some q"
    and "req_cb q = User_cb (App_cb 0)"
  obtains w' x b where "golioth_coap_reqs_on_disconnect (run_callback sys async_test_app lib conf) w = Some w'"
    and "test_data w' = (1, - ESHUTDOWN, x, b)"
proof -
  let ?run = "run_callback sys async_test_app lib conf"
  let ?w = "upd_client (\<lambda>c. c\<lparr>cl_coap_reqs_connected := False\<rparr>) w"
  have m: "mem_ok ?w" "r \<in> set (reqs_list ?w)"
    using assms(2,3) by (simp_all add: world_ok_mem_ok mem_ok_def upd_client_def settings_ready_def)
  note run = lawful_run_eq[OF assms(1)]
  have e: "- ESHUTDOWN \<noteq> (0 :: int)" by simp
  obtain w2 where c: "cancel_body ?run (- ESHUTDOWN) r ?w = Some w2"
    "w_env w2 = w_env (snd (?run (req_cb q) (error_rsp (req_user_data q) (- ESHUTDOWN)) ?w))"
    using sdk.cancel_body_ok[OF m e, of sys async_test_app lib conf] assms(4) unfolding run
    by (auto simp: upd_client_def)
  have "golioth_coap_reqs_on_disconnect ?run w = Some w2"
    using sdk.cancel_all_walk[OF m(1) e, of sys async_test_app lib conf] assms(3) c(1) unfolding run
    by (simp add: golioth_coap_reqs_on_disconnect_def upd_client_def)
  moreover have "test_data w2 = (1, - ESHUTDOWN, async_expected (w_env w), test_buffer (w_env w))"
    using c(2) assms(5)
    by (simp add: test_data_def Let_def run_callback_def run_cb_def run_user_cb_def async_test_app_def
        lightdb_get_handler_def upd_client_def)
  ultimately show thesis by (rule that)
qed

lemma client_disconnect_tells:
  assumes "env_ok sys async_test_app lib" and "keeps_test_data sys" and "world_ok (sy_world s)"
    and "reqs_list (sy_world s) = [r]" and "w_reqs (sy_world s) r = Some q" and "req_cb q = User_cb (App_cb 0)"
  obtains s' x b where "client_disconnect sys (run_callback sys async_test_app lib conf) s = Some s'"
    and "test_data (sy_world s') = (1, - ESHUTDOWN, x, b)"
proof -
  obtain w1 x b where w1: "golioth_coap_reqs_on_disconnect (run_callback sys async_test_app lib conf) (sy_world s) = Some w1"
    "test_data w1 = (1, - ESHUTDOWN, x, b)"
    by (rule disconnect_only_request[OF assms(1,3-6)])
  obtain ret w2 where c: "raw_golioth_close sys (cl_sock (w_client w1)) w1 = (ret, w2)" by fastforce
  with assms(2) have "test_data w2 = test_data w1" unfolding keeps_test_data_def by blast
  with w1 c show thesis
    by (intro that[of "s\<lparr>sy_world := upd_client (\<lambda>c. c\<lparr>cl_sock := - 1\<rparr>) w2, sy_timer := None\<rparr>"])
      (simp_all add: client_disconnect_def golioth_disconnect_def golioth_close_def)
qed


lemma loop_event_stop:
  assumes "sy_stop s" and "sy_uptime sys (s\<lparr>sy_reconnect := False, sy_stop := False\<rparr>) = (t, s1)"
  shows "loop_event sys sc run s = map_option (\<lambda>s2. (True, s2)) (client_disconnect sys run s1)"
  using assms by (simp add: loop_event_def Let_def)

text \<open>
  The third suite: a request is made, the client is stopped, and the next step of the main thread ends
  the test with the error it expects.
\<close>

lemma suite_disconnected_after_request:
  assumes "env_ok lib async_test_app zlib" and "keeps_test_data lib" and "world_ok (sy_world s)" and "sy_pc s = Polling"
    and "reqs_list (sy_world s) = []" and "\<not> sy_stop s"
    and req: "lightdb_get_cb_begin lib path format x (sy_world s) = (0, w)"
    and step: "main_step lib sc gc ot oc (run_callback lib async_test_app zlib conf)
      (golioth_system_client_stop (s\<lparr>sy_world := w\<rparr>)) s'"
    and "sy_pc s' \<noteq> Ended"
  shows "lightdb_get_cb_end (- ESHUTDOWN) (w_env (sy_world s')) = Some True"
proof -
  let ?run = "run_callback lib async_test_app zlib conf"
  define sp where "sp = golioth_system_client_stop (s\<lparr>sy_world := w\<rparr>)"
  have sp: "sy_world sp = w" "sy_stop sp" "0 < sy_event sp" "sy_pc sp = Polling"
    using assms(4,6) by (simp_all add: sp_def golioth_system_client_stop_def Let_def)
  let ?w0 = "upd_env (\<lambda>e. e\<lparr>async_sem := 0, async_err := 0, async_expected := x,
    test_buffer := replicate (length (test_buffer e)) 0, test_overrun := False\<rparr>) (sy_world s)"
  have ok: "coap_lib_ok lib" using assms(1) by (simp add: env_ok_def)
  have w0: "world_ok ?w0" using cb_stepD(1)[OF cb_step_upd_env[OF assms(3)]] .
  have c: "golioth_coap_req_cb lib COAP_METHOD_GET [LIGHTDB_PATH, path] format [] (Some (User_cb (App_cb 0))) (UD_app 0) 0 ?w0 = (0, w)"
    using req by (simp add: lightdb_get_cb_begin_def golioth_lightdb_get_cb_def golioth_coap_req_lightdb_cb_def)
  have w: "world_ok w" using golioth_coap_req_cb_step[OF w0 ok _ c] cb_stepD(1) by simp
  have "reqs_list ?w0 = []" using assms(5) by (simp add: upd_env_def)
  with golioth_coap_req_cb_spec[OF world_okD(4)[OF w0] ok c] obtain r q where
    q: "reqs_list w = [r]" "w_reqs w r = Some q" "req_cb q = User_cb (App_cb 0)"
    by auto
  from step[folded sp_def] show ?thesis
  proof (cases rule: main_stepE[consumes 1, case_names main_idle main_go_on main_started main_flush_flag main_flush_event
      main_connect main_prepare main_polled])
    case (main_polled ret ev sk)
    have ret: "0 \<le> ret" using main_polled(3) assms(9) by (auto simp: loop_polled_def split: if_splits)
    with main_polled(2) sp(3) have ev: "ev" by (simp add: poll_returns_def)
    let ?s0 = "sp\<lparr>sy_event := 0, sy_reconnect := False, sy_stop := False\<rparr>"
    obtain t s1 where up: "sy_uptime lib ?s0 = (t, s1)" by fastforce
    note fr = sy_uptime_frame(1)[OF up]
    have s1: "world_ok (sy_world s1)" "reqs_list (sy_world s1) = [r]" "w_reqs (sy_world s1) r = Some q"
      using world_ok_same_but_env[OF _ fr] same_but_envD[OF fr] w q sp(1) by simp_all
    obtain s2 x b where dis: "client_disconnect lib ?run s1 = Some s2" "test_data (sy_world s2) = (1, - ESHUTDOWN, x, b)"
      by (rule client_disconnect_tells[OF assms(1,2) s1 q(3)])
    have "sy_stop (sp\<lparr>sy_event := 0\<rparr>)" using sp(2) by simp
    note ev_stop = loop_event_stop[OF this up]
    have "loop_event lib sc ?run (sp\<lparr>sy_event := 0\<rparr>) = Some (True, s2)" by (subst ev_stop) (simp add: dis(1))
    with main_polled(3) ret ev have "s' = s2\<lparr>sy_pc := Loop_top\<rparr>" by (simp add: loop_polled_def)
    with test_dataD[OF dis(2)] show ?thesis by (simp add: lightdb_get_cb_end_def)
  qed (use sp(4) in simp_all)
qed

section \<open>The hypotheses can be met\<close>

lemma quiet_sys_keeps: "keeps_test_data quiet_sys"
  by (auto simp: keeps_test_data_def quiet_sys_def env_read_def raw_golioth_close_def split: if_splits)

lemma quiet_env_ok: "env_ok quiet_sys async_test_app demo_zlib"
  using quiet_sys_ok(1) async_test_app_ok demo_zlib_ok by (simp add: env_ok_def)

text \<open>A library that writes nothing does not fail either.\<close>

lemma never_fails_met:
  "never_fails (quiet_sys\<lparr>coap_packet_init := \<lambda>b n t tok c i. (0, \<lparr>pkt_offset = 0, pkt_lib = []\<rparr>, b),
     coap_packet_append_option := \<lambda>n v p b. (0, p, b), coap_append_option_int := \<lambda>n v p b. (0, p, b)\<rparr>)"
  by (simp add: never_fails_def quiet_sys_def)

end
