(* ===== verification/Spec2Isabelle.thy ===== *)
theory Spec2Isabelle
  imports ConcreteInputs NetworkInputs LogSample RepoTests
begin

text \<open>
  \<^bold>\<open>The Golioth Zephyr SDK, modelled and verified\<close>

  The SDK connects a device to the Golioth cloud: CoAP over DTLS on a datagram socket, requests
  with retransmission, block-wise transfer and observations, and on top of them LightDB, Stream,
  settings, remote procedure calls, firmware updates and a log backend. This theory holds the
  properties that span components; the components are in theories of their own, all translated
  from the C files under \<^verbatim>\<open>src/\<close>.

  \<^bold>\<open>Theories, in the order they build on each other\<close>

  \<^item> \<^verbatim>\<open>Prelude\<close>: machine types, errno values, byte strings, shared list and map lemmas.
  \<^item> \<^verbatim>\<open>CoapLib\<close>, \<^verbatim>\<open>CoapUtils\<close>: Zephyr's CoAP packet functions as a parameter;
    \<^verbatim>\<open>net/golioth/coap_utils.c\<close> (URI paths, message ids, packet classification, size estimate).
  \<^item> \<^verbatim>\<open>World\<close>: the state. \<open>golioth_client\<close> is \<^verbatim>\<open>struct golioth_client\<close>; the heap of requests
    (\<open>w_reqs\<close>) and of packet buffers (\<open>w_bufs\<close>) are partial maps from addresses, so that a use after
    free, a double free or a call of NULL is visible: it sets \<open>w_fault\<close>. Structures that callers own
    (the data of a synchronous call, a preallocated buffer) are in the world too. The rest of the
    system is \<open>w_env\<close>, of any type.
  \<^item> \<^verbatim>\<open>GoliothUtils\<close>, \<^verbatim>\<open>CoapReqCore\<close>, \<^verbatim>\<open>CoapReqRx\<close>, \<^verbatim>\<open>CoapReqTimer\<close>, \<^verbatim>\<open>CoapReqSync\<close>:
    \<^verbatim>\<open>golioth_utils.c\<close> and \<^verbatim>\<open>coap_req.c\<close>. Creation and submission; matching of responses, blocks and
    observations; retransmission and timeouts; cancellation; the blocking call.
  \<^item> \<^verbatim>\<open>ReqInvariant\<close>: the invariant of the request list and that the operations keep it, in a locale
    over the callbacks (what a callback may do is its assumption).
  \<^item> \<^verbatim>\<open>ZcborLib\<close>, \<^verbatim>\<open>ZcborAnySkip\<close>, \<^verbatim>\<open>ZcborExact\<close>, \<^verbatim>\<open>ZcborUtils\<close>: the zcbor library as a parameter;
    \<^verbatim>\<open>zcbor_any_skip_fixed.c\<close> against the grammar of CBOR, in both directions, with a reader of that grammar;
    \<^verbatim>\<open>zcbor_utils.c\<close>, the decoder of maps.
  \<^item> \<^verbatim>\<open>Lightdb\<close>, \<^verbatim>\<open>Fw\<close>, \<^verbatim>\<open>Rpc\<close>, \<^verbatim>\<open>Settings\<close>: \<^verbatim>\<open>lightdb.c\<close> and \<^verbatim>\<open>stream.c\<close>, \<^verbatim>\<open>fw.c\<close>,
    \<^verbatim>\<open>rpc.c\<close>, \<^verbatim>\<open>settings.c\<close>.
  \<^item> \<^verbatim>\<open>Application\<close>, \<^verbatim>\<open>Callbacks\<close>: the application as a parameter, and \<open>run_callback\<close>, which gives
    every function pointer that the SDK stores in a request its meaning. Here the locale of
    \<^verbatim>\<open>ReqInvariant\<close> is interpreted.
  \<^item> \<^verbatim>\<open>Transport\<close>, \<^verbatim>\<open>GoliothClient\<close>: \<^verbatim>\<open>golioth.c\<close>: sending, connecting, receiving, polling.
  \<^item> \<^verbatim>\<open>OtDns\<close>, \<^verbatim>\<open>SystemClient\<close>: \<^verbatim>\<open>ot_dns.c\<close>, and \<^verbatim>\<open>system_client.c\<close> as a transition system: the
    main thread has a program counter between the points where it can be interrupted (\<open>main_step\<close>),
    and other threads and the timer act in between (\<open>other_step\<close>).
  \<^item> \<^verbatim>\<open>LogBackend\<close>, \<^verbatim>\<open>SockWrapper\<close>: \<^verbatim>\<open>logging/log_backend_golioth.c\<close> and
    \<^verbatim>\<open>sockets/sockets_offload_poll_wrapper.c\<close>.
  \<^item> \<^verbatim>\<open>Flash\<close>, \<^verbatim>\<open>Dfu\<close>: \<^verbatim>\<open>samples/dfu\<close>, an application of the SDK: its callbacks are the fields of
    \<open>dfu_app\<close>, its main thread is cut at its semaphores.
  \<^item> \<^verbatim>\<open>WifiManager\<close>, \<^verbatim>\<open>CredentialSettings\<close>: \<^verbatim>\<open>samples/common/wifi.c\<close> as a transition system of its work
    queue and the network; \<^verbatim>\<open>settings_golioth.c\<close>, \<^verbatim>\<open>hardcoded_credentials.c\<close>.
  \<^item> \<^verbatim>\<open>ServiceSamples\<close>, \<^verbatim>\<open>DataSamples\<close>, \<^verbatim>\<open>ReadSamples\<close>: the samples \<^verbatim>\<open>settings\<close>, \<^verbatim>\<open>lightdb_led\<close>, \<^verbatim>\<open>rpc\<close>;
    \<^verbatim>\<open>lightdb/set\<close>, \<^verbatim>\<open>lightdb_stream\<close>; \<^verbatim>\<open>lightdb/get\<close>, \<^verbatim>\<open>delete\<close>, \<^verbatim>\<open>observe\<close>, \<^verbatim>\<open>hello\<close>,
    \<^verbatim>\<open>hello_sporadic\<close> and \<^verbatim>\<open>net_connect.c\<close>. Each is an \<open>app\<close> record, or steps other threads may take.
  \<^item> \<^verbatim>\<open>Provisioning\<close>, \<^verbatim>\<open>ShellSettings\<close>: \<^verbatim>\<open>certificate_provisioning\<close> with its own small heap, and
    \<^verbatim>\<open>settings_shell.c\<close> with the lines it prints.
  \<^item> \<^verbatim>\<open>LogSample\<close>: \<^verbatim>\<open>samples/logging\<close> on top of the log backend, \<^verbatim>\<open>nrf91_lte_monitor.c\<close>, \<^verbatim>\<open>settings_autoload.c\<close>.
  \<^item> \<^verbatim>\<open>Lifecycle\<close>, \<^verbatim>\<open>WifiPhases\<close>: abstract machines that the system client and the WiFi manager
    refine, as interpretations of the locale \<open>simulation\<close> of \<^verbatim>\<open>Prelude\<close>.
  \<^item> \<^verbatim>\<open>Blockwise\<close>, \<^verbatim>\<open>Delivery\<close>: a blocking get, from the request over the blocks of the response to the caller;
    then over a network that also delivers blocks again and datagrams for others.
  \<^item> \<^verbatim>\<open>CallTrace\<close>, \<^verbatim>\<open>Completion\<close>: the calls a disconnection makes, recorded in the environment; and how often
    each request is called under any sequence of operations, in a locale over callbacks that leave a trace.
  \<^item> \<^verbatim>\<open>Instance\<close>, \<^verbatim>\<open>ConcreteInputs\<close>, \<^verbatim>\<open>SampleInputs\<close>, \<^verbatim>\<open>NetworkInputs\<close>: an environment that satisfies every hypothesis, and the
    properties at concrete inputs.
  \<^item> \<^verbatim>\<open>RepoTests\<close>: the repository's own tests, \<^verbatim>\<open>tests/coap_utils\<close>, \<^verbatim>\<open>lightdb\<close> and \<^verbatim>\<open>connected_disconnected\<close>: what
    they assert holds of the model (\<open>coap_utils_test_passes\<close>, \<open>suite_disconnected\<close>, \<open>suite_disconnected_after_request\<close>), and
    what their callback can tell apart (\<open>lightdb_get_cb_verdict\<close>).

  \<^bold>\<open>What the lemmas show\<close>

  Memory and requests: \<open>world_ok\<close> says that no fault has happened, that the list of requests has no
  duplicates, that its elements are exactly the allocated requests, each with a buffer of its own
  and user data its callback can take; \<open>client_ok\<close> adds that there are requests only while
  connected, and connected means a valid socket. Every operation keeps it, for every datagram
  received and every lawful application. Functional properties then say which request a packet
  reaches, when a request is sent again, what a blocked caller gets, how often each callback runs
  (\<open>completes_once\<close>: every request ends exactly once).
  The layers are put together in \<open>get_over_network\<close>: what a server sends block by block is what the caller
  of \<^verbatim>\<open>golioth_lightdb_get\<close> gets, whatever else arrives for other tokens in between. \<open>rpc_dispatch\<close> gives the method a call reaches.
  Decoders are shown to end on every input and to write only into the space they were given; the
  skip function accepts exactly the items of a grammar, that of RFC 8949 but for two points (\<open>any_skip_fixed_exact\<close>). The transition system of the system
  client has its invariant (\<open>system_safe\<close>), what a stop does (\<open>stop_disconnects\<close>) and that the
  thread is never stuck (\<open>main_not_stuck\<close>). The firmware update sample is shown to be a lawful
  application, so the invariant holds for the device that runs it (\<open>dfu_safe\<close>), and the image it
  writes is the image that was sent (\<open>image_is_blocks\<close>).
  So are the samples for LEDs, RPC and observation; what they do with a payload is compared with a
  reference reading of it (\<open>led_map_applied\<close>, \<open>delay_last_valid\<close>). Seen from outside, the whole system is
  a list of waiting calls that only other threads extend and only the main thread shortens (\<open>life_refined\<close>).

  \<^bold>\<open>Bounds and loops\<close>

  There is no fuel. Loops that end for a structural reason are \<open>fun\<close> or \<open>function\<close> with a measure;
  the others (\<open>poll_loop\<close>, \<open>dlist_foreach_safe\<close>, the decoding loops) are partial functions whose
  value \<open>None\<close> is a loop that does not end, and theorems show that it does not occur
  (\<open>disconnect_clean\<close>, \<open>poll_loop_fresh\<close>, \<open>poll_prepare_waits\<close>, \<open>payload_handlers_return\<close>). \<open>None\<close> of \<open>golioth_coap_req_sync\<close> and \<open>synthesize_ip6_address\<close> is a caller that waits for
  ever. Times are \<open>32 word\<close> where the code has 32 bits, compared by signed difference; \<^verbatim>\<open>size_t\<close> has
  32 bits.

  \<^bold>\<open>Parameters and hypotheses\<close>

  Zephyr's CoAP functions (\<open>coap_lib\<close>) keep the length of the buffer they write into. Sockets,
  clocks, random numbers and credentials (\<open>sys\<close>) are functions on the environment; errno is positive
  after a failed call; for \<open>fds_connect\<close> the open descriptors are a ledger. The zcbor functions move forward
  inside the payload when they succeed (\<open>zcbor_lib_ok\<close>), and for \<open>any_skip_fixed_exact\<close> the library's skip function
  skips what is one item and nothing else (\<open>skips_exactly\<close>); for \<open>completes_once\<close> nothing but a callback writes
  to the trace of calls (\<open>keeps_calls\<close>); for \<open>get_over_network\<close> the block functions move from block to block of a server
  that answers in order (\<open>arriving\<close>) and tokens stay in the packets they are written into (\<open>tokens_kept\<close>); for \<open>estimate_suffices\<close> Uri-Path options are
  written as RFC 7252 has them (\<open>uri_path_lib\<close>); and for \<open>settings_set_get\<close> the settings subsystem is a map (\<open>store_ok\<close>). The application's callbacks are lawful: they may submit requests
  and change the environment. \<^verbatim>\<open>Instance\<close> defines functions with all of these properties.

  \<^bold>\<open>Not modelled\<close>

  Mutexes: a section under a lock is one step. Logging calls have no effect. Zephyr, mbedTLS, zcbor,
  MCUboot, OpenThread, GPIO, file systems, the logging core and the settings subsystem are parameters. Of the
  tests, the suites that need a server are modelled by their callback and their verdict only; \<^verbatim>\<open>samples/test\<close> is left out.
\<close>

section \<open>The life of a client\<close>

text \<open>Every state that is reached from power-up is in order, and what that means for the memory.\<close>

lemma reaches_system_ok:
  assumes "env_ok sys app lib" and "errno_ok sys" and "ack_timeout_ok sys"
    and "fresh_ok (sy_world s0)" and "w_reqs (sy_world s0) = Map.empty" and "w_bufs (sy_world s0) = Map.empty"
    and "\<not> w_fault (sy_world s0)" and "\<forall>p. sync_ok False (w_syncs (sy_world s0) p)" and "sy_pc s0 = Loop_top"
    and "system_reaches sys sc gc ot (app_on_connect app) (run_callback sys app lib conf)
           (snd (golioth_system_init sys sc s0)) s"
  shows "system_ok s"
proof -
  have "app_ok app" using assms(1) by (simp add: env_ok_def)
  note oc = app_okD(5)[OF this]
  have "system_ok (snd (golioth_system_init sys sc s0))"
    using golioth_system_init_ok[OF assms(4-7) _ assms(9) prod.collapse[symmetric]] assms(8) by blast
  with assms(10) show ?thesis
    unfolding lawful_run_eq[OF assms(1), symmetric]
    by (rule sdk.system_reaches_ok) (use assms(2,3) oc in blast)+
qed

lemma world_ok_memory:
  assumes "world_ok w"
  shows "\<not> w_fault w \<and> distinct (reqs_list w) \<and> dom (w_reqs w) = set (reqs_list w) \<and>
    dom (w_bufs w) = req_data ` ran (w_reqs w) \<and>
    inj_on (\<lambda>r. req_data (the (w_reqs w r))) (set (reqs_list w)) \<and> (is_connected w \<or> reqs_list w = [])"
proof -
  note H = world_ok_heap[OF assms]
  have "inj_on (\<lambda>r. req_data (the (w_reqs w r))) (set (reqs_list w))"
    by (rule inj_onI) (metis H domD heap_okD(2,5) option.sel)
  with heap_okD(1-4)[OF H] world_okD(1)[OF assms] show ?thesis by simp
qed

text \<open>
  C1. From power-up, whatever the network delivers and in whatever order the main thread's steps
  interleave with start, stop and reconnect requests, timers and requests submitted by other
  threads, the client never touches freed memory and frees nothing twice; every allocated request
  is in the client's list, once, and owns one allocated buffer; requests exist only while
  connected; the client is connected exactly when it has a socket, and the thread polls that one.
\<close>

theorem system_safe:
  assumes "env_ok sys app lib" and "errno_ok sys" and "ack_timeout_ok sys"
    and "fresh_ok (sy_world s0)" and "w_reqs (sy_world s0) = Map.empty" and "w_bufs (sy_world s0) = Map.empty"
    and "\<not> w_fault (sy_world s0)" and "\<forall>p. sync_ok False (w_syncs (sy_world s0) p)" and "sy_pc s0 = Loop_top"
    and "system_reaches sys sc gc ot (app_on_connect app) (run_callback sys app lib conf)
           (snd (golioth_system_init sys sc s0)) s"
  shows "\<not> w_fault (sy_world s) \<and> distinct (reqs_list (sy_world s)) \<and>
    dom (w_reqs (sy_world s)) = set (reqs_list (sy_world s)) \<and>
    dom (w_bufs (sy_world s)) = req_data ` ran (w_reqs (sy_world s)) \<and>
    inj_on (\<lambda>r. req_data (the (w_reqs (sy_world s) r))) (set (reqs_list (sy_world s))) \<and>
    (is_connected (sy_world s) \<or> reqs_list (sy_world s) = []) \<and>
    (is_connected (sy_world s) \<longleftrightarrow> 0 \<le> cl_sock (w_client (sy_world s))) \<and>
    (sy_pc s \<in> {Preparing, Polling} \<longrightarrow>
       is_connected (sy_world s) \<and> sy_fd_socket s = cl_sock (w_client (sy_world s)))"
proof -
  have ok: "system_ok s" by (rule reaches_system_ok[OF assms])
  then have "client_ok (sy_world s)" by (simp add: system_ok_def)
  moreover then have "world_ok (sy_world s)" by (simp add: client_ok_def)
  ultimately show ?thesis using world_ok_memory[of "sy_world s"] ok by (simp add: client_ok_def system_ok_def)
qed

theorem system_safe_witness:
  "\<not> w_fault (sy_world ((snd (golioth_system_init demo_sys demo_system_conf (demo_system (blank_world demo_env0) Loop_top)))
       \<lparr>sy_pc := Wait_start\<rparr>))"
proof -
  let ?s0 = "demo_system (blank_world demo_env0) Loop_top"
  let ?s1 = "snd (golioth_system_init demo_sys demo_system_conf ?s0)"
  have init: "system_ok ?s1 \<and> \<not> is_connected (sy_world ?s1) \<and> sy_pc ?s1 = Loop_top"
    using golioth_system_init_ok[OF _ _ _ _ _ _ prod.collapse[symmetric], of ?s0 demo_sys demo_system_conf]
    by (simp add: blank_world_fresh)
  then have "cl_sock (w_client (sy_world ?s1)) < 0" by (auto simp: system_ok_def client_ok_def)
  with init have "system_reaches demo_sys demo_system_conf demo_conf demo_ot (app_on_connect demo_app)
      (run_callback demo_sys demo_app demo_zlib demo_service) ?s1 (?s1\<lparr>sy_pc := Wait_start\<rparr>)"
    by (intro reaches_main[OF reaches_refl] main_idle) simp_all
  from system_safe[OF demo_env_ok demo_errno_ok demo_ack_timeout_ok _ _ _ _ _ _ this]
  show ?thesis by (simp add: blank_world_fresh)
qed







section \<open>Connecting and disconnecting\<close>

text \<open>
  C6. A connection attempt on a client in order leaves it in order: on success it is connected
  with a valid socket; on any error, nothing but the environment has changed, so it is as
  disconnected as before and no socket of a failed address is kept.
\<close>

theorem connect_ok:
  assumes "env_ok sys app lib" and "client_ok w" and "errno_ok sys"
    and "golioth_connect sys gc (app_on_connect app) host port w = (e, w')"
  shows "client_ok w' \<and> (e = 0 \<longrightarrow> is_connected w' \<and> 0 \<le> cl_sock (w_client w')) \<and>
    (e \<noteq> 0 \<longrightarrow> same_but_env w w')"
proof -
  have "app_ok app" using assms(1) by (simp add: env_ok_def)
  from golioth_connect_ok[OF assms(2,3) app_okD(5)[OF this] assms(4)] show ?thesis by blast
qed

theorem connect_ok_witness:
  "client_ok (snd (golioth_connect demo_sys demo_conf (app_on_connect demo_app) [0x67, 0] 5684 (idle_world demo_env0)))"
  using connect_ok[OF demo_env_ok idle_world_ok(1) demo_errno_ok prod.collapse[symmetric]] by blast

text \<open>
  C7. Disconnecting always comes to an end. It leaves no request, none of their memory and no
  socket behind.
\<close>

theorem disconnect_clean:
  assumes "env_ok sys app lib" and "client_ok w"
  shows "\<exists>e w'. golioth_disconnect sys (run_callback sys app lib conf) w = Some (e, w') \<and> client_ok w' \<and>
    \<not> is_connected w' \<and> reqs_list w' = [] \<and> w_reqs w' = Map.empty \<and> w_bufs w' = Map.empty \<and>
    cl_sock (w_client w') = - 1"
proof -
  obtain e w' where d: "golioth_disconnect sys (lawful_run sys app lib conf) w = Some (e, w')" "client_ok w'"
    "\<not> is_connected w'" "reqs_list w' = []" "cl_sock (w_client w') = - 1"
    by (rule sdk.golioth_disconnect_ok[OF assms(2)])
  then have "world_ok w'" by (simp add: client_ok_def)
  with d heap_empty[of w'] show ?thesis unfolding lawful_run_eq[OF assms(1)] by blast
qed

theorem disconnect_clean_witness:
  "\<exists>e w'. golioth_disconnect demo_sys (run_callback demo_sys demo_app demo_zlib demo_service) (busy_world demo_env0) = Some (e, w') \<and>
     w_reqs w' = Map.empty"
  using disconnect_clean[OF demo_env_ok busy_world_ok] by blast

text \<open>
  C9. On a disconnection the callback of every pending request runs exactly once, in the order the
  requests were submitted, with the error \<^verbatim>\<open>-ESHUTDOWN\<close> and the request's own user data; the
  traversal is not disturbed by the bodies removing and freeing the nodes it walks over.
\<close>

theorem disconnect_tells_each_once:
  assumes "world_ok w"
  shows "\<exists>w'. golioth_coap_reqs_on_disconnect record_call w = Some w' \<and>
    w_env w' = w_env w @ map (\<lambda>r. (req_cb (the (w_reqs w r)),
      error_rsp (req_user_data (the (w_reqs w r))) (- ESHUTDOWN))) (reqs_list w) \<and>
    reqs_list w' = [] \<and> w_reqs w' = Map.empty \<and> w_bufs w' = Map.empty"
  using on_disconnect_calls[OF assms] by (simp add: ending_call_def[abs_def] Let_def)

theorem disconnect_tells_each_once_witness:
  "\<exists>w'. golioth_coap_reqs_on_disconnect record_call (busy_world []) = Some w' \<and>
     w_env w' = [(User_cb (App_cb 0), error_rsp (UD_app 0) (- ESHUTDOWN))]"
proof -
  from disconnect_tells_each_once[OF busy_world_world_ok, of "[]"] show ?thesis by (auto simp: demo_req_def zero_req_def)
qed

section \<open>Requests and responses\<close>

text \<open>
  C10. Submitting a request is all or nothing: on any error the client, its requests and their memory
  are as before; on success there is one more request, at the end of the list, with the caller's
  callback and user data, a buffer of its own, and the full number of retransmissions ahead. It is
  accepted only while connected.
\<close>

theorem request_all_or_nothing:
  assumes "world_ok w" and "coap_lib_ok sys" and "cb = None \<or> ud_ok (settings_ready w) (the cb) ud"
    and "golioth_coap_req_cb sys mthd pathv format data cb ud flags w = (err, w')"
  shows "world_ok w' \<and>
    (err \<noteq> 0 \<longrightarrow> w_client w' = w_client w \<and> w_reqs w' = w_reqs w \<and> w_bufs w' = w_bufs w) \<and>
    (err = 0 \<longrightarrow> is_connected w \<and> reqs_list w' = reqs_list w @ [w_next w] \<and>
       (\<exists>q. w_reqs w' = (w_reqs w)(w_next w \<mapsto> q) \<and> w_bufs w (req_data q) = None \<and>
          dom (w_bufs w') = insert (req_data q) (dom (w_bufs w)) \<and>
          req_cb q = (case cb of Some f \<Rightarrow> f | None \<Rightarrow> User_cb Golioth_req_rsp_default_handler) \<and>
          req_user_data q = ud \<and> pend_timeout (req_pending q) = 0 \<and> pend_retries (req_pending q) = 3 \<and>
          req_is_observe q = (mthd = COAP_METHOD_GET \<and> flag_observe flags)))"
proof -
  note fresh = world_okD(4)[OF assms(1)]
  have w': "world_ok w'" using golioth_coap_req_cb_step[OF assms] cb_stepD(1) by blast
  from golioth_coap_req_cb_spec[OF fresh assms(2,4)] show ?thesis
  proof (elim disjE conjE exE)
    assume "err \<noteq> 0" and "only_env w w'"
    with w' show ?thesis by (simp add: only_envD)
  next
    fix q b e
    assume q: "err = 0" "is_connected w" "w' = scheduled w q b e" "req_data q = Suc (w_next w)" "req_user_data q = ud"
      "req_cb q = (case cb of Some f \<Rightarrow> f | None \<Rightarrow> User_cb Golioth_req_rsp_default_handler)"
      "req_is_observe q = (mthd = COAP_METHOD_GET \<and> flag_observe flags)"
      "pend_timeout (req_pending q) = 0" "pend_retries (req_pending q) = 3"
    have "w_bufs w (Suc (w_next w)) = None" using fresh by (simp add: fresh_ok_def)
    with q w' show ?thesis by (intro conjI impI exI[of _ q]) simp_all
  qed
qed

theorem request_all_or_nothing_witness:
  "world_ok (snd (golioth_coap_req_cb demo_sys COAP_METHOD_GET [[0x2e, 0x64, 0]] 60 [] (Some (User_cb (App_cb 1)))
     UD_null 1 (busy_world demo_env0)))"
  using request_all_or_nothing[OF busy_world_world_ok demo_lib_ok _ prod.collapse[symmetric],
      of "Some (User_cb (App_cb 1))" demo_env0 UD_null COAP_METHOD_GET "[[0x2e, 0x64, 0]]" 60 "[]" 1]
  by simp

text \<open>
  C12. Whatever datagram arrives, the client's invariant holds after it is handled, and the connection
  is as before: malformed packets, unknown tokens, repeated responses, blocks out of order and
  failing callbacks included.
\<close>

theorem receive_safe:
  assumes "env_ok sys app lib" and "client_ok w"
    and "golioth_process_rx sys gc (run_callback sys app lib conf) w = (e, w')"
  shows "client_ok w' \<and> is_connected w' = is_connected w \<and> cl_sock (w_client w') = cl_sock (w_client w)"
proof -
  have "world_ok w" using assms(2) by (simp add: client_ok_def)
  from sdk.golioth_process_rx_ok[OF this, of sys gc sys app lib conf]
  have "rx_step w w'" unfolding lawful_run_eq[OF assms(1)] assms(3) by simp
  with client_ok_rx_step[OF assms(2)] show ?thesis by (simp add: rx_step_def)
qed

theorem receive_safe_witness:
  "client_ok (snd (golioth_process_rx demo_sys demo_conf (run_callback demo_sys demo_app demo_zlib demo_service)
     (busy_world demo_env0)))"
  using receive_safe[OF demo_env_ok busy_world_ok prod.collapse[symmetric]] by blast



text \<open>
  Every callback of the SDK and of a lawful application, run on a valid response, keeps the memory
  in order. It does not disconnect the client, cancels no request, and changes of the pending
  ones neither callback, user data, buffer nor observation state; it may add requests at the end.
\<close>

theorem callbacks_keep_requests:
  assumes "env_ok sys app lib" and "world_ok w" and "rsp_ok w rsp"
    and "ud_ok (settings_ready w) cb (rsp_user_data rsp)"
    and "run_callback sys app lib conf cb rsp w = (e, w')"
  shows "world_ok w' \<and> is_connected w' = is_connected w \<and> (\<exists>new. reqs_list w' = reqs_list w @ new) \<and>
    (\<forall>r q. w_reqs w r = Some q \<longrightarrow> (\<exists>q'. w_reqs w' r = Some q' \<and> same_static q q'))"
  using sdk.run_step[OF assms(2-4), of sys app lib conf] assms(5)
  unfolding lawful_run_eq[OF assms(1)] by (auto simp: cb_step_def)

theorem callbacks_keep_requests_witness:
  "world_ok (snd (run_callback demo_sys demo_app demo_zlib demo_service (User_cb On_rpc) (error_rsp UD_client (- 5))
     (busy_world demo_env0)))"
  using callbacks_keep_requests[OF demo_env_ok busy_world_world_ok _ _ prod.collapse[symmetric],
      where cb = "User_cb On_rpc" and rsp = "error_rsp UD_client (- 5)" and conf = demo_service]
  by simp



section \<open>Payloads from the cloud\<close>

text \<open>
  C20. Decoding never loops: an RPC call, a settings update and a firmware manifest are handled in
  finite time whatever bytes they are made of.
\<close>

theorem payload_handlers_return:
  assumes "zcbor_lib_ok lib"
  shows "on_rpc sys app lib conf rsp w \<noteq> None \<and> on_setting sys app lib conf rsp w \<noteq> None \<and>
    golioth_fw_desired_parse lib payload version uri \<noteq> None \<and> zcbor_any_skip lib st \<noteq> None"
  using on_rpc_returns[OF assms] on_setting_returns[OF assms] fw_desired_parse_returns[OF assms]
    any_skip_terminates[OF assms] by blast

theorem payload_handlers_return_witness:
  "on_setting demo_sys demo_app demo_zlib demo_service (error_rsp UD_client 0) (busy_world demo_env0) \<noteq> None"
  using payload_handlers_return[OF demo_zlib_ok] by blast



end
